(* ===== verification/Prelude.thy ===== *)
theory Prelude
  imports Main "HOL-Library.Word"
begin

text \<open>
  What the other theories share: the machine types of the C sources, the result type of a C
  function, C strings and buffers, the part of the C library the sources rely on
  (\<^verbatim>\<open>snprintf\<close> of a text, decimal printing, \<^verbatim>\<open>atoi\<close>, \<^verbatim>\<open>isspace\<close>,
  \<^verbatim>\<open>strstr\<close>), and the status codes of \<^verbatim>\<open>core/aiot_state_api.h\<close>.
\<close>

named_theorems c_eval \<open>definitions unfolded to evaluate a C function on a concrete input\<close>
named_theorems cstr_intros \<open>facts that a text holds no NUL\<close>

type_synonym byte = "8 word"
type_synonym u8 = "8 word"
type_synonym u16 = "16 word"
type_synonym u32 = "32 word"
type_synonym u64 = "64 word"

section \<open>Results of C functions\<close>

text \<open>
  A C function that returns a status and writes a result through a pointer gives \<open>Ok\<close> of
  the result, \<open>Err\<close> of the negative status, or \<open>Undef\<close> where the C has no
  defined behaviour on that input (a read past an array, an endless loop that overruns its buffer).
\<close>

datatype 'a outcome = Ok 'a | Err int | Undef

fun obind :: "'a outcome \<Rightarrow> ('a \<Rightarrow> 'b outcome) \<Rightarrow> 'b outcome" where
  "obind (Ok x) f = f x"
| "obind (Err e) f = Err e"
| "obind Undef f = Undef"

fun is_ok :: "'a outcome \<Rightarrow> bool" where
  "is_ok (Ok x) = True"
| "is_ok (Err e) = False"
| "is_ok Undef = False"

lemma obind_Ok_iff: "obind r f = Ok y \<longleftrightarrow> (\<exists>x. r = Ok x \<and> f x = Ok y)"
  by (cases r) auto

lemma is_ok_iff: "is_ok r \<longleftrightarrow> (\<exists>x. r = Ok x)"
  by (cases r) auto

section \<open>C strings\<close>

abbreviation NUL :: char where "NUL \<equiv> CHR 0x00"
abbreviation DQUOTE :: char where "DQUOTE \<equiv> CHR 0x22"
abbreviation SQUOTE :: char where "SQUOTE \<equiv> CHR 0x27"
abbreviation BSLASH :: char where "BSLASH \<equiv> CHR 0x5C"
abbreviation LF :: char where "LF \<equiv> CHR 0x0A"
abbreviation CR :: char where "CR \<equiv> CHR 0x0D"
abbreviation TAB :: char where "TAB \<equiv> CHR 0x09"

text \<open>The text a \<open>char\<close> array holds: everything before its first NUL.\<close>

definition cstr :: "char list \<Rightarrow> string" where
  "cstr buf = takeWhile (\<lambda>c. c \<noteq> NUL) buf"

definition no_nul :: "string \<Rightarrow> bool" where
  "no_nul s \<longleftrightarrow> NUL \<notin> set s"

text \<open>An array of \<open>n\<close> bytes initialised with a literal: C fills the rest with zeros.\<close>

definition cbuf :: "nat \<Rightarrow> string \<Rightarrow> char list" where
  "cbuf n s = s @ replicate (n - length s) NUL"

text \<open>
  \<^verbatim>\<open>snprintf(out, n, ...)\<close> of a formatted text stores its first \<open>n - 1\<close>
  characters and returns the length of the whole text.
\<close>

definition snprintf :: "nat \<Rightarrow> string \<Rightarrow> string" where
  "snprintf n s = take (n - 1) s"

lemma cstr_append_nul [simp]: "no_nul s \<Longrightarrow> cstr (s @ NUL # rest) = s"
  by (induction s) (auto simp: cstr_def no_nul_def)

lemma cstr_id [simp]: "no_nul s \<Longrightarrow> cstr s = s"
  by (induction s) (auto simp: cstr_def no_nul_def)

lemma no_nul_cstr [simp, cstr_intros]: "no_nul (cstr buf)"
  by (auto simp: cstr_def no_nul_def dest: set_takeWhileD)

lemma no_nul_Nil [simp, cstr_intros]: "no_nul []"
  by (simp add: no_nul_def)

lemma no_nul_Cons [simp]: "no_nul (c # s) \<longleftrightarrow> c \<noteq> NUL \<and> no_nul s"
  by (auto simp: no_nul_def)

lemma no_nul_append [simp]: "no_nul (s @ t) \<longleftrightarrow> no_nul s \<and> no_nul t"
  by (auto simp: no_nul_def)

lemma no_nul_take [cstr_intros]: "no_nul s \<Longrightarrow> no_nul (take n s)"
  by (auto simp: no_nul_def dest: in_set_takeD)

lemma no_nul_drop [cstr_intros]: "no_nul s \<Longrightarrow> no_nul (drop n s)"
  by (auto simp: no_nul_def dest: in_set_dropD)

lemma no_nul_concat: "(\<And>s. s \<in> set ss \<Longrightarrow> no_nul s) \<Longrightarrow> no_nul (concat ss)"
  by (induction ss) auto

lemma length_snprintf [simp]: "length (snprintf n s) = min (length s) (n - 1)"
  by (simp add: snprintf_def)

lemma snprintf_fits [simp]: "length s < n \<Longrightarrow> snprintf n s = s"
  by (simp add: snprintf_def)

lemma cstr_cbuf [simp]: "no_nul s \<Longrightarrow> cstr (cbuf n s) = s"
  by (cases "n - length s") (auto simp: cbuf_def)

lemma length_cbuf: "length s \<le> n \<Longrightarrow> length (cbuf n s) = n"
  by (simp add: cbuf_def)

section \<open>Bytes\<close>

text \<open>The bytes of a text, as \<^verbatim>\<open>(uint8_t *)\<close> of a \<^verbatim>\<open>char *\<close> reads them.\<close>

definition bytes_of :: "string \<Rightarrow> byte list" where
  "bytes_of s = map of_char s"

definition string_of :: "byte list \<Rightarrow> string" where
  "string_of bs = map (\<lambda>b. char_of (unat b)) bs"

lemma unat_of_char [simp]: "unat (of_char c :: byte) = of_char c"
proof -
  have "(of_char c :: byte) = of_nat (of_char c)" by (simp add: of_nat_of_char)
  moreover have "(of_char c :: nat) < 256" by (rule nat_of_char_less_256)
  ultimately show ?thesis by (simp add: unat_of_nat)
qed

lemma char_of_of_char_byte [simp]: "char_of (unat (of_char c :: byte)) = c"
  by simp

lemma of_char_char_of_byte [simp]: "of_char (char_of (unat b)) = (b :: byte)"
proof -
  have "unat b < 2 ^ LENGTH(8)" by (rule unsigned_less)
  then have "unat (of_char (char_of (unat b)) :: byte) = unat b" by simp
  then show ?thesis by (simp only: word_unat_eq_iff)
qed

lemma length_bytes_of [simp]: "length (bytes_of s) = length s"
  by (simp add: bytes_of_def)

lemma string_of_bytes_of [simp]: "string_of (bytes_of s) = s"
  by (simp add: bytes_of_def string_of_def map_idI)

lemma bytes_of_string_of [simp]: "bytes_of (string_of bs) = bs"
  by (simp add: bytes_of_def string_of_def map_idI)

lemma bytes_of_append [simp]: "bytes_of (s @ t) = bytes_of s @ bytes_of t"
  by (simp add: bytes_of_def)

lemma bytes_of_inj [simp]: "bytes_of s = bytes_of t \<longleftrightarrow> s = t"
  by (metis string_of_bytes_of)

text \<open>\<^verbatim>\<open>memcpy(buf + off, data, len)\<close> inside the array.\<close>

definition memcpy_at :: "'a list \<Rightarrow> nat \<Rightarrow> 'a list \<Rightarrow> 'a list" where
  "memcpy_at buf off data = take off buf @ data @ drop (off + length data) buf"

lemma length_memcpy_at [simp]:
  "off + length data \<le> length buf \<Longrightarrow> length (memcpy_at buf off data) = length buf"
  by (simp add: memcpy_at_def)

lemma take_memcpy_at [simp]:
  "off \<le> length buf \<Longrightarrow> take (off + length data) (memcpy_at buf off data) = take off buf @ data"
  by (simp add: memcpy_at_def)

section \<open>The C library\<close>

definition is_digit :: "char \<Rightarrow> bool" where
  "is_digit c \<longleftrightarrow> 48 \<le> (of_char c :: nat) \<and> (of_char c :: nat) \<le> 57"

definition digit_char :: "nat \<Rightarrow> char" where
  "digit_char d = char_of (48 + d)"

definition digit_val :: "char \<Rightarrow> nat" where
  "digit_val c = of_char c - 48"

text \<open>\<^verbatim>\<open>isspace\<close> in the C locale: space, \<open>\t \n \v \f \r\<close>.\<close>

definition isspace :: "char \<Rightarrow> bool" where
  "isspace c \<longleftrightarrow> c \<in> set [CHR '' '', TAB, LF, CHR 0x0B, CHR 0x0C, CR]"

text \<open>Decimal printing (\<^verbatim>\<open>%u\<close>, \<^verbatim>\<open>%d\<close>, \<^verbatim>\<open>%lld\<close>).\<close>

fun nat_dec :: "nat \<Rightarrow> string" where
  "nat_dec n = (if n < 10 then [digit_char n] else nat_dec (n div 10) @ [digit_char (n mod 10)])"

declare nat_dec.simps [simp del]

definition int_dec :: "int \<Rightarrow> string" where
  "int_dec i = (if i < 0 then CHR ''-'' # nat_dec (nat (- i)) else nat_dec (nat i))"

text \<open>\<^verbatim>\<open>atoi\<close>: skip white space, an optional sign, then the longest run of digits.\<close>

definition dec_value :: "string \<Rightarrow> nat" where
  "dec_value s = foldl (\<lambda>a c. a * 10 + digit_val c) 0 s"

definition atoi :: "string \<Rightarrow> int" where
  "atoi s = (let s' = dropWhile isspace s in
     (case s' of [] \<Rightarrow> 0
      | c # r \<Rightarrow>
          if c = CHR ''-'' then - int (dec_value (takeWhile is_digit r))
          else if c = CHR ''+'' then int (dec_value (takeWhile is_digit r))
          else int (dec_value (takeWhile is_digit s'))))"

lemma digit_char_props:
  assumes "d < 10"
  shows "is_digit (digit_char d)" "digit_val (digit_char d) = d"
  using assms by (simp_all add: is_digit_def digit_char_def digit_val_def)

lemma digit_neq: "is_digit c \<Longrightarrow> c \<noteq> NUL \<and> c \<noteq> DQUOTE \<and> c \<noteq> BSLASH \<and> c \<noteq> CHR ''-'' \<and> c \<noteq> CHR ''+'' \<and> \<not> isspace c"
  by (auto simp: is_digit_def isspace_def)

lemma nat_dec_digits: "c \<in> set (nat_dec n) \<Longrightarrow> is_digit c"
proof (induction n rule: nat_dec.induct)
  case (1 n)
  then show ?case
    by (subst (asm) (2) nat_dec.simps) (auto simp: digit_char_props split: if_splits)
qed

lemma no_nul_nat_dec [simp, cstr_intros]: "no_nul (nat_dec n)"
  using nat_dec_digits digit_neq by (auto simp: no_nul_def)

lemma no_nul_int_dec [simp, cstr_intros]: "no_nul (int_dec i)"
  by (simp add: int_dec_def)

lemma dec_value_snoc [simp]: "dec_value (s @ [c]) = dec_value s * 10 + digit_val c"
  by (simp add: dec_value_def)

lemma dec_value_nat_dec [simp]: "dec_value (nat_dec n) = n"
proof (induction n rule: nat_dec.induct)
  case (1 n)
  then show ?case
    by (cases "n < 10") (simp_all add: nat_dec.simps [of n] digit_char_props dec_value_def)
qed

lemma nat_dec_nonempty [simp]: "nat_dec n \<noteq> []"
  by (subst nat_dec.simps) simp

lemma length_nat_dec_le: "n < 10 ^ k \<Longrightarrow> 0 < k \<Longrightarrow> length (nat_dec n) \<le> k"
proof (induction n arbitrary: k rule: nat_dec.induct)
  case (1 n)
  show ?case
  proof (cases "n < 10")
    case True
    with "1.prems" show ?thesis by (subst nat_dec.simps) simp
  next
    case False
    then obtain k' where k: "k = Suc k'" "0 < k'"
      using "1.prems" by (cases k; cases "k - 1") auto
    with "1.prems" have "n div 10 < 10 ^ k'" by (simp add: div_less_iff_less_mult mult.commute)
    with False k "1.IH" show ?thesis by (subst nat_dec.simps) auto
  qed
qed

lemma takeWhile_digits_nat_dec [simp]: "takeWhile is_digit (nat_dec n) = nat_dec n"
  by (simp add: takeWhile_eq_all_conv nat_dec_digits)

lemma atoi_nat_dec [simp]: "atoi (nat_dec n) = int n"
proof -
  obtain c r where r: "nat_dec n = c # r" by (cases "nat_dec n") auto
  then have "is_digit c" using nat_dec_digits [of c n] by simp
  then have *: "\<not> isspace c" "c \<noteq> CHR ''-''" "c \<noteq> CHR ''+''" using digit_neq by auto
  with r have "dropWhile isspace (nat_dec n) = c # r" by simp
  with * have "atoi (nat_dec n) = int (dec_value (takeWhile is_digit (c # r)))"
    by (simp add: atoi_def Let_def)
  also have "\<dots> = int n" by (simp only: r [symmetric] takeWhile_digits_nat_dec dec_value_nat_dec)
  finally show ?thesis .
qed

text \<open>\<^verbatim>\<open>strncmp(s, p, strlen(p)) == 0\<close>.\<close>

definition has_prefix :: "string \<Rightarrow> string \<Rightarrow> bool" where
  "has_prefix p s \<longleftrightarrow> take (length p) s = p"

lemma has_prefix_append [simp]: "has_prefix p (p @ s)"
  by (simp add: has_prefix_def)

text \<open>\<^verbatim>\<open>strstr\<close>: the suffix of the text that starts at the first occurrence.\<close>

fun strstr :: "string \<Rightarrow> string \<Rightarrow> string option" where
  "strstr [] pat = (if pat = [] then Some [] else None)"
| "strstr (c # s) pat = (if has_prefix pat (c # s) then Some (c # s) else strstr s pat)"

lemma strstr_suffix: "strstr s pat = Some t \<Longrightarrow> (\<exists>pre. s = pre @ t) \<and> has_prefix pat t"
proof (induction s)
  case (Cons c s)
  then show ?case by (auto split: if_splits simp: Cons_eq_append_conv)
qed (auto split: if_splits simp: has_prefix_def)

lemma strstr_length: "strstr s pat = Some t \<Longrightarrow> length t \<le> length s"
  by (auto dest: strstr_suffix)

section \<open>Status codes\<close>

abbreviation (input) STATE_SUCCESS :: int where "STATE_SUCCESS \<equiv> 0"
abbreviation STATE_USER_INPUT_NULL_POINTER :: int where "STATE_USER_INPUT_NULL_POINTER \<equiv> - 0x0101"
abbreviation STATE_USER_INPUT_OUT_RANGE :: int where "STATE_USER_INPUT_OUT_RANGE \<equiv> - 0x0102"
abbreviation STATE_USER_INPUT_UNKNOWN_OPTION :: int where "STATE_USER_INPUT_UNKNOWN_OPTION \<equiv> - 0x0103"
abbreviation STATE_USER_INPUT_MISSING_PRODUCT_KEY :: int where "STATE_USER_INPUT_MISSING_PRODUCT_KEY \<equiv> - 0x0104"
abbreviation STATE_USER_INPUT_MISSING_DEVICE_NAME :: int where "STATE_USER_INPUT_MISSING_DEVICE_NAME \<equiv> - 0x0105"
abbreviation STATE_USER_INPUT_MISSING_DEVICE_SECRET :: int where "STATE_USER_INPUT_MISSING_DEVICE_SECRET \<equiv> - 0x0106"
abbreviation STATE_USER_INPUT_MISSING_HOST :: int where "STATE_USER_INPUT_MISSING_HOST \<equiv> - 0x0108"
abbreviation STATE_USER_INPUT_EXEC_DISABLED :: int where "STATE_USER_INPUT_EXEC_DISABLED \<equiv> - 0x0109"
abbreviation STATE_USER_INPUT_JSON_PARSE_FAILED :: int where "STATE_USER_INPUT_JSON_PARSE_FAILED \<equiv> - 0x010A"
abbreviation STATE_SYS_DEPEND_MALLOC_FAILED :: int where "STATE_SYS_DEPEND_MALLOC_FAILED \<equiv> - 0x0201"
abbreviation STATE_SYS_DEPEND_NWK_INVALID_OPTION :: int where "STATE_SYS_DEPEND_NWK_INVALID_OPTION \<equiv> - 0x0202"
abbreviation STATE_SYS_DEPEND_NWK_EST_FAILED :: int where "STATE_SYS_DEPEND_NWK_EST_FAILED \<equiv> - 0x0203"
abbreviation STATE_SYS_DEPEND_NWK_CLOSED :: int where "STATE_SYS_DEPEND_NWK_CLOSED \<equiv> - 0x0204"
abbreviation STATE_SYS_DEPEND_NWK_READ_LESSDATA :: int where "STATE_SYS_DEPEND_NWK_READ_LESSDATA \<equiv> - 0x0205"
abbreviation STATE_SYS_DEPEND_NWK_WRITE_LESSDATA :: int where "STATE_SYS_DEPEND_NWK_WRITE_LESSDATA \<equiv> - 0x0206"
abbreviation STATE_SYS_DEPEND_NWK_SEND_ERR :: int where "STATE_SYS_DEPEND_NWK_SEND_ERR \<equiv> - 0x0209"
abbreviation STATE_SYS_DEPEND_NWK_RECV_ERR :: int where "STATE_SYS_DEPEND_NWK_RECV_ERR \<equiv> - 0x020A"
abbreviation STATE_MQTT_BASE :: int where "STATE_MQTT_BASE \<equiv> - 0x0300"
abbreviation STATE_MQTT_CONNACK_FMT_ERROR :: int where "STATE_MQTT_CONNACK_FMT_ERROR \<equiv> - 0x0301"
abbreviation STATE_MQTT_CONNACK_RCODE_UNACCEPTABLE_PROTOCOL_VERSION :: int where "STATE_MQTT_CONNACK_RCODE_UNACCEPTABLE_PROTOCOL_VERSION \<equiv> - 0x0302"
abbreviation STATE_MQTT_CONNACK_RCODE_SERVER_UNAVAILABLE :: int where "STATE_MQTT_CONNACK_RCODE_SERVER_UNAVAILABLE \<equiv> - 0x0303"
abbreviation STATE_MQTT_CONNACK_RCODE_BAD_USERNAME_PASSWORD :: int where "STATE_MQTT_CONNACK_RCODE_BAD_USERNAME_PASSWORD \<equiv> - 0x0304"
abbreviation STATE_MQTT_CONNACK_RCODE_NOT_AUTHORIZED :: int where "STATE_MQTT_CONNACK_RCODE_NOT_AUTHORIZED \<equiv> - 0x0305"
abbreviation STATE_MQTT_CONNACK_RCODE_UNKNOWN :: int where "STATE_MQTT_CONNACK_RCODE_UNKNOWN \<equiv> - 0x0306"
abbreviation STATE_MQTT_PUBLIST_PACKET_ID_ROLL :: int where "STATE_MQTT_PUBLIST_PACKET_ID_ROLL \<equiv> - 0x0307"
abbreviation STATE_MQTT_TOPIC_INVALID :: int where "STATE_MQTT_TOPIC_INVALID \<equiv> - 0x0308"
abbreviation STATE_MQTT_CONNECT_SUCCESS :: int where "STATE_MQTT_CONNECT_SUCCESS \<equiv> - 0x030B"
abbreviation STATE_MQTT_MALFORMED_REMAINING_LEN :: int where "STATE_MQTT_MALFORMED_REMAINING_LEN \<equiv> - 0x030C"
abbreviation STATE_MQTT_MALFORMED_REMAINING_BYTES :: int where "STATE_MQTT_MALFORMED_REMAINING_BYTES \<equiv> - 0x030D"
abbreviation STATE_MQTT_PACKET_TYPE_UNKNOWN :: int where "STATE_MQTT_PACKET_TYPE_UNKNOWN \<equiv> - 0x030E"
abbreviation STATE_MQTT_SUBACK_RCODE_FAILURE :: int where "STATE_MQTT_SUBACK_RCODE_FAILURE \<equiv> - 0x030F"
abbreviation STATE_MQTT_SUBACK_RCODE_UNKNOWN :: int where "STATE_MQTT_SUBACK_RCODE_UNKNOWN \<equiv> - 0x0310"
abbreviation STATE_MQTT_TOPIC_COMPARE_FAILED :: int where "STATE_MQTT_TOPIC_COMPARE_FAILED \<equiv> - 0x0311"
abbreviation STATE_MQTT_DEINIT_TIMEOUT :: int where "STATE_MQTT_DEINIT_TIMEOUT \<equiv> - 0x0312"
abbreviation STATE_MQTT_TOPIC_TOO_LONG :: int where "STATE_MQTT_TOPIC_TOO_LONG \<equiv> - 0x031B"
abbreviation STATE_MQTT_PUB_PAYLOAD_TOO_LONG :: int where "STATE_MQTT_PUB_PAYLOAD_TOO_LONG \<equiv> - 0x031C"
abbreviation STATE_MQTT_RECV_INVALID_PINRESP_PACKET :: int where "STATE_MQTT_RECV_INVALID_PINRESP_PACKET \<equiv> - 0x031E"
abbreviation STATE_MQTT_RECV_INVALID_PUBLISH_PACKET :: int where "STATE_MQTT_RECV_INVALID_PUBLISH_PACKET \<equiv> - 0x031F"
abbreviation STATE_MQTT_RECV_INVALID_PUBACK_PACKET :: int where "STATE_MQTT_RECV_INVALID_PUBACK_PACKET \<equiv> - 0x0320"
abbreviation STATE_PORT_BASE :: int where "STATE_PORT_BASE \<equiv> - 0x0F00"
abbreviation STATE_PORT_MALLOC_FAILED :: int where "STATE_PORT_MALLOC_FAILED \<equiv> - 0x0F03"
abbreviation STATE_QOS_CACHE_EXCEEDS_LIMIT :: int where "STATE_QOS_CACHE_EXCEEDS_LIMIT \<equiv> - 0x0F28"

end
