(* ===== verification/Core_String.thy ===== *)
theory Core_String
  imports Prelude
begin

unbundle bit_operations_syntax

text \<open>
  \<^verbatim>\<open>core/utils/core_string.c\<close>: the number/text and byte/hex conversions, the
  \<open>%s\<close> formatter the authentication strings are built with, the JSON value scanner and
  the UTC to calendar date conversion. Buffers the C fills through a pointer are results here.
\<close>

section \<open>Decimal text to number\<close>

text \<open>
  The loop of \<^verbatim>\<open>core_str2uint\<close> and \<^verbatim>\<open>core_str2uint64\<close>, over the
  characters left and the number of characters left to read; the accumulator wraps at its width.
\<close>

fun str2uint_loop :: "string \<Rightarrow> nat \<Rightarrow> 'a::len word \<Rightarrow> 'a word outcome" where
  "str2uint_loop cs 0 temp = Ok temp"
| "str2uint_loop [] (Suc n) temp = Undef"
| "str2uint_loop (c # cs) (Suc n) temp =
     (if \<not> is_digit c then Err STATE_USER_INPUT_OUT_RANGE
      else str2uint_loop cs n (temp * 10 + of_char c - 48))"

definition core_str2uint :: "string \<Rightarrow> u8 \<Rightarrow> u32 outcome" where
  "core_str2uint input input_len = str2uint_loop input (unat input_len) 0"

definition core_str2uint64 :: "string \<Rightarrow> u8 \<Rightarrow> u64 outcome" where
  "core_str2uint64 input input_len = str2uint_loop input (unat input_len) 0"

section \<open>Number to decimal and hexadecimal text\<close>

text \<open>The first \<^verbatim>\<open>do\<close> loop: the digits of a number, least significant first.\<close>

fun digits_rev :: "nat \<Rightarrow> string" where
  "digits_rev n = digit_char (n mod 10) # (if n div 10 > 0 then digits_rev (n div 10) else [])"

declare digits_rev.simps [simp del]

text \<open>
  The second \<^verbatim>\<open>do\<close> loop writes \<open>output[--i] = temp[j++]\<close> from the last position
  down, that is, the digits in reverse.
\<close>

definition core_uint2str :: "u32 \<Rightarrow> string" where
  "core_uint2str input = rev (digits_rev (unat input))"

definition core_uint642str :: "u64 \<Rightarrow> string" where
  "core_uint642str input = rev (digits_rev (unat input))"

text \<open>\<^verbatim>\<open>in\<close> is an \<^verbatim>\<open>int64_t\<close>, so negating \<^verbatim>\<open>INT32_MIN\<close> does not overflow.\<close>

definition core_int2str :: "32 word \<Rightarrow> string" where
  "core_int2str input = (let v = sint input in
     if v < 0 then CHR ''-'' # rev (digits_rev (nat (- v))) else rev (digits_rev (nat v)))"

definition hex_lower :: "nat \<Rightarrow> char" where
  "hex_lower d = (''0123456789abcdef'' ! d)"

definition hex_upper :: "nat \<Rightarrow> char" where
  "hex_upper d = (''0123456789ABCDEF'' ! d)"

fun hex_digits_rev :: "nat \<Rightarrow> string" where
  "hex_digits_rev n = hex_lower (n mod 16) # (if n div 16 > 0 then hex_digits_rev (n div 16) else [])"

declare hex_digits_rev.simps [simp del]

text \<open>\<^verbatim>\<open>input *= -1\<close> is an overflow for \<^verbatim>\<open>INT32_MIN\<close>.\<close>

definition core_int2hexstr :: "32 word \<Rightarrow> string outcome" where
  "core_int2hexstr input = (let v = sint input in
     if v = - (2 ^ 31) then Undef
     else if v < 0 then Ok (rev (hex_digits_rev (nat (- v)) @ ''x0-''))
     else Ok (rev (hex_digits_rev (nat v) @ ''x0'')))"

section \<open>Bytes and hexadecimal text\<close>

fun hex2str_loop :: "(nat \<Rightarrow> char) \<Rightarrow> byte list \<Rightarrow> string" where
  "hex2str_loop encode [] = []"
| "hex2str_loop encode (b # bs) =
     encode (unat (drop_bit 4 b AND 0xF)) # encode (unat (b AND 0xF)) # hex2str_loop encode bs"

definition core_hex2str :: "byte list \<Rightarrow> bool \<Rightarrow> string" where
  "core_hex2str input lowercase = hex2str_loop (if lowercase then hex_lower else hex_upper) input"

text \<open>One hexadecimal digit; \<open>None\<close> where none of the three \<^verbatim>\<open>if\<close> branches is taken.\<close>

definition hex_nibble :: "char \<Rightarrow> byte option" where
  "hex_nibble c = (let v = of_char c :: nat in
     if 48 \<le> v \<and> v \<le> 57 then Some (of_nat (v - 48))
     else if 65 \<le> v \<and> v \<le> 70 then Some (of_nat (v - 65 + 10))
     else if 97 \<le> v \<and> v \<le> 102 then Some (of_nat (v - 97 + 10))
     else None)"

text \<open>
  One round of the loop: the high digit overwrites the output byte, the low digit is ORed in, and
  a character that is no digit leaves the byte as the previous assignment left it.
\<close>

definition str2hex_byte :: "char \<Rightarrow> char \<Rightarrow> byte \<Rightarrow> byte" where
  "str2hex_byte a b old =
     (let hi = (case hex_nibble a of Some n \<Rightarrow> push_bit 4 n | None \<Rightarrow> old)
      in (case hex_nibble b of Some n \<Rightarrow> hi OR n | None \<Rightarrow> hi))"

fun str2hex_loop :: "string \<Rightarrow> byte list \<Rightarrow> byte list outcome" where
  "str2hex_loop (a # b # cs) (old # out) =
     obind (str2hex_loop cs out) (\<lambda>bs. Ok (str2hex_byte a b old # bs))"
| "str2hex_loop [] out = Ok out"
| "str2hex_loop cs out = Undef"

definition core_str2hex :: "string \<Rightarrow> byte list \<Rightarrow> byte list outcome" where
  "core_str2hex input output =
     (if length input mod 2 \<noteq> 0 then Err STATE_USER_INPUT_OUT_RANGE else str2hex_loop input output)"

section \<open>core_strdup and core_sprintf\<close>

text \<open>
  \<open>malloc_ok\<close> says whether the allocation succeeds. The old text of the destination is
  freed first, so a failed allocation leaves the destination \<^verbatim>\<open>NULL\<close>. The result
  is the new destination, whether an old block was freed, and the status.
\<close>

definition core_strdup :: "bool \<Rightarrow> string option \<Rightarrow> string \<Rightarrow> string option \<times> bool \<times> int" where
  "core_strdup malloc_ok dest src =
     (if malloc_ok then (Some src, dest \<noteq> None, STATE_SUCCESS)
      else (None, dest \<noteq> None, STATE_SYS_DEPEND_MALLOC_FAILED))"

text \<open>A \<^verbatim>\<open>NULL\<close> argument prints as the empty text.\<close>

definition arg_text :: "string option \<Rightarrow> string" where
  "arg_text v = (case v of None \<Rightarrow> [] | Some s \<Rightarrow> s)"

fun sprintf_loop :: "string \<Rightarrow> string option list \<Rightarrow> string \<Rightarrow> string outcome" where
  "sprintf_loop [] src buf = Ok buf"
| "sprintf_loop (c # fmt) src buf =
     (if c = CHR ''%'' \<and> fmt \<noteq> [] \<and> hd fmt = CHR ''s''
      then (case src of [] \<Rightarrow> Undef | v # vs \<Rightarrow> sprintf_loop (tl fmt) vs (buf @ arg_text v))
      else sprintf_loop fmt src (buf @ [c]))"

text \<open>
  The result buffer holds \<open>fmt_len - 2 * count\<close> characters and the first \<open>count\<close>
  arguments; a text longer than that overruns it. The loop index is a \<^verbatim>\<open>uint8_t\<close>,
  so a format of 256 characters or more never ends.
\<close>

definition sprintf_buffer_len :: "string \<Rightarrow> string option list \<Rightarrow> nat \<Rightarrow> nat" where
  "sprintf_buffer_len fmt src count =
     length fmt - 2 * count + sum_list (map (length \<circ> arg_text) (take count src))"

definition core_sprintf :: "bool \<Rightarrow> string \<Rightarrow> string option list \<Rightarrow> nat \<Rightarrow> string outcome" where
  "core_sprintf malloc_ok fmt src count =
     (if length fmt < 2 * count then Err STATE_USER_INPUT_OUT_RANGE
      else if length src < count then Undef
      else if \<not> malloc_ok then Err STATE_SYS_DEPEND_MALLOC_FAILED
      else if 256 \<le> length fmt then Undef
      else obind (sprintf_loop fmt src [])
             (\<lambda>buf. if sprintf_buffer_len fmt src count < length buf then Undef else Ok buf))"

section \<open>Scanning a JSON value\<close>

text \<open>
  The inner loops of \<^verbatim>\<open>core_json_value\<close>, from position \<open>idx\<close> of an
  input of \<open>n\<close> characters; \<open>None\<close> where the loop runs off the end. The nesting counter
  is a \<^verbatim>\<open>uint8_t\<close> and wraps.
\<close>

fun scan_until :: "(char \<Rightarrow> bool) \<Rightarrow> string \<Rightarrow> nat \<Rightarrow> nat option" where
  "scan_until p [] idx = None"
| "scan_until p (c # cs) idx = (if p c then Some idx else scan_until p cs (Suc idx))"

fun scan_nested :: "char \<Rightarrow> char \<Rightarrow> string \<Rightarrow> nat \<Rightarrow> u8 \<Rightarrow> nat option" where
  "scan_nested st en [] idx count = None"
| "scan_nested st en (c # cs) idx count =
     (if c = st then scan_nested st en cs (Suc idx) (count + 1)
      else if c = en then (if count - 1 = 0 then Some idx else scan_nested st en cs (Suc idx) (count - 1))
      else scan_nested st en cs (Suc idx) count)"

text \<open>The value that starts at \<open>idx\<close>: its offset and length in the input.\<close>

definition json_value_at :: "string \<Rightarrow> nat \<Rightarrow> (nat \<times> nat) outcome" where
  "json_value_at input idx =
     (let c = input ! idx in
      if c = DQUOTE then
        (case scan_until (\<lambda>x. x = DQUOTE) (drop (Suc idx) input) (Suc idx) of
           Some e \<Rightarrow> Ok (Suc idx, e - Suc idx) | None \<Rightarrow> Err STATE_USER_INPUT_JSON_PARSE_FAILED)
      else if c = CHR ''{'' \<or> c = CHR ''['' then
        (case scan_nested c (if c = CHR ''{'' then CHR ''}'' else CHR '']'') (drop idx input) idx 0 of
           Some e \<Rightarrow> Ok (idx, e - idx + 1) | None \<Rightarrow> Err STATE_USER_INPUT_JSON_PARSE_FAILED)
      else
        (case scan_until (\<lambda>x. x = CHR '','' \<or> x = CHR '']'' \<or> x = CHR ''}'') (drop idx input) idx of
           Some e \<Rightarrow> Ok (idx, e - idx) | None \<Rightarrow> Err STATE_USER_INPUT_JSON_PARSE_FAILED))"

text \<open>
  The outer loop: the key must stand between quotes at \<open>idx\<close>, with a colon after it. Where an
  inner loop runs off the end the outer one ends too, with the same status.
\<close>

function json_value_loop :: "string \<Rightarrow> string \<Rightarrow> nat \<Rightarrow> (nat \<times> nat) outcome" where
  "json_value_loop input key idx =
     (if length input \<le> idx then Err STATE_USER_INPUT_JSON_PARSE_FAILED
      else if length input \<le> idx + length key then Err STATE_USER_INPUT_JSON_PARSE_FAILED
      else if take (length key) (drop idx input) = key
              \<and> 0 < idx \<and> input ! (idx - 1) = DQUOTE \<and> input ! (idx + length key) = DQUOTE
      then (let j = idx + length key in
            if length input \<le> j + 2 \<or> input ! (j + 1) \<noteq> CHR '':''
            then Err STATE_USER_INPUT_JSON_PARSE_FAILED
            else json_value_at input (j + 2))
      else json_value_loop input key (Suc idx))"
  by pat_completeness auto
termination
  by (relation "measure (\<lambda>(input, key, idx). length input - idx)") auto

declare json_value_loop.simps [simp del]

definition core_json_value :: "string \<Rightarrow> string \<Rightarrow> (nat \<times> nat) outcome" where
  "core_json_value input key = json_value_loop input key 0"

section \<open>UTC milliseconds to a calendar date\<close>

record core_date =
  year :: nat
  mon :: nat
  day :: nat
  hour :: nat
  minute :: nat
  sec :: nat
  msec :: nat

definition is_leap_year :: "nat \<Rightarrow> bool" where
  "is_leap_year y \<longleftrightarrow> y mod 400 = 0 \<or> (y mod 100 \<noteq> 0 \<and> y mod 4 = 0)"

definition days_in_year :: "nat \<Rightarrow> nat" where
  "days_in_year y = (if is_leap_year y then 366 else 365)"

text \<open>The macro \<^verbatim>\<open>DAYS_IN_MONTH\<close>, months counted from 0.\<close>

definition days_in_month :: "bool \<Rightarrow> nat \<Rightarrow> nat" where
  "days_in_month lpyr m =
     (if m = 1 then (if lpyr then 29 else 28)
      else if m > 6 then (if odd (m - 1) then 30 else 31)
      else (if odd m then 30 else 31))"

lemma days_in_year_pos [simp]: "0 < days_in_year y"
  by (simp add: days_in_year_def)

lemma days_in_month_pos [simp]: "0 < days_in_month l m"
  by (simp add: days_in_month_def)

text \<open>The two loops; a count of days never drops below 0, so natural numbers do.\<close>

function year_loop :: "nat \<Rightarrow> nat \<Rightarrow> nat \<times> nat" where
  "year_loop day_num y =
     (if days_in_year y \<le> day_num then year_loop (day_num - days_in_year y) (Suc y) else (day_num, y))"
  by pat_completeness auto
termination
  by (relation "measure (\<lambda>(d, y). d)") (auto simp: days_in_year_def)

function month_loop :: "nat \<Rightarrow> bool \<Rightarrow> nat \<Rightarrow> nat \<times> nat" where
  "month_loop day_num l m =
     (if days_in_month l m \<le> day_num then month_loop (day_num - days_in_month l m) l (Suc m)
      else (day_num, m))"
  by pat_completeness auto
termination
  by (relation "measure (\<lambda>(d, l, m). d)") (auto simp: days_in_month_def)

declare year_loop.simps [simp del] month_loop.simps [simp del]

text \<open>
  \<open>zone\<close> is an \<^verbatim>\<open>int8_t\<close>; its product is added to the unsigned seconds, modulo
  \<open>2 ^ 64\<close>, and the quotient and remainder by the seconds of a day are stored in 32 bits.
\<close>

definition core_utc2date :: "u64 \<Rightarrow> 8 word \<Rightarrow> core_date" where
  "core_utc2date utc zone =
     (let utc_zone_s = utc div 1000 + of_int (sint zone * 60 * 60);
          day_sec = unat (ucast (utc_zone_s mod 86400) :: u32);
          day_num = unat (ucast (utc_zone_s div 86400) :: u32);
          (d1, y) = year_loop day_num 1970;
          (d2, m) = month_loop d1 (is_leap_year y) 0
      in \<lparr> year = y, mon = m + 1, day = d2 + 1, hour = day_sec div 3600,
           minute = day_sec mod 3600 div 60, sec = day_sec mod 60, msec = unat (utc mod 1000) \<rparr>)"

section \<open>Properties: decimal and hexadecimal text\<close>

lemma rev_digits_rev: "rev (digits_rev n) = nat_dec n"
proof (induction n rule: digits_rev.induct)
  case (1 n)
  show ?case
  proof (cases "n < 10")
    case True
    then show ?thesis by (subst digits_rev.simps, subst nat_dec.simps) simp
  next
    case False
    then have "0 < n div 10" by (simp add: div_greater_zero_iff)
    with False "1.IH" show ?thesis by (simp add: digits_rev.simps [of n] nat_dec.simps [of n])
  qed
qed

lemma core_uint2str_dec: "core_uint2str w = nat_dec (unat w)"
  by (simp add: core_uint2str_def rev_digits_rev)

lemma core_uint642str_dec: "core_uint642str w = nat_dec (unat w)"
  by (simp add: core_uint642str_def rev_digits_rev)

lemma core_int2str_dec: "core_int2str w = int_dec (sint w)"
  by (simp add: core_int2str_def int_dec_def rev_digits_rev Let_def)

lemma digit_val_word: "is_digit c \<Longrightarrow> (of_char c :: 'a::len word) - 48 = of_nat (digit_val c)"
  by (simp add: is_digit_def digit_val_def of_nat_diff of_nat_of_char)

lemma str2uint_step:
  assumes "is_digit c"
  shows "t * 10 + of_char c - 48 = (t * 10 + of_nat (digit_val c) :: 'a::len word)"
  by (simp only: add_diff_eq [symmetric] digit_val_word [OF assms])

lemma str2uint_loop_digits:
  assumes "\<And>c. c \<in> set s \<Longrightarrow> is_digit c"
  shows "str2uint_loop s (length s) t = Ok (foldl (\<lambda>a c. a * 10 + of_nat (digit_val c)) t s)"
  using assms
proof (induction s arbitrary: t)
  case (Cons c s)
  then show ?case by (simp del: diff_diff_eq add: str2uint_step)
qed simp

lemma of_nat_foldl_digits:
  "of_nat (foldl (\<lambda>a c. a * 10 + digit_val c) n s)
   = foldl (\<lambda>a c. a * 10 + of_nat (digit_val c)) (of_nat n :: 'a::len word) s"
  by (induction s arbitrary: n) simp_all

lemma str2uint_loop_nat_dec:
  "str2uint_loop (nat_dec n) (length (nat_dec n)) 0 = Ok (of_nat n :: 'a::len word)"
proof -
  have "str2uint_loop (nat_dec n) (length (nat_dec n)) (0 :: 'a word)
        = Ok (of_nat (dec_value (nat_dec n)))"
    unfolding dec_value_def by (subst str2uint_loop_digits) (auto simp: nat_dec_digits of_nat_foldl_digits)
  then show ?thesis by simp
qed

lemma length_core_uint2str: "length (core_uint2str w) \<le> 10"
proof -
  have "unat w < 2 ^ LENGTH(32)" by (rule unsigned_less)
  then show ?thesis unfolding core_uint2str_dec by (intro length_nat_dec_le) auto
qed

lemma length_core_uint642str: "length (core_uint642str w) \<le> 20"
proof -
  have "unat w < 2 ^ LENGTH(64)" by (rule unsigned_less)
  then show ?thesis unfolding core_uint642str_dec by (intro length_nat_dec_le) auto
qed

lemma sint32_bounds: "- (2 ^ 31) \<le> sint (w :: 32 word)" "sint (w :: 32 word) < 2 ^ 31"
  using sint_ge [of w] sint_lt [of w] by simp_all

lemma length_core_int2str: "length (core_int2str w) \<le> 11"
proof -
  have "length (nat_dec (nat (- sint w))) \<le> 10" "length (nat_dec (nat (sint w))) \<le> 10"
    using sint32_bounds [of w] by (auto intro!: length_nat_dec_le)
  then show ?thesis unfolding core_int2str_dec int_dec_def by simp
qed

lemma length_hex_digits_rev: "n < 16 ^ k \<Longrightarrow> 0 < k \<Longrightarrow> length (hex_digits_rev n) \<le> k"
proof (induction n arbitrary: k rule: hex_digits_rev.induct)
  case (1 n)
  show ?case
  proof (cases "n div 16 > 0")
    case False
    with "1.prems" show ?thesis by (subst hex_digits_rev.simps) simp
  next
    case True
    then obtain k' where k: "k = Suc k'" "0 < k'"
      using "1.prems" by (cases k; cases "k - 1") auto
    with "1.prems" have "n div 16 < 16 ^ k'" by (simp add: div_less_iff_less_mult mult.commute)
    with True k "1.IH" show ?thesis by (subst hex_digits_rev.simps) auto
  qed
qed

lemma length_core_int2hexstr: "core_int2hexstr w = Ok s \<Longrightarrow> length s \<le> 11"
proof -
  assume s: "core_int2hexstr w = Ok s"
  have "length (hex_digits_rev (nat \<bar>sint w\<bar>)) \<le> 8"
    using sint32_bounds [of w] by (intro length_hex_digits_rev) auto
  with s show ?thesis unfolding core_int2hexstr_def by (auto simp: Let_def split: if_splits)
qed

lemma nibble_cases:
  assumes "n < (16 :: nat)"
  shows "hex_nibble (hex_lower n) = Some (of_nat n)" "hex_nibble (hex_upper n) = Some (of_nat n)"
proof -
  have "\<forall>n \<in> set [0..<16]. hex_nibble (hex_lower n) = Some (of_nat n)"
    by (simp add: upt_rec hex_nibble_def hex_lower_def)
  with assms show "hex_nibble (hex_lower n) = Some (of_nat n)" by simp
  have "\<forall>n \<in> set [0..<16]. hex_nibble (hex_upper n) = Some (of_nat n)"
    by (simp add: upt_rec hex_nibble_def hex_upper_def)
  with assms show "hex_nibble (hex_upper n) = Some (of_nat n)" by simp
qed

lemma byte_from_nibbles: "push_bit 4 (drop_bit 4 b AND 0xF) OR (b AND 0xF) = (b :: byte)"
proof -
  have m: "(0xF :: byte) = mask 4" by (simp add: mask_eq_exp_minus_1)
  show ?thesis unfolding m by (rule bit_word_eqI) (auto simp: bit_simps)
qed

lemma length_core_hex2str: "length (core_hex2str bs l) = 2 * length bs"
proof -
  have "length (hex2str_loop f bs) = 2 * length bs" for f by (induction bs) simp_all
  then show ?thesis by (simp add: core_hex2str_def)
qed

lemma str2hex_hex2str_byte:
  assumes "f = hex_lower \<or> f = hex_upper"
  shows "str2hex_byte (f (unat (drop_bit 4 b AND 0xF))) (f (unat (b AND 0xF))) old = (b :: byte)"
proof -
  have "unat (x AND 0xF) < 16" for x :: byte
    using word_and_le1 [of x "0xF"] by (simp add: word_le_nat_alt)
  then have h: "hex_nibble (f (unat (x AND 0xF))) = Some (x AND 0xF)" for x :: byte
    using assms nibble_cases by auto
  show ?thesis unfolding str2hex_byte_def h by (simp only: option.case Let_def byte_from_nibbles)
qed

lemma str2hex_loop_hex2str:
  assumes "f = hex_lower \<or> f = hex_upper"
  shows "length bs \<le> length out \<Longrightarrow> str2hex_loop (hex2str_loop f bs) out = Ok (bs @ drop (length bs) out)"
proof (induction bs arbitrary: out)
  case (Cons b bs)
  then show ?case by (cases out) (simp_all add: str2hex_hex2str_byte [OF assms])
qed simp

section \<open>Properties: core_sprintf\<close>

lemma sprintf_loop_literal:
  "CHR ''%'' \<notin> set l \<Longrightarrow> sprintf_loop (l @ fmt) src buf = sprintf_loop fmt src (buf @ l)"
  by (induction l arbitrary: buf) auto

lemma sprintf_loop_template:
  assumes "\<And>l a. (l, a) \<in> set ps \<Longrightarrow> CHR ''%'' \<notin> set l" "CHR ''%'' \<notin> set tail"
  shows "sprintf_loop (concat (map (\<lambda>(l, a). l @ ''%s'') ps) @ tail) (map snd ps) buf
         = Ok (buf @ concat (map (\<lambda>(l, a). l @ arg_text a) ps) @ tail)"
  using assms
proof (induction ps arbitrary: buf)
  case Nil
  then show ?case using sprintf_loop_literal [of tail "[]"] by simp
next
  case (Cons p ps)
  obtain l a where p: "p = (l, a)" by (cases p)
  with Cons.prems have "CHR ''%'' \<notin> set l" by auto
  moreover have "sprintf_loop (concat (map (\<lambda>(l, a). l @ ''%s'') ps) @ tail) (map snd ps) b
      = Ok (b @ concat (map (\<lambda>(l, a). l @ arg_text a) ps) @ tail)" for b
    by (rule Cons.IH) (use Cons.prems in auto)
  ultimately show ?case using p by (simp add: sprintf_loop_literal)
qed

lemma core_sprintf_exact:
  fixes ps :: "(string \<times> string option) list" and tail :: string
  defines "fmt \<equiv> concat (map (\<lambda>(l, a). l @ ''%s'') ps) @ tail"
    and "res \<equiv> concat (map (\<lambda>(l, a). l @ arg_text a) ps) @ tail"
  assumes "\<forall>(l, a) \<in> set ps. CHR ''%'' \<notin> set l" "CHR ''%'' \<notin> set tail" "length fmt < 256"
  shows "core_sprintf True fmt (map snd ps) (length ps) = Ok res
         \<and> sprintf_buffer_len fmt (map snd ps) (length ps) = length res"
proof -
  have loop: "sprintf_loop fmt (map snd ps) [] = Ok res"
    unfolding fmt_def res_def using assms(3,4) sprintf_loop_template [of ps tail "[]"] by auto
  have len: "length fmt = sum_list (map (length \<circ> fst) ps) + 2 * length ps + length tail"
    unfolding fmt_def by (induction ps) auto
  have len': "length res = sum_list (map (length \<circ> fst) ps)
      + sum_list (map (length \<circ> arg_text \<circ> snd) ps) + length tail"
    unfolding res_def by (induction ps) auto
  show ?thesis
    using loop len len' assms(5) by (simp add: core_sprintf_def sprintf_buffer_len_def o_assoc)
qed

section \<open>Properties: core_json_value\<close>

lemma scan_until_bounds:
  "scan_until p cs idx = Some e \<Longrightarrow> idx \<le> e \<and> e < idx + length cs"
  by (induction p cs idx rule: scan_until.induct) (auto split: if_splits)

lemma scan_nested_bounds:
  "scan_nested st en cs idx n = Some e \<Longrightarrow> idx \<le> e \<and> e < idx + length cs"
  by (induction st en cs idx n rule: scan_nested.induct) (auto split: if_splits)

lemma json_value_at_bounds:
  assumes "json_value_at input idx = Ok (off, len)" "idx < length input"
  shows "(off = idx \<or> off = Suc idx) \<and> off + len \<le> length input"
  using assms unfolding json_value_at_def Let_def
  by (auto split: if_splits option.splits dest!: scan_until_bounds scan_nested_bounds)

lemma json_value_loop_found:
  assumes "json_value_loop input key idx = Ok (off, len)"
  shows "\<exists>i. idx \<le> i \<and> 0 < i \<and> input ! (i - 1) = DQUOTE \<and> take (length key) (drop i input) = key
           \<and> input ! (i + length key) = DQUOTE \<and> input ! (i + length key + 1) = CHR '':''
           \<and> (off = i + length key + 2 \<or> off = i + length key + 3) \<and> off + len \<le> length input"
  using assms
proof (induction input key idx rule: json_value_loop.induct)
  case (1 input key idx)
  let ?hit = "take (length key) (drop idx input) = key \<and> 0 < idx \<and> input ! (idx - 1) = DQUOTE
      \<and> input ! (idx + length key) = DQUOTE"
  from "1.prems" have in_range: "\<not> length input \<le> idx" "\<not> length input \<le> idx + length key"
    by (subst (asm) json_value_loop.simps, simp split: if_splits)+
  show ?case
  proof (cases ?hit)
    case True
    then have step: "json_value_loop input key idx =
        (if length input \<le> idx + length key + 2 \<or> input ! (idx + length key + 1) \<noteq> CHR '':''
         then Err STATE_USER_INPUT_JSON_PARSE_FAILED else json_value_at input (idx + length key + 2))"
      using in_range by (subst json_value_loop.simps) (simp add: Let_def)
    with "1.prems" have "json_value_at input (idx + length key + 2) = Ok (off, len)"
      "idx + length key + 2 < length input" "input ! (idx + length key + 1) = CHR '':''"
      by (auto split: if_splits)
    with True json_value_at_bounds [OF this(1,2)] show ?thesis by (intro exI [of _ idx]) auto
  next
    case False
    then have "json_value_loop input key idx = json_value_loop input key (Suc idx)"
      using in_range by (subst json_value_loop.simps) auto
    with "1.IH" [OF in_range False] "1.prems" show ?thesis
      by (metis Suc_leD)
  qed
qed

section \<open>Properties: core_utc2date\<close>

lemma year_loop_sum:
  assumes "year_loop d y = (d', y')"
  shows "y \<le> y' \<and> d = sum days_in_year {y..<y'} + d' \<and> d' < days_in_year y'"
  using assms
proof (induction d y rule: year_loop.induct)
  case (1 d y)
  show ?case
  proof (cases "days_in_year y \<le> d")
    case True
    with "1.prems" have "year_loop (d - days_in_year y) (Suc y) = (d', y')"
      by (subst (asm) year_loop.simps) simp
    with "1.IH" [OF True] True show ?thesis
      by (auto simp: sum.atLeast_Suc_lessThan [of y y'] )
  next
    case False
    with "1.prems" show ?thesis by (subst (asm) year_loop.simps) auto
  qed
qed

lemma month_loop_sum:
  assumes "month_loop d l m = (d', m')"
  shows "m \<le> m' \<and> d = sum (days_in_month l) {m..<m'} + d' \<and> d' < days_in_month l m'"
  using assms
proof (induction d l m rule: month_loop.induct)
  case (1 d l m)
  show ?case
  proof (cases "days_in_month l m \<le> d")
    case True
    with "1.prems" have "month_loop (d - days_in_month l m) l (Suc m) = (d', m')"
      by (subst (asm) month_loop.simps) simp
    with "1.IH" [OF True] True show ?thesis
      by (auto simp: sum.atLeast_Suc_lessThan [of m m'])
  next
    case False
    with "1.prems" show ?thesis by (subst (asm) month_loop.simps) auto
  qed
qed

lemma year_days: "sum (days_in_month (is_leap_year y)) {0..<12} = days_in_year y"
proof -
  have "sum f {0..<12} = f 0 + f 1 + f 2 + f 3 + f 4 + f 5 + f 6 + f 7 + f 8 + f 9 + f 10 + f 11"
    for f :: "nat \<Rightarrow> nat" by (simp add: eval_nat_numeral)
  then show ?thesis by (simp add: days_in_year_def days_in_month_def)
qed

lemma month_loop_within_year:
  assumes "month_loop d (is_leap_year y) 0 = (d', m')" "d < days_in_year y"
  shows "m' < 12"
proof (rule ccontr)
  assume "\<not> m' < 12"
  then have "sum (days_in_month (is_leap_year y)) {0..<12}
      \<le> sum (days_in_month (is_leap_year y)) {0..<m'}"
    by (intro sum_mono2) auto
  with month_loop_sum [OF assms(1)] assms(2) year_days [of y] show False by simp
qed

text \<open>The day number since the epoch that a date names, and its seconds since the epoch.\<close>

definition date_day_num :: "core_date \<Rightarrow> nat" where
  "date_day_num dt = sum days_in_year {1970..<year dt}
     + sum (days_in_month (is_leap_year (year dt))) {0..<mon dt - 1} + (day dt - 1)"

definition date_seconds :: "core_date \<Rightarrow> nat" where
  "date_seconds dt = date_day_num dt * 86400 + hour dt * 3600 + minute dt * 60 + sec dt"

definition valid_date :: "core_date \<Rightarrow> bool" where
  "valid_date dt \<longleftrightarrow> 1970 \<le> year dt \<and> 1 \<le> mon dt \<and> mon dt \<le> 12 \<and> 1 \<le> day dt
     \<and> day dt \<le> days_in_month (is_leap_year (year dt)) (mon dt - 1)
     \<and> hour dt < 24 \<and> minute dt < 60 \<and> sec dt < 60 \<and> msec dt < 1000"

lemma unat_div_mod: "unat (w div v) = unat w div unat v" "unat (w mod v) = unat w mod unat v"
  for w v :: "'a::len word"
  by (simp_all add: unat_div_distrib unat_mod_distrib)

lemma zone_seconds:
  assumes "0 \<le> int (unat utc) div 1000 + sint zone * 3600"
    "int (unat utc) div 1000 + sint zone * 3600 < 2 ^ 64"
  shows "int (unat (utc div 1000 + of_int (sint zone * 60 * 60) :: u64))
         = int (unat utc) div 1000 + sint zone * 3600"
proof -
  have "uint utc div 1000 < 2 ^ 64" using uint_lt2p [of utc] by (simp add: div_less_iff_less_mult)
  moreover have "0 \<le> uint utc div 1000" by (simp add: pos_imp_zdiv_nonneg_iff)
  ultimately have "(utc div 1000 :: u64) = of_int (int (unat utc) div 1000)"
    by (simp add: word_uint_eq_iff uint_div_distrib uint_word_of_int take_bit_eq_mod)
  then have "utc div 1000 + of_int (sint zone * 60 * 60)
      = (of_int (int (unat utc) div 1000 + sint zone * 3600) :: u64)" by simp
  then have "uint (utc div 1000 + of_int (sint zone * 60 * 60) :: u64)
      = (int (unat utc) div 1000 + sint zone * 3600) mod 2 ^ 64"
    by (simp only: uint_word_of_int) (simp add: take_bit_eq_mod)
  with assms show ?thesis by simp
qed

lemma core_utc2date_fields:
  fixes utc :: u64 and zone :: "8 word"
  defines "s \<equiv> utc div 1000 + of_int (sint zone * 60 * 60)"
  assumes "unat s div 86400 < 2 ^ 32"
  shows "valid_date (core_utc2date utc zone)" "date_seconds (core_utc2date utc zone) = unat s"
proof -
  have day_sec: "unat (ucast (s mod 86400) :: u32) = unat s mod 86400"
    by (simp add: unsigned_ucast_eq unat_div_mod take_bit_nat_eq_self_iff)
  have day_num: "unat (ucast (s div 86400) :: u32) = unat s div 86400"
    using assms(2) by (simp add: unsigned_ucast_eq unat_div_mod take_bit_nat_eq_self_iff)
  obtain d1 y where y: "year_loop (unat s div 86400) 1970 = (d1, y)" by (cases "year_loop (unat s div 86400) 1970")
  note Y = year_loop_sum [OF y]
  obtain d2 m where m: "month_loop d1 (is_leap_year y) 0 = (d2, m)" by (cases "month_loop d1 (is_leap_year y) 0")
  note M = month_loop_sum [OF m] month_loop_within_year [OF m]
  have eq: "core_utc2date utc zone = \<lparr> year = y, mon = m + 1, day = d2 + 1,
      hour = unat s mod 86400 div 3600, minute = unat s mod 86400 mod 3600 div 60,
      sec = unat s mod 86400 mod 60, msec = unat utc mod 1000 \<rparr>"
    unfolding core_utc2date_def Let_def s_def [symmetric] day_sec day_num y prod.case m
    by (simp add: unat_div_mod)
  have clock: "t div 3600 * 3600 + t mod 3600 div 60 * 60 + t mod 60 = t" for t :: nat
  proof -
    have "t mod 60 = t mod 3600 mod 60" by (simp add: mod_mod_cancel)
    then show ?thesis
      using div_mult_mod_eq [of "t mod 3600" 60] div_mult_mod_eq [of t 3600] by linarith
  qed
  show "valid_date (core_utc2date utc zone)"
    unfolding eq valid_date_def using Y M by (auto simp: less_mult_imp_div_less div_less_iff_less_mult)
  show "date_seconds (core_utc2date utc zone) = unat s"
  proof -
    have "sum days_in_year {1970..<y} + sum (days_in_month (is_leap_year y)) {0..<m} + d2
        = unat s div 86400" using Y M by simp
    moreover have "unat s div 86400 * 86400 + unat s mod 86400 div 3600 * 3600
        + unat s mod 86400 mod 3600 div 60 * 60 + unat s mod 86400 mod 60 = unat s"
      using clock [of "unat s mod 86400"] div_mult_mod_eq [of "unat s" 86400] by linarith
    ultimately show ?thesis unfolding eq date_seconds_def date_day_num_def by simp
  qed
qed

section \<open>The properties of this component\<close>

text \<open>
  Printing a 32-bit (64-bit) number in decimal and reading it back gives the number; the
  text has at most 10 (20) characters, the size of the scratch buffers, and no leading sign.
\<close>

theorem uint2str_roundtrip:
  "core_str2uint (core_uint2str w) (of_nat (length (core_uint2str w))) = Ok w
   \<and> core_str2uint64 (core_uint642str v) (of_nat (length (core_uint642str v))) = Ok v
   \<and> length (core_uint2str w) \<le> 10 \<and> length (core_uint642str v) \<le> 20"
proof -
  have "length (nat_dec (unat w)) \<le> 10" "length (nat_dec (unat v)) \<le> 20"
    using length_core_uint2str [of w] length_core_uint642str [of v]
    by (simp_all add: core_uint2str_dec core_uint642str_dec)
  then show ?thesis
    by (simp add: core_str2uint_def core_str2uint64_def core_uint2str_dec core_uint642str_dec
        unat_of_nat str2uint_loop_nat_dec)
qed

text \<open>
  Decoding the hexadecimal text of a byte string, in either case, gives the bytes back, in the
  first bytes of the output buffer, whatever the buffer held before.
\<close>

theorem hex_roundtrip:
  assumes "length bs \<le> length out"
  shows "core_str2hex (core_hex2str bs lower) out = Ok (bs @ drop (length bs) out)"
  using assms str2hex_loop_hex2str [of "if lower then hex_lower else hex_upper" bs out]
    length_core_hex2str [of bs lower]
  by (simp add: core_str2hex_def core_hex2str_def)

lemma hex_roundtrip_witness:
  "core_str2hex (core_hex2str [0x5A, 0x0F, 0xFF] True) [1, 1, 1, 7] = Ok [0x5A, 0x0F, 0xFF, 7]"
  using hex_roundtrip [of "[0x5A, 0x0F, 0xFF]" "[1, 1, 1, 7]" True] by simp

text \<open>
  A format of literal pieces and \<open>%s\<close> places, shorter than 256 characters, is filled
  with the arguments in order (a \<^verbatim>\<open>NULL\<close> argument gives the empty text), and the result
  takes exactly the buffer that was allocated: nothing overruns it.
\<close>

theorem core_sprintf_template:
  fixes ps :: "(string \<times> string option) list" and tail :: string
  defines "fmt \<equiv> concat (map (\<lambda>(l, a). l @ ''%s'') ps) @ tail"
    and "res \<equiv> concat (map (\<lambda>(l, a). l @ arg_text a) ps) @ tail"
  assumes "\<forall>(l, a) \<in> set ps. CHR ''%'' \<notin> set l" "CHR ''%'' \<notin> set tail" "length fmt < 256"
  shows "core_sprintf True fmt (map snd ps) (length ps) = Ok res
         \<and> sprintf_buffer_len fmt (map snd ps) (length ps) = length res"
  unfolding fmt_def res_def using assms core_sprintf_exact [of ps tail] by simp

lemma core_sprintf_template_witness:
  "core_sprintf True ''a%sb%sc'' [Some ''12'', None] 2 = Ok ''a12bc''"
  using core_sprintf_template [of "[(''a'', Some ''12''), (''b'', None)]" "''c''"]
  by (simp add: arg_text_def numeral_2_eq_2)

text \<open>
  Where \<^verbatim>\<open>core_json_value\<close> succeeds, the value it points to lies inside the input
  and stands right after the quoted key and a colon (after the opening quote for a text value).
\<close>

theorem core_json_value_slice:
  assumes "core_json_value input key = Ok (off, len)"
  shows "off + len \<le> length input
    \<and> (\<exists>i. 0 < i \<and> input ! (i - 1) = DQUOTE \<and> take (length key) (drop i input) = key
         \<and> input ! (i + length key) = DQUOTE \<and> input ! (i + length key + 1) = CHR '':''
         \<and> (off = i + length key + 2 \<or> off = i + length key + 3))"
  using json_value_loop_found [OF assms [unfolded core_json_value_def]] by blast

lemma core_json_value_slice_witness:
  "core_json_value (CHR ''{'' # DQUOTE # ''k'' @ DQUOTE # '':12}'') ''k'' = Ok (5, 2)
   \<and> 5 + 2 \<le> length (CHR ''{'' # DQUOTE # ''k'' @ DQUOTE # '':12}'')"
proof -
  have "core_json_value (CHR ''{'' # DQUOTE # ''k'' @ DQUOTE # '':12}'') ''k'' = Ok (5, 2)"
    by code_simp
  then show ?thesis using core_json_value_slice by blast
qed

text \<open>
  C19. The calendar date of a UTC time and a zone is a date of the Gregorian calendar, and it names
  exactly the local second: days, hours, minutes and seconds sum up to \<open>utc / 1000 + zone\<close>
  hours. The bound on the input says that the number of days fits its 32-bit variable.
\<close>

theorem core_utc2date_correct:
  assumes "0 \<le> int (unat utc) div 1000 + sint zone * 3600"
    and "int (unat utc) div 1000 + sint zone * 3600 < 86400 * 2 ^ 32"
  shows "valid_date (core_utc2date utc zone)
    \<and> int (date_seconds (core_utc2date utc zone)) = int (unat utc) div 1000 + sint zone * 3600
    \<and> msec (core_utc2date utc zone) = unat utc mod 1000"
proof -
  let ?s = "utc div 1000 + of_int (sint zone * 60 * 60) :: u64"
  have s: "int (unat ?s) = int (unat utc) div 1000 + sint zone * 3600"
    using assms by (intro zone_seconds) auto
  then have "int (unat ?s) < int (86400 * 2 ^ 32)" using assms(2) by simp
  then have "unat ?s < 86400 * 2 ^ 32" by (simp only: of_nat_less_iff)
  then have "unat ?s div 86400 < 2 ^ 32" by (simp add: div_less_iff_less_mult)
  from core_utc2date_fields [OF this] s show ?thesis
    by (simp add: core_utc2date_def Let_def unat_div_mod split: prod.splits)
qed

lemma core_utc2date_correct_witness:
  "valid_date (core_utc2date 1709251199123 8)
   \<and> core_utc2date 1709251199123 8
     = \<lparr> year = 2024, mon = 3, day = 1, hour = 7, minute = 59, sec = 59, msec = 123 \<rparr>"
proof -
  have "valid_date (core_utc2date 1709251199123 8)"
    using core_utc2date_correct [of 1709251199123 8] by simp
  moreover have "core_utc2date 1709251199123 8
     = \<lparr> year = 2024, mon = 3, day = 1, hour = 7, minute = 59, sec = 59, msec = 123 \<rparr>"
    by (simp add: core_utc2date_def year_loop.simps month_loop.simps days_in_year_def is_leap_year_def
        days_in_month_def)
  ultimately show ?thesis by blast
qed

end
