(* ===== verification/Core_Sha256.thy ===== *)
theory Core_Sha256
  imports Prelude
begin

unbundle bit_operations_syntax

text \<open>
  \<^verbatim>\<open>core/utils/core_sha256.c\<close>: the streaming SHA-256 context, its block
  transformation in the \<^verbatim>\<open>MINI_SHA256_SMALLER\<close> variant the file selects, and HMAC.
  The second half states FIPS 180-4 and RFC 2104 on their own terms and shows that the context
  computes them, however the message is cut into calls of \<^verbatim>\<open>core_sha256_update\<close>.
\<close>

section \<open>Context and macros\<close>

record core_sha256_context =
  total0 :: u32
  total1 :: u32
  sha_state :: "u32 list"
  sha_buffer :: "byte list"
  is224 :: byte

definition get_uint32_be :: "byte list \<Rightarrow> nat \<Rightarrow> u32" where
  "get_uint32_be b i = push_bit 24 (ucast (b ! i)) OR push_bit 16 (ucast (b ! (i + 1)))
     OR push_bit 8 (ucast (b ! (i + 2))) OR ucast (b ! (i + 3))"

definition put_uint32_be :: "u32 \<Rightarrow> byte list" where
  "put_uint32_be n = [ucast (drop_bit 24 n), ucast (drop_bit 16 n), ucast (drop_bit 8 n), ucast n]"

definition core_sha256_init :: core_sha256_context where
  "core_sha256_init = \<lparr> total0 = 0, total1 = 0, sha_state = replicate 8 0,
     sha_buffer = replicate 64 0, is224 = 0 \<rparr>"

definition core_sha256_free :: "core_sha256_context option \<Rightarrow> core_sha256_context option" where
  "core_sha256_free ctx = (case ctx of None \<Rightarrow> None | Some c \<Rightarrow> Some core_sha256_init)"

definition core_sha256_starts :: "core_sha256_context \<Rightarrow> core_sha256_context" where
  "core_sha256_starts ctx = ctx \<lparr> total0 := 0, total1 := 0,
     sha_state := [0x6A09E667, 0xBB67AE85, 0x3C6EF372, 0xA54FF53A,
                   0x510E527F, 0x9B05688C, 0x1F83D9AB, 0x5BE0CD19], is224 := 0 \<rparr>"

definition K :: "u32 list" where
  "K =
    [0x428A2F98, 0x71374491, 0xB5C0FBCF, 0xE9B5DBA5,
     0x3956C25B, 0x59F111F1, 0x923F82A4, 0xAB1C5ED5,
     0xD807AA98, 0x12835B01, 0x243185BE, 0x550C7DC3,
     0x72BE5D74, 0x80DEB1FE, 0x9BDC06A7, 0xC19BF174,
     0xE49B69C1, 0xEFBE4786, 0x0FC19DC6, 0x240CA1CC,
     0x2DE92C6F, 0x4A7484AA, 0x5CB0A9DC, 0x76F988DA,
     0x983E5152, 0xA831C66D, 0xB00327C8, 0xBF597FC7,
     0xC6E00BF3, 0xD5A79147, 0x06CA6351, 0x14292967,
     0x27B70A85, 0x2E1B2138, 0x4D2C6DFC, 0x53380D13,
     0x650A7354, 0x766A0ABB, 0x81C2C92E, 0x92722C85,
     0xA2BFE8A1, 0xA81A664B, 0xC24B8B70, 0xC76C51A3,
     0xD192E819, 0xD6990624, 0xF40E3585, 0x106AA070,
     0x19A4C116, 0x1E376C08, 0x2748774C, 0x34B0BCB5,
     0x391C0CB3, 0x4ED8AA4A, 0x5B9CCA4F, 0x682E6FF3,
     0x748F82EE, 0x78A5636F, 0x84C87814, 0x8CC70208,
     0x90BEFFFA, 0xA4506CEB, 0xBEF9A3F7, 0xC67178F2]"

definition SHR :: "u32 \<Rightarrow> nat \<Rightarrow> u32" where
  "SHR x n = drop_bit n (x AND 0xFFFFFFFF)"

definition ROTR :: "u32 \<Rightarrow> nat \<Rightarrow> u32" where
  "ROTR x n = SHR x n OR push_bit (32 - n) x"

definition S0 :: "u32 \<Rightarrow> u32" where "S0 x = ROTR x 7 XOR ROTR x 18 XOR SHR x 3"
definition S1 :: "u32 \<Rightarrow> u32" where "S1 x = ROTR x 17 XOR ROTR x 19 XOR SHR x 10"
definition S2 :: "u32 \<Rightarrow> u32" where "S2 x = ROTR x 2 XOR ROTR x 13 XOR ROTR x 22"
definition S3 :: "u32 \<Rightarrow> u32" where "S3 x = ROTR x 6 XOR ROTR x 11 XOR ROTR x 25"

definition F0 :: "u32 \<Rightarrow> u32 \<Rightarrow> u32 \<Rightarrow> u32" where
  "F0 x y z = (x AND y) OR (z AND (x OR y))"

definition F1 :: "u32 \<Rightarrow> u32 \<Rightarrow> u32 \<Rightarrow> u32" where
  "F1 x y z = z XOR (x AND (y XOR z))"

text \<open>The macro \<^verbatim>\<open>R(t)\<close>, over the words computed so far.\<close>

definition R :: "u32 list \<Rightarrow> nat \<Rightarrow> u32" where
  "R W t = S1 (W ! (t - 2)) + W ! (t - 7) + S0 (W ! (t - 15)) + W ! (t - 16)"

text \<open>
  The macro \<^verbatim>\<open>P\<close> updates the registers \<open>d\<close> and \<open>h\<close>; the assignments
  after it move every register one place up.
\<close>

fun P :: "u32 list \<Rightarrow> u32 \<Rightarrow> u32 \<Rightarrow> u32 list" where
  "P [a, b, c, d, e, f, g, h] x k =
     (let temp1 = h + S3 e + F1 e f g + k + x; temp2 = S2 a + F0 a b c
      in [a, b, c, d + temp1, e, f, g, temp1 + temp2])"
| "P A x k = A"

fun shift_regs :: "u32 list \<Rightarrow> u32 list" where
  "shift_regs [a, b, c, d, e, f, g, h] = [h, a, b, c, d, e, f, g]"
| "shift_regs A = A"

section \<open>The operations\<close>

definition process_step :: "byte list \<Rightarrow> u32 list \<times> u32 list \<Rightarrow> nat \<Rightarrow> u32 list \<times> u32 list" where
  "process_step data = (\<lambda>(W, A) i.
     let w = (if i < 16 then get_uint32_be data (4 * i) else R W i)
     in (W @ [w], shift_regs (P A w (K ! i))))"

definition core_sha256_process :: "core_sha256_context \<Rightarrow> byte list \<Rightarrow> core_sha256_context" where
  "core_sha256_process ctx data =
     (let A = snd (foldl (process_step data) ([], sha_state ctx) [0..<64])
      in ctx \<lparr> sha_state := map2 (+) (sha_state ctx) A \<rparr>)"

text \<open>The \<^verbatim>\<open>while (ilen >= 64)\<close> loop: the context and the input it leaves.\<close>

function process_loop :: "core_sha256_context \<Rightarrow> byte list \<Rightarrow> core_sha256_context \<times> byte list" where
  "process_loop ctx input =
     (if 64 \<le> length input then process_loop (core_sha256_process ctx (take 64 input)) (drop 64 input)
      else (ctx, input))"
  by pat_completeness auto
termination
  by (relation "measure (\<lambda>(ctx, input). length input)") auto

declare process_loop.simps [simp del]

definition core_sha256_update :: "core_sha256_context \<Rightarrow> byte list \<Rightarrow> core_sha256_context" where
  "core_sha256_update ctx input =
     (if input = [] then ctx
      else
        let left = unat (total0 ctx AND 0x3F);
            fill = 64 - left;
            ilen = of_nat (length input);
            t0 = (total0 ctx + ilen) AND 0xFFFFFFFF;
            ctx1 = ctx \<lparr> total0 := t0, total1 := (if t0 < ilen then total1 ctx + 1 else total1 ctx) \<rparr>;
            (ctx2, input2, left2) =
              (if left \<noteq> 0 \<and> fill \<le> length input
               then (let buf = memcpy_at (sha_buffer ctx1) left (take fill input)
                     in (core_sha256_process (ctx1 \<lparr> sha_buffer := buf \<rparr>) buf, drop fill input, 0))
               else (ctx1, input, left));
            (ctx3, input3) = process_loop ctx2 input2
        in if input3 \<noteq> [] then ctx3 \<lparr> sha_buffer := memcpy_at (sha_buffer ctx3) left2 input3 \<rparr>
           else ctx3)"

definition sha256_padding :: "byte list" where
  "sha256_padding = 0x80 # replicate 63 0"

definition core_sha256_finish ::
  "core_sha256_context \<Rightarrow> byte list \<Rightarrow> core_sha256_context \<times> byte list" where
  "core_sha256_finish ctx output =
     (let high = drop_bit 29 (total0 ctx) OR push_bit 3 (total1 ctx);
          low = push_bit 3 (total0 ctx);
          msglen = put_uint32_be high @ put_uint32_be low;
          last = unat (total0 ctx AND 0x3F);
          padn = (if last < 56 then 56 - last else 120 - last);
          c1 = core_sha256_update ctx (take padn sha256_padding);
          c2 = core_sha256_update c1 msglen;
          out = concat (map put_uint32_be (take 7 (sha_state c2)))
      in (c2, if is224 c2 = 0 then out @ put_uint32_be (sha_state c2 ! 7) else out @ drop 28 output))"

definition core_sha256 :: "byte list \<Rightarrow> byte list \<Rightarrow> byte list" where
  "core_sha256 input output =
     snd (core_sha256_finish (core_sha256_update (core_sha256_starts core_sha256_init) input) output)"

text \<open>
  A pointer that may be \<^verbatim>\<open>NULL\<close> is an option. The early returns leave the output
  buffer as it was.
\<close>

definition core_hmac_sha256 ::
  "byte list option \<Rightarrow> byte list option \<Rightarrow> byte list option \<Rightarrow> byte list option" where
  "core_hmac_sha256 msg key output =
     (case (msg, key, output) of
        (Some m, Some k, Some out) \<Rightarrow>
          if 64 < length k then output
          else
            let k_ipad = map (\<lambda>b. b XOR 0x36) (memcpy_at (replicate 64 0) 0 k);
                k_opad = map (\<lambda>b. b XOR 0x5c) (memcpy_at (replicate 64 0) 0 k);
                c1 = core_sha256_update (core_sha256_starts core_sha256_init) k_ipad;
                c2 = core_sha256_update c1 m;
                out1 = snd (core_sha256_finish c2 out);
                d1 = core_sha256_update (core_sha256_starts core_sha256_init) k_opad;
                d2 = core_sha256_update d1 (take 32 out1)
            in Some (snd (core_sha256_finish d2 out1))
      | _ \<Rightarrow> output)"

section \<open>FIPS 180-4\<close>

definition Ch :: "u32 \<Rightarrow> u32 \<Rightarrow> u32 \<Rightarrow> u32" where "Ch x y z = (x AND y) XOR (NOT x AND z)"
definition Maj :: "u32 \<Rightarrow> u32 \<Rightarrow> u32 \<Rightarrow> u32" where
  "Maj x y z = (x AND y) XOR (x AND z) XOR (y AND z)"

definition Sigma0 :: "u32 \<Rightarrow> u32" where
  "Sigma0 x = word_rotr 2 x XOR word_rotr 13 x XOR word_rotr 22 x"
definition Sigma1 :: "u32 \<Rightarrow> u32" where
  "Sigma1 x = word_rotr 6 x XOR word_rotr 11 x XOR word_rotr 25 x"
definition sigma0 :: "u32 \<Rightarrow> u32" where
  "sigma0 x = word_rotr 7 x XOR word_rotr 18 x XOR drop_bit 3 x"
definition sigma1 :: "u32 \<Rightarrow> u32" where
  "sigma1 x = word_rotr 17 x XOR word_rotr 19 x XOR drop_bit 10 x"

text \<open>The message schedule of a block, by its recurrence.\<close>

fun schedule :: "byte list \<Rightarrow> nat \<Rightarrow> u32" where
  "schedule M t =
     (if t < 16 then get_uint32_be M (4 * t)
      else sigma1 (schedule M (t - 2)) + schedule M (t - 7)
           + sigma0 (schedule M (t - 15)) + schedule M (t - 16))"

declare schedule.simps [simp del]

fun fips_round :: "byte list \<Rightarrow> u32 list \<Rightarrow> nat \<Rightarrow> u32 list" where
  "fips_round M [a, b, c, d, e, f, g, h] t =
     (let T1 = h + Sigma1 e + Ch e f g + K ! t + schedule M t; T2 = Sigma0 a + Maj a b c
      in [T1 + T2, a, b, c, d + T1, e, f, g])"
| "fips_round M A t = A"

definition compress :: "u32 list \<Rightarrow> byte list \<Rightarrow> u32 list" where
  "compress H M = map2 (+) H (foldl (fips_round M) H [0..<64])"

text \<open>The 64-byte blocks of a message and the bytes left over.\<close>

function blocks :: "byte list \<Rightarrow> byte list list" where
  "blocks m = (if 64 \<le> length m then take 64 m # blocks (drop 64 m) else [])"
  by pat_completeness auto
termination by (relation "measure length") auto

function leftover :: "byte list \<Rightarrow> byte list" where
  "leftover m = (if 64 \<le> length m then leftover (drop 64 m) else m)"
  by pat_completeness auto
termination by (relation "measure length") auto

declare blocks.simps [simp del] leftover.simps [simp del]

definition be64 :: "u64 \<Rightarrow> byte list" where
  "be64 w = map (\<lambda>i. ucast (drop_bit (56 - 8 * i) w)) [0..<8]"

text \<open>
  Padding: the byte \<open>0x80\<close>, zeros up to 56 bytes modulo 64, and the length in bits.
\<close>

definition pad_len :: "nat \<Rightarrow> nat" where
  "pad_len n = (if n mod 64 < 56 then 56 - n mod 64 else 120 - n mod 64)"

definition sha_pad :: "byte list \<Rightarrow> byte list" where
  "sha_pad m = m @ 0x80 # replicate (pad_len (length m) - 1) 0 @ be64 (of_nat (8 * length m))"

definition IV :: "u32 list" where
  "IV = sha_state (core_sha256_starts core_sha256_init)"

definition sha256_spec :: "byte list \<Rightarrow> byte list" where
  "sha256_spec m = concat (map put_uint32_be (foldl compress IV (blocks (sha_pad m))))"

lemma sha_pad_multiple: "length (sha_pad m) mod 64 = 0"
proof -
  have "(n + (56 - n mod 64) + 8) mod 64 = 0" if "n mod 64 < 56" for n :: nat
    using that by presburger
  moreover have "(n + (120 - n mod 64) + 8) mod 64 = 0" for n :: nat by presburger
  ultimately show ?thesis
    by (simp add: sha_pad_def pad_len_def be64_def add.commute add.left_commute)
qed

section \<open>The macros are the functions of the standard\<close>

lemma and_all_ones: "(x :: u32) AND 0xFFFFFFFF = x"
proof -
  have "(0xFFFFFFFF :: u32) = - 1" by simp
  then show ?thesis by (simp only: and.right_neutral)
qed

lemma SHR_drop: "SHR x n = drop_bit n x"
  by (simp only: SHR_def and_all_ones)

lemma ROTR_word_rotr:
  assumes "0 < n" "n < 32"
  shows "ROTR x n = word_rotr n x"
proof (rule bit_word_eqI)
  fix i assume i: "i < LENGTH(32)"
  show "bit (ROTR x n) i \<longleftrightarrow> bit (word_rotr n x) i"
  proof (cases "i + n < 32")
    case True
    then show ?thesis using assms i by (auto simp: ROTR_def SHR_drop bit_simps bit_word_rotr_iff ac_simps)
  next
    case False
    then have "(i + n) mod 32 = i - (32 - n)" using assms i by (simp add: mod_if)
    moreover have "\<not> bit x (n + i)" using False by (auto dest: bit_imp_le_length simp: add.commute)
    ultimately show ?thesis using False assms i
      by (auto simp: ROTR_def SHR_drop bit_simps bit_word_rotr_iff)
  qed
qed

lemma macros_standard:
  "S0 = sigma0" "S1 = sigma1" "S2 = Sigma0" "S3 = Sigma1" "F0 = Maj" "F1 = Ch"
proof -
  show "S0 = sigma0" "S1 = sigma1" "S2 = Sigma0" "S3 = Sigma1"
    by (rule ext; simp add: S0_def S1_def S2_def S3_def sigma0_def sigma1_def Sigma0_def Sigma1_def
        ROTR_word_rotr SHR_drop)+
  show "F0 = Maj" by (intro ext bit_word_eqI) (auto simp: F0_def Maj_def bit_simps)
  show "F1 = Ch" by (intro ext bit_word_eqI) (auto simp: F1_def Ch_def bit_simps)
qed

lemma round_standard: "shift_regs (P A (schedule M t) (K ! t)) = fips_round M A t"
  by (cases "(M, A, t)" rule: fips_round.cases) (simp_all add: Let_def macros_standard)

lemma process_steps:
  "n \<le> 64 \<Longrightarrow> foldl (process_step data) ([], A) [0..<n]
     = (map (schedule data) [0..<n], foldl (fips_round data) A [0..<n])"
proof (induction n)
  case (Suc n)
  have "(if n < 16 then get_uint32_be data (4 * n) else R (map (schedule data) [0..<n]) n)
      = schedule data n"
    by (subst schedule.simps) (simp add: R_def macros_standard)
  with Suc show ?case by (simp add: process_step_def Let_def round_standard)
qed simp

lemma core_sha256_process_compress:
  "core_sha256_process ctx data = ctx \<lparr> sha_state := compress (sha_state ctx) data \<rparr>"
  by (simp add: core_sha256_process_def process_steps compress_def del: upt_Suc)

section \<open>The context stands for the message seen so far\<close>

lemma leftover_length: "length (leftover m) = length m mod 64"
proof (induction m rule: leftover.induct)
  case (1 m)
  then show ?case by (cases "64 \<le> length m") (simp_all add: leftover.simps [of m] le_mod_geq)
qed

lemma blocks_append: "blocks (m @ d) = blocks m @ blocks (leftover m @ d)"
proof (induction m rule: blocks.induct)
  case (1 m)
  then show ?case
    by (cases "64 \<le> length m")
      (simp_all add: blocks.simps [of m] blocks.simps [of "m @ d"] leftover.simps [of m])
qed

lemma leftover_append: "leftover (m @ d) = leftover (leftover m @ d)"
proof (induction m rule: leftover.induct)
  case (1 m)
  then show ?case
    by (cases "64 \<le> length m") (simp_all add: leftover.simps [of m] leftover.simps [of "m @ d"])
qed

lemma process_loop_blocks:
  "process_loop ctx d = (ctx \<lparr> sha_state := foldl compress (sha_state ctx) (blocks d) \<rparr>, leftover d)"
proof (induction ctx d rule: process_loop.induct)
  case (1 ctx d)
  then show ?case
    by (cases "64 \<le> length d")
      (simp_all add: process_loop.simps [of ctx d] blocks.simps [of d] leftover.simps [of d]
        core_sha256_process_compress)
qed

definition represents :: "core_sha256_context \<Rightarrow> byte list \<Rightarrow> bool" where
  "represents ctx m \<longleftrightarrow> total0 ctx = of_nat (length m) \<and> total1 ctx = of_nat (length m div 2 ^ 32)
     \<and> sha_state ctx = foldl compress IV (blocks m) \<and> length (sha_buffer ctx) = 64
     \<and> take (length m mod 64) (sha_buffer ctx) = leftover m \<and> is224 ctx = 0"

lemma represents_starts: "represents (core_sha256_starts core_sha256_init) []"
  by (simp add: represents_def core_sha256_starts_def core_sha256_init_def IV_def
      blocks.simps leftover.simps)

lemma total_left: "unat ((of_nat n :: u32) AND 0x3F) = n mod 64"
proof -
  have "(0x3F :: u32) = mask 6" by (simp add: mask_eq_exp_minus_1)
  then have "unat ((of_nat n :: u32) AND 0x3F) = take_bit 6 (take_bit 32 n)"
    by (simp only: take_bit_eq_mask [symmetric]) (simp add: unsigned_take_bit_eq unsigned_of_nat)
  also have "\<dots> = n mod 64" by (simp add: take_bit_eq_mod mod_mod_cancel)
  finally show ?thesis .
qed

lemma div_carry:
  fixes b :: nat
  assumes "d < b"
  shows "(n + d) div b = n div b + (if (n + d) mod b < d then 1 else 0)"
proof -
  obtain q r where n: "n = r + b * q" and r: "r < b"
    using assms by (metis mod_mult_div_eq mod_less_divisor gr_zeroI not_less0)
  show ?thesis
  proof (cases "r + d < b")
    case True
    with r have "(r + d + b * q) mod b = r + d" "(r + d + b * q) div b = q" "n div b = q"
      by (simp_all add: n)
    then show ?thesis by (simp add: n ac_simps)
  next
    case False
    with r assms have "r + d - b < b" "r + d - b < d" and eq: "n + d = (r + d - b) + b * (q + 1)"
      by (auto simp: n)
    moreover have "(n + d) mod b = r + d - b" "(n + d) div b = q + 1" "n div b = q"
      using \<open>r + d - b < b\<close> r by (simp_all only: eq mod_mult_self2 mod_less)
        (simp_all add: n div_mult_self2 del: add_mult_distrib2 mult_Suc_right One_nat_def)
    ultimately show ?thesis by simp
  qed
qed

lemma total_carry:
  assumes "d < 2 ^ 32"
  shows "(if (of_nat (n + d) :: u32) < of_nat d then of_nat (n div 2 ^ 32) + 1 else of_nat (n div 2 ^ 32))
    = (of_nat ((n + d) div 2 ^ 32) :: u32)"
proof -
  have lt: "(of_nat (n + d) :: u32) < of_nat d \<longleftrightarrow> (n + d) mod 2 ^ 32 < d"
    using assms by (simp add: word_less_nat_alt unat_of_nat del: of_nat_add)
  show ?thesis unfolding lt div_carry [OF assms] by simp
qed

lemma represents_update:
  assumes rep: "represents ctx m" and len: "length d < 2 ^ 32"
  shows "represents (core_sha256_update ctx d) (m @ d)"
proof (cases "d = []")
  case False
  let ?l = "length m mod 64"
  let ?c1 = "ctx \<lparr> total0 := of_nat (length m + length d),
    total1 := of_nat ((length m + length d) div 2 ^ 32) \<rparr>"
  let ?buf = "memcpy_at (sha_buffer ctx) ?l (take (64 - ?l) d)"
  note r = rep [unfolded represents_def]
  have lm: "length (leftover m) = ?l" by (rule leftover_length)
  have upd: "core_sha256_update ctx d =
    (let (c2, i2, l2) = (if ?l \<noteq> 0 \<and> 64 - ?l \<le> length d
            then (core_sha256_process (?c1 \<lparr> sha_buffer := ?buf \<rparr>) ?buf, drop (64 - ?l) d, 0)
            else (?c1, d, ?l));
         (c3, i3) = process_loop c2 i2
     in if i3 \<noteq> [] then c3 \<lparr> sha_buffer := memcpy_at (sha_buffer c3) l2 i3 \<rparr> else c3)"
    using False r total_carry [OF len, of "length m"]
    by (simp add: core_sha256_update_def Let_def total_left and_all_ones cong: if_cong)
  show ?thesis
  proof (cases "?l \<noteq> 0 \<and> 64 - ?l \<le> length d")
    case True
    then have lge: "64 \<le> ?l + length d" by linarith
    define k where "k = leftover (drop (64 - ?l) d)"
    have buf: "?buf = leftover m @ take (64 - ?l) d"
      using True r by (simp add: memcpy_at_def)
    then have buf_len: "length ?buf = 64" using True lm by simp
    have split: "blocks (leftover m @ d) = ?buf # blocks (drop (64 - ?l) d)"
      "leftover (leftover m @ d) = k"
      using True lm lge by (simp_all add: k_def buf blocks.simps [of "leftover m @ d"]
          leftover.simps [of "leftover m @ d"])
    have k: "length k < 64" by (simp add: k_def leftover_length)
    have k_len: "(length m + length d) mod 64 = length k"
      using leftover_length [of "m @ d"] split by (simp add: leftover_append [of m])
    have store: "take (length k) (memcpy_at ?buf 0 k) = k" "length (memcpy_at ?buf 0 k) = 64"
      using take_memcpy_at [of 0 ?buf k] k buf_len by simp_all
    show ?thesis
      using True r split k_len store buf_len by (simp add: upd represents_def process_loop_blocks
          core_sha256_process_compress blocks_append [of m] leftover_append [of m] k_def [symmetric])
  next
    case False
    have *: "leftover (leftover m @ d) = leftover m @ leftover d"
      "blocks (leftover m @ d) = blocks d \<and> (?l = 0 \<or> leftover d = d)"
      using False lm by (cases "?l = 0"; simp add: leftover.simps [of "leftover m @ d"]
          leftover.simps [of d] blocks.simps [of "leftover m @ d"] blocks.simps [of d]; linarith)+
    have "length (leftover (m @ d)) < 64" by (simp add: leftover_length)
    then have "?l + length (leftover d) < 64" by (simp add: leftover_append [of m] * lm)
    moreover have "(length m + length d) mod 64 = ?l + length (leftover d)"
      using leftover_length [of "m @ d"] by (simp add: leftover_append [of m] * lm)
    ultimately show ?thesis
      using False r * by (auto simp add: upd represents_def process_loop_blocks
          blocks_append [of m] leftover_append [of m])
  qed
qed (use rep in \<open>simp add: core_sha256_update_def\<close>)

lemma bit_div_high: "bit (n div 4294967296) k \<longleftrightarrow> bit n (k + 32)" for n :: nat
proof -
  have "n div 4294967296 = drop_bit 32 n" by (simp add: drop_bit_eq_div)
  then show ?thesis by (simp add: bit_drop_bit_eq add.commute)
qed

lemma message_length_bytes:
  "put_uint32_be (drop_bit 29 (of_nat n) OR push_bit 3 (of_nat (n div 2 ^ 32)))
     @ put_uint32_be (push_bit 3 (of_nat n)) = be64 (of_nat (8 * n))"
proof -
  have t: "(of_nat (8 * n) :: u64) = push_bit 3 (of_nat n)"
    by (simp add: push_bit_eq_mult mult.commute)
  have "[0..<8] = [0, 1, 2, 3, 4, 5, 6, 7 :: nat]" by (simp add: upt_rec)
  then show ?thesis
    unfolding put_uint32_be_def be64_def t
    by (simp, intro conjI bit_word_eqI) (auto simp: bit_simps bit_div_high add.commute)
qed

lemma concat_take_7: "length ws = 8 \<Longrightarrow> concat (map f (take 7 ws)) @ f (ws ! 7) = concat (map f ws)"
proof -
  assume "length ws = 8"
  then have "ws = take 7 ws @ [ws ! 7]" using take_Suc_conv_app_nth [of 7 ws] by simp
  then have "concat (map f ws) = concat (map f (take 7 ws @ [ws ! 7]))" by simp
  then show ?thesis by simp
qed

lemma length_fips_rounds: "length A = 8 \<Longrightarrow> length (foldl (fips_round M) A ts) = 8"
proof (induction ts arbitrary: A)
  case (Cons t ts)
  have "length (fips_round M A t) = 8"
    using Cons.prems by (cases "(M, A, t)" rule: fips_round.cases) (simp_all add: Let_def)
  then show ?case using Cons.IH by simp
qed simp

lemma length_compress_foldl: "length H = 8 \<Longrightarrow> length (foldl compress H bs) = 8"
  by (induction bs arbitrary: H) (simp_all add: compress_def length_fips_rounds)

lemma core_sha256_finish_spec:
  assumes "represents ctx m"
  shows "snd (core_sha256_finish ctx output) = sha256_spec m"
proof -
  let ?n = "length m"
  let ?pad = "take (pad_len ?n) sha256_padding"
  let ?c2 = "core_sha256_update (core_sha256_update ctx ?pad) (be64 (of_nat (8 * ?n)))"
  have r0: "total0 ctx = of_nat ?n" and r1: "total1 ctx = of_nat (?n div 2 ^ 32)"
    using assms by (simp_all add: represents_def)
  have "1 \<le> pad_len ?n" "pad_len ?n \<le> 64" unfolding pad_len_def by presburger+
  then have pad: "?pad = 0x80 # replicate (pad_len ?n - 1) 0"
    by (cases "pad_len ?n") (simp_all add: sha256_padding_def)
  have "represents ?c2 ((m @ ?pad) @ be64 (of_nat (8 * ?n)))"
    using assms by (intro represents_update) (simp_all add: be64_def sha256_padding_def)
  then have c2: "represents ?c2 (sha_pad m)" by (simp add: sha_pad_def pad)
  have st: "sha_state ?c2 = foldl compress IV (blocks (sha_pad m))" "is224 ?c2 = 0"
    using c2 by (simp_all add: represents_def)
  have len: "length (sha_state ?c2) = 8"
    unfolding st(1) by (rule length_compress_foldl) (simp add: IV_def core_sha256_starts_def)
  have "snd (core_sha256_finish ctx output)
      = concat (map put_uint32_be (take 7 (sha_state ?c2))) @ put_uint32_be (sha_state ?c2 ! 7)"
    unfolding core_sha256_finish_def Let_def r0 r1 total_left pad_len_def [symmetric]
      message_length_bytes by (simp only: st(2) refl if_True snd_conv)
  also have "\<dots> = concat (map put_uint32_be (sha_state ?c2))"
    by (rule concat_take_7 [OF len])
  finally show ?thesis unfolding st(1) sha256_spec_def .
qed

section \<open>Streaming interfaces\<close>

text \<open>
  What HMAC and every other client of a hash context relies on: an update extends the message the
  context stands for, and finishing gives the hash of that message.
\<close>

locale stream_hash =
  fixes start :: 'c
    and upd :: "'c \<Rightarrow> 'd list \<Rightarrow> 'c"
    and fin :: "'c \<Rightarrow> 'd list"
    and rep :: "'c \<Rightarrow> 'd list \<Rightarrow> bool"
    and hash :: "'d list \<Rightarrow> 'd list"
    and cap :: nat
  assumes start_rep: "rep start []"
    and upd_rep: "rep c m \<Longrightarrow> length d < cap \<Longrightarrow> rep (upd c d) (m @ d)"
    and fin_hash: "rep c m \<Longrightarrow> fin c = hash m"
begin

lemma foldl_rep:
  assumes "rep c m" "\<forall>d \<in> set ds. length d < cap"
  shows "rep (foldl upd c ds) (m @ concat ds)"
  using assms
proof (induction ds arbitrary: c m)
  case (Cons d ds)
  then have "rep (foldl upd (upd c d) ds) ((m @ d) @ concat ds)"
    by (intro Cons.IH upd_rep) auto
  then show ?case by simp
qed simp

lemma chunks_hash:
  assumes "\<forall>d \<in> set ds. length d < cap"
  shows "fin (foldl upd start ds) = hash (concat ds)"
  using foldl_rep [OF start_rep assms] fin_hash by simp

lemma two_chunks_hash:
  assumes "length a < cap" "length b < cap"
  shows "fin (upd (upd start a) b) = hash (a @ b)"
  using chunks_hash [of "[a, b]"] assms by simp

end

interpretation sha: stream_hash "core_sha256_starts core_sha256_init" core_sha256_update
  "\<lambda>c. snd (core_sha256_finish c out)" represents sha256_spec "2 ^ 32" for out
  by unfold_locales (auto intro: represents_starts represents_update core_sha256_finish_spec)

section \<open>RFC 2104\<close>

definition hmac_spec :: "(byte list \<Rightarrow> byte list) \<Rightarrow> byte list \<Rightarrow> byte list \<Rightarrow> byte list" where
  "hmac_spec H key text =
     (let key0 = key @ replicate (64 - length key) 0
      in H (map (\<lambda>b. b XOR 0x5c) key0 @ H (map (\<lambda>b. b XOR 0x36) key0 @ text)))"

lemma length_sha256_spec: "length (sha256_spec m) = 32"
proof -
  have "length (concat (map put_uint32_be ws)) = 4 * length ws" for ws
    by (induction ws) (simp_all add: put_uint32_be_def)
  then show ?thesis
    by (simp add: sha256_spec_def length_compress_foldl IV_def core_sha256_starts_def)
qed

lemma core_hmac_short:
  assumes "length m < 2 ^ 32" "length k \<le> 64"
  shows "core_hmac_sha256 (Some m) (Some k) (Some out) = Some (hmac_spec sha256_spec k m)"
proof -
  have pad: "memcpy_at (replicate 64 0) 0 k = k @ replicate (64 - length k) 0"
    using assms by (simp add: memcpy_at_def)
  show ?thesis
    using assms
    by (simp add: core_hmac_sha256_def Let_def pad hmac_spec_def sha.two_chunks_hash length_sha256_spec)
qed

section \<open>The properties of this component\<close>

text \<open>
  C16. However a message is cut into calls of \<^verbatim>\<open>core_sha256_update\<close> (each shorter
  than \<open>2 ^ 32\<close> bytes, the width of its length argument), finishing the context gives the
  SHA-256 digest of FIPS 180-4 of the whole message.
\<close>

theorem sha256_streaming:
  assumes "\<forall>d \<in> set ds. length d < 2 ^ 32"
  shows "snd (core_sha256_finish
      (foldl core_sha256_update (core_sha256_starts core_sha256_init) ds) output)
    = sha256_spec (concat ds)"
  using assms by (rule sha.chunks_hash)

lemma sha256_streaming_witness:
  "snd (core_sha256_finish (foldl core_sha256_update (core_sha256_starts core_sha256_init)
      [[0x61], [], [0x62, 0x63]]) []) = sha256_spec [0x61, 0x62, 0x63]"
  using sha256_streaming [of "[[0x61], [], [0x62, 0x63]]" "[]"] by simp

text \<open>
  For a key of at most 64 bytes the output is the HMAC-SHA256 of RFC 2104; for a longer key
  the function returns without touching the output (RFC 2104 hashes such a key first).
\<close>

theorem core_hmac_sha256_correct:
  assumes "length m < 2 ^ 32"
  shows "core_hmac_sha256 (Some m) (Some k) (Some out)
    = Some (if 64 < length k then out else hmac_spec sha256_spec k m)"
  using assms core_hmac_short by (simp add: core_hmac_sha256_def)

lemma core_hmac_sha256_correct_witness:
  "core_hmac_sha256 (Some [1, 2]) (Some [3]) (Some (replicate 32 0)) = Some (hmac_spec sha256_spec [3] [1, 2])
   \<and> core_hmac_sha256 (Some [1, 2]) (Some (replicate 65 7)) (Some [9, 9]) = Some [9, 9]"
  using core_hmac_sha256_correct [of "[1, 2]" "[3]" "replicate 32 0"]
    core_hmac_sha256_correct [of "[1, 2]" "replicate 65 7" "[9, 9]"] by simp

end
