(* ===== verification/Core_Auth.thy ===== *)
theory Core_Auth
  imports Core_String Core_Sha256
begin

text \<open>
  \<^verbatim>\<open>core/utils/core_auth.c\<close>: the identities and the signatures a device presents to
  the broker. A \<^verbatim>\<open>NULL\<close> pointer is \<open>None\<close>; the \<open>malloc_ok\<close> arguments say
  which allocations succeed, in the order the code makes them. The temporary text that is signed is
  freed on every path, so only the result is left.
\<close>

definition CORE_AUTH_SDK_VERSION :: string where "CORE_AUTH_SDK_VERSION = ''sdk-c-4.2.0''"
definition CORE_AUTH_TIMESTAMP :: string where "CORE_AUTH_TIMESTAMP = ''2524608000000''"

text \<open>
  \<^verbatim>\<open>core_hmac_sha256\<close> into a zeroed array of 32 bytes, then its hexadecimal text in
  upper case; \<^verbatim>\<open>strlen\<close> of a \<^verbatim>\<open>NULL\<close> secret is undefined.
\<close>

definition sign_text :: "string \<Rightarrow> string option \<Rightarrow> string outcome" where
  "sign_text plain secret =
     (case secret of None \<Rightarrow> Undef
      | Some s \<Rightarrow>
          (case core_hmac_sha256 (Some (bytes_of plain)) (Some (bytes_of s)) (Some (replicate 32 0)) of
             Some sign \<Rightarrow> Ok (core_hex2str sign False) | None \<Rightarrow> Undef))"

definition core_auth_tls_psk ::
  "bool \<Rightarrow> bool \<Rightarrow> string option \<Rightarrow> string option \<Rightarrow> string option \<Rightarrow> (string \<times> string) outcome" where
  "core_auth_tls_psk malloc_ok1 malloc_ok2 product_key device_name device_secret =
     (if device_secret = None then Err STATE_USER_INPUT_MISSING_DEVICE_SECRET
      else
        obind (core_sprintf malloc_ok1 ''%s|%s|%s&%s|%s''
            [Some ''devicename'', Some ''hmacsha256'', product_key, device_name,
             Some CORE_AUTH_TIMESTAMP] 5) (\<lambda>psk_id.
        obind (core_sprintf malloc_ok2 ''id%s&%stimestamp%s''
            [product_key, device_name, Some CORE_AUTH_TIMESTAMP] 3) (\<lambda>plain.
        obind (sign_text plain device_secret) (\<lambda>psk. Ok (psk_id, psk)))))"

definition core_auth_mqtt_username ::
  "bool \<Rightarrow> string option \<Rightarrow> string option \<Rightarrow> string outcome" where
  "core_auth_mqtt_username malloc_ok product_key device_name =
     core_sprintf malloc_ok ''%s&%s'' [device_name, product_key] 2"

definition core_auth_mqtt_password ::
  "bool \<Rightarrow> bool \<Rightarrow> string option \<Rightarrow> string option \<Rightarrow> string option \<Rightarrow> string outcome" where
  "core_auth_mqtt_password malloc_ok1 malloc_ok2 product_key device_name device_secret =
     obind (core_sprintf malloc_ok1 ''clientId%s.%sdeviceName%sproductKey%stimestamp%s''
         [product_key, device_name, device_name, product_key, Some CORE_AUTH_TIMESTAMP] 5) (\<lambda>plain.
       if \<not> malloc_ok2 then Err STATE_SYS_DEPEND_MALLOC_FAILED
       else sign_text plain device_secret)"

definition core_auth_mqtt_clientid ::
  "bool \<Rightarrow> string option \<Rightarrow> string option \<Rightarrow> string option \<Rightarrow> string option \<Rightarrow> string outcome" where
  "core_auth_mqtt_clientid malloc_ok product_key device_name secure_mode extend_clientid =
     core_sprintf malloc_ok
       ''%s.%s|timestamp=%s,_ss=1,_v=%s,securemode=%s,signmethod=hmacsha256,ext=3,%s|''
       [product_key, device_name, Some CORE_AUTH_TIMESTAMP, Some CORE_AUTH_SDK_VERSION,
        secure_mode, extend_clientid] 6"

definition core_auth_http_body ::
  "bool \<Rightarrow> bool \<Rightarrow> string option \<Rightarrow> string option \<Rightarrow> string option \<Rightarrow> string outcome" where
  "core_auth_http_body malloc_ok1 malloc_ok2 product_key device_name device_secret =
     obind (core_sprintf malloc_ok1 ''clientId%s.%sdeviceName%sproductKey%s''
         [product_key, device_name, device_name, product_key, None] 4) (\<lambda>plain.
     obind (sign_text plain device_secret) (\<lambda>sign_str.
       core_sprintf malloc_ok2
         ''{\"clientId\":\"%s.%s\",\"signmethod\":\"hmacsha256\",\"deviceName\":\"%s\",\"productKey\":\"%s\",\"sign\":\"%s\"}''
         [product_key, device_name, device_name, product_key, Some sign_str] 5))"

section \<open>Properties\<close>

text \<open>
  The format of a call as literal pieces and places: what \<open>core_sprintf_template\<close> needs,
  without the buffer equation.
\<close>

lemma core_sprintf_pieces:
  assumes "fmt = concat (map (\<lambda>(l, a). l @ ''%s'') ps) @ tail" "src = map snd ps" "n = length ps"
    "\<forall>(l, a) \<in> set ps. CHR ''%'' \<notin> set l" "CHR ''%'' \<notin> set tail" "length fmt < 256"
  shows "core_sprintf True fmt src n = Ok (concat (map (\<lambda>(l, a). l @ arg_text a) ps) @ tail)"
  using assms core_sprintf_exact [of ps tail] by simp

lemma sign_text_hmac:
  assumes "length plain < 2 ^ 32" "length secret \<le> 64"
  shows "sign_text plain (Some secret)
    = Ok (core_hex2str (hmac_spec sha256_spec (bytes_of secret) (bytes_of plain)) False)"
  using assms core_hmac_short [of "bytes_of plain" "bytes_of secret"] by (simp add: sign_text_def)

lemma sign_text_long_secret:
  assumes "64 < length secret"
  shows "sign_text plain (Some secret) = Ok (replicate 64 (CHR ''0''))"
proof -
  have "hex2str_loop f (replicate n 0) = concat (replicate n [f 0, f 0])" for f n
    by (induction n) simp_all
  then have "core_hex2str (replicate 32 0) False = concat (replicate 32 ''00'')"
    by (simp add: core_hex2str_def hex_upper_def)
  also have "\<dots> = replicate 64 (CHR ''0'')" by (simp add: numeral_eq_Suc)
  finally show ?thesis using assms by (simp add: sign_text_def core_hmac_sha256_def)
qed

definition password_plain :: "string \<Rightarrow> string \<Rightarrow> string" where
  "password_plain pk dn = ''clientId'' @ pk @ ''.'' @ dn @ ''deviceName'' @ dn @ ''productKey'' @ pk
     @ ''timestamp'' @ CORE_AUTH_TIMESTAMP"

lemma password_sprintf:
  "core_sprintf True ''clientId%s.%sdeviceName%sproductKey%stimestamp%s''
     [Some pk, Some dn, Some dn, Some pk, Some CORE_AUTH_TIMESTAMP] 5 = Ok (password_plain pk dn)"
  by (subst core_sprintf_pieces [where tail = "[]" and ps = "[(''clientId'', Some pk), (''.'', Some dn),
        (''deviceName'', Some dn), (''productKey'', Some pk), (''timestamp'', Some CORE_AUTH_TIMESTAMP)]"])
    (simp_all add: arg_text_def password_plain_def)

lemma username_sprintf:
  "core_auth_mqtt_username True (Some pk) (Some dn) = Ok (dn @ ''&'' @ pk)"
  unfolding core_auth_mqtt_username_def
  by (subst core_sprintf_pieces [where tail = "[]" and ps = "[([], Some dn), (''&'', Some pk)]"])
    (simp_all add: arg_text_def)

lemma clientid_sprintf:
  "core_auth_mqtt_clientid True (Some pk) (Some dn) (Some mode) ext
   = Ok (pk @ ''.'' @ dn @ ''|timestamp='' @ CORE_AUTH_TIMESTAMP @ '',_ss=1,_v='' @ CORE_AUTH_SDK_VERSION
         @ '',securemode='' @ mode @ '',signmethod=hmacsha256,ext=3,'' @ arg_text ext @ ''|'')"
  unfolding core_auth_mqtt_clientid_def
  by (subst core_sprintf_pieces [where tail = "''|''" and ps = "[([], Some pk), (''.'', Some dn),
        (''|timestamp='', Some CORE_AUTH_TIMESTAMP), ('',_ss=1,_v='', Some CORE_AUTH_SDK_VERSION),
        ('',securemode='', Some mode), ('',signmethod=hmacsha256,ext=3,'', ext)]"])
    (simp_all add: arg_text_def)

section \<open>The properties of this component\<close>

text \<open>
  The password of a device is the upper-case hexadecimal HMAC-SHA256, under its secret, of the
  canonical text of its identity, for every secret of at most 64 bytes.
\<close>

theorem core_auth_mqtt_password_correct:
  assumes "length secret \<le> 64" "length (password_plain pk dn) < 2 ^ 32"
  shows "core_auth_mqtt_password True True (Some pk) (Some dn) (Some secret)
    = Ok (core_hex2str (hmac_spec sha256_spec (bytes_of secret) (bytes_of (password_plain pk dn))) False)"
  using assms by (simp add: core_auth_mqtt_password_def password_sprintf sign_text_hmac)

lemma core_auth_mqtt_password_correct_witness:
  "core_auth_mqtt_password True True (Some ''pk'') (Some ''dev1'') (Some ''secret'')
    = Ok (core_hex2str (hmac_spec sha256_spec (bytes_of ''secret'')
        (bytes_of (password_plain ''pk'' ''dev1''))) False)"
  using core_auth_mqtt_password_correct [of "''secret''" "''pk''" "''dev1''"]
  by (simp add: password_plain_def CORE_AUTH_TIMESTAMP_def)

text \<open>
  With a secret longer than 64 bytes the password does not depend on the secret or on the
  device: it is the text of 64 zeros, because the HMAC leaves its zeroed output untouched.
\<close>

theorem core_auth_long_secret_password:
  assumes "64 < length secret"
  shows "core_auth_mqtt_password True True (Some pk) (Some dn) (Some secret)
    = Ok (replicate 64 (CHR ''0''))"
  using assms by (simp add: core_auth_mqtt_password_def password_sprintf sign_text_long_secret)

lemma core_auth_long_secret_password_witness:
  "core_auth_mqtt_password True True (Some ''pk'') (Some ''dev1'') (Some (replicate 65 (CHR ''x'')))
    = core_auth_mqtt_password True True (Some ''pk2'') (Some ''dev2'') (Some (replicate 70 (CHR ''y'')))"
  using core_auth_long_secret_password [of "replicate 65 (CHR ''x'')" "''pk''" "''dev1''"]
    core_auth_long_secret_password [of "replicate 70 (CHR ''y'')" "''pk2''" "''dev2''"] by simp

end
