(* ===== verification/Core_Global.thy ===== *)
theory Core_Global
  imports Prelude
begin

text \<open>
  \<^verbatim>\<open>core/utils/core_global.c\<close>: the process-wide state that MQTT handles share: a
  reference count, the counter of alink message ids and the backup address of the broker, behind
  one mutex that is not recursive.
\<close>

record g_core_global =
  g_mutex :: bool \<comment> \<open>the mutex exists\<close>
  g_locked :: bool \<comment> \<open>the mutex is held\<close>
  g_is_inited :: u8
  g_used_count :: u32
  g_alink_id :: "32 word"
  g_mqtt_backup_ip :: "char list"

definition g_core_global_initial :: g_core_global where
  "g_core_global_initial = \<lparr> g_mutex = False, g_locked = False, g_is_inited = 0, g_used_count = 0,
     g_alink_id = 0, g_mqtt_backup_ip = replicate 16 NUL \<rparr>"

text \<open>Locking a mutex that is held blocks for ever: \<open>None\<close>.\<close>

definition g_lock :: "g_core_global \<Rightarrow> g_core_global option" where
  "g_lock g = (if g_locked g then None else Some (g \<lparr> g_locked := True \<rparr>))"

definition g_unlock :: "g_core_global \<Rightarrow> g_core_global" where
  "g_unlock g = g \<lparr> g_locked := False \<rparr>"

definition core_global_init :: "g_core_global \<Rightarrow> int \<times> g_core_global" where
  "core_global_init g =
     (if g_is_inited g = 1 then (STATE_SUCCESS, g \<lparr> g_used_count := g_used_count g + 1 \<rparr>)
      else (STATE_SUCCESS, g \<lparr> g_is_inited := 1, g_mutex := True, g_locked := False,
              g_used_count := g_used_count g + 1 \<rparr>))"

text \<open>
  The counter is signed; it wraps to the most negative number as the code intends, which the test
  that follows turns into 0.
\<close>

definition core_global_alink_id_next :: "g_core_global \<Rightarrow> (int \<times> g_core_global) option" where
  "core_global_alink_id_next g =
     (case g_lock g of None \<Rightarrow> None
      | Some g1 \<Rightarrow>
          let g2 = g1 \<lparr> g_alink_id := g_alink_id g1 + 1 \<rparr>;
              g3 = (if sint (g_alink_id g2) < 0 then g2 \<lparr> g_alink_id := 0 \<rparr> else g2)
          in Some (sint (g_alink_id g3), g_unlock g3))"

definition core_global_set_mqtt_backup_ip ::
  "string \<Rightarrow> g_core_global \<Rightarrow> (int \<times> g_core_global) option" where
  "core_global_set_mqtt_backup_ip ip g =
     (case g_lock g of None \<Rightarrow> None
      | Some g1 \<Rightarrow>
          let g2 = g1 \<lparr> g_mqtt_backup_ip := replicate 16 NUL \<rparr> in
          if 16 < length ip then Some (STATE_USER_INPUT_OUT_RANGE, g2)
          else Some (STATE_SUCCESS,
                 g_unlock (g2 \<lparr> g_mqtt_backup_ip := memcpy_at (g_mqtt_backup_ip g2) 0 ip \<rparr>)))"

text \<open>
  The text is copied over the caller's array without its terminator. An address that fills all 16
  bytes has none, so \<^verbatim>\<open>strlen\<close> reads past the field.
\<close>

definition core_global_get_mqtt_backup_ip ::
  "char list \<Rightarrow> g_core_global \<Rightarrow> (char list outcome \<times> g_core_global) option" where
  "core_global_get_mqtt_backup_ip ip g =
     (case g_lock g of None \<Rightarrow> None
      | Some g1 \<Rightarrow>
          let buf = g_mqtt_backup_ip g1 in
          Some (if NUL \<notin> set buf then Undef else Ok (memcpy_at ip 0 (cstr buf)), g_unlock g1))"

definition core_global_deinit :: "g_core_global \<Rightarrow> int \<times> g_core_global" where
  "core_global_deinit g =
     (let g1 = (if g_used_count g > 0 then g \<lparr> g_used_count := g_used_count g - 1 \<rparr> else g)
      in if g_used_count g1 \<noteq> 0 then (STATE_SUCCESS, g1)
         else (STATE_SUCCESS, g1 \<lparr> g_mutex := False, g_locked := False, g_is_inited := 0,
                 g_used_count := 0 \<rparr>))"

section \<open>Invariant\<close>

text \<open>
  The mutex exists exactly while some handle uses the module, and the message id is not negative.
\<close>

definition global_inv :: "g_core_global \<Rightarrow> bool" where
  "global_inv g \<longleftrightarrow> (g_is_inited g = 0 \<or> g_is_inited g = 1)
     \<and> (g_mutex g \<longleftrightarrow> g_is_inited g = 1) \<and> (g_is_inited g = 1 \<longleftrightarrow> 0 < g_used_count g)
     \<and> 0 \<le> sint (g_alink_id g) \<and> length (g_mqtt_backup_ip g) = 16"

lemma g_lock_Some: "g_lock g = Some g' \<longleftrightarrow> \<not> g_locked g \<and> g' = g \<lparr> g_locked := True \<rparr>"
  by (auto simp: g_lock_def)

lemma global_inv_initial: "global_inv g_core_global_initial"
  by (simp add: global_inv_def g_core_global_initial_def)

text \<open>Reference counting, as an interface: \<open>users\<close> counts who holds the resource.\<close>

locale ref_counted =
  fixes acquire :: "'s \<Rightarrow> 's" and release :: "'s \<Rightarrow> 's"
    and users :: "'s \<Rightarrow> nat" and live :: "'s \<Rightarrow> bool" and ok :: "'s \<Rightarrow> bool" and cap :: nat
  assumes acquire_users: "ok s \<Longrightarrow> Suc (users s) < cap \<Longrightarrow> users (acquire s) = Suc (users s)"
    and acquire_ok: "ok s \<Longrightarrow> Suc (users s) < cap \<Longrightarrow> ok (acquire s)"
    and release_users: "ok s \<Longrightarrow> users (release s) = users s - 1"
    and release_ok: "ok s \<Longrightarrow> ok (release s)"
    and live_iff: "ok s \<Longrightarrow> live s \<longleftrightarrow> 0 < users s"
begin

lemma acquires:
  "ok s \<Longrightarrow> users s + n < cap \<Longrightarrow> ok ((acquire ^^ n) s) \<and> users ((acquire ^^ n) s) = users s + n"
  by (induction n) (auto simp: acquire_users acquire_ok)

lemma releases: "ok s \<Longrightarrow> ok ((release ^^ k) s) \<and> users ((release ^^ k) s) = users s - k"
  by (induction k) (auto simp: release_users release_ok)

lemma acquires_releases_live:
  assumes "ok s" "users s + n < cap"
  shows "live ((release ^^ k) ((acquire ^^ n) s)) \<longleftrightarrow> k < users s + n"
proof -
  have "ok ((acquire ^^ n) s)" "users ((acquire ^^ n) s) = users s + n"
    using acquires [OF assms] by simp_all
  with releases [of "(acquire ^^ n) s" k] live_iff show ?thesis by auto
qed

end

lemma unat_minus_1: "0 < x \<Longrightarrow> unat (x - 1 :: u32) = unat x - 1"
  by (simp add: unat_minus_one word_gt_0)

lemma unat_plus_1: "Suc (unat x) < 2 ^ 32 \<Longrightarrow> unat (x + 1 :: u32) = Suc (unat x)"
  by (simp add: unat_word_ariths)

interpretation global: ref_counted "\<lambda>g. snd (core_global_init g)" "\<lambda>g. snd (core_global_deinit g)"
  "\<lambda>g. unat (g_used_count g)" "\<lambda>g. g_mutex g" global_inv "2 ^ 32"
proof
  fix g assume inv: "global_inv g"
  then show "unat (g_used_count (snd (core_global_deinit g))) = unat (g_used_count g) - 1"
    by (simp add: core_global_deinit_def Let_def unat_minus_1 word_gt_0)
  show "global_inv (snd (core_global_deinit g))"
    using inv by (auto simp: core_global_deinit_def Let_def global_inv_def word_gt_0)
  show "g_mutex g \<longleftrightarrow> 0 < unat (g_used_count g)"
    using inv by (auto simp: global_inv_def word_gt_0 unat_gt_0)
  assume cap: "Suc (unat (g_used_count g)) < 2 ^ 32"
  then show u: "unat (g_used_count (snd (core_global_init g))) = Suc (unat (g_used_count g))"
    by (simp add: core_global_init_def unat_plus_1)
  then have "0 < g_used_count (snd (core_global_init g))"
    by (metis unat_gt_0 word_gt_0 zero_less_Suc)
  then show "global_inv (snd (core_global_init g))"
    using inv by (auto simp: core_global_init_def global_inv_def)
qed

lemma alink_id_step:
  assumes "\<not> g_locked g" "0 \<le> sint (g_alink_id g)"
  defines "i \<equiv> (if sint (g_alink_id g) = 2 ^ 31 - 1 then 0 else sint (g_alink_id g) + 1)"
  shows "core_global_alink_id_next g = Some (i, g \<lparr> g_alink_id := of_int i \<rparr>)"
proof -
  let ?a = "g_alink_id g"
  have lt: "sint ?a < 2 ^ 31" using sint_lt [of ?a] by simp
  show ?thesis
  proof (cases "sint ?a = 2 ^ 31 - 1")
    case True
    then have "?a = of_int (2 ^ 31 - 1)" by (intro signed_word_eqI [where ?'a = int]) (simp add: True)
    then have "sint (?a + 1) = - (2 ^ 31)" by simp
    with True assms show ?thesis
      by (simp add: core_global_alink_id_next_def g_lock_def g_unlock_def Let_def)
  next
    case False
    then have "sint ?a + 1 < 2 ^ 31" "0 \<le> sint ?a + 1" using lt assms by auto
    then have "sint (?a + 1) = sint ?a + 1"
      by (simp add: sint_word_ariths signed_take_bit_int_eq_self)
    moreover have "i = sint ?a + 1" using False i_def by simp
    moreover from this have "of_int i = ?a + 1" by simp
    ultimately show ?thesis using assms(1,2)
      by (simp add: core_global_alink_id_next_def g_lock_def g_unlock_def Let_def del: of_int_add)
  qed
qed

section \<open>The properties of this component\<close>

text \<open>
  After \<open>n\<close> handles were initialised and \<open>k\<close> of them released, in the process's
  first use of the module, the shared mutex exists exactly while some handle is left.
\<close>

theorem core_global_ref_count:
  assumes "n < 2 ^ 32"
  shows "g_mutex (((\<lambda>g. snd (core_global_deinit g)) ^^ k)
      (((\<lambda>g. snd (core_global_init g)) ^^ n) g_core_global_initial)) \<longleftrightarrow> k < n"
  using global.acquires_releases_live [OF global_inv_initial, of n k] assms
  by (simp add: g_core_global_initial_def)

lemma core_global_ref_count_witness:
  "g_mutex (((\<lambda>g. snd (core_global_deinit g)) ^^ 2)
      (((\<lambda>g. snd (core_global_init g)) ^^ 3) g_core_global_initial))"
  using core_global_ref_count [of 3 2] by simp

text \<open>
  Every alink message id is between 0 and \<open>2 ^ 31 - 1\<close>: the next id is the last one plus
  1, and 0 after the largest; the mutex is free again and nothing else of the state changes.
\<close>

theorem core_global_alink_id_next_correct:
  assumes "global_inv g" "\<not> g_locked g"
  shows "\<exists>i. core_global_alink_id_next g = Some (i, g \<lparr> g_alink_id := of_int i \<rparr>)
    \<and> 0 \<le> i \<and> i < 2 ^ 31
    \<and> i = (if sint (g_alink_id g) = 2 ^ 31 - 1 then 0 else sint (g_alink_id g) + 1)"
proof -
  have "0 \<le> sint (g_alink_id g)" "sint (g_alink_id g) < 2 ^ 31"
    using assms sint_lt [of "g_alink_id g"] by (auto simp: global_inv_def)
  with alink_id_step [OF assms(2)] show ?thesis by auto
qed

lemma core_global_alink_id_next_correct_witness:
  "\<exists>i. core_global_alink_id_next g_core_global_initial
     = Some (i, g_core_global_initial \<lparr> g_alink_id := of_int i \<rparr>) \<and> i = 1"
  using core_global_alink_id_next_correct [OF global_inv_initial]
  by (simp add: g_core_global_initial_def)

text \<open>
  Setting a backup address of more than 16 characters is refused with the mutex still held
  (and the old address erased), so every later call that locks it blocks for ever.
\<close>

theorem set_mqtt_backup_ip_leaks_lock:
  assumes "\<not> g_locked g" "16 < length ip"
  shows "\<exists>g'. core_global_set_mqtt_backup_ip ip g = Some (STATE_USER_INPUT_OUT_RANGE, g')
    \<and> core_global_alink_id_next g' = None
    \<and> core_global_get_mqtt_backup_ip buf g' = None
    \<and> core_global_set_mqtt_backup_ip ip2 g' = None"
  using assms by (simp add: core_global_set_mqtt_backup_ip_def core_global_get_mqtt_backup_ip_def
      core_global_alink_id_next_def g_lock_def Let_def)

lemma set_mqtt_backup_ip_leaks_lock_witness:
  "\<exists>g'. core_global_set_mqtt_backup_ip (replicate 17 (CHR ''1'')) g_core_global_initial
     = Some (STATE_USER_INPUT_OUT_RANGE, g') \<and> core_global_alink_id_next g' = None"
  using set_mqtt_backup_ip_leaks_lock [of g_core_global_initial "replicate 17 (CHR ''1'')"]
  by (auto simp: g_core_global_initial_def)

end
