(* ===== verification/Core_List.thy ===== *)
theory Core_List
  imports Prelude
begin

text \<open>
  \<^verbatim>\<open>core/utils/core_list.h\<close>: the intrusive doubly linked list the SDK keeps its
  subscriptions, handlers and cached publications in. The nodes are addresses, the links two maps on
  addresses, as the C fields; \<open>is_list\<close> says which sequence of nodes hangs on a list head.
\<close>

record 'p links =
  nxt :: "'p \<Rightarrow> 'p"
  prv :: "'p \<Rightarrow> 'p"

definition CORE_INIT_LIST_HEAD :: "'p \<Rightarrow> 'p links \<Rightarrow> 'p links" where
  "CORE_INIT_LIST_HEAD l h = h \<lparr> nxt := (nxt h)(l := l), prv := (prv h)(l := l) \<rparr>"

text \<open>The four assignments in their order.\<close>

definition core_list_add_between :: "'p \<Rightarrow> 'p \<Rightarrow> 'p \<Rightarrow> 'p links \<Rightarrow> 'p links" where
  "core_list_add_between node p n h =
     (let h1 = h \<lparr> prv := (prv h)(n := node) \<rparr>;
          h2 = h1 \<lparr> nxt := (nxt h1)(node := n) \<rparr>;
          h3 = h2 \<lparr> prv := (prv h2)(node := p) \<rparr>
      in h3 \<lparr> nxt := (nxt h3)(p := node) \<rparr>)"

definition core_list_add :: "'p \<Rightarrow> 'p \<Rightarrow> 'p links \<Rightarrow> 'p links" where
  "core_list_add node head h = core_list_add_between node head (nxt h head) h"

definition core_list_add_tail :: "'p \<Rightarrow> 'p \<Rightarrow> 'p links \<Rightarrow> 'p links" where
  "core_list_add_tail node head h = core_list_add_between node (prv h head) head h"

definition core_list_del_between :: "'p \<Rightarrow> 'p \<Rightarrow> 'p links \<Rightarrow> 'p links" where
  "core_list_del_between p n h =
     (let h1 = h \<lparr> prv := (prv h)(n := p) \<rparr> in h1 \<lparr> nxt := (nxt h1)(p := n) \<rparr>)"

definition core_list_del_entry :: "'p \<Rightarrow> 'p links \<Rightarrow> 'p links" where
  "core_list_del_entry entry h = core_list_del_between (prv h entry) (nxt h entry) h"

definition core_list_del :: "'p \<Rightarrow> 'p links \<Rightarrow> 'p links" where
  "core_list_del entry h =
     (let h1 = core_list_del_entry entry h; h2 = h1 \<lparr> nxt := (nxt h1)(entry := entry) \<rparr>
      in h2 \<lparr> prv := (prv h2)(entry := entry) \<rparr>)"

definition core_list_empty :: "'p \<Rightarrow> 'p links \<Rightarrow> bool" where
  "core_list_empty head h \<longleftrightarrow> nxt h head = head"

text \<open>
  The two iteration macros. The body sees a node and may change the links; \<open>fuel\<close> bounds the
  rounds, and running out of it is \<open>None\<close>. The result has the nodes in the order of the visits.
\<close>

fun core_list_for_each :: "nat \<Rightarrow> 'p \<Rightarrow> 'p links \<Rightarrow> 'p \<Rightarrow> 'p list option" where
  "core_list_for_each 0 head h pos = None"
| "core_list_for_each (Suc fuel) head h pos =
     (if pos = head then Some []
      else map_option (\<lambda>ps. pos # ps) (core_list_for_each fuel head h (nxt h pos)))"

fun core_list_for_each_safe ::
  "nat \<Rightarrow> ('p \<Rightarrow> 'p links \<Rightarrow> 'p links) \<Rightarrow> 'p \<Rightarrow> 'p links \<Rightarrow> 'p \<Rightarrow> 'p \<Rightarrow> ('p list \<times> 'p links) option" where
  "core_list_for_each_safe 0 body head h pos n = None"
| "core_list_for_each_safe (Suc fuel) body head h pos n =
     (if pos = head then Some ([], h)
      else let h' = body pos h in
        map_option (\<lambda>(ps, h'). (pos # ps, h'))
          (core_list_for_each_safe fuel body head h' n (nxt h' n)))"

section \<open>The sequence on a list head\<close>

fun linked :: "'p links \<Rightarrow> 'p \<Rightarrow> 'p list \<Rightarrow> 'p \<Rightarrow> bool" where
  "linked h a [] b \<longleftrightarrow> nxt h a = b \<and> prv h b = a"
| "linked h a (x # xs) b \<longleftrightarrow> nxt h a = x \<and> prv h x = a \<and> linked h x xs b"

definition is_list :: "'p links \<Rightarrow> 'p \<Rightarrow> 'p list \<Rightarrow> bool" where
  "is_list h head xs \<longleftrightarrow> linked h head xs head \<and> distinct (head # xs)"

lemma linked_append [simp]:
  "linked h a (xs @ x # ys) b \<longleftrightarrow> linked h a xs x \<and> linked h x ys b"
  by (induction xs arbitrary: a) auto

lemma linked_frame:
  assumes "\<forall>x \<in> set (a # xs). nxt h' x = nxt h x" "\<forall>x \<in> set (xs @ [b]). prv h' x = prv h x"
  shows "linked h' a xs b \<longleftrightarrow> linked h a xs b"
  using assms by (induction xs arbitrary: a) auto

lemma linked_last: "linked h a (xs @ [x]) b \<Longrightarrow> prv h b = x"
  by simp

lemma linked_nxt: "linked h a xs b \<Longrightarrow> nxt h a = (case xs of [] \<Rightarrow> b | x # _ \<Rightarrow> x)"
  by (cases xs) auto

lemma linked_prv: "linked h a xs b \<Longrightarrow> prv h b = (if xs = [] then a else last xs)"
  by (induction xs arbitrary: a) auto

lemma is_list_distinct: "is_list h head xs \<Longrightarrow> distinct xs"
  by (simp add: is_list_def)

lemma is_list_init: "is_list (CORE_INIT_LIST_HEAD l h) l []"
  by (simp add: is_list_def CORE_INIT_LIST_HEAD_def)

lemma is_list_add:
  assumes "is_list h head xs" "node \<notin> set (head # xs)"
  shows "is_list (core_list_add node head h) head (node # xs)"
proof (cases xs)
  case Nil
  with assms show ?thesis
    by (auto simp: is_list_def core_list_add_def core_list_add_between_def Let_def)
next
  case (Cons y ys)
  have "linked (core_list_add node head h) y ys head \<longleftrightarrow> linked h y ys head"
    using assms Cons by (intro linked_frame)
      (auto simp: is_list_def core_list_add_def core_list_add_between_def Let_def)
  with assms Cons show ?thesis
    by (auto simp: is_list_def core_list_add_def core_list_add_between_def Let_def)
qed

lemma is_list_add_tail:
  assumes "is_list h head xs" "node \<notin> set (head # xs)"
  shows "is_list (core_list_add_tail node head h) head (xs @ [node])"
proof (cases xs rule: rev_cases)
  case Nil
  with assms show ?thesis
    by (auto simp: is_list_def core_list_add_tail_def core_list_add_between_def Let_def)
next
  case (snoc ys y)
  have "linked (core_list_add_tail node head h) head ys y \<longleftrightarrow> linked h head ys y"
    using assms snoc by (intro linked_frame)
      (auto simp: is_list_def core_list_add_tail_def core_list_add_between_def Let_def)
  with assms snoc show ?thesis
    by (auto simp: is_list_def core_list_add_tail_def core_list_add_between_def Let_def)
qed

lemma is_list_del:
  assumes "is_list h head (xs @ e # ys)"
  shows "is_list (core_list_del e h) head (xs @ ys)"
    and "nxt (core_list_del e h) e = e" and "prv (core_list_del e h) e = e"
proof -
  let ?h = "core_list_del e h"
  have l: "linked h head xs e" "linked h e ys head" and d: "distinct (head # xs @ e # ys)"
    using assms by (auto simp: is_list_def)
  have p: "prv h e = (if xs = [] then head else last xs)" using l by (simp add: linked_prv)
  have n: "nxt h e = (case ys of [] \<Rightarrow> head | y # _ \<Rightarrow> y)" using l by (simp add: linked_nxt)
  show "nxt ?h e = e" "prv ?h e = e" by (simp_all add: core_list_del_def Let_def)
  have "linked ?h head (xs @ ys) head"
  proof (cases xs rule: rev_cases)
    case Nil
    show ?thesis
    proof (cases ys)
      case (Cons y zs)
      have "linked ?h y zs head \<longleftrightarrow> linked h y zs head"
        using d p n Nil Cons by (intro linked_frame)
          (auto simp: core_list_del_def core_list_del_entry_def core_list_del_between_def Let_def)
      with l d p n Nil Cons show ?thesis
        by (auto simp: core_list_del_def core_list_del_entry_def core_list_del_between_def Let_def)
    qed (use l d p n Nil in \<open>auto simp: core_list_del_def core_list_del_entry_def
          core_list_del_between_def Let_def\<close>)
  next
    case (snoc ws w)
    have pre: "linked ?h head ws w \<longleftrightarrow> linked h head ws w"
      using d p n snoc by (intro linked_frame)
        (auto simp: core_list_del_def core_list_del_entry_def core_list_del_between_def Let_def
          split: list.splits)
    show ?thesis
    proof (cases ys)
      case Nil
      with l d p n snoc pre show ?thesis
        by (auto simp: core_list_del_def core_list_del_entry_def core_list_del_between_def Let_def)
    next
      case (Cons y zs)
      have "linked ?h y zs head \<longleftrightarrow> linked h y zs head"
        using d p n snoc Cons by (intro linked_frame)
          (auto simp: core_list_del_def core_list_del_entry_def core_list_del_between_def Let_def)
      with l d p n snoc Cons pre show ?thesis
        by (auto simp: core_list_del_def core_list_del_entry_def core_list_del_between_def Let_def)
    qed
  qed
  with d show "is_list ?h head (xs @ ys)" by (auto simp: is_list_def)
qed

lemma is_list_empty: "is_list h head xs \<Longrightarrow> core_list_empty head h \<longleftrightarrow> xs = []"
  by (cases xs) (auto simp: is_list_def core_list_empty_def)

section \<open>Iteration\<close>

lemma for_each_linked:
  assumes "linked h a xs head" "head \<notin> set xs" "length xs < fuel"
  shows "core_list_for_each fuel head h (nxt h a) = Some xs"
  using assms
proof (induction xs arbitrary: a fuel)
  case Nil
  then show ?case by (cases fuel) auto
next
  case (Cons x xs)
  then show ?case by (cases fuel) auto
qed

definition delete_if :: "('p \<Rightarrow> bool) \<Rightarrow> 'p \<Rightarrow> 'p links \<Rightarrow> 'p links" where
  "delete_if Q p h = (if Q p then core_list_del p h else h)"

lemma is_list_first: "is_list h head (dn @ p # todo) \<Longrightarrow> nxt h p = (case todo of [] \<Rightarrow> head | q # _ \<Rightarrow> q)"
  unfolding is_list_def using linked_nxt [of h p todo head] by simp

lemma for_each_safe_delete:
  assumes "is_list h head (dn @ todo)" "length todo < fuel"
    "pos = (case todo of [] \<Rightarrow> head | p # _ \<Rightarrow> p)" "todo \<noteq> [] \<longrightarrow> n = nxt h pos"
  shows "\<exists>h'. core_list_for_each_safe fuel (delete_if Q) head h pos n = Some (todo, h')
           \<and> is_list h' head (dn @ filter (\<lambda>p. \<not> Q p) todo)"
  using assms
proof (induction todo arbitrary: fuel h dn pos n)
  case Nil
  then show ?case by (cases fuel) auto
next
  case (Cons p todo)
  then obtain f where f: "fuel = Suc f" by (cases fuel) auto
  let ?h = "delete_if Q p h"
  let ?dn = "if Q p then dn else dn @ [p]"
  have "is_list ?h head (?dn @ todo)"
    using Cons.prems(1) is_list_del(1) [of h head dn p todo] by (simp add: delete_if_def)
  moreover have "n = (case todo of [] \<Rightarrow> head | q # _ \<Rightarrow> q)"
    using Cons.prems is_list_first [of h head dn p todo] by simp
  ultimately obtain h' where "core_list_for_each_safe f (delete_if Q) head ?h n (nxt ?h n) = Some (todo, h')"
    and "is_list h' head (?dn @ filter (\<lambda>p. \<not> Q p) todo)"
    using Cons.IH [of ?h ?dn f n "nxt ?h n"] Cons.prems(2) f by auto
  moreover have "pos = p" "p \<noteq> head" using Cons.prems(1,3) by (auto simp: is_list_def)
  ultimately show ?case using f by (auto simp: Let_def)
qed

section \<open>The list as a sequence\<close>

text \<open>What the SDK's modules rely on: a head represents a sequence of distinct nodes.\<close>

locale node_sequence =
  fixes rep :: "'s \<Rightarrow> 'p list \<Rightarrow> bool" and fresh :: "'s \<Rightarrow> 'p list \<Rightarrow> 'p \<Rightarrow> bool"
    and push_back :: "'p \<Rightarrow> 's \<Rightarrow> 's" and remove :: "'p \<Rightarrow> 's \<Rightarrow> 's"
  assumes push_back_rep: "rep s xs \<Longrightarrow> fresh s xs p \<Longrightarrow> rep (push_back p s) (xs @ [p])"
    and remove_rep: "rep s (xs @ p # ys) \<Longrightarrow> rep (remove p s) (xs @ ys)"
    and rep_distinct: "rep s xs \<Longrightarrow> distinct xs"
    and fresh_push: "fresh s xs p \<Longrightarrow> fresh s xs q \<Longrightarrow> p \<noteq> q \<Longrightarrow> fresh (push_back q s) (xs @ [q]) p"
begin

lemma push_all:
  assumes "rep s xs" "\<forall>p \<in> set ps. fresh s xs p" "distinct ps"
  shows "rep (fold push_back ps s) (xs @ ps)"
  using assms
proof (induction ps arbitrary: s xs)
  case (Cons p ps)
  then have "rep (fold push_back ps (push_back p s)) ((xs @ [p]) @ ps)"
    by (intro Cons.IH) (auto intro!: push_back_rep fresh_push)
  then show ?case by simp
qed simp

lemma remove_all: "rep s (ps @ xs) \<Longrightarrow> rep (fold remove ps s) xs"
proof (induction ps arbitrary: s)
  case (Cons p ps)
  then show ?case using remove_rep [of s "[]" p "ps @ xs"] by simp
qed simp

lemma fifo:
  assumes "rep s []" "\<forall>p \<in> set (ps @ qs). fresh s [] p" "distinct (ps @ qs)"
  shows "rep (fold remove ps (fold push_back (ps @ qs) s)) qs"
  using push_all [OF assms] remove_all [of _ ps qs] by simp

end

interpretation dlist: node_sequence "\<lambda>h. is_list h head" "\<lambda>h xs p. p \<notin> set (head # xs)"
  "\<lambda>p. core_list_add_tail p head" core_list_del for head
  by unfold_locales (auto intro: is_list_add_tail is_list_del(1) dest: is_list_distinct)

section \<open>The properties of this component\<close>


definition sample_links :: "nat links" where
  "sample_links = core_list_add_tail 2 0 (core_list_add_tail 1 0
     (CORE_INIT_LIST_HEAD 0 \<lparr> nxt = (\<lambda>_. 9), prv = (\<lambda>_. 9) \<rparr>))"

lemma is_list_sample: "is_list sample_links 0 [1, 2]"
  by (simp add: sample_links_def is_list_def core_list_add_tail_def core_list_add_between_def
      CORE_INIT_LIST_HEAD_def Let_def)


text \<open>
  The removal-safe iteration, with a body that deletes the nodes it selects, visits every node
  once in order, ends, and leaves exactly the nodes that were not selected; the plain iteration
  visits the sequence.
\<close>

theorem core_list_iteration:
  assumes "is_list h head xs" "length xs < fuel"
  shows "core_list_for_each fuel head h (nxt h head) = Some xs
    \<and> (\<exists>h'. core_list_for_each_safe fuel (delete_if Q) head h (nxt h head) (nxt h (nxt h head))
            = Some (xs, h') \<and> is_list h' head (filter (\<lambda>p. \<not> Q p) xs))"
proof -
  have l: "linked h head xs head" "head \<notin> set xs" using assms by (auto simp: is_list_def)
  then have "nxt h head = (case xs of [] \<Rightarrow> head | p # _ \<Rightarrow> p)" by (simp add: linked_nxt)
  then show ?thesis
    using for_each_linked [OF l assms(2)] for_each_safe_delete [of h head "[]" xs fuel] assms by simp
qed

lemma core_list_iteration_witness:
  "\<exists>h'. core_list_for_each_safe 3 (delete_if odd) 0 sample_links (nxt sample_links 0)
      (nxt sample_links (nxt sample_links 0)) = Some ([1, 2], h') \<and> is_list h' (0 :: nat) [2]"
  using core_list_iteration [OF is_list_sample, of 3 odd] by simp

text \<open>
  Nodes appended at the tail and taken from the front leave in the order they came: after
  appending \<open>ps @ qs\<close> to an empty list and deleting the nodes \<open>ps\<close>, the head carries
  \<open>qs\<close>.
\<close>

theorem core_list_fifo:
  assumes "is_list h head []" "head \<notin> set (ps @ qs)" "distinct (ps @ qs)"
  shows "is_list (fold core_list_del ps (fold (\<lambda>p. core_list_add_tail p head) (ps @ qs) h)) head qs"
  using assms by (intro dlist.fifo) auto

lemma core_list_fifo_witness:
  "is_list (fold core_list_del [1, 2] (fold (\<lambda>p. core_list_add_tail p 0) ([1, 2] @ [3])
     (CORE_INIT_LIST_HEAD 0 sample_links))) (0 :: nat) [3]"
  using core_list_fifo [OF is_list_init, of 0 "[1, 2]" "[3]" sample_links] by simp

end
