(* ===== verification/Mqtt_Codec.thy ===== *)
theory Mqtt_Codec
  imports Prelude "HOL-Library.State_Monad"
begin

unbundle bit_operations_syntax

text \<open>
  The packet formats of \<^verbatim>\<open>core/aiot_mqtt_api.c\<close>: remaining length, length-prefixed
  strings, the CONNECT, SUBSCRIBE/UNSUBSCRIBE, PUBLISH and PUBACK packets the client builds, the
  CONNACK, PUBLISH and (UN)SUBACK packets it takes apart, and the topic filters. Packets are byte
  lists; what a builder writes is compared with the size it allocated (\<open>Undef\<close> where the
  bytes do not fit).
\<close>

section \<open>Constants\<close>

abbreviation (input) CORE_MQTT_TOPIC_MAXLEN :: nat where "CORE_MQTT_TOPIC_MAXLEN \<equiv> 128"
abbreviation (input) CORE_MQTT_PAYLOAD_MAXLEN :: u32 where "CORE_MQTT_PAYLOAD_MAXLEN \<equiv> 1048577"

section \<open>Remaining length\<close>

function core_mqtt_remain_len_encode :: "u32 \<Rightarrow> byte list" where
  "core_mqtt_remain_len_encode input =
     (let encoded_byte = ucast (input mod 128); input' = input div 128
      in if input' > 0 then (encoded_byte OR 128) # core_mqtt_remain_len_encode input'
         else [encoded_byte])"
  by pat_completeness auto
termination
proof (relation "measure unat")
  fix input x xa :: u32 and y :: byte
  assume "x = input div 128" "0 < x"
  then have "unat input div 128 > 0" "unat x = unat input div 128"
    by (simp_all add: word_less_nat_alt unat_div)
  then show "(x, input) \<in> measure unat" by simp
qed simp

declare core_mqtt_remain_len_encode.simps [simp del]

text \<open>
  The reading loop, over any source of bytes \<open>rd\<close> (the network in the client); the multiplier
  of round \<open>i\<close> is \<open>128 ^ i\<close>, and the test against \<open>128 ^ 3\<close> ends the loop
  in the fifth round at the latest.
\<close>

function remainlen_loop ::
  "('s, int + byte) state \<Rightarrow> nat \<Rightarrow> u32 \<Rightarrow> ('s, int + u32) state" where
  "remainlen_loop rd i mqtt_remainlen =
     do {
       r \<leftarrow> rd;
       case r of
         Inl e \<Rightarrow> State_Monad.return (Inl e)
       | Inr ch \<Rightarrow>
           (let total = mqtt_remainlen + ucast (ch AND 127) * 128 ^ i in
            if i > 3 then State_Monad.return (Inl STATE_MQTT_MALFORMED_REMAINING_LEN)
            else if ch AND 128 \<noteq> 0 then remainlen_loop rd (Suc i) total
            else State_Monad.return (Inr total))
     }"
  by pat_completeness auto
termination by (relation "measure (\<lambda>(rd, i, t). 5 - i)") auto

declare remainlen_loop.simps [simp del]

section \<open>Strings and packet ids\<close>

text \<open>
  \<open>core_mqtt_set_utf8_encoded_str\<close> takes the length as a \<^verbatim>\<open>uint16_t\<close>;
  the callers move their index by the whole length, over bytes that were zeroed.
\<close>

definition u16_bytes :: "u16 \<Rightarrow> byte list" where
  "u16_bytes n = [ucast (drop_bit 8 n AND 0x00FF), ucast (n AND 0x00FF)]"

definition u16_of_bytes :: "byte \<Rightarrow> byte \<Rightarrow> u16" where
  "u16_of_bytes hi lo = push_bit 8 (ucast hi) OR ucast lo"

definition core_mqtt_set_utf8_encoded_str :: "byte list \<Rightarrow> u16 \<Rightarrow> byte list" where
  "core_mqtt_set_utf8_encoded_str input input_len = u16_bytes input_len @ take (unat input_len) input"

definition utf8_field :: "byte list \<Rightarrow> byte list" where
  "utf8_field s = (let w = core_mqtt_set_utf8_encoded_str s (of_nat (length s))
     in w @ replicate (2 + length s - length w) 0)"

section \<open>Packets the client builds\<close>

definition core_mqtt_conn_pkt ::
  "bool \<Rightarrow> u8 \<Rightarrow> u16 \<Rightarrow> string \<Rightarrow> string \<Rightarrow> string \<Rightarrow> byte list outcome" where
  "core_mqtt_conn_pkt malloc_ok clean_session keep_alive_s clientid username password =
     (let conn_payload_len = of_nat (length clientid + length username + length password + 3 * 2) :: u32;
          conn_remainlen = 10 + conn_payload_len;
          conn_pkt_len = 15 + conn_payload_len;
          pkt = 0x10 # core_mqtt_remain_len_encode conn_remainlen
                @ [0x00, 0x04, 0x4D, 0x51, 0x54, 0x54]
                @ [0x04]
                @ [0xC0 OR push_bit 1 clean_session]
                @ u16_bytes keep_alive_s
                @ utf8_field (bytes_of clientid) @ utf8_field (bytes_of username)
                @ utf8_field (bytes_of password)
      in if \<not> malloc_ok then Err STATE_SYS_DEPEND_MALLOC_FAILED
         else if unat conn_pkt_len < length pkt then Undef
         else Ok pkt)"

text \<open>\<open>pkt_type\<close> is \<open>0x80\<close> to subscribe and \<open>0xA0\<close> to unsubscribe.\<close>

definition subunsub_pkt :: "string \<Rightarrow> u16 \<Rightarrow> u8 \<Rightarrow> u8 \<Rightarrow> u16 \<Rightarrow> byte list outcome" where
  "subunsub_pkt topic topic_len qos pkt_type packet_id =
     (let remainlen = 2 + 2 + ucast topic_len + (if pkt_type = 0x80 then 1 else 0) :: u32;
          pkt_len = 1 + 4 + remainlen;
          pkt = (pkt_type OR 0x02) # core_mqtt_remain_len_encode remainlen
                @ u16_bytes packet_id @ u16_bytes topic_len
                @ take (unat topic_len) (bytes_of topic)
                @ (if pkt_type = 0x80 then [qos] else [])
      in if length topic < unat topic_len then Undef
         else if unat pkt_len < length pkt then Undef
         else Ok pkt)"

definition publish_pkt :: "byte list \<Rightarrow> byte list \<Rightarrow> u8 \<Rightarrow> u16 \<Rightarrow> byte list outcome" where
  "publish_pkt topic payload qos packet_id =
     (let remainlen = of_nat (length topic) + of_nat (length payload) + 2
            + (if qos = 0x01 then 2 else 0) :: u32;
          pkt_len = 1 + 4 + remainlen;
          pkt = (0x30 OR push_bit 1 qos) # core_mqtt_remain_len_encode remainlen
                @ utf8_field topic
                @ (if qos = 0x01 then u16_bytes packet_id else [])
                @ payload
      in if unat pkt_len < length pkt then Undef else Ok pkt)"

definition puback_pkt :: "u16 \<Rightarrow> byte list" where
  "puback_pkt packet_id = 0x40 # 2 # u16_bytes packet_id"

section \<open>Packets the client takes apart\<close>

definition core_mqtt_connack_handle :: "byte list \<Rightarrow> int" where
  "core_mqtt_connack_handle connack =
     (if connack ! 1 = 0x00 then STATE_SUCCESS
      else if connack ! 1 = 0x01 then STATE_MQTT_CONNACK_RCODE_UNACCEPTABLE_PROTOCOL_VERSION
      else if connack ! 1 = 0x02 then STATE_MQTT_CONNACK_RCODE_SERVER_UNAVAILABLE
      else if connack ! 1 = 0x03 then STATE_MQTT_CONNACK_RCODE_BAD_USERNAME_PASSWORD
      else if connack ! 1 = 0x04 then STATE_MQTT_CONNACK_RCODE_NOT_AUTHORIZED
      else STATE_MQTT_CONNACK_RCODE_UNKNOWN)"

text \<open>
  What the handler of a PUBLISH packet reads before it calls anybody: offset and length of the
  topic, the packet id (0 for QoS 0), offset and length of the payload. The lengths are computed at
  32 bits, as in the code.
\<close>

record publish_view =
  pv_topic_off :: nat
  pv_topic_len :: u16
  pv_packet_id :: u16
  pv_payload_off :: nat
  pv_payload_len :: u32

definition parse_publish :: "byte list \<Rightarrow> u8 \<Rightarrow> publish_view outcome" where
  "parse_publish input qos =
     (let len = length input in
      if input = [] \<or> len = 0 \<or> qos > 0x01 then Err STATE_MQTT_RECV_INVALID_PUBLISH_PACKET
      else if len < 2 then Err STATE_MQTT_RECV_INVALID_PUBLISH_PACKET
      else
        let topic_len = u16_of_bytes (input ! 0) (input ! 1);
            idx = 2 + unat topic_len
        in if len < idx then Err STATE_MQTT_RECV_INVALID_PUBLISH_PACKET
           else if qos = 0x01 \<and> len < idx + 2 then Err STATE_MQTT_RECV_INVALID_PUBLISH_PACKET
           else
             let packet_id = (if qos = 0x01 then u16_of_bytes (input ! idx) (input ! (idx + 1)) else 0);
                 idx' = (if qos = 0x01 then idx + 2 else idx)
             in if int len - 2 - int (unat topic_len) < 0 then Err STATE_MQTT_RECV_INVALID_PUBLISH_PACKET
                else Ok \<lparr> pv_topic_off = 2, pv_topic_len = topic_len, pv_packet_id = packet_id,
                       pv_payload_off = idx',
                       pv_payload_len = of_nat len - 2 - ucast topic_len
                         - (if qos = 0x01 then 2 else 0) \<rparr>)"

datatype suback =
    Sub_ack (sa_packet_id : u16) (sa_res : int) (sa_max_qos : u8)
  | Unsub_ack (ua_packet_id : u16)

definition suback_entry :: "byte list \<Rightarrow> suback" where
  "suback_entry e =
     (let packet_id = u16_of_bytes (e ! 0) (e ! 1) in
      if e ! 2 = 0x00 \<or> e ! 2 = 0x01 \<or> e ! 2 = 0x02 then Sub_ack packet_id STATE_SUCCESS (e ! 2)
      else if e ! 2 = 0x80 then Sub_ack packet_id STATE_MQTT_SUBACK_RCODE_FAILURE 0
      else Sub_ack packet_id STATE_MQTT_SUBACK_RCODE_UNKNOWN 0)"

text \<open>
  The loop of the (UN)SUBACK handler; each list element is one call of the user's handler. The
  tests before the loop make the input a whole number of entries.
\<close>

fun suback_loop :: "byte list \<Rightarrow> suback list outcome" where
  "suback_loop [] = Ok []"
| "suback_loop (a # b # c # rest) = obind (suback_loop rest) (\<lambda>es. Ok (suback_entry [a, b, c] # es))"
| "suback_loop input = Undef"

fun unsuback_loop :: "byte list \<Rightarrow> suback list outcome" where
  "unsuback_loop [] = Ok []"
| "unsuback_loop (a # b # rest) = obind (unsuback_loop rest) (\<lambda>es. Ok (Unsub_ack (u16_of_bytes a b) # es))"
| "unsuback_loop input = Undef"

definition subunsuback_entries :: "byte list \<Rightarrow> u8 \<Rightarrow> suback list outcome" where
  "subunsuback_entries input packet_type =
     (if input = [] \<or> (packet_type = 0x90 \<and> length input mod 3 \<noteq> 0)
         \<or> (packet_type = 0xB0 \<and> length input mod 2 \<noteq> 0) then Ok []
      else if packet_type = 0x90 then suback_loop input else unsuback_loop input)"

section \<open>Topics and filters\<close>

text \<open>The loop of the validity check, from index 1: the character before, the rest from here.\<close>

fun topic_valid_loop :: "char \<Rightarrow> string \<Rightarrow> bool" where
  "topic_valid_loop prev [] = True"
| "topic_valid_loop prev (c # rest) =
     (if c = CHR ''+'' \<and> (prev \<noteq> CHR ''/'' \<or> (rest \<noteq> [] \<and> hd rest \<noteq> CHR ''/'')) then False
      else if c = CHR ''#'' \<and> (prev \<noteq> CHR ''/'' \<or> rest \<noteq> []) then False
      else topic_valid_loop c rest)"

definition core_mqtt_topic_is_valid :: "u8 \<Rightarrow> string \<Rightarrow> int" where
  "core_mqtt_topic_is_valid topic_header_check topic =
     (if topic_header_check \<noteq> 0 \<and> (topic = [] \<or> hd topic \<noteq> CHR ''/'') then STATE_MQTT_TOPIC_INVALID
      else if topic \<noteq> [] \<and> \<not> topic_valid_loop (hd topic) (tl topic) then STATE_MQTT_TOPIC_INVALID
      else STATE_SUCCESS)"

text \<open>
  \<open>core_mqtt_topic_compare\<close> on what is left of the filter and of the topic; the inner loop
  of a \<open>+\<close> runs to the next slash of the topic.
\<close>

fun core_mqtt_topic_compare :: "string \<Rightarrow> string \<Rightarrow> int" where
  "core_mqtt_topic_compare [] cmp =
     (if cmp \<noteq> [] then STATE_MQTT_TOPIC_COMPARE_FAILED else STATE_SUCCESS)"
| "core_mqtt_topic_compare (c # topic) cmp =
     (if cmp = [] then
        (if c # topic = ''/#'' then STATE_SUCCESS else STATE_MQTT_TOPIC_COMPARE_FAILED)
      else if c = CHR ''#'' then STATE_SUCCESS
      else if c = CHR ''+'' then
        (let rest = dropWhile (\<lambda>x. x \<noteq> CHR ''/'') cmp in
         if rest \<noteq> [] \<and> topic = [] then STATE_MQTT_TOPIC_COMPARE_FAILED
         else core_mqtt_topic_compare topic rest)
      else if c \<noteq> hd cmp then STATE_MQTT_TOPIC_COMPARE_FAILED
      else core_mqtt_topic_compare topic (tl cmp))"

section \<open>Properties: topic filters\<close>

text \<open>
  MQTT 3.1.1, section 4.7: a topic is a list of levels between slashes; \<open>+\<close> matches one
  level, a final \<open>#\<close> the parent and everything below it.
\<close>

fun levels :: "string \<Rightarrow> string list" where
  "levels [] = [[]]"
| "levels (c # s) = (if c = CHR ''/'' then [] # levels s else (c # hd (levels s)) # tl (levels s))"

fun mqtt_match :: "string list \<Rightarrow> string list \<Rightarrow> bool" where
  "mqtt_match [] ts \<longleftrightarrow> ts = []"
| "mqtt_match (f # fs) ts \<longleftrightarrow> f = ''#'' \<and> fs = []
     \<or> (case ts of [] \<Rightarrow> False | t # ts' \<Rightarrow> (f = ''+'' \<or> f = t) \<and> mqtt_match fs ts')"

lemma levels_nonempty [simp]: "levels s \<noteq> []"
  by (cases s) auto

lemma levels_hd_nil: "hd (levels s) = [] \<longleftrightarrow> s = [] \<or> hd s = CHR ''/''"
  by (cases s) auto

lemma levels_single_nil: "levels s = [[]] \<longleftrightarrow> s = []"
  by (cases s) auto

lemma levels_hash: "levels s = [''#''] \<longleftrightarrow> s = ''#''"
  by (cases s; cases "tl s") (auto split: if_splits)

lemma levels_cons: "levels s = hd (levels s) # tl (levels s)"
  by simp

lemma mqtt_match_nil: "mqtt_match fs [] \<longleftrightarrow> fs = [] \<or> fs = [''#'']"
  by (cases fs) auto

lemma levels_dropWhile:
  "\<exists>w. levels s = w # tl (levels (dropWhile (\<lambda>x. x \<noteq> CHR ''/'') s))
     \<and> hd (levels (dropWhile (\<lambda>x. x \<noteq> CHR ''/'') s)) = []"
  by (induction s) auto

text \<open>
  The two positions of the comparison: at the start of a level (\<open>prev\<close> is a slash, the
  topic has characters left) and inside a level.
\<close>

definition inside_match :: "string \<Rightarrow> string \<Rightarrow> bool" where
  "inside_match f t \<longleftrightarrow> hd (levels f) = hd (levels t) \<and> mqtt_match (tl (levels f)) (tl (levels t))"

lemma last_dropWhile: "dropWhile P s \<noteq> [] \<Longrightarrow> last (dropWhile P s) = last s"
  by (metis last_appendR takeWhile_dropWhile_id)

lemma topic_compare_levels:
  assumes "topic_valid_loop prev f" "t = [] \<or> last t \<noteq> CHR ''/''"
  shows "(prev = CHR ''/'' \<longrightarrow> t \<noteq> [] \<longrightarrow>
            (core_mqtt_topic_compare f t = STATE_SUCCESS \<longleftrightarrow> mqtt_match (levels f) (levels t)))
       \<and> (prev \<noteq> CHR ''/'' \<longrightarrow>
            (core_mqtt_topic_compare f t = STATE_SUCCESS \<longleftrightarrow> inside_match f t))"
  using assms
proof (induction f arbitrary: prev t)
  case Nil
  then show ?case by (cases t) (auto simp: inside_match_def)
next
  case (Cons c f)
  have rest: "topic_valid_loop c f" using Cons.prems(1) by (auto split: if_splits)
  show ?case
  proof (cases "c = CHR ''/''")
    case slash: True
    then have IH: "core_mqtt_topic_compare f u = STATE_SUCCESS \<longleftrightarrow> mqtt_match (levels f) (levels u)"
      if "u \<noteq> []" "last u \<noteq> CHR ''/''" for u
      using Cons.IH [OF rest, of u] that by auto
    show ?thesis
    proof (cases t)
      case Nil
      then show ?thesis using slash
        by (auto simp: inside_match_def mqtt_match_nil levels_hash)
    next
      case (Cons x u)
      with Cons.prems(2) have "x = CHR ''/'' \<longrightarrow> u \<noteq> []" "u \<noteq> [] \<longrightarrow> last u \<noteq> CHR ''/''"
        by (auto split: if_splits)
      with IH [of u] slash Cons show ?thesis by (auto simp: inside_match_def)
    qed
  next
    case noslash: False
    then have IH: "core_mqtt_topic_compare f u = STATE_SUCCESS \<longleftrightarrow> inside_match f u"
      if "u = [] \<or> last u \<noteq> CHR ''/''" for u
      using Cons.IH [OF rest, of u] that by auto
    consider (hash) "c = CHR ''#''" | (plus) "c = CHR ''+''" | (lit) "c \<noteq> CHR ''#''" "c \<noteq> CHR ''+''"
      by blast
    then show ?thesis
    proof cases
      case hash
      with Cons.prems(1) have "prev = CHR ''/''" "f = []" by (auto split: if_splits)
      with hash show ?thesis by (cases t) auto
    next
      case plus
      let ?u = "dropWhile (\<lambda>x. x \<noteq> CHR ''/'') t"
      have p: "prev = CHR ''/''" and f: "f = [] \<or> hd f = CHR ''/''"
        using plus Cons.prems(1) by (auto split: if_splits)
      have f': "hd (levels f) = []" using f by (simp add: levels_hd_nil)
      obtain w where w: "levels t = w # tl (levels ?u)" "hd (levels ?u) = []"
        using levels_dropWhile by blast
      have "?u = [] \<or> last ?u \<noteq> CHR ''/''"
        using Cons.prems(2) last_dropWhile [of "\<lambda>x. x \<noteq> CHR ''/''" t] by (cases t) auto
      from IH [OF this] have "core_mqtt_topic_compare f ?u = STATE_SUCCESS
          \<longleftrightarrow> mqtt_match (tl (levels f)) (tl (levels ?u))"
        using f' w by (simp add: inside_match_def)
      then show ?thesis using p plus f' w
        by (auto simp: Let_def)
    next
      case lit
      show ?thesis
      proof (cases t)
        case Nil
        then show ?thesis using lit noslash by (auto simp: inside_match_def)
      next
        case (Cons x u)
        with Cons.prems(2) have "u = [] \<or> last u \<noteq> CHR ''/''" by (auto split: if_splits)
        from IH [OF this] Cons lit noslash show ?thesis
          by (auto simp: inside_match_def levels_hd_nil)
      qed
    qed
  qed
qed

section \<open>Properties: remaining length\<close>

lemma bit_128: "bit (128 :: int) i \<longleftrightarrow> i = 7"
proof -
  have "(128 :: int) = 2 ^ 7" by simp
  then show ?thesis by (simp only: bit_exp_iff) auto
qed

lemma low7:
  fixes n :: u32
  shows "ucast ((ucast (n mod 128) :: byte) AND 127) = n mod 128"
    and "ucast (((ucast (n mod 128) :: byte) OR 128) AND 127) = n mod 128"
    and "(ucast (n mod 128) :: byte) AND 128 = 0"
    and "((ucast (n mod 128) :: byte) OR 128) AND 128 \<noteq> 0"
proof -
  have m: "n mod 128 = take_bit 7 n" "(127 :: byte) = mask 7"
    by (simp_all add: take_bit_eq_mod mask_eq_exp_minus_1)
  show first: "ucast ((ucast (n mod 128) :: byte) AND 127) = n mod 128"
    unfolding m by (rule bit_word_eqI) (auto simp: bit_simps)
  have "(x OR 128) AND 127 = x AND 127" for x :: byte
  proof -
    have "(128 :: byte) AND 127 = 0" by simp
    then show ?thesis by (simp only: and.commute [of _ 127] bit.conj_disj_distrib bit.disj_zero_right)
  qed
  then show "ucast (((ucast (n mod 128) :: byte) OR 128) AND 127) = n mod 128"
    using first by simp
  show "(ucast (n mod 128) :: byte) AND 128 = 0"
    unfolding m by (rule bit_word_eqI) (auto simp: bit_simps bit_128)
  have "bit (((ucast (n mod 128) :: byte) OR 128) AND 128) 7"
    unfolding m by (auto simp: bit_simps bit_128)
  then show "((ucast (n mod 128) :: byte) OR 128) AND 128 \<noteq> 0" by force
qed

text \<open>
  What reading needs of the network: a source that has bytes pending gives the first one.
\<close>

locale byte_source =
  fixes rd :: "('s, int + byte) state" and pending :: "'s \<Rightarrow> byte list \<Rightarrow> bool"
  assumes rd_pending: "pending s (b # bs) \<Longrightarrow> \<exists>s'. run_state rd s = (Inr b, s') \<and> pending s' bs"
begin

lemma loop_step:
  assumes "pending s (ch # bs)"
  shows "\<exists>s'. pending s' bs \<and> run_state (remainlen_loop rd i acc) s =
    (let total = acc + ucast (ch AND 127) * 128 ^ i in
     if i > 3 then (Inl STATE_MQTT_MALFORMED_REMAINING_LEN, s')
     else if ch AND 128 \<noteq> 0 then run_state (remainlen_loop rd (Suc i) total) s'
     else (Inr total, s'))"
proof -
  obtain s' where "run_state rd s = (Inr ch, s')" "pending s' bs"
    using rd_pending [OF assms] by blast
  then show ?thesis
    by (intro exI [of _ s'], subst remainlen_loop.simps) (auto simp: Let_def)
qed

lemma remainlen_decode:
  assumes "pending s (core_mqtt_remain_len_encode n @ rest)" "unat n < 128 ^ (4 - i)" "i \<le> 3"
  shows "\<exists>s'. run_state (remainlen_loop rd i acc) s = (Inr (acc + n * 128 ^ i), s')
           \<and> pending s' rest"
  using assms
proof (induction n arbitrary: s i acc rule: core_mqtt_remain_len_encode.induct)
  case (1 n)
  have n: "n = n div 128 * 128 + n mod 128" by (rule div_mult_mod_eq [symmetric])
  show ?case
  proof (cases "n div 128 > 0")
    case False
    then have "n = n mod 128" using n by (simp add: word_gt_0)
    moreover have "pending s (ucast (n mod 128) # rest)"
      using "1.prems"(1) False by (subst (asm) core_mqtt_remain_len_encode.simps) (simp add: Let_def)
    ultimately show ?thesis
      using loop_step [of s "ucast (n mod 128)" rest i acc] "1.prems"(3) low7(1,3) [of n]
      by (auto simp: Let_def)
  next
    case True
    then have u: "0 < unat n div 128" "unat (n div 128) = unat n div 128"
      by (simp_all add: word_less_nat_alt unat_div)
    then have "i < 3" using "1.prems"(2,3) by (cases "i = 3") auto
    have "unat n div 128 < 128 ^ (4 - Suc i)"
    proof -
      have "128 ^ (4 - i) = (128 :: nat) * 128 ^ (4 - Suc i)"
        using \<open>i < 3\<close> by (simp flip: power_Suc add: Suc_diff_Suc)
      then show ?thesis using "1.prems"(2) by (simp add: div_less_iff_less_mult mult.commute)
    qed
    moreover have "pending s ((ucast (n mod 128) OR 128)
        # core_mqtt_remain_len_encode (n div 128) @ rest)"
      using "1.prems"(1) True by (subst (asm) core_mqtt_remain_len_encode.simps) (simp add: Let_def)
    then obtain s' where s': "pending s' (core_mqtt_remain_len_encode (n div 128) @ rest)"
      "run_state (remainlen_loop rd i acc) s
       = run_state (remainlen_loop rd (Suc i) (acc + (n mod 128) * 128 ^ i)) s'"
      using loop_step [of s "ucast (n mod 128) OR 128" "core_mqtt_remain_len_encode (n div 128) @ rest" i acc]
        low7(2,4) [of n] \<open>i < 3\<close> by (auto simp: Let_def)
    moreover have "acc + (n mod 128) * 128 ^ i + (n div 128) * 128 ^ Suc i = acc + n * 128 ^ i"
      by (subst (3) n) (simp add: algebra_simps)
    note IH = "1.IH" [OF refl refl True, of s' "Suc i" "acc + (n mod 128) * 128 ^ i", unfolded this]
    ultimately show ?thesis using IH \<open>i < 3\<close> u(2) by simp
  qed
qed

lemma remainlen_roundtrip:
  assumes "pending s (core_mqtt_remain_len_encode n @ rest)" "n < 2 ^ 28"
  shows "\<exists>s'. run_state (remainlen_loop rd 0 0) s = (Inr n, s') \<and> pending s' rest"
  using remainlen_decode [OF assms(1), of 0 0] assms(2) by (simp add: word_less_nat_alt)

text \<open>Five bytes in a row with the continuation bit are refused, after five reads.\<close>

lemma remainlen_five:
  assumes "pending s ([a, b, c, d, e] @ rest)"
    "a AND 128 \<noteq> 0" "b AND 128 \<noteq> 0" "c AND 128 \<noteq> 0" "d AND 128 \<noteq> 0"
  shows "\<exists>s'. run_state (remainlen_loop rd 0 0) s
    = (Inl STATE_MQTT_MALFORMED_REMAINING_LEN, s') \<and> pending s' rest"
proof -
  obtain s1 where s1: "pending s1 ([b, c, d, e] @ rest)" "run_state (remainlen_loop rd 0 0) s
      = run_state (remainlen_loop rd (Suc 0) (ucast (a AND 127))) s1"
    using loop_step [of s a "[b, c, d, e] @ rest" 0 0] assms by (auto simp: Let_def)
  have next_byte: "\<exists>s' t'. pending s' bs \<and> run_state (remainlen_loop rd i t) s
      = run_state (remainlen_loop rd (Suc i) t') s'"
    if "pending s (x # bs)" "x AND 128 \<noteq> 0" "i \<le> 3" for s x bs i t
    using loop_step [OF that(1), of i t] that(2,3) by (auto simp: Let_def)
  obtain s2 t2 where s2: "pending s2 ([c, d, e] @ rest)" "run_state (remainlen_loop rd 0 0) s
      = run_state (remainlen_loop rd (Suc (Suc 0)) t2) s2"
    using next_byte [of s1 b "[c, d, e] @ rest" "Suc 0" "ucast (a AND 127)"] s1 assms(3) by auto
  obtain s3 t3 where s3: "pending s3 ([d, e] @ rest)" "run_state (remainlen_loop rd 0 0) s
      = run_state (remainlen_loop rd (Suc (Suc (Suc 0))) t3) s3"
    using next_byte [of s2 c "[d, e] @ rest" "Suc (Suc 0)" t2] s2 assms(4) by auto
  obtain s4 t4 where s4: "pending s4 (e # rest)" "run_state (remainlen_loop rd 0 0) s
      = run_state (remainlen_loop rd (Suc (Suc (Suc (Suc 0)))) t4) s4"
    using next_byte [of s3 d "e # rest" "Suc (Suc (Suc 0))" t3] s3 assms(5) by auto
  show ?thesis using loop_step [of s4 e rest "Suc (Suc (Suc (Suc 0)))"] s4 by (auto simp: Let_def)
qed

end

definition list_reader :: "(byte list, int + byte) state" where
  "list_reader = State (\<lambda>bs. case bs of [] \<Rightarrow> (Inl STATE_SYS_DEPEND_NWK_READ_LESSDATA, [])
     | b # bs' \<Rightarrow> (Inr b, bs'))"

interpretation list_source: byte_source list_reader "\<lambda>s bs. s = bs"
  by unfold_locales (simp add: list_reader_def)

lemma length_remain_len_encode:
  "unat n < 128 ^ k \<Longrightarrow> 0 < k \<Longrightarrow> length (core_mqtt_remain_len_encode n) \<le> k"
proof (induction n arbitrary: k rule: core_mqtt_remain_len_encode.induct)
  case (1 n)
  show ?case
  proof (cases "n div 128 > 0")
    case False
    with "1.prems" show ?thesis by (subst core_mqtt_remain_len_encode.simps) (simp add: Let_def)
  next
    case True
    then have u: "0 < unat n div 128" "unat (n div 128) = unat n div 128"
      by (simp_all add: word_less_nat_alt unat_div)
    then obtain k' where k: "k = Suc k'" "0 < k'"
      using "1.prems" by (cases k; cases "k - 1") auto
    with "1.prems" have "unat n div 128 < 128 ^ k'" by (simp add: div_less_iff_less_mult mult.commute)
    with u k "1.IH" [OF refl refl True, of k'] True show ?thesis
      by (subst core_mqtt_remain_len_encode.simps) (simp add: Let_def)
  qed
qed

lemma length_remain_len_encode_pos: "0 < length (core_mqtt_remain_len_encode n)"
  by (subst core_mqtt_remain_len_encode.simps) (simp add: Let_def)

section \<open>Properties: packets\<close>

lemma length_u16_bytes [simp]: "length (u16_bytes n) = 2"
  by (simp add: u16_bytes_def)

lemma u16_bytes_roundtrip: "u16_of_bytes (u16_bytes n ! 0) (u16_bytes n ! 1) = n"
proof -
  have m: "(0x00FF :: u16) = mask 8" by (simp add: mask_eq_exp_minus_1)
  show ?thesis
    unfolding u16_of_bytes_def u16_bytes_def m
    by (simp, rule bit_word_eqI) (auto simp: bit_simps)
qed

lemma u16_bytes_append_nth: "(u16_bytes n @ r) ! 0 = u16_bytes n ! 0" "(u16_bytes n @ r) ! Suc 0 = u16_bytes n ! 1"
  by (simp_all add: u16_bytes_def)

lemma length_utf8_field: "length (utf8_field s) = 2 + length s"
  by (simp add: utf8_field_def core_mqtt_set_utf8_encoded_str_def Let_def)

lemma utf8_field_short:
  assumes "length s < 2 ^ 16"
  shows "utf8_field s = u16_bytes (of_nat (length s)) @ s"
  using assms by (simp add: utf8_field_def core_mqtt_set_utf8_encoded_str_def Let_def unat_of_nat)

text \<open>The body of a PUBLISH packet, without the fixed header.\<close>

definition publish_body :: "byte list \<Rightarrow> byte list \<Rightarrow> u8 \<Rightarrow> u16 \<Rightarrow> byte list" where
  "publish_body topic payload qos packet_id =
     utf8_field topic @ (if qos = 0x01 then u16_bytes packet_id else []) @ payload"

lemma length_publish_body:
  "length (publish_body topic payload qos pid)
   = length topic + length payload + 2 + (if qos = 0x01 then 2 else 0)"
  by (simp add: publish_body_def length_utf8_field)

lemma publish_pkt_Ok:
  assumes "length topic + length payload + 4 < 2 ^ 28"
  shows "publish_pkt topic payload qos pid = Ok ((0x30 OR push_bit 1 qos)
    # core_mqtt_remain_len_encode (of_nat (length (publish_body topic payload qos pid)))
    @ publish_body topic payload qos pid)"
proof -
  let ?b = "publish_body topic payload qos pid"
  let ?n = "of_nat (length topic) + of_nat (length payload) + 2 + (if qos = 0x01 then 2 else 0) :: u32"
  have lb: "length ?b < 2 ^ 28" using assms by (simp add: length_publish_body)
  have n: "?n = of_nat (length ?b)" by (simp add: length_publish_body)
  have "unat (of_nat (length ?b) :: u32) = length ?b" using lb by (simp add: unat_of_nat)
  then have "unat (1 + 4 + of_nat (length ?b) :: u32) = 5 + length ?b"
    using lb by (simp add: unat_word_ariths)
  moreover have "length (core_mqtt_remain_len_encode (of_nat (length ?b))) \<le> 4"
    using lb by (intro length_remain_len_encode) (simp_all add: unat_of_nat)
  ultimately have "\<not> unat (1 + 4 + of_nat (length ?b) :: u32)
      < length ((0x30 OR push_bit 1 qos) # core_mqtt_remain_len_encode (of_nat (length ?b)) @ ?b)"
    by simp
  then show ?thesis
    unfolding publish_pkt_def Let_def n by (simp only: publish_body_def append_assoc append_Cons if_False)
qed

lemma parse_publish_body:
  assumes "qos = 0 \<or> qos = 1" "length topic < 2 ^ 16" "length topic + length payload + 4 < 2 ^ 28"
  shows "parse_publish (publish_body topic payload qos pid) qos = Ok
    \<lparr> pv_topic_off = 2, pv_topic_len = of_nat (length topic),
      pv_packet_id = (if qos = 1 then pid else 0),
      pv_payload_off = 2 + length topic + (if qos = 1 then 2 else 0),
      pv_payload_len = of_nat (length payload) \<rparr>"
proof -
  let ?b = "publish_body topic payload qos pid"
  have b: "?b = u16_bytes (of_nat (length topic)) @ topic
      @ (if qos = 0x01 then u16_bytes pid else []) @ payload"
    using assms(2) by (simp add: publish_body_def utf8_field_short)
  have tl: "u16_of_bytes (?b ! 0) (?b ! 1) = of_nat (length topic)"
    unfolding b using u16_bytes_roundtrip [of "of_nat (length topic)"]
    by (simp add: u16_bytes_append_nth)
  have ut: "unat (of_nat (length topic) :: u16) = length topic"
    using assms(2) by (simp add: unat_of_nat)
  have pid: "u16_of_bytes (?b ! (2 + length topic)) (?b ! (2 + length topic + 1)) = pid" if "qos = 1"
    unfolding b using that u16_bytes_roundtrip [of pid]
    by (simp add: nth_append u16_bytes_append_nth)
  have uc: "(ucast (of_nat (length topic) :: u16) :: u32) = of_nat (length topic)"
    using assms(2) by (simp add: word_unat_eq_iff unsigned_ucast_eq unat_of_nat take_bit_nat_eq_self_iff)
  show ?thesis
    using assms(1) pid ut tl uc length_publish_body [of topic payload qos pid]
    unfolding parse_publish_def Let_def by (auto simp: algebra_simps)
qed

lemma parse_publish_Ok:
  assumes "parse_publish input qos = Ok v"
  shows "2 + unat (pv_topic_len v) + (if qos = 1 then 2 else 0) \<le> length input"
    "pv_topic_off v = 2" "pv_payload_off v = 2 + unat (pv_topic_len v) + (if qos = 1 then 2 else 0)"
    "pv_payload_len v = of_nat (length input) - 2 - ucast (pv_topic_len v) - (if qos = 1 then 2 else 0)"
  using assms unfolding parse_publish_def Let_def by (auto split: if_splits)

lemma conn_pkt_Ok:
  fixes cs :: u8 and ka :: u16
  assumes "length clientid + length username + length password + 16 < 2 ^ 28"
  defines "body \<equiv> [0x00, 0x04, 0x4D, 0x51, 0x54, 0x54, 0x04, 0xC0 OR push_bit 1 cs] @ u16_bytes ka
    @ utf8_field (bytes_of clientid) @ utf8_field (bytes_of username) @ utf8_field (bytes_of password)"
  shows "core_mqtt_conn_pkt True cs ka clientid username password
    = Ok (0x10 # core_mqtt_remain_len_encode (of_nat (length body)) @ body)"
proof -
  let ?l = "length clientid + length username + length password"
  have lb: "length body = ?l + 16" by (simp add: body_def length_utf8_field)
  have n: "10 + (of_nat (?l + 3 * 2) :: u32) = of_nat (length body)" by (simp add: lb)
  have "15 + (of_nat (?l + 3 * 2) :: u32) = of_nat (?l + 21)" by simp
  moreover have "unat (of_nat (?l + 21) :: u32) = ?l + 21"
    unfolding unat_of_nat using assms by simp
  ultimately have alloc: "unat (15 + (of_nat (?l + 3 * 2) :: u32)) = ?l + 21" by (simp only:)
  have "length (core_mqtt_remain_len_encode (of_nat (length body))) \<le> 4"
    using assms lb by (intro length_remain_len_encode) (simp_all add: unat_of_nat del: of_nat_add)
  then have "\<not> ?l + 21 < length (0x10 # core_mqtt_remain_len_encode (of_nat (length body)) @ body)"
    by (simp add: lb)
  then show ?thesis
    unfolding core_mqtt_conn_pkt_def Let_def n alloc by (simp add: body_def)
qed

section \<open>The properties of this component\<close>

text \<open>
  Every remaining length below \<open>2 ^ 28\<close>, the MQTT maximum, is written in at most four
  bytes, and the reading loop of the client gives it back and stops right after it.
\<close>

theorem remaining_length_roundtrip:
  assumes "n < 2 ^ 28"
  shows "run_state (remainlen_loop list_reader 0 0) (core_mqtt_remain_len_encode n @ rest) = (Inr n, rest)
    \<and> length (core_mqtt_remain_len_encode n) \<le> 4"
  using list_source.remainlen_roundtrip [OF refl assms, of rest] assms
    length_remain_len_encode [of n 4] by (auto simp: word_less_nat_alt)

lemma remaining_length_roundtrip_witness:
  "run_state (remainlen_loop list_reader 0 0) (core_mqtt_remain_len_encode 321 @ [7]) = (Inr 321, [7])"
  using remaining_length_roundtrip [of 321 "[7]"] by simp



text \<open>A topic that ends in a slash has an empty last level, which the code does not match.\<close>

lemma empty_last_level:
  "core_mqtt_topic_compare ''/a/+'' ''/a/'' \<noteq> STATE_SUCCESS" "mqtt_match (levels ''/a/+'') (levels ''/a/'')"
  "core_mqtt_topic_compare ''/a/#'' ''/a/'' \<noteq> STATE_SUCCESS" "mqtt_match (levels ''/a/#'') (levels ''/a/'')"
  by code_simp+

text \<open>
  C10. A publication the client builds is a PUBLISH packet whose remaining length is that of its
  body, it fits its buffer, and the client's own handler of received publications reads back the
  topic, the payload and (for QoS 1) the packet id.
\<close>

theorem publish_roundtrip:
  assumes "qos = 0 \<or> qos = 1" "length topic < 2 ^ 16" "length topic + length payload + 4 < 2 ^ 28"
  shows "\<exists>body v. publish_pkt topic payload qos pid
        = Ok ((0x30 OR push_bit 1 qos) # core_mqtt_remain_len_encode (of_nat (length body)) @ body)
    \<and> parse_publish body qos = Ok v
    \<and> take (unat (pv_topic_len v)) (drop (pv_topic_off v) body) = topic
    \<and> take (unat (pv_payload_len v)) (drop (pv_payload_off v) body) = payload
    \<and> pv_packet_id v = (if qos = 1 then pid else 0)"
proof -
  have u: "unat (of_nat (length topic) :: u16) = length topic"
    "unat (of_nat (length payload) :: u32) = length payload"
    using assms by (simp_all add: unat_of_nat)
  have "take (length topic) (drop 2 (publish_body topic payload qos pid)) = topic"
    "drop (2 + length topic + (if qos = 1 then 2 else 0)) (publish_body topic payload qos pid) = payload"
    using assms(2) by (simp_all add: publish_body_def utf8_field_short)
  with publish_pkt_Ok [OF assms(3), of qos pid] parse_publish_body [OF assms, of pid] u
  show ?thesis by (intro exI [of _ "publish_body topic payload qos pid"]) simp
qed

lemma publish_roundtrip_witness:
  "\<exists>body v. publish_pkt [0x2F, 0x61] [1, 2, 3] 1 7
        = Ok (0x32 # core_mqtt_remain_len_encode (of_nat (length body)) @ body)
    \<and> parse_publish body 1 = Ok v \<and> pv_packet_id v = 7"
  using publish_roundtrip [of 1 "[0x2F, 0x61]" "[1, 2, 3]" 7] by auto

text \<open>
  C34. Whatever bytes a PUBLISH packet holds, the handler either refuses it or reads a topic and a
  payload that lie inside the packet: the payload ends exactly where the packet ends, and its
  32-bit length did not wrap.
\<close>

theorem parse_publish_bounds:
  assumes "parse_publish input qos = Ok v" "length input < 2 ^ 32"
  shows "pv_topic_off v + unat (pv_topic_len v) \<le> pv_payload_off v
    \<and> pv_payload_off v + unat (pv_payload_len v) = length input"
proof -
  let ?q = "if qos = 1 then 2 else 0 :: nat"
  note p = parse_publish_Ok [OF assms(1)]
  have "pv_payload_len v = of_nat (length input - (2 + unat (pv_topic_len v) + ?q))"
    using p(1) by (simp add: p(4) of_nat_diff algebra_simps)
  then have "unat (pv_payload_len v) = length input - (2 + unat (pv_topic_len v) + ?q)"
    using assms(2) by (simp add: unat_of_nat del: of_nat_diff)
  then show ?thesis using p(1-3) by simp
qed

lemma parse_publish_bounds_witness:
  "\<exists>v. parse_publish [0, 1, 0x61, 9, 9] 0 = Ok v \<and> pv_payload_off v + unat (pv_payload_len v) = 5"
proof -
  have "\<exists>v. parse_publish [0, 1, 0x61, 9, 9] 0 = Ok v"
    by (simp add: parse_publish_def u16_of_bytes_def Let_def)
  then show ?thesis using parse_publish_bounds [of "[0, 1, 0x61, 9, 9]" 0] by auto
qed

text \<open>
  The CONNECT packet carries the protocol header, the flags, the keep-alive time and the three
  credentials as length-prefixed strings; its remaining length is that of everything after it, and
  it never overruns the buffer that was allocated for it.
\<close>

theorem conn_pkt_layout:
  assumes "length clientid < 2 ^ 16" "length username < 2 ^ 16" "length password < 2 ^ 16"
  shows "\<exists>body. core_mqtt_conn_pkt True cs ka clientid username password
        = Ok (0x10 # core_mqtt_remain_len_encode (of_nat (length body)) @ body)
    \<and> body = [0x00, 0x04, 0x4D, 0x51, 0x54, 0x54, 0x04, 0xC0 OR push_bit 1 cs] @ u16_bytes ka
        @ u16_bytes (of_nat (length clientid)) @ bytes_of clientid
        @ u16_bytes (of_nat (length username)) @ bytes_of username
        @ u16_bytes (of_nat (length password)) @ bytes_of password"
  using conn_pkt_Ok [of clientid username password cs ka] assms by (simp add: utf8_field_short)

lemma conn_pkt_layout_witness:
  "\<exists>pkt. core_mqtt_conn_pkt True 1 1200 ''c'' ''u'' ''p'' = Ok (0x10 # pkt)"
  using conn_pkt_layout [of "''c''" "''u''" "''p''" 1 1200] by auto

lemma suback_loop_Ok: "length input mod 3 = 0 \<Longrightarrow> \<exists>es. suback_loop input = Ok es \<and> length es = length input div 3"
  by (induction input rule: suback_loop.induct) (auto simp: obind_Ok_iff mod_Suc split: if_splits)

lemma unsuback_loop_Ok: "length input mod 2 = 0 \<Longrightarrow> \<exists>es. unsuback_loop input = Ok es \<and> length es = length input div 2"
  by (induction input rule: unsuback_loop.induct) (auto simp: obind_Ok_iff)

text \<open>
  The acknowledgement handlers read inside the packet: for every packet length the loop ends
  with one report per entry (none for an ill-formed packet).
\<close>

theorem subunsuback_total:
  assumes "pt = 0x90 \<or> pt = 0xB0"
  shows "\<exists>es. subunsuback_entries input pt = Ok es
    \<and> length es = (let n = (if pt = 0x90 then 3 else 2)
                    in if length input mod n = 0 then length input div n else 0)"
  using assms suback_loop_Ok [of input] unsuback_loop_Ok [of input]
  by (auto simp: subunsuback_entries_def Let_def)

lemma subunsuback_total_witness:
  "\<exists>es. subunsuback_entries [0, 1, 0, 0, 2, 0x80] 0x90 = Ok es \<and> length es = 2"
  using subunsuback_total [of "0x90" "[0, 1, 0, 0, 2, 0x80]"] by simp

end
