(* ===== verification/Mqtt_State.thy ===== *)
theory Mqtt_State
  imports Core_Auth Core_Global Core_List Mqtt_Codec
begin

text \<open>
  The state of an MQTT client (\<^verbatim>\<open>core/utils/core_mqtt.h\<close>) and the calls it makes to
  the platform layer. The platform (\<^verbatim>\<open>aiot_sysdep_portfile_t\<close>) is not part of the
  SDK: it is a record of functions from the number of the call to its result, so a theorem over all
  platforms covers every behaviour of memory, clock and network. The functions of the client run in
  the state monad over the handle and the world.
\<close>

section \<open>Addresses\<close>

text \<open>Function pointers and user data; 0 is \<^verbatim>\<open>NULL\<close>.\<close>

type_synonym ptr = nat

section \<open>The handle\<close>

record core_mqtt_heartbeat =
  hb_interval_ms :: u32
  hb_max_lost_times :: u8
  hb_lost_times :: u32
  hb_last_send_time :: u64

record core_mqtt_reconnect =
  rc_enabled :: u8
  rc_interval_ms :: u32
  rc_last_retry_time :: u64
  rc_backoff_enabled :: u8
  rc_rand_ms :: "32 word"
  rc_reconnect_counter :: "32 word"

record core_mqtt_nwkstats_info =
  nw_network_type :: u8
  nw_connect_timestamp :: u64
  nw_connect_time_used :: u32
  nw_failed_timestamp :: u64
  nw_failed_error_code :: int
  nw_rtt :: u64

record core_mqtt_sub_handler_node =
  sh_handler :: ptr
  sh_userdata :: ptr

record core_mqtt_sub_node =
  sn_topic :: string
  sn_handle_list :: "core_mqtt_sub_handler_node list"

record core_mqtt_pub_node =
  pn_packet_id :: u16
  pn_packet :: "byte list"
  pn_last_send_time :: u64

record core_mqtt_process_data =
  pd_handler :: ptr
  pd_context :: ptr

text \<open>Which transport security the user asked for; the certificates only pass through.\<close>

datatype network_cred = CRED_NONE | CRED_SVRCERT_CA | CRED_SVRCERT_PSK

definition cred_code :: "network_cred \<Rightarrow> u8" where
  "cred_code c = (case c of CRED_NONE \<Rightarrow> 0 | CRED_SVRCERT_CA \<Rightarrow> 1 | CRED_SVRCERT_PSK \<Rightarrow> 2)"

record core_mqtt_handle =
  network_handle :: bool \<comment> \<open>not \<^verbatim>\<open>NULL\<close>\<close>
  host :: "string option"
  port :: u16
  product_key :: "string option"
  device_name :: "string option"
  device_secret :: "string option"
  username :: "string option"
  password :: "string option"
  clientid :: "string option"
  extend_clientid :: "string option"
  security_mode :: "string option"
  keep_alive_s :: u16
  clean_session :: u8
  append_requestid :: u8
  connect_timeout_ms :: u32
  heartbeat_params :: core_mqtt_heartbeat
  reconnect_params :: core_mqtt_reconnect
  send_timeout_ms :: u32
  recv_timeout_ms :: u32
  repub_timeout_ms :: u32
  cred :: "network_cred option"
  topic_header_check :: u8
  has_connected :: u8
  disconnected :: u8
  disconnect_api_called :: u8
  exec_enabled :: u8
  exec_count :: u32
  deinit_timeout_ms :: u32
  packet_id :: u16
  sub_list :: "core_mqtt_sub_node list"
  pub_list :: "core_mqtt_pub_node list"
  process_data_list :: "core_mqtt_process_data list"
  recv_handler :: ptr
  event_handler :: ptr
  compress :: ptr
  decompress :: ptr
  nwkstats_info :: core_mqtt_nwkstats_info
  userdata :: ptr
  repub_list_limit :: u16

section \<open>The world\<close>

datatype mutex =
    Data_mutex | Send_mutex | Recv_mutex | Sub_mutex | Pub_mutex | Process_handler_mutex

datatype disconnect_type = Network_disconnect | Heartbeat_disconnect

datatype mqtt_event = Ev_connect | Ev_reconnect | Ev_disconnect disconnect_type

datatype recv_packet =
    Recv_heartbeat_response
  | Recv_pub (rp_qos : u8) (rp_topic : string) (rp_payload : "byte list")
  | Recv_pub_ack u16
  | Recv_suback suback

text \<open>
  What the client does to the outside, in order. Calls of the user's functions are recorded, their
  effect on the client is none.
\<close>

datatype effect =
    Eff_event mqtt_event \<comment> \<open>\<^verbatim>\<open>event_handler\<close>\<close>
  | Eff_process ptr ptr "mqtt_event option" bool \<comment> \<open>a process handler; the flag: deinit\<close>
  | Eff_recv ptr ptr recv_packet \<comment> \<open>a receive handler with its user data\<close>
  | Eff_send "byte list" int
  | Eff_network_init bool
  | Eff_network_deinit
  | Eff_establish int
  | Eff_diag nat u8
  | Eff_sleep u32

record platform =
  p_malloc :: "nat \<Rightarrow> bool"
  p_time :: "nat \<Rightarrow> u64"
  p_rand :: "nat \<Rightarrow> u32"
  p_network_init :: "nat \<Rightarrow> bool"
  p_network_setopt :: "nat \<Rightarrow> int"
  p_network_establish :: "nat \<Rightarrow> int"
  p_network_send :: "nat \<Rightarrow> byte list \<Rightarrow> int"
  p_network_recv :: "nat \<Rightarrow> nat \<Rightarrow> int \<times> byte list"
  p_compress :: "nat \<Rightarrow> string \<Rightarrow> byte list \<Rightarrow> int \<times> byte list"
  p_decompress :: "nat \<Rightarrow> string \<Rightarrow> byte list \<Rightarrow> int \<times> string \<times> byte list"
  p_exec_count :: "nat \<Rightarrow> u32 \<Rightarrow> u32"

text \<open>
  \<open>held\<close> lists the mutexes held, the last one taken first; \<open>acquired\<close> records every
  acquisition with what was held then. \<open>lock_error\<close> is set when a mutex is taken twice or
  given back without being held. \<open>live\<close> counts the blocks of memory in use, and
  \<open>ub\<close> is set where the C has no defined behaviour.
\<close>

record world =
  plat :: platform
  calls :: nat
  held :: "mutex list"
  acquired :: "(mutex list \<times> mutex) list"
  lock_error :: bool
  trace :: "effect list"
  live :: int
  ub :: bool
  glob :: g_core_global
  last_failed_error_code :: int

type_synonym mqtt_state = "core_mqtt_handle \<times> world"
type_synonym 'a mq = "(mqtt_state, 'a) state"

section \<open>Primitive steps\<close>

definition ret :: "'a \<Rightarrow> 'a mq" where "ret x = State_Monad.return x"

definition hget :: "(core_mqtt_handle \<Rightarrow> 'a) \<Rightarrow> 'a mq" where
  "hget f = State (\<lambda>(h, w). (f h, (h, w)))"

definition hmod :: "(core_mqtt_handle \<Rightarrow> core_mqtt_handle) \<Rightarrow> unit mq" where
  "hmod f = State (\<lambda>(h, w). ((), (f h, w)))"

definition wget :: "(world \<Rightarrow> 'a) \<Rightarrow> 'a mq" where
  "wget f = State (\<lambda>(h, w). (f w, (h, w)))"

definition wmod :: "(world \<Rightarrow> world) \<Rightarrow> unit mq" where
  "wmod f = State (\<lambda>(h, w). ((), (h, f w)))"

definition emit :: "effect \<Rightarrow> unit mq" where
  "emit e = wmod (\<lambda>w. w \<lparr> trace := trace w @ [e] \<rparr>)"

text \<open>The result of the next platform call.\<close>

definition call :: "(platform \<Rightarrow> nat \<Rightarrow> 'a) \<Rightarrow> 'a mq" where
  "call f = do { r \<leftarrow> wget (\<lambda>w. f (plat w) (calls w)); wmod (\<lambda>w. w \<lparr> calls := Suc (calls w) \<rparr>); ret r }"

definition lock :: "mutex \<Rightarrow> unit mq" where
  "lock m = wmod (\<lambda>w. if m \<in> set (held w) then w \<lparr> lock_error := True \<rparr>
     else w \<lparr> held := m # held w, acquired := acquired w @ [(held w, m)] \<rparr>)"

definition unlock :: "mutex \<Rightarrow> unit mq" where
  "unlock m = wmod (\<lambda>w. if m \<in> set (held w) then w \<lparr> held := remove1 m (held w) \<rparr>
     else w \<lparr> lock_error := True \<rparr>)"

definition core_sysdep_malloc :: "bool mq" where
  "core_sysdep_malloc = do {
     ok \<leftarrow> call p_malloc;
     (if ok then wmod (\<lambda>w. w \<lparr> live := live w + 1 \<rparr>) else ret ());
     ret ok }"

definition core_sysdep_free :: "unit mq" where
  "core_sysdep_free = wmod (\<lambda>w. w \<lparr> live := live w - 1 \<rparr>)"

definition core_sysdep_time :: "u64 mq" where "core_sysdep_time = call p_time"
definition core_sysdep_rand :: "u32 mq" where "core_sysdep_rand = call p_rand"

definition core_sysdep_network_init :: "unit mq" where
  "core_sysdep_network_init = do {
     ok \<leftarrow> call p_network_init;
     hmod (\<lambda>h. h \<lparr> network_handle := ok \<rparr>);
     emit (Eff_network_init ok) }"

definition core_sysdep_network_deinit :: "unit mq" where
  "core_sysdep_network_deinit = do {
     hmod (\<lambda>h. h \<lparr> network_handle := False \<rparr>);
     emit Eff_network_deinit }"

definition core_sysdep_network_setopt :: "int mq" where
  "core_sysdep_network_setopt = call p_network_setopt"

definition core_sysdep_network_establish :: "int mq" where
  "core_sysdep_network_establish = do {
     r \<leftarrow> call p_network_establish;
     emit (Eff_establish r);
     ret r }"

text \<open>While the caller sleeps, other threads may enter or leave the handle's functions.\<close>

definition core_sysdep_sleep :: "u32 \<Rightarrow> unit mq" where
  "core_sysdep_sleep ms = do {
     f \<leftarrow> call p_exec_count;
     hmod (\<lambda>h. h \<lparr> exec_count := f (exec_count h) \<rparr>);
     emit (Eff_sleep ms) }"

definition mark_ub :: "unit mq" where "mark_ub = wmod (\<lambda>w. w \<lparr> ub := True \<rparr>)"

text \<open>A function of the string library: its result, or the mark and an error.\<close>

definition lift_outcome :: "'a outcome \<Rightarrow> (int + 'a) mq" where
  "lift_outcome r = (case r of Ok x \<Rightarrow> ret (Inr x) | Err e \<Rightarrow> ret (Inl e)
     | Undef \<Rightarrow> do { mark_ub; ret (Inl STATE_PORT_BASE) })"

lemmas mq_defs = ret_def hget_def hmod_def wget_def wmod_def emit_def call_def

lemma run_prims [simp]:
  "run_state (ret x) s = (x, s)"
  "run_state (hget f) (h, w) = (f h, (h, w))"
  "run_state (hmod g) (h, w) = ((), (g h, w))"
  "run_state (wget k) (h, w) = (k w, (h, w))"
  "run_state (wmod l) (h, w) = ((), (h, l w))"
  "run_state (emit e) (h, w) = ((), (h, w \<lparr> trace := trace w @ [e] \<rparr>))"
  "run_state (call c) (h, w) = (c (plat w) (calls w), (h, w \<lparr> calls := Suc (calls w) \<rparr>))"
  by (simp_all add: mq_defs)

end
