(* ===== verification/Mqtt_Client.thy ===== *)
theory Mqtt_Client
  imports Mqtt_State
begin

unbundle bit_operations_syntax

text \<open>
  The functions of \<^verbatim>\<open>core/aiot_mqtt_api.c\<close>, in the order of the file (helpers
  before their users). The leading underscore of the static functions is dropped. Log output and the
  diagnosis callback's reader are left out. An early return of the C is the \<open>Inl\<close> of
  \<open>attempt\<close>.
\<close>

section \<open>Helpers\<close>

definition attempt :: "(int + 'a) mq \<Rightarrow> ('a \<Rightarrow> int mq) \<Rightarrow> int mq" where
  "attempt m f = do { r \<leftarrow> m; case r of Inl e \<Rightarrow> ret e | Inr x \<Rightarrow> f x }"

definition core_mqtt_sysdep_return :: "int \<Rightarrow> int \<Rightarrow> int" where
  "core_mqtt_sysdep_return sysdep_code core_code =
     (if STATE_PORT_BASE - 0x00FF \<le> sysdep_code \<and> sysdep_code < STATE_PORT_BASE then sysdep_code
      else core_code)"

definition m_sprintf :: "string \<Rightarrow> string option list \<Rightarrow> nat \<Rightarrow> (int + string) mq" where
  "m_sprintf fmt src count =
     (if length fmt < 2 * count then ret (Inl STATE_USER_INPUT_OUT_RANGE)
      else do { ok \<leftarrow> core_sysdep_malloc; lift_outcome (core_sprintf ok fmt src count) })"

definition m_strdup ::
  "(core_mqtt_handle \<Rightarrow> string option)
   \<Rightarrow> ((string option \<Rightarrow> string option) \<Rightarrow> core_mqtt_handle \<Rightarrow> core_mqtt_handle) \<Rightarrow> string \<Rightarrow> int mq" where
  "m_strdup field upd src = do {
     old \<leftarrow> hget field;
     (if old \<noteq> None then core_sysdep_free else ret ());
     ok \<leftarrow> core_sysdep_malloc;
     (case core_strdup ok old src of (dest, freed, res) \<Rightarrow>
       do { hmod (upd (\<lambda>_. dest)); ret res }) }"

section \<open>Events\<close>

definition process_handlers :: "mqtt_event option \<Rightarrow> bool \<Rightarrow> unit mq" where
  "process_handlers ev deinit = do {
     l \<leftarrow> hget process_data_list;
     wmod (\<lambda>w. w \<lparr> trace := trace w @ map (\<lambda>d. Eff_process (pd_handler d) (pd_context d) ev deinit) l \<rparr>) }"

definition core_mqtt_event_notify :: "mqtt_event \<Rightarrow> unit mq" where
  "core_mqtt_event_notify ev = do {
     eh \<leftarrow> hget event_handler;
     (if eh \<noteq> 0 then emit (Eff_event ev) else ret ());
     lock Process_handler_mutex;
     process_handlers (Some ev) False;
     unlock Process_handler_mutex }"

definition core_mqtt_connect_event_notify :: "unit mq" where
  "core_mqtt_connect_event_notify = do {
     hmod (\<lambda>h. h \<lparr> disconnected := 0 \<rparr>);
     hc \<leftarrow> hget has_connected;
     if hc = 0 then do {
       hmod (\<lambda>h. h \<lparr> has_connected := 1 \<rparr>);
       core_mqtt_event_notify Ev_connect }
     else core_mqtt_event_notify Ev_reconnect }"

definition core_mqtt_disconnect_event_notify :: "disconnect_type \<Rightarrow> unit mq" where
  "core_mqtt_disconnect_event_notify disconnect = do {
     hc \<leftarrow> hget has_connected;
     dc \<leftarrow> hget disconnected;
     if hc = 1 \<and> dc = 0 then do {
       hmod (\<lambda>h. h \<lparr> disconnected := 1 \<rparr>);
       core_mqtt_event_notify (Ev_disconnect disconnect) }
     else ret () }"

definition core_mqtt_exec_inc :: "unit mq" where
  "core_mqtt_exec_inc = do {
     lock Data_mutex;
     hmod (\<lambda>h. h \<lparr> exec_count := exec_count h + 1 \<rparr>);
     unlock Data_mutex }"

definition core_mqtt_exec_dec :: "unit mq" where
  "core_mqtt_exec_dec = do {
     lock Data_mutex;
     hmod (\<lambda>h. h \<lparr> exec_count := exec_count h - 1 \<rparr>);
     unlock Data_mutex }"

definition free_if :: "bool \<Rightarrow> unit mq" where
  "free_if b = (if b then core_sysdep_free else ret ())"

definition core_mqtt_sign_clean :: "unit mq" where
  "core_mqtt_sign_clean = do {
     u \<leftarrow> hget username;
     free_if (u \<noteq> None);
     p \<leftarrow> hget password;
     free_if (p \<noteq> None);
     c \<leftarrow> hget clientid;
     free_if (c \<noteq> None);
     hmod (\<lambda>h. h \<lparr> username := None, password := None, clientid := None \<rparr>) }"

section \<open>Subscriptions\<close>

definition core_mqtt_handlerlist_insert ::
  "core_mqtt_sub_handler_node list \<Rightarrow> ptr \<Rightarrow> ptr \<Rightarrow> (int \<times> core_mqtt_sub_handler_node list) mq" where
  "core_mqtt_handlerlist_insert nodes handler ud =
     (case List.extract (\<lambda>n. sh_handler n = handler) nodes of
        Some (before, node, after) \<Rightarrow>
          ret (STATE_SUCCESS, before @ node \<lparr> sh_userdata := ud \<rparr> # after)
      | None \<Rightarrow> do {
          ok \<leftarrow> core_sysdep_malloc;
          ret (if ok then (STATE_SUCCESS, nodes @ [\<lparr> sh_handler = handler, sh_userdata = ud \<rparr>])
               else (STATE_SYS_DEPEND_MALLOC_FAILED, nodes)) })"

definition core_mqtt_sublist_insert :: "string \<Rightarrow> ptr \<Rightarrow> ptr \<Rightarrow> int mq" where
  "core_mqtt_sublist_insert topic handler ud = do {
     subs \<leftarrow> hget sub_list;
     case List.extract (\<lambda>n. sn_topic n = topic) subs of
       Some (before, node, after) \<Rightarrow>
         if handler \<noteq> 0 then do {
           (res, hs) \<leftarrow> core_mqtt_handlerlist_insert (sn_handle_list node) handler ud;
           hmod (\<lambda>h. h \<lparr> sub_list := before @ node \<lparr> sn_handle_list := hs \<rparr> # after \<rparr>);
           ret res }
         else ret STATE_SUCCESS
     | None \<Rightarrow> do {
         ok1 \<leftarrow> core_sysdep_malloc;
         if \<not> ok1 then ret STATE_SYS_DEPEND_MALLOC_FAILED
         else do {
           ok2 \<leftarrow> core_sysdep_malloc;
           if \<not> ok2 then do { core_sysdep_free; ret STATE_SYS_DEPEND_MALLOC_FAILED }
           else do {
             (res, hs) \<leftarrow> (if handler \<noteq> 0 then core_mqtt_handlerlist_insert [] handler ud
                          else ret (STATE_SUCCESS, []));
             if res < STATE_SUCCESS then do { core_sysdep_free; core_sysdep_free; ret res }
             else do {
               hmod (\<lambda>h. h \<lparr> sub_list := subs @ [\<lparr> sn_topic = topic, sn_handle_list = hs \<rparr>] \<rparr>);
               ret res } } } } }"

definition free_sub_nodes :: "core_mqtt_sub_node list \<Rightarrow> unit mq" where
  "free_sub_nodes ns = wmod (\<lambda>w. w \<lparr> live := live w
     - (\<Sum>n\<leftarrow>ns. int (length (sn_handle_list n)) + 2) \<rparr>)"

definition core_mqtt_sublist_remove :: "string \<Rightarrow> unit mq" where
  "core_mqtt_sublist_remove topic = do {
     subs \<leftarrow> hget sub_list;
     hmod (\<lambda>h. h \<lparr> sub_list := filter (\<lambda>n. sn_topic n \<noteq> topic) subs \<rparr>);
     free_sub_nodes (filter (\<lambda>n. sn_topic n = topic) subs) }"

definition core_mqtt_sublist_remove_handler :: "string \<Rightarrow> ptr \<Rightarrow> unit mq" where
  "core_mqtt_sublist_remove_handler topic handler = do {
     subs \<leftarrow> hget sub_list;
     hmod (\<lambda>h. h \<lparr> sub_list := map (\<lambda>n. if sn_topic n = topic
         then n \<lparr> sn_handle_list := filter (\<lambda>x. sh_handler x \<noteq> handler) (sn_handle_list n) \<rparr>
         else n) subs \<rparr>);
     wmod (\<lambda>w. w \<lparr> live := live w - (\<Sum>n\<leftarrow>filter (\<lambda>n. sn_topic n = topic) subs.
         int (length (filter (\<lambda>x. sh_handler x = handler) (sn_handle_list n)))) \<rparr>) }"

definition core_mqtt_sublist_destroy :: "unit mq" where
  "core_mqtt_sublist_destroy = do {
     subs \<leftarrow> hget sub_list;
     hmod (\<lambda>h. h \<lparr> sub_list := [] \<rparr>);
     free_sub_nodes subs }"

text \<open>The topic of a topic map; \<open>None\<close> is \<^verbatim>\<open>NULL\<close>.\<close>

definition topic_map_check :: "string option \<Rightarrow> (int + string) mq" where
  "topic_map_check topic = do {
     chk \<leftarrow> hget topic_header_check;
     ret (case topic of None \<Rightarrow> Inl STATE_USER_INPUT_NULL_POINTER
          | Some t \<Rightarrow>
              if CORE_MQTT_TOPIC_MAXLEN \<le> length t then Inl STATE_MQTT_TOPIC_TOO_LONG
              else if core_mqtt_topic_is_valid chk t < STATE_SUCCESS
              then Inl (core_mqtt_topic_is_valid chk t)
              else Inr t) }"

definition core_mqtt_append_topic_map :: "string option \<Rightarrow> ptr \<Rightarrow> ptr \<Rightarrow> int mq" where
  "core_mqtt_append_topic_map topic handler ud =
     attempt (topic_map_check topic) (\<lambda>t. do {
       lock Sub_mutex;
       res \<leftarrow> core_mqtt_sublist_insert t handler ud;
       unlock Sub_mutex;
       ret res })"

definition core_mqtt_remove_topic_map :: "string option \<Rightarrow> ptr \<Rightarrow> int mq" where
  "core_mqtt_remove_topic_map topic handler =
     attempt (topic_map_check topic) (\<lambda>t. do {
       lock Sub_mutex;
       core_mqtt_sublist_remove_handler t handler;
       unlock Sub_mutex;
       ret STATE_SUCCESS })"

section \<open>Network access\<close>

text \<open>
  The bytes of a read: the first \<open>len\<close> of the buffer, which was zeroed before.
\<close>

definition core_mqtt_read :: "nat \<Rightarrow> (int \<times> byte list) mq" where
  "core_mqtt_read len = do {
     nw \<leftarrow> hget network_handle;
     if nw then do {
       f \<leftarrow> call p_network_recv;
       (case f len of (res, bytes) \<Rightarrow>
         ret (if res < STATE_SUCCESS then core_mqtt_sysdep_return res STATE_SYS_DEPEND_NWK_RECV_ERR
              else if res \<noteq> int len then STATE_SYS_DEPEND_NWK_READ_LESSDATA else res,
              take len (bytes @ replicate len 0))) }
     else ret (STATE_SYS_DEPEND_NWK_CLOSED, replicate len 0) }"

definition core_mqtt_write :: "byte list \<Rightarrow> int mq" where
  "core_mqtt_write buffer = do {
     nw \<leftarrow> hget network_handle;
     if nw then do {
       f \<leftarrow> call p_network_send;
       (let res = f buffer in do {
         emit (Eff_send buffer res);
         ret (if res < STATE_SUCCESS then core_mqtt_sysdep_return res STATE_SYS_DEPEND_NWK_SEND_ERR
              else if res \<noteq> int (length buffer) then STATE_SYS_DEPEND_NWK_WRITE_LESSDATA else res) }) }
     else ret STATE_SYS_DEPEND_NWK_CLOSED }"

definition core_mqtt_connect_diag :: "u8 \<Rightarrow> unit mq" where
  "core_mqtt_connect_diag flag = emit (Eff_diag 0x0010 flag)"

definition core_mqtt_heartbeat_diag :: "u8 \<Rightarrow> unit mq" where
  "core_mqtt_heartbeat_diag flag = emit (Eff_diag 0x0020 flag)"

definition network_deinit_if :: "unit mq" where
  "network_deinit_if = do {
     nw \<leftarrow> hget network_handle;
     if nw then core_sysdep_network_deinit else ret () }"

text \<open>The block that ends a connection after an error, the same in every function.\<close>

definition network_close_locked :: "unit mq" where
  "network_close_locked = do {
     lock Send_mutex;
     lock Recv_mutex;
     network_deinit_if;
     unlock Recv_mutex;
     unlock Send_mutex }"

definition write_locked :: "byte list \<Rightarrow> int mq" where
  "write_locked pkt = do {
     lock Send_mutex;
     res \<leftarrow> core_mqtt_write pkt;
     unlock Send_mutex;
     ret res }"

text \<open>What follows a failed write: the connection is closed unless data was only cut short.\<close>

definition write_failed :: "int \<Rightarrow> unit mq" where
  "write_failed res =
     (if res \<noteq> STATE_SYS_DEPEND_NWK_WRITE_LESSDATA then network_close_locked else ret ())"

text \<open>One byte of the network, as the loop that reads the remaining length takes it.\<close>

definition read_byte :: "(mqtt_state, int + byte) state" where
  "read_byte = do {
     (res, buf) \<leftarrow> core_mqtt_read 1;
     ret (if res < STATE_SUCCESS then Inl res else Inr (hd buf)) }"

definition core_mqtt_read_remainlen :: "(int + u32) mq" where
  "core_mqtt_read_remainlen = remainlen_loop read_byte 0 0"

section \<open>Connecting\<close>

text \<open>
  \<open>core_mqtt_add_extend_clientid\<close> appends to a text of the caller. When the formatter
  fails, the old text is freed although the caller keeps its pointer and uses it: undefined.
\<close>

definition core_mqtt_add_extend_clientid :: "string option \<Rightarrow> string option \<Rightarrow> (int \<times> string option) mq" where
  "core_mqtt_add_extend_clientid dst ext =
     (case ext of None \<Rightarrow> ret (STATE_USER_INPUT_NULL_POINTER, dst)
      | Some e \<Rightarrow>
          (case dst of
             None \<Rightarrow> do {
               ok \<leftarrow> core_sysdep_malloc;
               (case core_strdup ok None e of (d, freed, res) \<Rightarrow> ret (res, d)) }
           | Some d \<Rightarrow> do {
               r \<leftarrow> m_sprintf ''%s,%s'' [Some d, Some e] 2;
               core_sysdep_free;
               (case r of
                  Inr t \<Rightarrow> ret (STATE_SUCCESS, Some t)
                | Inl res \<Rightarrow> do { mark_ub; ret (res, dst) }) }))"

definition core_mqtt_add_netstats_extend :: "string option \<Rightarrow> (int \<times> string option) mq" where
  "core_mqtt_add_netstats_extend dst = do {
     c \<leftarrow> hget cred;
     (let conn = (if c \<noteq> None \<and> c \<noteq> Some CRED_NONE then ''tls'' else ''tcp'') in do {
       t \<leftarrow> hget (\<lambda>h. nw_connect_time_used (nwkstats_info h));
       time_str \<leftarrow> lift_outcome (core_int2hexstr t);
       (let time_text = drop 2 (case time_str of Inr x \<Rightarrow> x | Inl _ \<Rightarrow> []) in do {
         err \<leftarrow> wget last_failed_error_code;
         content \<leftarrow>
           (if err \<noteq> 0 then do {
              err_str \<leftarrow> lift_outcome (core_int2hexstr (of_int err));
              r \<leftarrow> m_sprintf ''_conn=%s_%s_-%s''
                 [Some conn, Some time_text, Some (drop 3 (case err_str of Inr x \<Rightarrow> x | Inl _ \<Rightarrow> []))] 3;
              wmod (\<lambda>w. w \<lparr> last_failed_error_code := 0 \<rparr>);
              ret r }
            else m_sprintf ''_conn=%s_%s'' [Some conn, Some time_text] 2);
         (res, dst') \<leftarrow> core_mqtt_add_extend_clientid dst (case content of Inr x \<Rightarrow> Some x | Inl _ \<Rightarrow> None);
         free_if (case content of Inr _ \<Rightarrow> True | Inl _ \<Rightarrow> False);
         ret (case content of Inr _ \<Rightarrow> STATE_SUCCESS | Inl e \<Rightarrow> e, dst') }) }) }"

definition secure_mode_of :: "core_mqtt_handle \<Rightarrow> string" where
  "secure_mode_of h =
     (let m0 = (if cred h = None then ''3'' else ''2'');
          m1 = (case security_mode h of Some m \<Rightarrow> m | None \<Rightarrow> m0)
      in if cred h = Some CRED_NONE \<and> security_mode h = None then ''3'' else m1)"

text \<open>\<open>core_auth_mqtt_username\<close> and \<open>core_auth_mqtt_password\<close> into the handle.\<close>

definition m_auth_username :: "int mq" where
  "m_auth_username = do {
     pk \<leftarrow> hget product_key;
     dn \<leftarrow> hget device_name;
     ok \<leftarrow> core_sysdep_malloc;
     r \<leftarrow> lift_outcome (core_auth_mqtt_username ok pk dn);
     (case r of Inl e \<Rightarrow> ret e
      | Inr u \<Rightarrow> do { hmod (\<lambda>h. h \<lparr> username := Some u \<rparr>); ret STATE_SUCCESS }) }"

definition m_auth_password :: "int mq" where
  "m_auth_password = do {
     pk \<leftarrow> hget product_key;
     dn \<leftarrow> hget device_name;
     ds \<leftarrow> hget device_secret;
     ok1 \<leftarrow> core_sysdep_malloc;
     if \<not> ok1 then ret STATE_SYS_DEPEND_MALLOC_FAILED
     else do {
       ok2 \<leftarrow> core_sysdep_malloc;
       r \<leftarrow> lift_outcome (core_auth_mqtt_password ok1 ok2 pk dn ds);
       core_sysdep_free;
       (case r of Inl e \<Rightarrow> ret e
        | Inr p \<Rightarrow> do { hmod (\<lambda>h. h \<lparr> password := Some p \<rparr>); ret STATE_SUCCESS }) } }"

definition connect_sign :: "(int + unit) mq" where
  "connect_sign = do {
     u \<leftarrow> hget username;
     p \<leftarrow> hget password;
     c \<leftarrow> hget clientid;
     if u = None \<or> p = None \<or> c = None then do {
       pk \<leftarrow> hget product_key;
       dn \<leftarrow> hget device_name;
       ds \<leftarrow> hget device_secret;
       if pk = None then ret (Inl STATE_USER_INPUT_MISSING_PRODUCT_KEY)
       else if dn = None then ret (Inl STATE_USER_INPUT_MISSING_DEVICE_NAME)
       else if ds = None then ret (Inl STATE_USER_INPUT_MISSING_DEVICE_SECRET)
       else do {
         core_mqtt_sign_clean;
         res1 \<leftarrow> m_auth_username;
         if res1 < STATE_SUCCESS then do { core_mqtt_sign_clean; ret (Inl res1) }
         else do {
           res2 \<leftarrow> m_auth_password;
           if res2 < STATE_SUCCESS then do { core_mqtt_sign_clean; ret (Inl res2) }
           else ret (Inr ()) } } }
     else ret (Inr ()) }"

text \<open>The \<^verbatim>\<open>||\<close> chain of option calls: it stops at the first failure.\<close>

fun setopt_chain :: "nat \<Rightarrow> int mq" where
  "setopt_chain 0 = ret STATE_SUCCESS"
| "setopt_chain (Suc n) = do {
     res \<leftarrow> core_sysdep_network_setopt;
     if res < STATE_SUCCESS then ret res else if n = 0 then ret res else setopt_chain n }"

text \<open>\<open>core_auth_tls_psk\<close>: both texts are allocated, the plain one is freed again.\<close>

definition connect_psk :: "(int + unit) mq" where
  "connect_psk = do {
     pk \<leftarrow> hget product_key;
     dn \<leftarrow> hget device_name;
     ds \<leftarrow> hget device_secret;
     if ds = None then ret (Inl STATE_USER_INPUT_MISSING_DEVICE_SECRET)
     else do {
       ok1 \<leftarrow> core_sysdep_malloc;
       if \<not> ok1 then ret (Inl STATE_SYS_DEPEND_MALLOC_FAILED)
       else do {
         ok2 \<leftarrow> core_sysdep_malloc;
         r \<leftarrow> lift_outcome (core_auth_tls_psk ok1 ok2 pk dn ds);
         core_sysdep_free;
         (case r of Inl e \<Rightarrow> ret (Inl e)
          | Inr psk \<Rightarrow> do {
              res \<leftarrow> core_sysdep_network_setopt;
              core_sysdep_free;
              ret (if res < STATE_SUCCESS
                   then Inl (core_mqtt_sysdep_return res STATE_SYS_DEPEND_NWK_INVALID_OPTION)
                   else Inr ()) }) } } }"

text \<open>
  The backup address, through the process-wide state; a mutex left locked there would block the
  connection for ever (\<open>lock_error\<close>).
\<close>

definition m_get_backup_ip :: "unit mq" where
  "m_get_backup_ip = do {
     r \<leftarrow> wget (\<lambda>w. core_global_get_mqtt_backup_ip (replicate 16 NUL) (glob w));
     (case r of
        None \<Rightarrow> wmod (\<lambda>w. w \<lparr> lock_error := True \<rparr>)
      | Some (ip, g) \<Rightarrow> do {
          wmod (\<lambda>w. w \<lparr> glob := g \<rparr>);
          (if ip = Undef then mark_ub else ret ()) }) }"

definition connect_network :: "(int + int) mq" where
  "connect_network = do {
     network_deinit_if;
     core_mqtt_connect_diag 0x00;
     core_sysdep_network_init;
     nw \<leftarrow> hget network_handle;
     if \<not> nw then ret (Inl STATE_SYS_DEPEND_MALLOC_FAILED)
     else do {
       m_get_backup_ip;
       res \<leftarrow> setopt_chain 5;
       if res < STATE_SUCCESS then do {
         core_sysdep_network_deinit;
         ret (Inl (core_mqtt_sysdep_return res STATE_SYS_DEPEND_NWK_INVALID_OPTION)) }
       else do {
         c \<leftarrow> hget cred;
         credres \<leftarrow>
           (case c of None \<Rightarrow> ret (Inr ())
            | Some cr \<Rightarrow> do {
                res \<leftarrow> core_sysdep_network_setopt;
                if res < STATE_SUCCESS then do {
                  core_sysdep_network_deinit;
                  ret (Inl (core_mqtt_sysdep_return res STATE_SYS_DEPEND_NWK_INVALID_OPTION)) }
                else do {
                  r \<leftarrow> (if cr = CRED_SVRCERT_PSK then connect_psk else ret (Inr ()));
                  (case r of Inl e \<Rightarrow> ret (Inl e)
                   | Inr _ \<Rightarrow> do {
                       hmod (\<lambda>h. h \<lparr> nwkstats_info := (nwkstats_info h) \<lparr> nw_network_type := cred_code cr \<rparr> \<rparr>);
                       ret (Inr ()) }) } });
         (case credres of Inl e \<Rightarrow> ret (Inl e)
          | Inr _ \<Rightarrow> do {
              t \<leftarrow> core_sysdep_time;
              hmod (\<lambda>h. h \<lparr> nwkstats_info := (nwkstats_info h) \<lparr> nw_connect_timestamp := t \<rparr> \<rparr>);
              res \<leftarrow> core_sysdep_network_establish;
              if res < STATE_SUCCESS then do {
                core_sysdep_network_deinit;
                hmod (\<lambda>h. h \<lparr> nwkstats_info := (nwkstats_info h)
                  \<lparr> nw_failed_timestamp := nw_connect_timestamp (nwkstats_info h),
                    nw_failed_error_code := res \<rparr> \<rparr>);
                wmod (\<lambda>w. w \<lparr> last_failed_error_code := res \<rparr>);
                ret (Inl (core_mqtt_sysdep_return res STATE_SYS_DEPEND_NWK_EST_FAILED)) }
              else do {
                t' \<leftarrow> core_sysdep_time;
                hmod (\<lambda>h. h \<lparr> nwkstats_info := (nwkstats_info h)
                  \<lparr> nw_connect_time_used := ucast (t' - nw_connect_timestamp (nwkstats_info h)) \<rparr> \<rparr>);
                ret (Inr res) } }) } } }"

text \<open>
  The client id. Where its text cannot be built the function returns the result \<open>res0\<close> of
  establishing the connection, which is a success, and the extended id is not freed.
\<close>

definition connect_clientid :: "string \<Rightarrow> int \<Rightarrow> (int + unit) mq" where
  "connect_clientid secure_mode res0 = do {
     c \<leftarrow> hget clientid;
     if c \<noteq> None then ret (Inr ())
     else do {
       ext \<leftarrow> hget extend_clientid;
       (r1, e1) \<leftarrow> core_mqtt_add_extend_clientid None ext;
       (r2, e2) \<leftarrow> core_mqtt_add_netstats_extend e1;
       pk \<leftarrow> hget product_key;
       dn \<leftarrow> hget device_name;
       ok \<leftarrow> core_sysdep_malloc;
       r \<leftarrow> lift_outcome (core_auth_mqtt_clientid ok pk dn (Some secure_mode) e2);
       (case r of
          Inl e \<Rightarrow> do { core_mqtt_sign_clean; ret (Inl res0) }
        | Inr cid \<Rightarrow> do {
            hmod (\<lambda>h. h \<lparr> clientid := Some cid \<rparr>);
            free_if (e2 \<noteq> None);
            ret (Inr ()) }) } }"

definition m_conn_pkt :: "(int + byte list) mq" where
  "m_conn_pkt = do {
     cs \<leftarrow> hget clean_session;
     ka \<leftarrow> hget keep_alive_s;
     c \<leftarrow> hget clientid;
     u \<leftarrow> hget username;
     p \<leftarrow> hget password;
     (case (c, u, p) of
        (Some c', Some u', Some p') \<Rightarrow> do {
          ok \<leftarrow> core_sysdep_malloc;
          lift_outcome (core_mqtt_conn_pkt ok cs ka c' u' p') }
      | _ \<Rightarrow> lift_outcome Undef) }"

definition connect_handshake :: "int mq" where
  "connect_handshake =
     attempt m_conn_pkt (\<lambda>pkt. do {
       res \<leftarrow> core_mqtt_write pkt;
       core_sysdep_free;
       if res < STATE_SUCCESS then do {
         (if res = STATE_SYS_DEPEND_NWK_WRITE_LESSDATA then ret () else network_deinit_if);
         ret res }
       else do {
         (res, hdr) \<leftarrow> core_mqtt_read 1;
         if res < STATE_SUCCESS then do {
           (if res = STATE_SYS_DEPEND_NWK_READ_LESSDATA then ret () else network_deinit_if);
           ret res }
         else if hd hdr \<noteq> 0x20 then ret STATE_MQTT_CONNACK_FMT_ERROR
         else attempt core_mqtt_read_remainlen (\<lambda>remain_len.
           if remain_len \<noteq> 0x2 then ret STATE_MQTT_CONNACK_FMT_ERROR
           else do {
             ok \<leftarrow> core_sysdep_malloc;
             if \<not> ok then ret STATE_SYS_DEPEND_MALLOC_FAILED
             else do {
               (res, connack) \<leftarrow> core_mqtt_read 2;
               if res < STATE_SUCCESS then do { core_sysdep_free; ret res }
               else (let res = core_mqtt_connack_handle connack in do {
                 core_sysdep_free;
                 if res < STATE_SUCCESS then do { core_sysdep_network_deinit; ret res }
                 else do { core_mqtt_connect_diag 0x01; ret STATE_MQTT_CONNECT_SUCCESS } }) } }) } })"

definition core_mqtt_connect :: "int mq" where
  "core_mqtt_connect = do {
     hst \<leftarrow> hget host;
     mode \<leftarrow> hget secure_mode_of;
     if hst = None then ret STATE_USER_INPUT_MISSING_HOST
     else attempt connect_sign (\<lambda>_.
       attempt connect_network (\<lambda>res0.
         attempt (connect_clientid mode res0) (\<lambda>_. connect_handshake))) }"

definition core_mqtt_disconnect :: "int mq" where
  "core_mqtt_disconnect = do {
     res \<leftarrow> write_locked [0xE0, 0x00];
     if res < STATE_SUCCESS then do { write_failed res; ret res } else ret STATE_SUCCESS }"

section \<open>Packet ids and the list of cached publications\<close>

definition core_mqtt_packet_id :: "u16 mq" where
  "core_mqtt_packet_id = do {
     lock Data_mutex;
     hmod (\<lambda>h. if packet_id h + 1 = 0 then h \<lparr> packet_id := 0 \<rparr> else h);
     hmod (\<lambda>h. h \<lparr> packet_id := packet_id h + 1 \<rparr>);
     pid \<leftarrow> hget packet_id;
     unlock Data_mutex;
     ret pid }"

fun publist_scan :: "core_mqtt_pub_node list \<Rightarrow> u16 \<Rightarrow> u16 \<Rightarrow> u16 \<Rightarrow> int option" where
  "publist_scan [] pid limit pack_num = None"
| "publist_scan (node # nodes) pid limit pack_num =
     (if pn_packet_id node = pid then Some STATE_MQTT_PUBLIST_PACKET_ID_ROLL
      else if pack_num > limit then Some STATE_QOS_CACHE_EXCEEDS_LIMIT
      else publist_scan nodes pid limit (pack_num + 1))"

definition core_mqtt_publist_insert :: "byte list \<Rightarrow> u16 \<Rightarrow> int mq" where
  "core_mqtt_publist_insert packet pid = do {
     nodes \<leftarrow> hget pub_list;
     limit \<leftarrow> hget repub_list_limit;
     case publist_scan nodes pid limit 0 of
       Some e \<Rightarrow> ret e
     | None \<Rightarrow> do {
         ok1 \<leftarrow> core_sysdep_malloc;
         if \<not> ok1 then ret STATE_SYS_DEPEND_MALLOC_FAILED
         else do {
           ok2 \<leftarrow> core_sysdep_malloc;
           if \<not> ok2 then do { core_sysdep_free; ret STATE_SYS_DEPEND_MALLOC_FAILED }
           else do {
             t \<leftarrow> core_sysdep_time;
             hmod (\<lambda>h. h \<lparr> pub_list := nodes @ [\<lparr> pn_packet_id = pid, pn_packet = packet,
                 pn_last_send_time = t \<rparr>] \<rparr>);
             ret STATE_SUCCESS } } } }"

definition core_mqtt_publist_remove :: "u16 \<Rightarrow> unit mq" where
  "core_mqtt_publist_remove pid = do {
     nodes \<leftarrow> hget pub_list;
     case List.extract (\<lambda>n. pn_packet_id n = pid) nodes of
       None \<Rightarrow> ret ()
     | Some (before, node, after) \<Rightarrow> do {
         hmod (\<lambda>h. h \<lparr> pub_list := before @ after \<rparr>);
         core_sysdep_free;
         core_sysdep_free } }"

definition core_mqtt_publist_destroy :: "unit mq" where
  "core_mqtt_publist_destroy = do {
     nodes \<leftarrow> hget pub_list;
     hmod (\<lambda>h. h \<lparr> pub_list := [] \<rparr>);
     wmod (\<lambda>w. w \<lparr> live := live w - 2 * int (length nodes) \<rparr>) }"

section \<open>Sending\<close>

definition core_mqtt_subunsub :: "string \<Rightarrow> u16 \<Rightarrow> u8 \<Rightarrow> u8 \<Rightarrow> int mq" where
  "core_mqtt_subunsub topic topic_len qos pkt_type = do {
     ok \<leftarrow> core_sysdep_malloc;
     if \<not> ok then ret STATE_SYS_DEPEND_MALLOC_FAILED
     else do {
       pid \<leftarrow> core_mqtt_packet_id;
       attempt (lift_outcome (subunsub_pkt topic topic_len qos pkt_type pid)) (\<lambda>pkt. do {
         res \<leftarrow> write_locked pkt;
         core_sysdep_free;
         if res < STATE_SUCCESS then do { write_failed res; ret res }
         else ret (int (unat pid)) }) } }"

definition core_mqtt_heartbeat :: "int mq" where
  "core_mqtt_heartbeat = do {
     core_mqtt_heartbeat_diag 0x00;
     res \<leftarrow> write_locked [0xC0, 0x00];
     if res < STATE_SUCCESS then do { write_failed res; ret res } else ret STATE_SUCCESS }"

text \<open>
  The loop over the cached publications: \<open>done_nodes\<close> were visited; the node at hand is
  updated in place. It ends early, with the result, when a write fails.
\<close>

definition put_node ::
  "core_mqtt_pub_node list \<Rightarrow> core_mqtt_pub_node \<Rightarrow> core_mqtt_pub_node list \<Rightarrow> unit mq" where
  "put_node done_nodes node rest = hmod (\<lambda>h. h \<lparr> pub_list := done_nodes @ node # rest \<rparr>)"

fun repub_loop :: "core_mqtt_pub_node list \<Rightarrow> core_mqtt_pub_node list \<Rightarrow> int mq" where
  "repub_loop done_nodes [] = ret STATE_SUCCESS"
| "repub_loop done_nodes (node # rest) = do {
     time_now \<leftarrow> core_sysdep_time;
     (let node1 = (if time_now < pn_last_send_time node then node \<lparr> pn_last_send_time := time_now \<rparr>
                   else node) in do {
       put_node done_nodes node1 rest;
       timeout \<leftarrow> hget repub_timeout_ms;
       if ucast timeout \<le> time_now - pn_last_send_time node1 then do {
         res \<leftarrow> write_locked (pn_packet node1);
         (let node2 = node1 \<lparr> pn_last_send_time := time_now \<rparr> in do {
           put_node done_nodes node2 rest;
           if res < STATE_SUCCESS then ret res else repub_loop (done_nodes @ [node2]) rest }) }
       else repub_loop (done_nodes @ [node1]) rest }) }"

definition core_mqtt_repub :: "int mq" where
  "core_mqtt_repub = do {
     lock Pub_mutex;
     nodes \<leftarrow> hget pub_list;
     res \<leftarrow> repub_loop [] nodes;
     unlock Pub_mutex;
     if res < STATE_SUCCESS then do { write_failed res; ret res } else ret STATE_SUCCESS }"

section \<open>Process handlers\<close>

definition core_mqtt_process_datalist_insert :: "core_mqtt_process_data \<Rightarrow> int mq" where
  "core_mqtt_process_datalist_insert pd = do {
     l \<leftarrow> hget process_data_list;
     case List.extract (\<lambda>d. pd_handler d = pd_handler pd) l of
       Some (before, d, after) \<Rightarrow> do {
         hmod (\<lambda>h. h \<lparr> process_data_list := before @ d \<lparr> pd_context := pd_context pd \<rparr> # after \<rparr>);
         ret STATE_SUCCESS }
     | None \<Rightarrow> do {
         ok \<leftarrow> core_sysdep_malloc;
         if \<not> ok then ret STATE_SYS_DEPEND_MALLOC_FAILED
         else do {
           hmod (\<lambda>h. h \<lparr> process_data_list := l @ [pd] \<rparr>);
           ret STATE_SUCCESS } } }"

definition core_mqtt_process_datalist_remove :: "core_mqtt_process_data \<Rightarrow> unit mq" where
  "core_mqtt_process_datalist_remove pd = do {
     l \<leftarrow> hget process_data_list;
     case List.extract (\<lambda>d. pd_handler d = pd_handler pd) l of
       None \<Rightarrow> ret ()
     | Some (before, d, after) \<Rightarrow> do {
         hmod (\<lambda>h. h \<lparr> process_data_list := before @ after \<rparr>);
         core_sysdep_free } }"

definition core_mqtt_process_datalist_destroy :: "unit mq" where
  "core_mqtt_process_datalist_destroy = do {
     l \<leftarrow> hget process_data_list;
     hmod (\<lambda>h. h \<lparr> process_data_list := [] \<rparr>);
     wmod (\<lambda>w. w \<lparr> live := live w - int (length l) \<rparr>) }"

definition core_mqtt_append_process_data :: "core_mqtt_process_data \<Rightarrow> int mq" where
  "core_mqtt_append_process_data pd =
     (if pd_handler pd = 0 then ret STATE_USER_INPUT_NULL_POINTER
      else do {
        lock Process_handler_mutex;
        res \<leftarrow> core_mqtt_process_datalist_insert pd;
        hc \<leftarrow> hget has_connected;
        (if STATE_SUCCESS \<le> res \<and> hc = 1
         then emit (Eff_process (pd_handler pd) (pd_context pd) (Some Ev_connect) False)
         else ret ());
        unlock Process_handler_mutex;
        ret res })"

definition core_mqtt_remove_process_data :: "core_mqtt_process_data \<Rightarrow> int mq" where
  "core_mqtt_remove_process_data pd =
     (if pd_handler pd = 0 then ret STATE_USER_INPUT_NULL_POINTER
      else do {
        lock Process_handler_mutex;
        core_mqtt_process_datalist_remove pd;
        unlock Process_handler_mutex;
        ret STATE_SUCCESS })"

definition core_mqtt_process_data_process :: "bool \<Rightarrow> unit mq" where
  "core_mqtt_process_data_process deinit = do {
     lock Process_handler_mutex;
     process_handlers None deinit;
     unlock Process_handler_mutex }"

section \<open>Reconnecting\<close>

definition reconnect_interval :: "core_mqtt_reconnect \<Rightarrow> u32" where
  "reconnect_interval r =
     (if rc_backoff_enabled r \<noteq> 0
      then rc_interval_ms r * (rc_reconnect_counter r + 1) + rc_rand_ms r
      else rc_interval_ms r)"

definition update_reconnect ::
  "(core_mqtt_reconnect \<Rightarrow> core_mqtt_reconnect) \<Rightarrow> unit mq" where
  "update_reconnect f = hmod (\<lambda>h. h \<lparr> reconnect_params := f (reconnect_params h) \<rparr>)"

definition next_counter :: "int \<Rightarrow> core_mqtt_reconnect \<Rightarrow> core_mqtt_reconnect" where
  "next_counter res r =
     (if rc_backoff_enabled r \<noteq> 0 then
        if res = STATE_MQTT_CONNECT_SUCCESS then r \<lparr> rc_reconnect_counter := 0 \<rparr>
        else if sint (rc_reconnect_counter r) < 60
        then r \<lparr> rc_reconnect_counter := rc_reconnect_counter r + 1 \<rparr>
        else r
      else r)"

definition core_mqtt_reconnect_op :: "int mq" where
  "core_mqtt_reconnect_op = do {
     interval_ms \<leftarrow> hget (\<lambda>h. reconnect_interval (reconnect_params h));
     nw \<leftarrow> hget network_handle;
     if nw then ret STATE_SUCCESS
     else do {
       lock Data_mutex;
       lock Send_mutex;
       lock Recv_mutex;
       time_now \<leftarrow> core_sysdep_time;
       update_reconnect (\<lambda>r. if time_now < rc_last_retry_time r
         then r \<lparr> rc_last_retry_time := time_now \<rparr> else r);
       last \<leftarrow> hget (\<lambda>h. rc_last_retry_time (reconnect_params h));
       res \<leftarrow>
         (if last + ucast interval_ms \<le> time_now then do {
            res \<leftarrow> core_mqtt_connect;
            t \<leftarrow> core_sysdep_time;
            update_reconnect (\<lambda>r. r \<lparr> rc_last_retry_time := t \<rparr>);
            update_reconnect (next_counter res);
            ret res }
          else ret STATE_SYS_DEPEND_NWK_CLOSED);
       unlock Recv_mutex;
       unlock Send_mutex;
       unlock Data_mutex;
       ret res } }"

section \<open>Receiving\<close>

definition core_mqtt_read_remainbytes :: "u32 \<Rightarrow> (int + byte list) mq" where
  "core_mqtt_read_remainbytes remainlen =
     (if remainlen > 0 then do {
        ok \<leftarrow> core_sysdep_malloc;
        if \<not> ok then ret (Inl STATE_SYS_DEPEND_MALLOC_FAILED)
        else do {
          (res, remain) \<leftarrow> core_mqtt_read (unat remainlen);
          if res < STATE_SUCCESS then do {
            core_sysdep_free;
            ret (Inl (if res = STATE_SYS_DEPEND_NWK_READ_LESSDATA
                      then STATE_MQTT_MALFORMED_REMAINING_BYTES else res)) }
          else ret (Inr remain) } }
      else ret (Inr []))"

definition call_recv_handler :: "recv_packet \<Rightarrow> unit mq" where
  "call_recv_handler packet = do {
     rh \<leftarrow> hget recv_handler;
     ud \<leftarrow> hget userdata;
     if rh \<noteq> 0 then emit (Eff_recv rh ud packet) else ret () }"

definition core_mqtt_pingresp_handler :: "nat \<Rightarrow> int mq" where
  "core_mqtt_pingresp_handler len = do {
     t \<leftarrow> core_sysdep_time;
     last \<leftarrow> hget (\<lambda>h. hb_last_send_time (heartbeat_params h));
     (let rtt = t - last in
      if len \<noteq> 0 then ret STATE_MQTT_RECV_INVALID_PINRESP_PACKET
      else do {
        (if rtt < 10000
         then hmod (\<lambda>h. h \<lparr> nwkstats_info := (nwkstats_info h)
                \<lparr> nw_rtt := (nw_rtt (nwkstats_info h) + rtt) div 2 \<rparr> \<rparr>)
         else ret ());
        call_recv_handler Recv_heartbeat_response;
        core_mqtt_heartbeat_diag 0x01;
        ret STATE_SUCCESS }) }"

definition core_mqtt_puback_send :: "u16 \<Rightarrow> int mq" where
  "core_mqtt_puback_send pid = do {
     res \<leftarrow> write_locked (puback_pkt pid);
     if res < STATE_SUCCESS then do { write_failed res; ret res } else ret STATE_SUCCESS }"

text \<open>
  The copies of the matching handlers: one allocation each; a handler whose copy cannot be
  allocated is skipped.
\<close>

fun handlerlist_append ::
  "core_mqtt_sub_handler_node list \<Rightarrow> core_mqtt_sub_handler_node list
   \<Rightarrow> core_mqtt_sub_handler_node list mq" where
  "handlerlist_append dest [] = ret dest"
| "handlerlist_append dest (node # src) = do {
     ok \<leftarrow> core_sysdep_malloc;
     handlerlist_append (if ok then dest @ [node] else dest) src }"

fun matching_handlers ::
  "string \<Rightarrow> core_mqtt_sub_handler_node list \<Rightarrow> core_mqtt_sub_node list
   \<Rightarrow> core_mqtt_sub_handler_node list mq" where
  "matching_handlers topic dest [] = ret dest"
| "matching_handlers topic dest (node # nodes) =
     (if core_mqtt_topic_compare (sn_topic node) topic = STATE_SUCCESS then do {
        dest' \<leftarrow> handlerlist_append dest (sn_handle_list node);
        matching_handlers topic dest' nodes }
      else matching_handlers topic dest nodes)"

definition core_mqtt_call_user_handler :: "string \<Rightarrow> byte list \<Rightarrow> u8 \<Rightarrow> unit mq" where
  "core_mqtt_call_user_handler topic payload qos = do {
     lock Sub_mutex;
     subs \<leftarrow> hget sub_list;
     copy \<leftarrow> matching_handlers topic [] subs;
     unlock Sub_mutex;
     ud \<leftarrow> hget userdata;
     wmod (\<lambda>w. w \<lparr> trace := trace w @ map (\<lambda>n. Eff_recv (sh_handler n)
         (if sh_userdata n = 0 then ud else sh_userdata n) (Recv_pub qos topic payload)) copy \<rparr>);
     wmod (\<lambda>w. w \<lparr> live := live w - int (length copy) \<rparr>);
     if copy = [] then call_recv_handler (Recv_pub qos topic payload) else ret () }"

text \<open>
  A decompression handler allocates the new payload and the caller frees it: the count of blocks
  is the same before and after.
\<close>

definition core_mqtt_pub_handler :: "byte list \<Rightarrow> u8 \<Rightarrow> int mq" where
  "core_mqtt_pub_handler input qos =
     attempt (lift_outcome (parse_publish input qos)) (\<lambda>v.
       let topic = string_of (take (unat (pv_topic_len v)) (drop (pv_topic_off v) input));
           payload = take (unat (pv_payload_len v)) (drop (pv_payload_off v) input)
       in do {
         (if qos = 0x01 then do { core_mqtt_puback_send (pv_packet_id v); ret () } else ret ());
         dh \<leftarrow> hget decompress;
         if dh \<noteq> 0 then do {
           f \<leftarrow> call p_decompress;
           (case f topic payload of (res, topic', payload') \<Rightarrow>
             if res < STATE_SUCCESS then ret res
             else do { core_mqtt_call_user_handler topic' payload' qos; ret STATE_SUCCESS }) }
         else do { core_mqtt_call_user_handler topic payload qos; ret STATE_SUCCESS } })"

definition core_mqtt_puback_handler :: "byte list \<Rightarrow> int mq" where
  "core_mqtt_puback_handler input =
     (if length input \<noteq> 2 then ret STATE_MQTT_RECV_INVALID_PUBACK_PACKET
      else (let pid = u16_of_bytes (input ! 0) (input ! 1) in do {
        lock Pub_mutex;
        core_mqtt_publist_remove pid;
        unlock Pub_mutex;
        call_recv_handler (Recv_pub_ack pid);
        ret STATE_SUCCESS }))"

fun call_suback_handlers :: "suback list \<Rightarrow> unit mq" where
  "call_suback_handlers [] = ret ()"
| "call_suback_handlers (e # es) = do { call_recv_handler (Recv_suback e); call_suback_handlers es }"

definition core_mqtt_subunsuback_handler :: "byte list \<Rightarrow> u8 \<Rightarrow> unit mq" where
  "core_mqtt_subunsuback_handler input packet_type = do {
     r \<leftarrow> lift_outcome (subunsuback_entries input packet_type);
     (case r of Inl e \<Rightarrow> ret () | Inr es \<Rightarrow> call_suback_handlers es) }"

section \<open>Options\<close>

datatype core_mqtt_option =
    Core_append_process_handler core_mqtt_process_data
  | Core_remove_process_handler core_mqtt_process_data
  | Core_compress_handler ptr
  | Core_decompress_handler ptr
  | Core_option_max

definition core_mqtt_setopt :: "bool \<Rightarrow> bool \<Rightarrow> core_mqtt_option \<Rightarrow> int mq" where
  "core_mqtt_setopt handle_ok data_ok option =
     (if \<not> handle_ok \<or> \<not> data_ok then ret STATE_USER_INPUT_NULL_POINTER
      else if option = Core_option_max then ret STATE_USER_INPUT_OUT_RANGE
      else do {
        lock Data_mutex;
        unlock Data_mutex;
        res \<leftarrow>
          (case option of
             Core_append_process_handler pd \<Rightarrow> core_mqtt_append_process_data pd
           | Core_remove_process_handler pd \<Rightarrow> core_mqtt_remove_process_data pd
           | Core_compress_handler f \<Rightarrow> do { hmod (\<lambda>h. h \<lparr> compress := f \<rparr>); ret STATE_SUCCESS }
           | Core_decompress_handler f \<Rightarrow> do { hmod (\<lambda>h. h \<lparr> decompress := f \<rparr>); ret STATE_SUCCESS }
           | Core_option_max \<Rightarrow> ret STATE_USER_INPUT_UNKNOWN_OPTION);
        lock Data_mutex;
        unlock Data_mutex;
        ret res })"

datatype aiot_mqtt_option =
    Opt_host string | Opt_port u16 | Opt_product_key string | Opt_device_name string
  | Opt_device_secret string | Opt_extend_clientid string | Opt_security_mode string
  | Opt_username string | Opt_password string | Opt_clientid string | Opt_keepalive_sec u16
  | Opt_clean_session u8 | Opt_network_cred network_cred | Opt_connect_timeout_ms u32
  | Opt_heartbeat_interval_ms u32 | Opt_heartbeat_max_lost u8 | Opt_reconn_enabled u8
  | Opt_reconn_interval_ms u32 | Opt_send_timeout_ms u32 | Opt_recv_timeout_ms u32
  | Opt_repub_timeout_ms u32 | Opt_deinit_timeout_ms u32 | Opt_recv_handler ptr
  | Opt_event_handler ptr | Opt_append_topic_map "string option" ptr ptr
  | Opt_remove_topic_map "string option" ptr | Opt_append_requestid u8 | Opt_userdata ptr
  | Opt_max_repub_num u16 | Opt_topic_header_check u8 | Opt_max

definition hset :: "(core_mqtt_handle \<Rightarrow> core_mqtt_handle) \<Rightarrow> int mq" where
  "hset f = do { hmod f; ret STATE_SUCCESS }"

definition then_sign_clean :: "int mq \<Rightarrow> int mq" where
  "then_sign_clean m = do { res \<leftarrow> m; core_mqtt_sign_clean; ret res }"

definition flag_result :: "u8 \<Rightarrow> int" where
  "flag_result v = (if v \<noteq> 0 \<and> v \<noteq> 1 then STATE_USER_INPUT_OUT_RANGE else STATE_SUCCESS)"

definition set_cred :: "network_cred \<Rightarrow> int mq" where
  "set_cred c = do {
     old \<leftarrow> hget cred;
     free_if (old \<noteq> None);
     ok \<leftarrow> core_sysdep_malloc;
     hmod (\<lambda>h. h \<lparr> cred := (if ok then Some c else None) \<rparr>);
     ret (if ok then STATE_SUCCESS else STATE_SYS_DEPEND_MALLOC_FAILED) }"

text \<open>The options set with \<^verbatim>\<open>data_mutex\<close> held.\<close>

definition setopt_locked :: "aiot_mqtt_option \<Rightarrow> int mq" where
  "setopt_locked option = (case option of
     Opt_host s \<Rightarrow> m_strdup host host_update s
   | Opt_port v \<Rightarrow> hset (\<lambda>h. h \<lparr> port := v \<rparr>)
   | Opt_product_key s \<Rightarrow> m_strdup product_key product_key_update s
   | Opt_device_name s \<Rightarrow> m_strdup device_name device_name_update s
   | Opt_device_secret s \<Rightarrow> then_sign_clean (m_strdup device_secret device_secret_update s)
   | Opt_extend_clientid s \<Rightarrow> then_sign_clean (m_strdup extend_clientid extend_clientid_update s)
   | Opt_security_mode s \<Rightarrow> then_sign_clean (m_strdup security_mode security_mode_update s)
   | Opt_username s \<Rightarrow> m_strdup username username_update s
   | Opt_password s \<Rightarrow> m_strdup password password_update s
   | Opt_clientid s \<Rightarrow> m_strdup clientid clientid_update s
   | Opt_keepalive_sec v \<Rightarrow> hset (\<lambda>h. h \<lparr> keep_alive_s := v \<rparr>)
   | Opt_clean_session v \<Rightarrow> do { hmod (\<lambda>h. h \<lparr> clean_session := v \<rparr>); ret (flag_result v) }
   | Opt_network_cred c \<Rightarrow> set_cred c
   | Opt_connect_timeout_ms v \<Rightarrow> hset (\<lambda>h. h \<lparr> connect_timeout_ms := v \<rparr>)
   | Opt_heartbeat_interval_ms v \<Rightarrow>
       hset (\<lambda>h. h \<lparr> heartbeat_params := (heartbeat_params h) \<lparr> hb_interval_ms := v \<rparr> \<rparr>)
   | Opt_heartbeat_max_lost v \<Rightarrow>
       hset (\<lambda>h. h \<lparr> heartbeat_params := (heartbeat_params h) \<lparr> hb_max_lost_times := v \<rparr> \<rparr>)
   | Opt_reconn_enabled v \<Rightarrow> do {
       hmod (\<lambda>h. h \<lparr> reconnect_params := (reconnect_params h) \<lparr> rc_enabled := v \<rparr> \<rparr>);
       ret (flag_result v) }
   | Opt_reconn_interval_ms v \<Rightarrow>
       hset (\<lambda>h. h \<lparr> reconnect_params := (reconnect_params h)
         \<lparr> rc_interval_ms := v, rc_backoff_enabled := 0 \<rparr> \<rparr>)
   | Opt_send_timeout_ms v \<Rightarrow> hset (\<lambda>h. h \<lparr> send_timeout_ms := v \<rparr>)
   | Opt_recv_timeout_ms v \<Rightarrow> hset (\<lambda>h. h \<lparr> recv_timeout_ms := v \<rparr>)
   | Opt_repub_timeout_ms v \<Rightarrow> hset (\<lambda>h. h \<lparr> repub_timeout_ms := v \<rparr>)
   | Opt_deinit_timeout_ms v \<Rightarrow> hset (\<lambda>h. h \<lparr> deinit_timeout_ms := v \<rparr>)
   | Opt_recv_handler f \<Rightarrow> hset (\<lambda>h. h \<lparr> recv_handler := f \<rparr>)
   | Opt_event_handler f \<Rightarrow> hset (\<lambda>h. h \<lparr> event_handler := f \<rparr>)
   | Opt_append_requestid v \<Rightarrow> hset (\<lambda>h. h \<lparr> append_requestid := v \<rparr>)
   | Opt_userdata p \<Rightarrow> hset (\<lambda>h. h \<lparr> userdata := p \<rparr>)
   | Opt_max_repub_num v \<Rightarrow> hset (\<lambda>h. h \<lparr> repub_list_limit := v \<rparr>)
   | Opt_topic_header_check v \<Rightarrow>
       (if v = 1 \<or> v = 0 then hset (\<lambda>h. h \<lparr> topic_header_check := v \<rparr>)
        else ret STATE_USER_INPUT_OUT_RANGE)
   | _ \<Rightarrow> ret STATE_USER_INPUT_UNKNOWN_OPTION)"

text \<open>The two topic-map options run without the mutex.\<close>

definition setopt_topic_map :: "int mq \<Rightarrow> int mq" where
  "setopt_topic_map m = do {
     unlock Data_mutex;
     res \<leftarrow> m;
     lock Data_mutex;
     ret res }"

definition aiot_mqtt_setopt :: "bool \<Rightarrow> bool \<Rightarrow> aiot_mqtt_option \<Rightarrow> int mq" where
  "aiot_mqtt_setopt handle_ok data_ok option =
     (if \<not> handle_ok \<or> \<not> data_ok then ret STATE_USER_INPUT_NULL_POINTER
      else if option = Opt_max then ret STATE_USER_INPUT_OUT_RANGE
      else do {
        en \<leftarrow> hget exec_enabled;
        if en = 0 then ret STATE_USER_INPUT_EXEC_DISABLED
        else do {
          core_mqtt_exec_inc;
          lock Data_mutex;
          res \<leftarrow>
            (case option of
               Opt_append_topic_map t f u \<Rightarrow> setopt_topic_map (core_mqtt_append_topic_map t f u)
             | Opt_remove_topic_map t f \<Rightarrow> setopt_topic_map (core_mqtt_remove_topic_map t f)
             | _ \<Rightarrow> setopt_locked option);
          unlock Data_mutex;
          core_mqtt_exec_dec;
          ret res } })"

section \<open>Creating and destroying a handle\<close>

definition initial_handle :: "u32 \<Rightarrow> core_mqtt_handle" where
  "initial_handle rand_value = \<lparr>
     network_handle = False, host = None, port = 0, product_key = None, device_name = None,
     device_secret = None, username = None, password = None, clientid = None,
     extend_clientid = None, security_mode = None, keep_alive_s = 1200, clean_session = 1,
     append_requestid = 0, connect_timeout_ms = 10000,
     heartbeat_params = \<lparr> hb_interval_ms = 25000, hb_max_lost_times = 2, hb_lost_times = 0,
       hb_last_send_time = 0 \<rparr>,
     reconnect_params = \<lparr> rc_enabled = 1, rc_interval_ms = 2000, rc_last_retry_time = 0,
       rc_backoff_enabled = 1, rc_rand_ms = rand_value mod 1000 - 500, rc_reconnect_counter = 0 \<rparr>,
     send_timeout_ms = 5000, recv_timeout_ms = 5000, repub_timeout_ms = 3000, cred = None,
     topic_header_check = 1, has_connected = 0, disconnected = 0, disconnect_api_called = 0,
     exec_enabled = 1, exec_count = 0, deinit_timeout_ms = 2000, packet_id = 0, sub_list = [],
     pub_list = [], process_data_list = [], recv_handler = 0, event_handler = 0, compress = 0,
     decompress = 0,
     nwkstats_info = \<lparr> nw_network_type = 0, nw_connect_timestamp = 0, nw_connect_time_used = 0,
       nw_failed_timestamp = 0, nw_failed_error_code = 0, nw_rtt = 0 \<rparr>,
     userdata = 0, repub_list_limit = 50 \<rparr>"

text \<open>\<open>portfile_ok\<close>: the platform layer was registered.\<close>

definition aiot_mqtt_init :: "bool \<Rightarrow> world \<Rightarrow> core_mqtt_handle option \<times> world" where
  "aiot_mqtt_init portfile_ok w =
     (if \<not> portfile_ok then (None, w)
      else
        let (res, g) = core_global_init (glob w);
            w1 = w \<lparr> glob := g \<rparr>
        in if res < STATE_SUCCESS then (None, w1)
           else if \<not> p_malloc (plat w1) (calls w1)
           then (None, w1 \<lparr> calls := Suc (calls w1), glob := snd (core_global_deinit (glob w1)) \<rparr>)
           else (Some (initial_handle (p_rand (plat w1) (Suc (calls w1)))),
                 w1 \<lparr> calls := Suc (Suc (calls w1)), live := live w1 + 1 \<rparr>))"

text \<open>
  The wait for the other threads to leave. \<open>fuel\<close> bounds the rounds; \<open>None\<close> where it
  runs out (the clock of the platform may stand still).
\<close>

fun deinit_wait :: "nat \<Rightarrow> u64 \<Rightarrow> unit option mq" where
  "deinit_wait 0 timestart = ret None"
| "deinit_wait (Suc fuel) timestart = do {
     n \<leftarrow> hget exec_count;
     if n = 0 then ret (Some ())
     else do {
       core_sysdep_sleep 100;
       t \<leftarrow> core_sysdep_time;
       timeout \<leftarrow> hget deinit_timeout_ms;
       if t - timestart < ucast timeout then deinit_wait fuel timestart else ret (Some ()) } }"

definition opt_count :: "'a option \<Rightarrow> int" where
  "opt_count v = (case v of None \<Rightarrow> 0 | Some _ \<Rightarrow> 1)"

definition deinit_frees :: "core_mqtt_handle \<Rightarrow> int" where
  "deinit_frees h = opt_count (host h) + opt_count (product_key h) + opt_count (device_name h)
     + opt_count (device_secret h) + opt_count (username h) + opt_count (password h)
     + opt_count (clientid h) + opt_count (extend_clientid h) + opt_count (security_mode h)
     + opt_count (cred h)"

text \<open>
  The second result says whether the handle was destroyed (\<^verbatim>\<open>*handle = NULL\<close>).
\<close>

definition aiot_mqtt_deinit :: "nat \<Rightarrow> bool \<Rightarrow> (int \<times> bool) option mq" where
  "aiot_mqtt_deinit fuel handle_ok =
     (if \<not> handle_ok then ret (Some (STATE_USER_INPUT_NULL_POINTER, False))
      else do {
        en \<leftarrow> hget exec_enabled;
        if en = 0 then ret (Some (STATE_USER_INPUT_EXEC_DISABLED, False))
        else do {
          hmod (\<lambda>h. h \<lparr> exec_enabled := 0 \<rparr>);
          timestart \<leftarrow> core_sysdep_time;
          r \<leftarrow> deinit_wait fuel timestart;
          (case r of
             None \<Rightarrow> ret None
           | Some _ \<Rightarrow> do {
               n \<leftarrow> hget exec_count;
               if n \<noteq> 0 then ret (Some (STATE_MQTT_DEINIT_TIMEOUT, False))
               else do {
                 core_mqtt_process_data_process True;
                 network_deinit_if;
                 h \<leftarrow> hget (\<lambda>h. h);
                 wmod (\<lambda>w. w \<lparr> live := live w - deinit_frees h \<rparr>);
                 core_mqtt_sublist_destroy;
                 core_mqtt_publist_destroy;
                 core_mqtt_process_datalist_destroy;
                 wmod (\<lambda>w. w \<lparr> glob := snd (core_global_deinit (glob w)) \<rparr>);
                 core_sysdep_free;
                 ret (Some (STATE_SUCCESS, True)) } }) } })"

section \<open>Connection API\<close>

definition connect_locked :: "int mq" where
  "connect_locked = do {
     lock Send_mutex;
     lock Recv_mutex;
     res \<leftarrow> core_mqtt_connect;
     unlock Recv_mutex;
     unlock Send_mutex;
     ret res }"

definition aiot_mqtt_connect :: "bool \<Rightarrow> int mq" where
  "aiot_mqtt_connect handle_ok =
     (if \<not> handle_ok then ret STATE_USER_INPUT_NULL_POINTER
      else do {
        time_ent_ms \<leftarrow> core_sysdep_time;
        en \<leftarrow> hget exec_enabled;
        if en = 0 then ret STATE_USER_INPUT_EXEC_DISABLED
        else do {
          core_mqtt_exec_inc;
          hmod (\<lambda>h. h \<lparr> disconnect_api_called := 0 \<rparr>);
          res \<leftarrow> connect_locked;
          res' \<leftarrow>
            (if res = STATE_MQTT_CONNECT_SUCCESS then do {
               time_ms \<leftarrow> core_sysdep_time;
               core_mqtt_connect_event_notify;
               ret STATE_SUCCESS }
             else do {
               wmod (\<lambda>w. w \<lparr> last_failed_error_code := res \<rparr>);
               core_mqtt_disconnect_event_notify Network_disconnect;
               ret res });
          core_mqtt_exec_dec;
          ret res' } })"

definition aiot_mqtt_disconnect :: "bool \<Rightarrow> int mq" where
  "aiot_mqtt_disconnect handle_ok =
     (if \<not> handle_ok then ret STATE_USER_INPUT_NULL_POINTER
      else do {
        en \<leftarrow> hget exec_enabled;
        if en = 0 then ret STATE_USER_INPUT_EXEC_DISABLED
        else do {
          core_mqtt_exec_inc;
          hmod (\<lambda>h. h \<lparr> disconnect_api_called := 1 \<rparr>);
          core_mqtt_disconnect;
          network_close_locked;
          core_mqtt_disconnect_event_notify Network_disconnect;
          core_mqtt_exec_dec;
          ret STATE_SUCCESS } })"

definition aiot_mqtt_heartbeat :: "bool \<Rightarrow> int mq" where
  "aiot_mqtt_heartbeat handle_ok =
     (if \<not> handle_ok then ret STATE_USER_INPUT_NULL_POINTER else core_mqtt_heartbeat)"

definition update_heartbeat :: "(core_mqtt_heartbeat \<Rightarrow> core_mqtt_heartbeat) \<Rightarrow> unit mq" where
  "update_heartbeat f = hmod (\<lambda>h. h \<lparr> heartbeat_params := f (heartbeat_params h) \<rparr>)"

definition aiot_mqtt_process :: "bool \<Rightarrow> int mq" where
  "aiot_mqtt_process handle_ok =
     (if \<not> handle_ok then ret STATE_USER_INPUT_NULL_POINTER
      else do {
        en \<leftarrow> hget exec_enabled;
        if en = 0 then ret STATE_USER_INPUT_EXEC_DISABLED
        else do {
          core_mqtt_exec_inc;
          time_now \<leftarrow> core_sysdep_time;
          update_heartbeat (\<lambda>b. if time_now < hb_last_send_time b
            then b \<lparr> hb_last_send_time := time_now \<rparr> else b);
          hb \<leftarrow> hget heartbeat_params;
          res \<leftarrow>
            (if ucast (hb_interval_ms hb) \<le> time_now - hb_last_send_time hb then do {
               res \<leftarrow> core_mqtt_heartbeat;
               update_heartbeat (\<lambda>b. b \<lparr> hb_last_send_time := time_now,
                 hb_lost_times := hb_lost_times b + 1 \<rparr>);
               ret res }
             else ret STATE_SUCCESS);
          core_mqtt_repub;
          core_mqtt_process_data_process False;
          core_mqtt_exec_dec;
          ret res } })"

section \<open>Publishing\<close>

definition core_mqtt_pub :: "string \<Rightarrow> byte list \<Rightarrow> u8 \<Rightarrow> int mq" where
  "core_mqtt_pub topic payload qos = do {
     core_mqtt_exec_inc;
     ok \<leftarrow> core_sysdep_malloc;
     if \<not> ok then do { core_mqtt_exec_dec; ret STATE_SYS_DEPEND_MALLOC_FAILED }
     else do {
       pid \<leftarrow> (if qos = 0x01 then core_mqtt_packet_id else ret 0);
       r \<leftarrow> lift_outcome (publish_pkt (bytes_of topic) payload qos pid);
       (let pkt = (case r of Inr p \<Rightarrow> p | Inl _ \<Rightarrow> []) in do {
         res1 \<leftarrow>
           (if qos = 0x01 then do {
              lock Pub_mutex;
              res \<leftarrow> core_mqtt_publist_insert pkt pid;
              unlock Pub_mutex;
              ret res }
            else ret STATE_SUCCESS);
         if res1 < STATE_SUCCESS then do { core_sysdep_free; core_mqtt_exec_dec; ret res1 }
         else do {
           res \<leftarrow> write_locked pkt;
           core_sysdep_free;
           (if res < STATE_SUCCESS then write_failed res else ret ());
           core_mqtt_exec_dec;
           ret (if res < STATE_SUCCESS then res
                else if qos = 0x01 then int (unat pid) else STATE_SUCCESS) } }) } }"

definition core_mqtt_pub_params_check ::
  "bool \<Rightarrow> string option \<Rightarrow> byte list option \<Rightarrow> u8 \<Rightarrow> core_mqtt_handle \<Rightarrow> int" where
  "core_mqtt_pub_params_check handle_ok topic payload qos h =
     (case (topic, payload) of
        (Some t, Some p) \<Rightarrow>
          if \<not> handle_ok then STATE_USER_INPUT_NULL_POINTER
          else if CORE_MQTT_TOPIC_MAXLEN \<le> length t then STATE_MQTT_TOPIC_TOO_LONG
          else if length t = 0 \<or> qos > 1 then STATE_USER_INPUT_OUT_RANGE
          else if CORE_MQTT_PAYLOAD_MAXLEN \<le> of_nat (length p) then STATE_MQTT_PUB_PAYLOAD_TOO_LONG
          else if \<not> network_handle h then STATE_SYS_DEPEND_NWK_CLOSED
          else if exec_enabled h = 0 then STATE_USER_INPUT_EXEC_DISABLED
          else STATE_SUCCESS
      | _ \<Rightarrow> STATE_USER_INPUT_NULL_POINTER)"

text \<open>The time stamp of the suffix is the platform's clock (the log module may correct it).\<close>

definition core_mqtt_append_rid :: "string \<Rightarrow> (int \<times> string option) mq" where
  "core_mqtt_append_rid topic = do {
     timestamp \<leftarrow> core_sysdep_time;
     ok \<leftarrow> core_sysdep_malloc;
     if \<not> ok then ret (STATE_PORT_MALLOC_FAILED, None)
     else do {
       rand \<leftarrow> core_sysdep_rand;
       ret (STATE_SUCCESS,
            Some (topic @ ''?_rid='' @ core_uint642str timestamp @ core_uint2str rand)) } }"

text \<open>
  The compression handler gets the message and gives the new payload; \<open>1\<close> says that it
  allocated one, which the caller frees (counted neither way). A negative result is returned without
  freeing the topic with the suffix.
\<close>

definition aiot_mqtt_pub :: "bool \<Rightarrow> string option \<Rightarrow> byte list option \<Rightarrow> u8 \<Rightarrow> int mq" where
  "aiot_mqtt_pub handle_ok topic payload qos = do {
     chk \<leftarrow> hget (core_mqtt_pub_params_check handle_ok topic payload qos);
     (case (topic, payload) of
        (Some t, Some p) \<Rightarrow>
          if chk \<noteq> STATE_SUCCESS then ret chk
          else do {
            rid \<leftarrow> hget append_requestid;
            (rres, new_topic) \<leftarrow> (if rid = 1 then core_mqtt_append_rid t else ret (STATE_SUCCESS, None));
            (let t' = (case new_topic of Some nt \<Rightarrow> nt | None \<Rightarrow> t) in do {
              ch \<leftarrow> hget compress;
              (cres, p') \<leftarrow> (if ch \<noteq> 0 then do {
                  f \<leftarrow> call p_compress;
                  (case f t' p of (r, np) \<Rightarrow> ret (r, if r < STATE_SUCCESS then p else np)) }
                else ret (STATE_SUCCESS, p));
              if cres < STATE_SUCCESS then ret cres
              else do {
                res \<leftarrow> core_mqtt_pub t' p' qos;
                free_if (new_topic \<noteq> None);
                ret res } }) }
      | _ \<Rightarrow> ret chk) }"

section \<open>Subscribing\<close>

definition subunsub_check :: "bool \<Rightarrow> string \<Rightarrow> bool \<Rightarrow> core_mqtt_handle \<Rightarrow> int" where
  "subunsub_check handle_ok topic qos_bad h =
     (if \<not> handle_ok then STATE_USER_INPUT_NULL_POINTER
      else if length topic = 0 \<or> qos_bad then STATE_USER_INPUT_OUT_RANGE
      else if core_mqtt_topic_is_valid (topic_header_check h) topic < STATE_SUCCESS
      then STATE_MQTT_TOPIC_INVALID
      else if exec_enabled h = 0 then STATE_USER_INPUT_EXEC_DISABLED
      else STATE_SUCCESS)"

text \<open>The return after a failed insertion leaves \<open>exec_count\<close> raised.\<close>

definition core_mqtt_sub :: "bool \<Rightarrow> string \<Rightarrow> ptr \<Rightarrow> u8 \<Rightarrow> ptr \<Rightarrow> int mq" where
  "core_mqtt_sub handle_ok topic handler qos ud = do {
     chk \<leftarrow> hget (subunsub_check handle_ok topic (qos > 1));
     if chk \<noteq> STATE_SUCCESS then ret chk
     else do {
       core_mqtt_exec_inc;
       lock Sub_mutex;
       res \<leftarrow> core_mqtt_sublist_insert topic handler ud;
       unlock Sub_mutex;
       if res < STATE_SUCCESS then ret res
       else do {
         res2 \<leftarrow> core_mqtt_subunsub topic (of_nat (length topic)) qos 0x80;
         core_mqtt_exec_dec;
         ret res2 } } }"

definition aiot_mqtt_sub :: "bool \<Rightarrow> string option \<Rightarrow> ptr \<Rightarrow> u8 \<Rightarrow> ptr \<Rightarrow> int mq" where
  "aiot_mqtt_sub handle_ok topic handler qos ud =
     (case topic of
        None \<Rightarrow> ret STATE_USER_INPUT_NULL_POINTER
      | Some t \<Rightarrow> if CORE_MQTT_TOPIC_MAXLEN \<le> length t then ret STATE_MQTT_TOPIC_TOO_LONG
                  else core_mqtt_sub handle_ok t handler qos ud)"

definition core_mqtt_unsub :: "bool \<Rightarrow> string \<Rightarrow> int mq" where
  "core_mqtt_unsub handle_ok topic = do {
     chk \<leftarrow> hget (subunsub_check handle_ok topic False);
     if chk \<noteq> STATE_SUCCESS then ret chk
     else do {
       core_mqtt_exec_inc;
       lock Sub_mutex;
       core_mqtt_sublist_remove topic;
       unlock Sub_mutex;
       res \<leftarrow> core_mqtt_subunsub topic (of_nat (length topic)) 0 0xA0;
       core_mqtt_exec_dec;
       ret res } }"

definition aiot_mqtt_unsub :: "bool \<Rightarrow> string option \<Rightarrow> int mq" where
  "aiot_mqtt_unsub handle_ok topic =
     (case topic of
        None \<Rightarrow> ret STATE_USER_INPUT_NULL_POINTER
      | Some t \<Rightarrow> if CORE_MQTT_TOPIC_MAXLEN \<le> length t then ret STATE_MQTT_TOPIC_TOO_LONG
                  else core_mqtt_unsub handle_ok t)"

section \<open>Receiving API\<close>

text \<open>After a connection attempt inside \<open>aiot_mqtt_recv\<close>.\<close>

definition recv_after_connect :: "int \<Rightarrow> (int + unit) mq" where
  "recv_after_connect res =
     (if res < STATE_SUCCESS then
        if res = STATE_MQTT_CONNECT_SUCCESS then do {
          update_heartbeat (\<lambda>b. b \<lparr> hb_lost_times := 0 \<rparr>);
          core_mqtt_connect_event_notify;
          ret (Inr ()) }
        else do { core_mqtt_exec_dec; ret (Inl res) }
      else ret (Inr ()))"

definition recv_reconnect :: "(int + unit) mq" where
  "recv_reconnect = do {
     nw \<leftarrow> hget network_handle;
     (if \<not> nw then core_mqtt_disconnect_event_notify Network_disconnect else ret ());
     en \<leftarrow> hget (\<lambda>h. rc_enabled (reconnect_params h) = 1 \<and> disconnect_api_called h = 0);
     if en then do { res \<leftarrow> core_mqtt_reconnect_op; recv_after_connect res }
     else ret (Inr ()) }"

definition recv_heartbeat_check :: "(int + unit) mq" where
  "recv_heartbeat_check = do {
     hb \<leftarrow> hget heartbeat_params;
     if hb_lost_times hb > ucast (hb_max_lost_times hb) then do {
       core_mqtt_disconnect_event_notify Heartbeat_disconnect;
       en \<leftarrow> hget (\<lambda>h. rc_enabled (reconnect_params h) = 1 \<and> disconnect_api_called h = 0);
       if en then do { res \<leftarrow> connect_locked; recv_after_connect res }
       else ret (Inr ()) }
     else ret (Inr ()) }"

text \<open>
  Reading one packet with \<^verbatim>\<open>recv_mutex\<close> held: type and body, or the value to
  return. The count of running calls is lowered here on the error paths.
\<close>

definition recv_read :: "(int + byte \<times> u32 \<times> byte list) mq" where
  "recv_read = do {
     lock Recv_mutex;
     (res, hdr) \<leftarrow> core_mqtt_read 1;
     if res < STATE_SUCCESS then do {
       unlock Recv_mutex;
       core_mqtt_exec_dec;
       if res = STATE_SYS_DEPEND_NWK_READ_LESSDATA then ret (Inl STATE_SUCCESS)
       else do { network_close_locked; ret (Inl res) } }
     else do {
       r \<leftarrow> core_mqtt_read_remainlen;
       (case r of
          Inl e \<Rightarrow> do { unlock Recv_mutex; network_close_locked; core_mqtt_exec_dec; ret (Inl e) }
        | Inr remainlen \<Rightarrow> do {
            b \<leftarrow> core_mqtt_read_remainbytes remainlen;
            (case b of
               Inl e \<Rightarrow> do { unlock Recv_mutex; network_close_locked; core_mqtt_exec_dec; ret (Inl e) }
             | Inr remain \<Rightarrow> do { unlock Recv_mutex; ret (Inr (hd hdr, remainlen, remain)) }) }) } }"

definition recv_dispatch :: "byte \<Rightarrow> u32 \<Rightarrow> byte list \<Rightarrow> int mq" where
  "recv_dispatch hdr remainlen remain =
     (let pkt_type = hdr AND 0xF0; reserved = hdr AND 0x0F in
      if pkt_type = 0xD0 then core_mqtt_pingresp_handler (unat remainlen)
      else if pkt_type = 0x30 then core_mqtt_pub_handler remain (drop_bit 1 reserved AND 0x03)
      else if pkt_type = 0x40 then core_mqtt_puback_handler remain
      else if pkt_type = 0x90 then do { core_mqtt_subunsuback_handler remain 0x90; ret STATE_SUCCESS }
      else if pkt_type = 0xB0 then do { core_mqtt_subunsuback_handler remain 0xB0; ret STATE_SUCCESS }
      else if pkt_type = 0x50 \<or> pkt_type = 0x60 \<or> pkt_type = 0x70 then ret STATE_SUCCESS
      else ret STATE_MQTT_PACKET_TYPE_UNKNOWN)"

definition recv_packet_op :: "int mq" where
  "recv_packet_op =
     attempt recv_read (\<lambda>(hdr, remainlen, remain). do {
       update_heartbeat (\<lambda>b. b \<lparr> hb_lost_times := 0 \<rparr>);
       res \<leftarrow> recv_dispatch hdr remainlen remain;
       free_if (remainlen > 0);
       (if res < STATE_SUCCESS then network_close_locked else ret ());
       core_mqtt_exec_dec;
       ret res })"

definition aiot_mqtt_recv :: "bool \<Rightarrow> int mq" where
  "aiot_mqtt_recv handle_ok =
     (if \<not> handle_ok then ret STATE_USER_INPUT_NULL_POINTER
      else do {
        en \<leftarrow> hget exec_enabled;
        if en = 0 then ret STATE_USER_INPUT_EXEC_DISABLED
        else do {
          core_mqtt_exec_inc;
          attempt recv_reconnect (\<lambda>_. attempt recv_heartbeat_check (\<lambda>_. recv_packet_op)) } })"

section \<open>Getters\<close>

definition core_mqtt_get_product_key :: "bool \<Rightarrow> core_mqtt_handle \<Rightarrow> string option" where
  "core_mqtt_get_product_key handle_ok h = (if \<not> handle_ok then None else product_key h)"

definition core_mqtt_get_device_name :: "bool \<Rightarrow> core_mqtt_handle \<Rightarrow> string option" where
  "core_mqtt_get_device_name handle_ok h = (if \<not> handle_ok then None else device_name h)"

definition core_mqtt_get_port :: "bool \<Rightarrow> core_mqtt_handle \<Rightarrow> u16" where
  "core_mqtt_get_port handle_ok h = (if \<not> handle_ok then 0 else port h)"

definition core_mqtt_get_nwkstats :: "bool \<Rightarrow> (int \<times> core_mqtt_nwkstats_info option) mq" where
  "core_mqtt_get_nwkstats handle_ok =
     (if \<not> handle_ok then ret (0, None)
      else do {
        info \<leftarrow> hget nwkstats_info;
        hmod (\<lambda>h. h \<lparr> nwkstats_info := (nwkstats_info h)
          \<lparr> nw_failed_error_code := 0, nw_connect_time_used := 0 \<rparr> \<rparr>);
        ret (STATE_SUCCESS, Some info) })"

end
