(* ===== verification/Mqtt_Locks.thy ===== *)
theory Mqtt_Locks
  imports Mqtt_Client
begin

text \<open>
  The lock discipline of the MQTT client and the counter of running calls. \<open>track\<close> is a
  Hoare triple on the mutexes held and on \<open>exec_count\<close>: every function is shown to give
  back every mutex it takes, never to take a mutex it holds, to take mutexes only in the order of
  \<open>rank\<close>, and to leave the counter as it found it. The rules are collected in
  \<open>track_rules\<close>, so that a function's lemma is one application of them.
\<close>

named_theorems track_rules \<open>triples of the primitive steps and of the functions\<close>

fun rank :: "mutex \<Rightarrow> nat" where
  "rank Sub_mutex = 0"
| "rank Process_handler_mutex = 1"
| "rank Pub_mutex = 2"
| "rank Data_mutex = 3"
| "rank Send_mutex = 4"
| "rank Recv_mutex = 5"

text \<open>
  A world without a locking mistake so far, in which every mutex was taken above the ones held.
\<close>

definition ordered :: "(mutex list \<times> mutex) list \<Rightarrow> bool" where
  "ordered acq \<longleftrightarrow> (\<forall>(l, m) \<in> set acq. \<forall>x \<in> set l. rank x < rank m)"

definition disciplined :: "world \<Rightarrow> bool" where
  "disciplined w \<longleftrightarrow> \<not> lock_error w \<and> ordered (acquired w) \<and> \<not> g_locked (glob w)"

definition track :: "mutex list \<times> u32 \<Rightarrow> 'a mq \<Rightarrow> mutex list \<times> u32 \<Rightarrow> bool" where
  "track p m q \<longleftrightarrow> (\<forall>h w. held w = fst p \<and> exec_count h = snd p \<and> disciplined w \<longrightarrow>
     (case run_state m (h, w) of (_, (h', w')) \<Rightarrow>
        held w' = fst q \<and> exec_count h' = snd q \<and> disciplined w'))"

section \<open>Rules\<close>

lemma track_bind [track_rules]:
  assumes "track p m q" "\<And>x. track q (f x) r"
  shows "track p (m \<bind> f) r"
  unfolding track_def
proof (intro allI impI)
  fix h :: core_mqtt_handle and w :: world
  assume a: "held w = fst p \<and> exec_count h = snd p \<and> disciplined w"
  obtain x h' w' where m: "run_state m (h, w) = (x, (h', w'))" by (metis prod.exhaust)
  with assms(1) a have "held w' = fst q \<and> exec_count h' = snd q \<and> disciplined w'"
    unfolding track_def by fastforce
  with assms(2) [of x] m show "case run_state (m \<bind> f) (h, w) of (_, (h', w')) \<Rightarrow>
      held w' = fst r \<and> exec_count h' = snd r \<and> disciplined w'"
    unfolding track_def by auto
qed

lemma track_ret [track_rules]: "track p (ret x) p"
  by (auto simp: track_def)

lemma track_hget [track_rules]: "track p (hget f) p"
  by (auto simp: track_def)

lemma track_wget [track_rules]: "track p (wget f) p"
  by (auto simp: track_def)

lemma track_call [track_rules]: "track p (call f) p"
  by (auto simp: track_def disciplined_def)

lemma track_emit [track_rules]: "track p (emit e) p"
  by (auto simp: track_def disciplined_def)

lemma track_hmod [track_rules]: "(\<And>h. exec_count (f h) = exec_count h) \<Longrightarrow> track p (hmod f) p"
  by (auto simp: track_def)

lemma track_wmod [track_rules]:
  "(\<And>w. held (f w) = held w) \<Longrightarrow> (\<And>w. disciplined w \<Longrightarrow> disciplined (f w)) \<Longrightarrow> track p (wmod f) p"
  by (auto simp: track_def)

lemma track_lock [track_rules]:
  "m \<notin> set l \<Longrightarrow> (\<forall>x \<in> set l. rank x < rank m) \<Longrightarrow> track (l, e) (lock m) (m # l, e)"
  by (auto simp: track_def lock_def disciplined_def ordered_def)

lemma track_unlock [track_rules]: "track (m # l, e) (unlock m) (l, e)"
  by (auto simp: track_def unlock_def disciplined_def)

lemma track_if [track_rules]:
  "(c \<Longrightarrow> track p a q) \<Longrightarrow> (\<not> c \<Longrightarrow> track p b q) \<Longrightarrow> track p (if c then a else b) q"
  by simp

lemma track_let [track_rules]: "(\<And>x. track p (f x) q) \<Longrightarrow> track p (let x = v in f x) q"
  by simp

lemma track_prod [track_rules]: "(\<And>a b. track p (f a b) q) \<Longrightarrow> track p (case x of (a, b) \<Rightarrow> f a b) q"
  by (cases x) simp

lemma track_sum [track_rules]:
  "(\<And>a. track p (f a) q) \<Longrightarrow> (\<And>b. track p (g b) q)
   \<Longrightarrow> track p (case x of Inl a \<Rightarrow> f a | Inr b \<Rightarrow> g b) q"
  by (cases x) simp_all

lemma track_option [track_rules]:
  "track p f q \<Longrightarrow> (\<And>b. track p (g b) q) \<Longrightarrow> track p (case x of None \<Rightarrow> f | Some b \<Rightarrow> g b) q"
  by (cases x) simp_all

lemma track_outcome [track_rules]:
  "(\<And>b. track p (f b) q) \<Longrightarrow> (\<And>b. track p (g b) q) \<Longrightarrow> track p u q
   \<Longrightarrow> track p (case x of Ok b \<Rightarrow> f b | Err b \<Rightarrow> g b | Undef \<Rightarrow> u) q"
  by (cases x) simp_all

lemma track_exec_inc [track_rules]:
  "Data_mutex \<notin> set l \<Longrightarrow> (\<forall>x \<in> set l. rank x < 3) \<Longrightarrow> track (l, e) core_mqtt_exec_inc (l, e + 1)"
  by (auto simp: track_def core_mqtt_exec_inc_def lock_def unlock_def disciplined_def ordered_def)

lemma track_exec_dec [track_rules]:
  "Data_mutex \<notin> set l \<Longrightarrow> (\<forall>x \<in> set l. rank x < 3) \<Longrightarrow> track (l, e + 1) core_mqtt_exec_dec (l, e)"
  by (auto simp: track_def core_mqtt_exec_dec_def lock_def unlock_def disciplined_def ordered_def)

lemma disciplined_update [simp]:
  "disciplined (w \<lparr> live := x \<rparr>) = disciplined w"
  "disciplined (w \<lparr> ub := b \<rparr>) = disciplined w"
  "disciplined (w \<lparr> trace := t \<rparr>) = disciplined w"
  "disciplined (w \<lparr> calls := n \<rparr>) = disciplined w"
  "disciplined (w \<lparr> last_failed_error_code := c \<rparr>) = disciplined w"
  by (simp_all add: disciplined_def)

lemma track_attempt [track_rules]:
  assumes "track p m q" "\<And>x. track q (f x) q"
  shows "track p (attempt m f) q"
  unfolding attempt_def by (rule track_rules assms)+

section \<open>The platform\<close>

lemma track_malloc [track_rules]: "track p core_sysdep_malloc p"
  unfolding core_sysdep_malloc_def by (rule track_rules | simp)+

lemma track_platform [track_rules]:
  "track p core_sysdep_free p" "track p core_sysdep_time p" "track p core_sysdep_rand p"
  "track p core_sysdep_network_init p" "track p core_sysdep_network_deinit p"
  "track p core_sysdep_network_setopt p" "track p core_sysdep_network_establish p"
  "track p mark_ub p" "track p (lift_outcome r) p" "track p (free_if b) p"
  unfolding core_sysdep_free_def core_sysdep_time_def core_sysdep_rand_def
    core_sysdep_network_init_def core_sysdep_network_deinit_def core_sysdep_network_setopt_def
    core_sysdep_network_establish_def mark_ub_def lift_outcome_def free_if_def
  by (rule track_rules | simp)+

section \<open>Functions that take no mutex\<close>

lemma track_pure [track_rules]:
  "track p (m_sprintf fmt src n) p"
  "track p (core_mqtt_read len) p" "track p (core_mqtt_write b) p" "track p read_byte p"
  "track p (core_mqtt_connect_diag f) p" "track p (core_mqtt_heartbeat_diag f) p"
  "track p network_deinit_if p" "track p core_mqtt_sign_clean p"
  "track p (process_handlers ev d) p" "track p (core_mqtt_handlerlist_insert ns hf u) p"
  "track p (free_sub_nodes l) p"
  unfolding m_sprintf_def core_mqtt_read_def core_mqtt_write_def read_byte_def
    core_mqtt_connect_diag_def core_mqtt_heartbeat_diag_def network_deinit_if_def
    core_mqtt_sign_clean_def process_handlers_def core_mqtt_handlerlist_insert_def
    free_sub_nodes_def
  by (rule track_rules | simp)+

lemma track_strdup [track_rules]:
  "(\<And>f h. exec_count (upd f h) = exec_count h) \<Longrightarrow> track p (m_strdup field upd src) p"
  unfolding m_strdup_def by (rule track_rules | simp)+

lemma track_lists [track_rules]:
  "track p (core_mqtt_sublist_insert t f u) p" "track p (core_mqtt_sublist_remove t) p"
  "track p (core_mqtt_sublist_remove_handler t f) p" "track p core_mqtt_sublist_destroy p"
  "track p (topic_map_check topic) p" "track p (core_mqtt_publist_insert pkt pid) p"
  "track p (core_mqtt_publist_remove pid) p" "track p core_mqtt_publist_destroy p"
  "track p (core_mqtt_process_datalist_insert pd) p" "track p (core_mqtt_process_datalist_remove pd) p"
  "track p core_mqtt_process_datalist_destroy p"
  unfolding core_mqtt_sublist_insert_def core_mqtt_sublist_remove_def
    core_mqtt_sublist_remove_handler_def core_mqtt_sublist_destroy_def topic_map_check_def
    core_mqtt_publist_insert_def core_mqtt_publist_remove_def core_mqtt_publist_destroy_def
    core_mqtt_process_datalist_insert_def core_mqtt_process_datalist_remove_def
    core_mqtt_process_datalist_destroy_def
  by (rule track_rules | simp)+

lemma track_remainlen_loop: "track p (remainlen_loop read_byte i t) p"
proof (induction "read_byte" i t rule: remainlen_loop.induct)
  case (1 i t)
  show ?case
    by (subst remainlen_loop.simps, rule track_bind, rule track_pure, rule track_sum)
      (auto simp: Let_def ret_def [symmetric] intro!: track_ret 1)
qed

lemma track_remainlen [track_rules]: "track p core_mqtt_read_remainlen p"
  unfolding core_mqtt_read_remainlen_def by (rule track_remainlen_loop)

lemma track_backup_ip [track_rules]: "track p m_get_backup_ip p"
  by (auto simp: track_def m_get_backup_ip_def disciplined_def core_global_get_mqtt_backup_ip_def
      g_lock_def g_unlock_def Let_def mark_ub_def)

lemma track_setopt_chain [track_rules]: "track p (setopt_chain n) p"
proof (induction n)
  case (Suc n)
  show ?case unfolding setopt_chain.simps by (rule track_rules Suc | simp)+
qed (simp add: track_ret)

lemma track_connect [track_rules]: "track p core_mqtt_connect p"
proof -
  have [track_rules]: "track p (core_mqtt_add_extend_clientid d e) p" for p d e
    unfolding core_mqtt_add_extend_clientid_def by (rule track_rules | simp)+
  have [track_rules]: "track p (core_mqtt_add_netstats_extend d) p" for p d
    unfolding core_mqtt_add_netstats_extend_def by (rule track_rules | simp)+
  have [track_rules]: "track p m_auth_username p" "track p m_auth_password p" for p
    unfolding m_auth_username_def m_auth_password_def by (rule track_rules | simp)+
  have [track_rules]: "track p connect_sign p" "track p connect_psk p" "track p m_conn_pkt p"
    "track p (connect_clientid md r) p" for p md r
    unfolding connect_sign_def connect_psk_def m_conn_pkt_def connect_clientid_def
    by (rule track_rules | simp)+
  have [track_rules]: "track p connect_network p" for p
    unfolding connect_network_def by (rule track_rules | simp)+
  have [track_rules]: "track p connect_handshake p" for p
    unfolding connect_handshake_def by (rule track_rules | simp)+
  show ?thesis unfolding core_mqtt_connect_def by (rule track_rules | simp)+
qed

section \<open>Functions that take mutexes\<close>

lemma track_write_locked [track_rules]:
  "(\<forall>x \<in> set l. rank x < 4) \<Longrightarrow> track (l, e) (write_locked pkt) (l, e)"
  unfolding write_locked_def by (rule track_rules | force)+

lemma track_close [track_rules]:
  "track ([], e) network_close_locked ([], e)" "track ([], e) (write_failed res) ([], e)"
  "track ([], e) core_mqtt_packet_id ([], e)"
  unfolding network_close_locked_def write_failed_def core_mqtt_packet_id_def
  by (rule track_rules | simp)+

lemma track_events [track_rules]:
  "track ([], e) (core_mqtt_event_notify ev) ([], e)"
  "track ([], e) core_mqtt_connect_event_notify ([], e)"
  "track ([], e) (core_mqtt_disconnect_event_notify d) ([], e)"
  "track ([], e) (core_mqtt_process_data_process b) ([], e)"
  unfolding core_mqtt_connect_event_notify_def core_mqtt_disconnect_event_notify_def
    core_mqtt_event_notify_def core_mqtt_process_data_process_def
  by (rule track_rules | simp)+

lemma track_sending [track_rules]:
  "track ([], e) core_mqtt_disconnect ([], e)" "track ([], e) core_mqtt_heartbeat ([], e)"
  "track ([], e) (core_mqtt_puback_send pid) ([], e)"
  "track ([], e) (core_mqtt_subunsub t n qos ty) ([], e)"
  unfolding core_mqtt_disconnect_def core_mqtt_heartbeat_def core_mqtt_puback_send_def
    core_mqtt_subunsub_def
  by (rule track_rules | simp)+

lemma track_repub_loop [track_rules]: "track ([Pub_mutex], e) (repub_loop dn ns) ([Pub_mutex], e)"
proof (induction ns arbitrary: dn)
  case (Cons n ns)
  show ?case unfolding repub_loop.simps put_node_def by (rule track_rules Cons | simp)+
qed (simp add: track_ret)

lemma track_repub [track_rules]: "track ([], e) core_mqtt_repub ([], e)"
  unfolding core_mqtt_repub_def by (rule track_rules | simp)+

lemma track_maps [track_rules]:
  "track ([], e) (core_mqtt_append_topic_map t f u) ([], e)"
  "track ([], e) (core_mqtt_remove_topic_map t f) ([], e)"
  "track ([], e) (core_mqtt_append_process_data pd) ([], e)"
  "track ([], e) (core_mqtt_remove_process_data pd) ([], e)"
  unfolding core_mqtt_append_topic_map_def core_mqtt_remove_topic_map_def
    core_mqtt_append_process_data_def core_mqtt_remove_process_data_def
  by (rule track_rules | simp)+

lemma track_reconnect [track_rules]: "track ([], e) core_mqtt_reconnect_op ([], e)"
  unfolding core_mqtt_reconnect_op_def update_reconnect_def by (rule track_rules | simp)+

lemma track_read_rest [track_rules]: "track p (core_mqtt_read_remainbytes n) p"
  unfolding core_mqtt_read_remainbytes_def by (rule track_rules | simp)+

lemma track_recv_handler [track_rules]: "track p (call_recv_handler pk) p"
  unfolding call_recv_handler_def by (rule track_rules | simp)+

lemma track_matching [track_rules]: "track p (matching_handlers t dest ns) p"
proof -
  have [track_rules]: "track p (handlerlist_append dest src) p" for p dest src
  proof (induction src arbitrary: dest)
    case (Cons n src)
    show ?case unfolding handlerlist_append.simps by (rule track_rules Cons)+
  qed (simp add: track_ret)
  show ?thesis
  proof (induction ns arbitrary: dest)
    case (Cons n ns)
    show ?case unfolding matching_handlers.simps by (rule track_rules Cons)+
  qed (simp add: track_ret)
qed

lemma track_handlers [track_rules]:
  "track ([], e) (core_mqtt_call_user_handler t pl q) ([], e)"
  "track ([], e) (core_mqtt_puback_handler i) ([], e)"
  "track ([], e) (core_mqtt_pingresp_handler len) ([], e)"
  unfolding core_mqtt_call_user_handler_def core_mqtt_puback_handler_def
    core_mqtt_pingresp_handler_def
  by (rule track_rules | simp)+

lemma track_pub_handler [track_rules]: "track ([], e) (core_mqtt_pub_handler i q) ([], e)"
  unfolding core_mqtt_pub_handler_def by (rule track_rules | simp)+

lemma track_suback_handler [track_rules]: "track p (core_mqtt_subunsuback_handler i ty) p"
proof -
  have [track_rules]: "track p (call_suback_handlers es) p" for p es
  proof (induction es)
    case (Cons e es)
    show ?case unfolding call_suback_handlers.simps by (rule track_rules Cons)+
  qed (simp add: track_ret)
  show ?thesis unfolding core_mqtt_subunsuback_handler_def by (rule track_rules)+
qed

section \<open>The API\<close>

lemma track_setopt_locked [track_rules]: "track p (setopt_locked opt) p"
proof -
  have [track_rules]: "track p (set_cred c) p" for p c
    unfolding set_cred_def by (rule track_rules | simp)+
  have [track_rules]: "(\<And>h. exec_count (f h) = exec_count h) \<Longrightarrow> track p (hset f) p" for p f
    unfolding hset_def by (rule track_rules | simp)+
  have [track_rules]: "track p m p \<Longrightarrow> track p (then_sign_clean m) p" for p m
    unfolding then_sign_clean_def by (rule track_rules | assumption)+
  show ?thesis
    unfolding setopt_locked_def
    by (cases opt; simp only: aiot_mqtt_option.case; (rule track_rules | simp)+)
qed

lemma track_setopt: "track ([], e) (aiot_mqtt_setopt ok1 ok2 opt) ([], e)"
proof -
  have "track ([Data_mutex], e + 1) (setopt_topic_map m) ([Data_mutex], e + 1)"
    if "track ([], e + 1) m ([], e + 1)" for m
    unfolding setopt_topic_map_def by (rule track_rules that | simp)+
  then have [track_rules]:
    "track ([Data_mutex], e + 1) (case opt of
         Opt_append_topic_map t f u \<Rightarrow> setopt_topic_map (core_mqtt_append_topic_map t f u)
       | Opt_remove_topic_map t f \<Rightarrow> setopt_topic_map (core_mqtt_remove_topic_map t f)
       | _ \<Rightarrow> setopt_locked opt) ([Data_mutex], e + 1)"
    by (cases opt) (auto intro: track_rules)
  show ?thesis unfolding aiot_mqtt_setopt_def by (rule track_rules | simp)+
qed

lemma track_core_setopt: "track ([], e) (core_mqtt_setopt ok1 ok2 opt) ([], e)"
proof -
  have [track_rules]:
    "track ([], e) (case opt of
         Core_append_process_handler pd \<Rightarrow> core_mqtt_append_process_data pd
       | Core_remove_process_handler pd \<Rightarrow> core_mqtt_remove_process_data pd
       | Core_compress_handler f \<Rightarrow> do { hmod (\<lambda>h. h \<lparr> compress := f \<rparr>); ret STATE_SUCCESS }
       | Core_decompress_handler f \<Rightarrow> do { hmod (\<lambda>h. h \<lparr> decompress := f \<rparr>); ret STATE_SUCCESS }
       | Core_option_max \<Rightarrow> ret STATE_USER_INPUT_UNKNOWN_OPTION) ([], e)"
    by (cases opt; simp only: core_mqtt_option.case; (rule track_rules | simp)+)
  show ?thesis unfolding core_mqtt_setopt_def by (rule track_rules | simp)+
qed

lemma track_connect_locked [track_rules]: "track ([], e) connect_locked ([], e)"
  unfolding connect_locked_def by (rule track_rules | simp)+

lemma track_api:
  "track ([], e) (aiot_mqtt_connect ok) ([], e)" "track ([], e) (aiot_mqtt_disconnect ok) ([], e)"
  "track ([], e) (aiot_mqtt_heartbeat ok) ([], e)" "track ([], e) (aiot_mqtt_process ok) ([], e)"
  unfolding aiot_mqtt_connect_def aiot_mqtt_disconnect_def aiot_mqtt_heartbeat_def
    aiot_mqtt_process_def update_heartbeat_def
  by (rule track_rules | simp)+

lemma track_pub: "track ([], e) (aiot_mqtt_pub ok t pl q) ([], e)"
proof -
  have [track_rules]: "track ([], e) (core_mqtt_pub t pl q) ([], e)" for t pl q
    unfolding core_mqtt_pub_def by (rule track_rules | simp)+
  have [track_rules]: "track p (core_mqtt_append_rid t) p" for p t
    unfolding core_mqtt_append_rid_def by (rule track_rules | simp)+
  show ?thesis unfolding aiot_mqtt_pub_def by (rule track_rules | simp)+
qed

lemma track_unsub: "track ([], e) (aiot_mqtt_unsub ok t) ([], e)"
  unfolding aiot_mqtt_unsub_def core_mqtt_unsub_def by (rule track_rules | simp)+

section \<open>Results that decide the counter\<close>

text \<open>
  In \<open>aiot_mqtt_recv\<close> the helpers lower the counter themselves where they end the call
  (\<open>Inl\<close>), and leave it to the caller otherwise.
\<close>

definition trackE ::
  "mutex list \<times> u32 \<Rightarrow> (int + 'a) mq \<Rightarrow> mutex list \<times> u32 \<Rightarrow> mutex list \<times> u32 \<Rightarrow> bool" where
  "trackE p m qe q \<longleftrightarrow> (\<forall>h w. held w = fst p \<and> exec_count h = snd p \<and> disciplined w \<longrightarrow>
     (case run_state m (h, w) of (r, (h', w')) \<Rightarrow>
        (let post = (case r of Inl _ \<Rightarrow> qe | Inr _ \<Rightarrow> q) in
         held w' = fst post \<and> exec_count h' = snd post \<and> disciplined w')))"

named_theorems trackE_rules

lemma trackE_bind [trackE_rules]:
  assumes "track p m q" "\<And>x. trackE q (f x) qe r"
  shows "trackE p (m \<bind> f) qe r"
  unfolding trackE_def
proof (intro allI impI)
  fix h :: core_mqtt_handle and w :: world
  assume a: "held w = fst p \<and> exec_count h = snd p \<and> disciplined w"
  obtain x h' w' where m: "run_state m (h, w) = (x, (h', w'))" by (metis prod.exhaust)
  with assms(1) a have "held w' = fst q \<and> exec_count h' = snd q \<and> disciplined w'"
    unfolding track_def by fastforce
  with assms(2) [of x] m show "case run_state (m \<bind> f) (h, w) of (r', (h', w')) \<Rightarrow>
      (let post = (case r' of Inl _ \<Rightarrow> qe | Inr _ \<Rightarrow> r) in
       held w' = fst post \<and> exec_count h' = snd post \<and> disciplined w')"
    unfolding trackE_def by auto
qed

lemma trackE_ret [trackE_rules]:
  "trackE p (ret (Inl x)) p q" "trackE p (ret (Inr y)) qe p"
  by (auto simp: trackE_def)

lemma trackE_if [trackE_rules]:
  "(c \<Longrightarrow> trackE p a qe q) \<Longrightarrow> (\<not> c \<Longrightarrow> trackE p b qe q) \<Longrightarrow> trackE p (if c then a else b) qe q"
  by simp

lemma trackE_prod [trackE_rules]:
  "(\<And>a b. trackE p (f a b) qe q) \<Longrightarrow> trackE p (case x of (a, b) \<Rightarrow> f a b) qe q"
  by (cases x) simp

lemma trackE_sum [trackE_rules]:
  "(\<And>a. trackE p (f a) qe q) \<Longrightarrow> (\<And>b. trackE p (g b) qe q)
   \<Longrightarrow> trackE p (case x of Inl a \<Rightarrow> f a | Inr b \<Rightarrow> g b) qe q"
  by (cases x) simp_all

lemma track_attemptE:
  assumes "trackE p m q r" "\<And>x. track r (f x) q"
  shows "track p (attempt m f) q"
  unfolding track_def
proof (intro allI impI)
  fix h :: core_mqtt_handle and w :: world
  assume a: "held w = fst p \<and> exec_count h = snd p \<and> disciplined w"
  obtain x h' w' where m: "run_state m (h, w) = (x, (h', w'))" by (metis prod.exhaust)
  show "case run_state (attempt m f) (h, w) of (_, (h', w')) \<Rightarrow>
      held w' = fst q \<and> exec_count h' = snd q \<and> disciplined w'"
  proof (cases x)
    case (Inl e)
    with assms(1) a m show ?thesis unfolding trackE_def attempt_def by fastforce
  next
    case (Inr y)
    with assms(1) a m have "held w' = fst r \<and> exec_count h' = snd r \<and> disciplined w'"
      unfolding trackE_def by fastforce
    with assms(2) [of y] m Inr show ?thesis unfolding track_def attempt_def by auto
  qed
qed

lemma trackE_recv:
  "trackE ([], e + 1) (recv_after_connect res) ([], e) ([], e + 1)"
  "trackE ([], e + 1) recv_reconnect ([], e) ([], e + 1)"
  "trackE ([], e + 1) recv_heartbeat_check ([], e) ([], e + 1)"
  "trackE ([], e + 1) recv_read ([], e) ([], e + 1)"
proof -
  show after [trackE_rules]: "trackE ([], e + 1) (recv_after_connect res) ([], e) ([], e + 1)" for res
    unfolding recv_after_connect_def update_heartbeat_def
    by (rule trackE_rules track_rules | simp)+
  show "trackE ([], e + 1) recv_reconnect ([], e) ([], e + 1)"
    "trackE ([], e + 1) recv_heartbeat_check ([], e) ([], e + 1)"
    "trackE ([], e + 1) recv_read ([], e) ([], e + 1)"
    unfolding recv_reconnect_def recv_heartbeat_check_def recv_read_def
    by (rule trackE_rules track_rules | simp)+
qed

lemma track_recv_packet: "track ([], e + 1) recv_packet_op ([], e)"
proof -
  have d: "track ([], e + 1) (recv_dispatch hdr n remain) ([], e + 1)" for hdr n remain
    unfolding recv_dispatch_def by (rule track_rules | simp)+
  have "track ([], e + 1) (case x of (hdr, n, remain) \<Rightarrow> do {
       update_heartbeat (\<lambda>b. b \<lparr> hb_lost_times := 0 \<rparr>);
       res \<leftarrow> recv_dispatch hdr n remain;
       free_if (n > 0);
       (if res < STATE_SUCCESS then network_close_locked else ret ());
       core_mqtt_exec_dec;
       ret res }) ([], e)" for x
    unfolding update_heartbeat_def by (rule d track_rules | simp)+
  then show ?thesis unfolding recv_packet_op_def by (rule track_attemptE [OF trackE_recv(4)])
qed

lemma track_recv: "track ([], e) (aiot_mqtt_recv ok) ([], e)"
proof -
  have body: "track ([], e + 1) (attempt recv_reconnect (\<lambda>_. attempt recv_heartbeat_check
      (\<lambda>_. recv_packet_op))) ([], e)"
    by (rule track_attemptE trackE_recv(2,3) track_recv_packet)+
  show ?thesis unfolding aiot_mqtt_recv_def by (rule body track_rules | simp)+
qed

text \<open>Triples with a set of possible ends.\<close>

definition trackS :: "mutex list \<times> u32 \<Rightarrow> 'a mq \<Rightarrow> ('a \<Rightarrow> (mutex list \<times> u32) set) \<Rightarrow> bool" where
  "trackS p m Q \<longleftrightarrow> (\<forall>h w. held w = fst p \<and> exec_count h = snd p \<and> disciplined w \<longrightarrow>
     (case run_state m (h, w) of (r, (h', w')) \<Rightarrow> (held w', exec_count h') \<in> Q r \<and> disciplined w'))"

lemma trackS_track: "track p m q \<Longrightarrow> (\<And>r. q \<in> Q r) \<Longrightarrow> trackS p m Q"
  unfolding trackS_def
proof (intro allI impI)
  fix h :: core_mqtt_handle and w :: world
  assume t: "track p m q" and q: "\<And>r. q \<in> Q r"
    and a: "held w = fst p \<and> exec_count h = snd p \<and> disciplined w"
  obtain x h' w' where m: "run_state m (h, w) = (x, (h', w'))" by (metis prod.exhaust)
  with t a have "held w' = fst q \<and> exec_count h' = snd q \<and> disciplined w'"
    unfolding track_def by fastforce
  then show "case run_state m (h, w) of (r, (h', w')) \<Rightarrow> (held w', exec_count h') \<in> Q r \<and> disciplined w'"
    using q [of x] by (simp add: m)
qed

lemma trackS_bind:
  assumes "track p m q" "\<And>x. trackS q (f x) Q"
  shows "trackS p (m \<bind> f) Q"
  unfolding trackS_def
proof (intro allI impI)
  fix h :: core_mqtt_handle and w :: world
  assume a: "held w = fst p \<and> exec_count h = snd p \<and> disciplined w"
  obtain x h' w' where m: "run_state m (h, w) = (x, (h', w'))" by (metis prod.exhaust)
  with assms(1) a have "held w' = fst q \<and> exec_count h' = snd q \<and> disciplined w'"
    unfolding track_def by fastforce
  with assms(2) [of x] m show "case run_state (m \<bind> f) (h, w) of (r, (h', w')) \<Rightarrow>
      (held w', exec_count h') \<in> Q r \<and> disciplined w'"
    unfolding trackS_def by auto
qed

lemma trackS_if:
  "(c \<Longrightarrow> trackS p a Q) \<Longrightarrow> (\<not> c \<Longrightarrow> trackS p b Q) \<Longrightarrow> trackS p (if c then a else b) Q"
  by simp

lemma trackS_ret: "p \<in> Q x \<Longrightarrow> trackS p (ret x) Q"
  by (cases p) (auto simp: trackS_def)

text \<open>The only way a call keeps the counter raised: a subscription that could not be stored.\<close>

lemma trackS_sub:
  "trackS ([], e) (aiot_mqtt_sub ok t f q u)
     (\<lambda>r. if r < STATE_SUCCESS then {([], e), ([], e + 1)} else {([], e)})"
proof -
  have "trackS ([], e) (core_mqtt_sub ok t f q u)
      (\<lambda>r. if r < STATE_SUCCESS then {([], e), ([], e + 1)} else {([], e)})" for t
    unfolding core_mqtt_sub_def
    apply (rule trackS_bind [OF track_hget])
    apply (rule trackS_if)
     apply (rule trackS_ret, simp)
    apply (rule trackS_bind [OF track_exec_inc], simp, simp)
    apply (rule trackS_bind [OF track_lock], simp, simp)
    apply (rule trackS_bind [OF track_lists(1)])
    apply (rule trackS_bind [OF track_unlock])
    apply (rule trackS_if)
     apply (rule trackS_ret, simp)
    apply (rule trackS_track [where q = "([], e)"])
     apply (rule track_rules | simp)+
    done
  then show ?thesis
    unfolding aiot_mqtt_sub_def by (auto split: option.split intro!: trackS_ret)
qed

section \<open>Sequences of calls\<close>

datatype mqtt_call =
    Call_setopt bool aiot_mqtt_option
  | Call_core_setopt bool core_mqtt_option
  | Call_connect
  | Call_disconnect
  | Call_heartbeat
  | Call_process
  | Call_pub "string option" "byte list option" u8
  | Call_sub "string option" ptr u8 ptr
  | Call_unsub "string option"
  | Call_recv

fun run_call :: "mqtt_call \<Rightarrow> int mq" where
  "run_call (Call_setopt d opt) = aiot_mqtt_setopt True d opt"
| "run_call (Call_core_setopt d opt) = core_mqtt_setopt True d opt"
| "run_call Call_connect = aiot_mqtt_connect True"
| "run_call Call_disconnect = aiot_mqtt_disconnect True"
| "run_call Call_heartbeat = aiot_mqtt_heartbeat True"
| "run_call Call_process = aiot_mqtt_process True"
| "run_call (Call_pub t p q) = aiot_mqtt_pub True t p q"
| "run_call (Call_sub t f q u) = aiot_mqtt_sub True t f q u"
| "run_call (Call_unsub t) = aiot_mqtt_unsub True t"
| "run_call Call_recv = aiot_mqtt_recv True"

fun run_calls :: "mqtt_call list \<Rightarrow> mqtt_state \<Rightarrow> mqtt_state" where
  "run_calls [] s = s"
| "run_calls (c # cs) s = run_calls cs (snd (run_state (run_call c) s))"

lemma trackS_call:
  "trackS ([], e) (run_call c)
     (\<lambda>r. if r < STATE_SUCCESS \<and> (\<exists>t f q u. c = Call_sub t f q u) then {([], e), ([], e + 1)}
          else {([], e)})"
proof (cases c)
  case (Call_sub t f q u)
  then show ?thesis using trackS_sub [of e True t f q u] by simp
qed (auto intro!: trackS_track track_setopt track_core_setopt track_api track_pub track_unsub track_recv)

lemma run_call_state:
  assumes "held w = []" "disciplined w" "run_state (run_call c) (h, w) = (r, (h', w'))"
  shows "held w' = [] \<and> disciplined w' \<and> (exec_count h' = exec_count h
    \<or> r < STATE_SUCCESS \<and> (\<exists>t f q u. c = Call_sub t f q u) \<and> exec_count h' = exec_count h + 1)"
proof -
  have "(held w', exec_count h') \<in>
      (if r < STATE_SUCCESS \<and> (\<exists>t f q u. c = Call_sub t f q u)
       then {([], exec_count h), ([], exec_count h + 1)} else {([], exec_count h)}) \<and> disciplined w'"
    using trackS_call [of "exec_count h" c] assms unfolding trackS_def by fastforce
  then show ?thesis by (auto split: if_splits)
qed

lemma run_calls_state:
  "held (snd s) = [] \<Longrightarrow> disciplined (snd s)
   \<Longrightarrow> held (snd (run_calls cs s)) = [] \<and> disciplined (snd (run_calls cs s))"
proof (induction cs arbitrary: s)
  case (Cons c cs)
  obtain h w where s: "s = (h, w)" by (cases s)
  obtain r h' w' where r: "run_state (run_call c) (h, w) = (r, (h', w'))" by (metis prod.exhaust)
  with run_call_state [of w c h r h' w'] Cons.prems s Cons.IH [of "(h', w')"] show ?case by simp
qed simp

section \<open>Claims\<close>

text \<open>The order in which mutexes were nested so far.\<close>

definition lock_order :: "world \<Rightarrow> (mutex \<times> mutex) set" where
  "lock_order w = {(x, m). \<exists>l. (l, m) \<in> set (acquired w) \<and> x \<in> set l}"

lemma disciplined_acyclic: "disciplined w \<Longrightarrow> acyclic (lock_order w)"
  by (rule acyclic_subset [OF wf_acyclic [OF wf_measure [of rank]]])
    (auto simp: disciplined_def ordered_def lock_order_def)

text \<open>A handle as \<open>aiot_mqtt_init\<close> leaves it, and a platform on which every call succeeds.\<close>

definition quiet_platform :: platform where
  "quiet_platform = \<lparr> p_malloc = \<lambda>_. True, p_time = \<lambda>n. of_nat (1000 * n), p_rand = \<lambda>_. 7,
     p_network_init = \<lambda>_. True, p_network_setopt = \<lambda>_. 0, p_network_establish = \<lambda>_. 0,
     p_network_send = \<lambda>_ b. int (length b), p_network_recv = \<lambda>_ n. (0, []),
     p_compress = \<lambda>_ _ p. (0, p), p_decompress = \<lambda>_ t p. (0, t, p), p_exec_count = \<lambda>_ n. n \<rparr>"

definition fresh_world :: "platform \<Rightarrow> world" where
  "fresh_world p = \<lparr> plat = p, calls = 0, held = [], acquired = [], lock_error = False, trace = [],
     live = 0, ub = False, glob = g_core_global_initial, last_failed_error_code = 0 \<rparr>"

text \<open>
  C5. Whatever sequence of API calls is made on a handle and however the platform behaves, no call
  returns with a mutex held, no mutex is taken by a thread that holds it or given back by one that does
  not, and the order in which mutexes are nested has no cycle, so that threads which each run such
  calls cannot wait for each other in a circle.
\<close>

theorem mqtt_lock_discipline:
  assumes "held w = []" "acquired w = []" "\<not> lock_error w" "\<not> g_locked (glob w)"
    and "run_calls cs (h, w) = (h', w')"
  shows "held w' = [] \<and> \<not> lock_error w' \<and> acyclic (lock_order w')"
proof -
  have "disciplined w" using assms by (simp add: disciplined_def ordered_def)
  with run_calls_state [of "(h, w)" cs] assms have "held w' = []" "disciplined w'" by simp_all
  then show ?thesis using disciplined_acyclic by (simp add: disciplined_def)
qed

lemma mqtt_lock_discipline_witness:
  "held (snd (run_calls [Call_sub (Some ''/a/b'') 1 0 0, Call_recv] (initial_handle 0, fresh_world quiet_platform))) = []"
  using mqtt_lock_discipline [of "fresh_world quiet_platform"
      "[Call_sub (Some ''/a/b'') 1 0 0, Call_recv]" "initial_handle 0"
      "fst (run_calls [Call_sub (Some ''/a/b'') 1 0 0, Call_recv] (initial_handle 0, fresh_world quiet_platform))"
      "snd (run_calls [Call_sub (Some ''/a/b'') 1 0 0, Call_recv] (initial_handle 0, fresh_world quiet_platform))"]
  by (simp add: fresh_world_def g_core_global_initial_def)

text \<open>
  C17. Every API call leaves the count of running calls as it found it, on all of its paths, except
  one: a subscription that fails may leave the count one too high.
\<close>

theorem mqtt_exec_count_balance:
  assumes "held w = []" "disciplined w" "run_state (run_call c) (h, w) = (r, (h', w'))"
    and "(\<forall>t f q u. c \<noteq> Call_sub t f q u) \<or> STATE_SUCCESS \<le> r"
  shows "exec_count h' = exec_count h"
  using run_call_state [OF assms(1-3)] assms(4) by auto

lemma mqtt_exec_count_balance_witness:
  "exec_count (fst (snd (run_state (run_call Call_heartbeat)
     (initial_handle 0, fresh_world quiet_platform)))) = 0"
  using mqtt_exec_count_balance [of "fresh_world quiet_platform" Call_heartbeat "initial_handle 0"
      "fst (run_state (run_call Call_heartbeat) (initial_handle 0, fresh_world quiet_platform))"
      "fst (snd (run_state (run_call Call_heartbeat) (initial_handle 0, fresh_world quiet_platform)))"
      "snd (snd (run_state (run_call Call_heartbeat) (initial_handle 0, fresh_world quiet_platform)))"]
  by (simp add: fresh_world_def g_core_global_initial_def disciplined_def ordered_def
      initial_handle_def)

end
