(* ===== verification/Mqtt_Lifecycle.thy ===== *)
theory Mqtt_Lifecycle
  imports Mqtt_Locks
begin

text \<open>
  Creating and destroying a handle: what \<^verbatim>\<open>aiot_mqtt_init\<close> leaves, that
  \<^verbatim>\<open>aiot_mqtt_deinit\<close> returns once the clock passes its timeout, what it releases,
  and how a subscription that could not be stored keeps a handle from ever being released.
\<close>

section \<open>The wait of the destructor\<close>

text \<open>One round of the wait.\<close>

lemma deinit_wait_round:
  "run_state (deinit_wait (Suc n) ts) (h, w) =
     (if exec_count h = 0 then (Some (), (h, w))
      else let h1 = h \<lparr> exec_count := p_exec_count (plat w) (calls w) (exec_count h) \<rparr>;
               w1 = w \<lparr> trace := trace w @ [Eff_sleep 100], calls := Suc (Suc (calls w)) \<rparr>
           in if p_time (plat w) (Suc (calls w)) - ts < ucast (deinit_timeout_ms h)
              then run_state (deinit_wait n ts) (h1, w1) else (Some (), (h1, w1)))"
  by (simp add: core_sysdep_sleep_def core_sysdep_time_def Let_def)

lemma deinit_wait_returns:
  assumes "ucast (deinit_timeout_ms h) \<le> p_time (plat w) (calls w + 2 * k + 1) - ts" "k < n"
  shows "\<exists>s. run_state (deinit_wait n ts) (h, w) = (Some (), s)"
  using assms
proof (induction k arbitrary: n h w)
  case 0
  then show ?case by (cases n) (auto simp: deinit_wait_round Let_def not_less simp del: deinit_wait.simps)
next
  case (Suc k)
  obtain m where n: "n = Suc m" using Suc.prems by (cases n) auto
  let ?h = "h \<lparr> exec_count := p_exec_count (plat w) (calls w) (exec_count h) \<rparr>"
  let ?w = "w \<lparr> trace := trace w @ [Eff_sleep 100], calls := Suc (Suc (calls w)) \<rparr>"
  have "\<exists>s. run_state (deinit_wait m ts) (?h, ?w) = (Some (), s)"
    using Suc.prems n by (intro Suc.IH) simp_all
  then show ?case unfolding n deinit_wait_round Let_def by auto
qed

text \<open>No other thread: the count of running calls stands still while the destructor sleeps.\<close>

definition alone :: "platform \<Rightarrow> bool" where
  "alone p \<longleftrightarrow> (\<forall>n x. p_exec_count p n x = x)"

lemma deinit_wait_stuck:
  assumes "alone (plat w)" "exec_count h \<noteq> 0" "run_state (deinit_wait n ts) (h, w) = (Some (), (h', w'))"
  shows "h' = h \<and> plat w' = plat w"
  using assms
proof (induction n arbitrary: w)
  case (Suc n)
  let ?w = "w \<lparr> trace := trace w @ [Eff_sleep 100], calls := Suc (Suc (calls w)) \<rparr>"
  have "h \<lparr> exec_count := p_exec_count (plat w) (calls w) (exec_count h) \<rparr> = h"
    using Suc.prems(1) by (simp add: alone_def)
  with Suc.prems(3) have "h' = h \<and> w' = ?w \<or> run_state (deinit_wait n ts) (h, ?w) = (Some (), (h', w'))"
    unfolding deinit_wait_round Let_def using Suc.prems(2) by (simp split: if_splits)
  with Suc.IH [of ?w] Suc.prems(1,2) show ?case by auto
qed simp

section \<open>Destroying\<close>

text \<open>What the destructor does to the handle once nobody uses it.\<close>

definition destroyed :: "core_mqtt_handle \<Rightarrow> core_mqtt_handle" where
  "destroyed h = h \<lparr> network_handle := False, exec_enabled := 0, sub_list := [], pub_list := [],
     process_data_list := [] \<rparr>"

text \<open>The blocks a handle owns, itself included.\<close>

definition owned :: "core_mqtt_handle \<Rightarrow> int" where
  "owned h = 1 + deinit_frees h + (\<Sum>n\<leftarrow>sub_list h. int (length (sn_handle_list n)) + 2)
     + 2 * int (length (pub_list h)) + int (length (process_data_list h))"



lemma deinit_returns:
  assumes "ucast (deinit_timeout_ms h) \<le> p_time (plat w) (calls w + 2 * k + 2) - p_time (plat w) (calls w)"
    and "k < fuel"
  shows "\<exists>r s. run_state (aiot_mqtt_deinit fuel True) (h, w) = (Some r, s)"
proof (cases "exec_enabled h = 0")
  case True
  then have "run_state (aiot_mqtt_deinit fuel True) (h, w)
      = (Some (STATE_USER_INPUT_EXEC_DISABLED, False), (h, w))" by (simp add: aiot_mqtt_deinit_def)
  then show ?thesis by blast
next
  case False
  let ?h = "h \<lparr> exec_enabled := 0 \<rparr>" and ?w = "w \<lparr> calls := Suc (calls w) \<rparr>"
  obtain h1 w1 where s: "run_state (deinit_wait fuel (p_time (plat w) (calls w))) (?h, ?w) = (Some (), (h1, w1))"
    using deinit_wait_returns [of ?h ?w k "p_time (plat w) (calls w)" fuel] assms by auto
  then show ?thesis using False
    by (auto simp: aiot_mqtt_deinit_def core_sysdep_time_def split: prod.split)
qed

text \<open>
  C38. Destroying a handle returns as soon as the clock shows that the timeout has passed, however long
  other calls keep running: if the clock has advanced by \<open>deinit_timeout_ms\<close> in round
  \<open>k\<close> of the wait, every fuel above \<open>k\<close> gives a result.
\<close>

theorem aiot_mqtt_deinit_returns:
  assumes "ucast (deinit_timeout_ms h) \<le> p_time (plat w) (calls w + 2 * k + 2) - p_time (plat w) (calls w)"
    and "k < fuel"
  shows "\<exists>r s. run_state (aiot_mqtt_deinit fuel True) (h, w) = (Some r, s)"
  using assms by (rule deinit_returns)

lemma aiot_mqtt_deinit_returns_witness:
  "\<exists>r s. run_state (aiot_mqtt_deinit 2 True) (initial_handle 0 \<lparr> exec_count := 1 \<rparr>, fresh_world quiet_platform)
     = (Some r, s)"
  by (rule aiot_mqtt_deinit_returns [where k = 1])
    (simp_all add: initial_handle_def fresh_world_def quiet_platform_def)

section \<open>A failed subscription\<close>

text \<open>
  A subscription that the allocator refuses returns the error of the allocator with the count of
  running calls still raised. From then on, when no other thread runs a call, destroying the handle
  only ever times out, and because the attempt has disabled the handle, every later attempt is refused
  as well: the handle is never released.
\<close>

theorem failed_sub_blocks_deinit:
  assumes "exec_enabled h \<noteq> 0" "exec_count h = 0" "length t < 128" "q \<le> 1"
    and "core_mqtt_topic_is_valid (topic_header_check h) t = STATE_SUCCESS"
    and "\<forall>n \<in> set (sub_list h). sn_topic n \<noteq> t" "\<not> p_malloc (plat w) (calls w)"
    and "held w = []" "alone (plat w)"
    and "run_state (aiot_mqtt_sub True (Some t) f q u) (h, w) = (r, (h1, w1))"
    and "ucast (deinit_timeout_ms h) \<le> p_time (plat w) (calls w1 + 2 * k + 2) - p_time (plat w) (calls w1)"
    and "k < fuel" "t \<noteq> []"
  shows "r = STATE_SYS_DEPEND_MALLOC_FAILED \<and> exec_count h1 = 1
    \<and> (\<exists>s2. run_state (aiot_mqtt_deinit fuel True) (h1, w1) = (Some (STATE_MQTT_DEINIT_TIMEOUT, False), s2)
        \<and> fst (run_state (aiot_mqtt_deinit fuel' True) s2) = Some (STATE_USER_INPUT_EXEC_DISABLED, False))"
proof -
  have none: "List.extract (\<lambda>n. sn_topic n = t) (sub_list h) = None"
    using assms(6) by (auto simp: extract_None_iff)
  have chk: "subunsub_check True t (1 < q) h = STATE_SUCCESS"
    using assms(1,4,5,13) by (auto simp: subunsub_check_def)
  have r: "r = STATE_SYS_DEPEND_MALLOC_FAILED \<and> h1 = h \<lparr> exec_count := 1 \<rparr> \<and> plat w1 = plat w"
    using assms(2,3,7,8,10) none chk
    by (auto simp: aiot_mqtt_sub_def core_mqtt_sub_def
        core_mqtt_exec_inc_def lock_def unlock_def core_mqtt_sublist_insert_def
        core_sysdep_malloc_def)
  have e1: "exec_enabled h1 \<noteq> 0" "exec_count h1 \<noteq> 0" "alone (plat w1)" using r assms(1,9) by auto
  have "ucast (deinit_timeout_ms h1) \<le> p_time (plat w1) (calls w1 + 2 * k + 2) - p_time (plat w1) (calls w1)"
    using r assms(11) by simp
  then obtain r2 h2 w2 where run: "run_state (aiot_mqtt_deinit fuel True) (h1, w1) = (Some r2, (h2, w2))"
    using deinit_returns [of h1 w1 k fuel] assms(12) by (metis prod.exhaust)
  let ?h = "h1 \<lparr> exec_enabled := 0 \<rparr>" and ?w = "w1 \<lparr> calls := Suc (calls w1) \<rparr>"
  obtain x hx wx where d: "run_state (deinit_wait fuel (p_time (plat w1) (calls w1))) (?h, ?w) = (x, (hx, wx))"
    by (metis prod.exhaust)
  have x: "x = Some ()" using run e1 d
    by (cases x) (auto simp: aiot_mqtt_deinit_def core_sysdep_time_def)
  with d e1 deinit_wait_stuck [of ?w ?h fuel "p_time (plat w1) (calls w1)" hx wx] have "hx = ?h" by simp
  then have r2: "r2 = (STATE_MQTT_DEINIT_TIMEOUT, False) \<and> h2 = ?h"
    using run e1 d x by (auto simp: aiot_mqtt_deinit_def core_sysdep_time_def)
  then have "fst (run_state (aiot_mqtt_deinit fuel' True) (h2, w2)) = Some (STATE_USER_INPUT_EXEC_DISABLED, False)"
    by (simp add: aiot_mqtt_deinit_def)
  then show ?thesis using r r2 run by simp
qed

lemma failed_sub_blocks_deinit_witness:
  "fst (run_state (aiot_mqtt_sub True (Some ''/a'') 1 0 0)
       (initial_handle 0, fresh_world (quiet_platform \<lparr> p_malloc := \<lambda>_. False \<rparr>)))
     = STATE_SYS_DEPEND_MALLOC_FAILED"
proof -
  let ?p = "quiet_platform \<lparr> p_malloc := \<lambda>_. False \<rparr>"
  let ?h = "initial_handle 0" and ?w = "fresh_world ?p"
  obtain r h1 w1 where 1: "run_state (aiot_mqtt_sub True (Some ''/a'') 1 0 0) (?h, ?w) = (r, (h1, w1))"
    by (metis prod.exhaust)
  have c: "calls w1 = 1" using 1
    by (auto simp: aiot_mqtt_sub_def core_mqtt_sub_def subunsub_check_def core_mqtt_topic_is_valid_def
        core_mqtt_exec_inc_def lock_def unlock_def core_mqtt_sublist_insert_def core_sysdep_malloc_def
        initial_handle_def fresh_world_def List.extract_def)
  have "r = STATE_SYS_DEPEND_MALLOC_FAILED \<and> exec_count h1 = 1
    \<and> (\<exists>s2. run_state (aiot_mqtt_deinit 2 True) (h1, w1) = (Some (STATE_MQTT_DEINIT_TIMEOUT, False), s2)
        \<and> fst (run_state (aiot_mqtt_deinit 2 True) s2) = Some (STATE_USER_INPUT_EXEC_DISABLED, False))"
    by (rule failed_sub_blocks_deinit [OF _ _ _ _ _ _ _ _ _ 1, where k = 1])
      (simp_all add: initial_handle_def fresh_world_def quiet_platform_def alone_def c
        core_mqtt_topic_is_valid_def)
  then show ?thesis using 1 by simp
qed

end
