(* ===== verification/Mqtt_Moves.thy ===== *)
theory Mqtt_Moves
  imports Mqtt_Locks
begin

text \<open>
  What an API call can do to the state, once for every question one may ask about it. The locale
  \<open>client_moves\<close> takes a reflexive and transitive relation on states that the basic
  operations respect (the ones that touch the connection flag, the events, the packet id and the
  lists, and all steps that touch none of these) and gives that every API call respects it. Each
  later theory interprets it with its own relation.
\<close>

named_theorems moves_rules \<open>the rules of the compound statements and of the functions\<close>

definition moves :: "(mqtt_state \<Rightarrow> mqtt_state \<Rightarrow> bool) \<Rightarrow> 'a mq \<Rightarrow> bool" where
  "moves rel m \<longleftrightarrow> (\<forall>s. rel s (snd (run_state m s)))"

lemma movesI: "(\<And>h w x h' w'. run_state m (h, w) = (x, (h', w')) \<Longrightarrow> rel (h, w) (h', w')) \<Longrightarrow> moves rel m"
  unfolding moves_def by (metis prod.collapse)

lemma movesD: "moves rel m \<Longrightarrow> run_state m s = (x, s') \<Longrightarrow> rel s s'"
  unfolding moves_def by (metis snd_conv)

text \<open>Changes of the handle outside the fields the relations speak of.\<close>

definition silent :: "(core_mqtt_handle \<Rightarrow> core_mqtt_handle) \<Rightarrow> bool" where
  "silent f \<longleftrightarrow> (\<forall>h. network_handle (f h) = network_handle h \<and> has_connected (f h) = has_connected h
     \<and> disconnected (f h) = disconnected h \<and> packet_id (f h) = packet_id h
     \<and> sub_list (f h) = sub_list h \<and> pub_list (f h) = pub_list h
     \<and> event_handler (f h) = event_handler h \<and> reconnect_params (f h) = reconnect_params h)"

text \<open>Changes of the world that deliver no event.\<close>

definition eventless :: "effect \<Rightarrow> bool" where
  "eventless e = (case e of Eff_event _ \<Rightarrow> False | _ \<Rightarrow> True)"

definition quiet :: "(world \<Rightarrow> world) \<Rightarrow> bool" where
  "quiet f \<longleftrightarrow> (\<forall>w. plat (f w) = plat w
     \<and> (\<exists>es. trace (f w) = trace w @ es \<and> (\<forall>e \<in> set es. eventless e)))"

text \<open>Changes of the reconnection parameters that keep the counter of attempts and the jitter in range.\<close>

definition counter_ok :: "core_mqtt_reconnect \<Rightarrow> bool" where
  "counter_ok r \<longleftrightarrow> 0 \<le> sint (rc_reconnect_counter r) \<and> sint (rc_reconnect_counter r) \<le> 60
     \<and> -500 \<le> sint (rc_rand_ms r) \<and> sint (rc_rand_ms r) < 500"

definition keeps_counter :: "(core_mqtt_reconnect \<Rightarrow> core_mqtt_reconnect) \<Rightarrow> bool" where
  "keeps_counter f \<longleftrightarrow> (\<forall>r. counter_ok r \<longrightarrow> counter_ok (f r))"

lemma silentI: "(\<And>h. network_handle (f h) = network_handle h \<and> has_connected (f h) = has_connected h
     \<and> disconnected (f h) = disconnected h \<and> packet_id (f h) = packet_id h
     \<and> sub_list (f h) = sub_list h \<and> pub_list (f h) = pub_list h
     \<and> event_handler (f h) = event_handler h \<and> reconnect_params (f h) = reconnect_params h) \<Longrightarrow> silent f"
  by (simp add: silent_def)

lemma quietI: "(\<And>w. plat (f w) = plat w \<and> trace (f w) = trace w) \<Longrightarrow> quiet f"
  by (simp add: quiet_def)

lemma quiet_trace: "(\<And>e. e \<in> set es \<Longrightarrow> eventless e) \<Longrightarrow> quiet (\<lambda>w. w \<lparr> trace := trace w @ es \<rparr>)"
  by (auto simp: quiet_def)

lemma keeps_counter_basic [moves_rules]:
  "(\<And>r. rc_reconnect_counter (f r) = rc_reconnect_counter r \<and> rc_rand_ms (f r) = rc_rand_ms r)
   \<Longrightarrow> keeps_counter f"
  by (simp add: keeps_counter_def counter_ok_def)

lemma keeps_counter_next [moves_rules]: "keeps_counter (next_counter res)"
  unfolding keeps_counter_def
proof (intro allI impI)
  fix r :: core_mqtt_reconnect
  assume "counter_ok r"
  moreover have "sint (c + 1) = sint c + 1" if "0 \<le> sint c" "sint c < 60" for c :: "32 word"
    using that by (simp add: sint_word_ariths signed_take_bit_int_eq_self)
  ultimately show "counter_ok (next_counter res r)"
    by (auto simp: counter_ok_def next_counter_def)
qed

section \<open>Case distinctions\<close>

lemma moves_if [moves_rules]:
  "(c \<Longrightarrow> moves rel a) \<Longrightarrow> (\<not> c \<Longrightarrow> moves rel b) \<Longrightarrow> moves rel (if c then a else b)"
  by simp

lemma moves_let [moves_rules]: "(\<And>x. moves rel (f x)) \<Longrightarrow> moves rel (let x = v in f x)"
  by simp

lemma moves_prod [moves_rules]: "(\<And>a b. moves rel (f a b)) \<Longrightarrow> moves rel (case x of (a, b) \<Rightarrow> f a b)"
  by (cases x) simp

lemma moves_sum [moves_rules]:
  "(\<And>a. moves rel (f a)) \<Longrightarrow> (\<And>b. moves rel (g b)) \<Longrightarrow> moves rel (case x of Inl a \<Rightarrow> f a | Inr b \<Rightarrow> g b)"
  by (cases x) simp_all

lemma moves_option [moves_rules]:
  "moves rel f \<Longrightarrow> (\<And>b. moves rel (g b)) \<Longrightarrow> moves rel (case x of None \<Rightarrow> f | Some b \<Rightarrow> g b)"
  by (cases x) simp_all

lemma moves_outcome [moves_rules]:
  "(\<And>b. moves rel (f b)) \<Longrightarrow> (\<And>b. moves rel (g b)) \<Longrightarrow> moves rel u
   \<Longrightarrow> moves rel (case x of Ok b \<Rightarrow> f b | Err b \<Rightarrow> g b | Undef \<Rightarrow> u)"
  by (cases x) simp_all

section \<open>Relations that steps can be composed for\<close>

locale step_order =
  fixes rel :: "mqtt_state \<Rightarrow> mqtt_state \<Rightarrow> bool"
  assumes rel_refl: "rel s s"
    and rel_trans: "rel s t \<Longrightarrow> rel t u \<Longrightarrow> rel s u"
begin

lemma moves_bind [moves_rules]:
  assumes "moves rel m" "\<And>x. moves rel (f x)"
  shows "moves rel (m \<bind> f)"
proof (rule movesI)
  fix h w x h' w'
  assume "run_state (m \<bind> f) (h, w) = (x, (h', w'))"
  moreover obtain y h1 w1 where "run_state m (h, w) = (y, (h1, w1))" by (metis prod.exhaust)
  ultimately show "rel (h, w) (h', w')"
    using assms movesD [of rel m] movesD [of rel "f y"] rel_trans by fastforce
qed

lemma moves_read [moves_rules]: "moves rel (ret x)" "moves rel (hget f)" "moves rel (wget g)"
  by (simp_all add: moves_def rel_refl)

lemma moves_attempt [moves_rules]:
  "moves rel m \<Longrightarrow> (\<And>x. moves rel (f x)) \<Longrightarrow> moves rel (attempt m f)"
  unfolding attempt_def by (rule moves_rules | assumption)+

end

text \<open>The basic operations.\<close>

locale client_moves = step_order rel for rel :: "mqtt_state \<Rightarrow> mqtt_state \<Rightarrow> bool" +
  assumes rel_silent: "silent f \<Longrightarrow> rel (h, w) (f h, w)"
    and rel_quiet: "quiet g \<Longrightarrow> rel (h, w) (h, g w)"
    and rel_reconnect: "keeps_counter c
      \<Longrightarrow> rel (h, w) (h \<lparr> reconnect_params := c (reconnect_params h) \<rparr>, w)"
    and rel_network: "rel (h, w) (h \<lparr> network_handle := b \<rparr>, w)"
    and rel_connected: "moves rel core_mqtt_connect_event_notify"
    and rel_disconnected: "moves rel (core_mqtt_disconnect_event_notify d)"
    and rel_packet_id: "moves rel core_mqtt_packet_id"
    and rel_publist: "moves rel (core_mqtt_publist_insert pkt pid)" "moves rel (core_mqtt_publist_remove pid)"
      "map pn_packet_id ns = map pn_packet_id (pub_list h) \<Longrightarrow> rel (h, w) (h \<lparr> pub_list := ns \<rparr>, w)"
    and rel_sublist: "moves rel (core_mqtt_sublist_insert topic f' u)"
      "moves rel (core_mqtt_sublist_remove topic)" "moves rel (core_mqtt_sublist_remove_handler topic f')"
begin

lemma moves_hmod [moves_rules]: "silent f \<Longrightarrow> moves rel (hmod f)"
  by (auto simp: moves_def rel_silent)

lemma moves_wmod [moves_rules]: "quiet f \<Longrightarrow> moves rel (wmod f)"
  by (auto simp: moves_def rel_quiet)

lemmas moves_basic [moves_rules] =
  rel_connected rel_disconnected rel_packet_id rel_publist(1,2) rel_sublist

text \<open>Steps that no relation sees.\<close>

lemmas unseen = silentI quietI

lemma moves_emit [moves_rules]: "eventless e \<Longrightarrow> moves rel (emit e)"
  unfolding emit_def by (rule moves_wmod) (auto intro: quiet_trace)

lemma moves_call [moves_rules]: "moves rel (call c)"
  unfolding call_def by (rule moves_rules unseen | simp)+

lemma moves_lock [moves_rules]: "moves rel (lock m)" "moves rel (unlock m)"
  unfolding lock_def unlock_def by (rule moves_rules unseen | simp)+

lemma moves_network [moves_rules]:
  "moves rel core_sysdep_network_init" "moves rel core_sysdep_network_deinit"
proof -
  have [moves_rules]: "moves rel (hmod (\<lambda>h. h \<lparr> network_handle := b \<rparr>))" for b
    by (auto simp: moves_def rel_network)
  show "moves rel core_sysdep_network_init" "moves rel core_sysdep_network_deinit"
    unfolding core_sysdep_network_init_def core_sysdep_network_deinit_def
    by (rule moves_rules | simp add: eventless_def)+
qed

lemma moves_platform [moves_rules]:
  "moves rel core_sysdep_malloc" "moves rel core_sysdep_free" "moves rel core_sysdep_time"
  "moves rel core_sysdep_rand" "moves rel core_sysdep_network_setopt"
  "moves rel core_sysdep_network_establish" "moves rel mark_ub" "moves rel (lift_outcome r)"
  "moves rel (free_if b)"
  unfolding core_sysdep_malloc_def core_sysdep_free_def core_sysdep_time_def core_sysdep_rand_def
    core_sysdep_network_setopt_def core_sysdep_network_establish_def mark_ub_def lift_outcome_def
    free_if_def
  by (rule moves_rules unseen | simp add: eventless_def)+

lemma moves_update_reconnect [moves_rules]:
  "keeps_counter c \<Longrightarrow> moves rel (update_reconnect c)"
  unfolding update_reconnect_def by (auto simp: moves_def rel_reconnect)

section \<open>Functions that only read and write\<close>

lemma moves_pure [moves_rules]:
  "moves rel (m_sprintf fmt src n)"
  "moves rel (core_mqtt_read len)" "moves rel (core_mqtt_write b)" "moves rel read_byte"
  "moves rel (core_mqtt_connect_diag f)" "moves rel (core_mqtt_heartbeat_diag f)"
  "moves rel network_deinit_if" "moves rel core_mqtt_sign_clean"
  "moves rel (core_mqtt_handlerlist_insert ns hf u)" "moves rel (topic_map_check t)"
  "moves rel (core_mqtt_process_datalist_insert pd)" "moves rel (core_mqtt_process_datalist_remove pd)"
  unfolding m_sprintf_def core_mqtt_read_def core_mqtt_write_def read_byte_def
    core_mqtt_connect_diag_def core_mqtt_heartbeat_diag_def network_deinit_if_def
    core_mqtt_sign_clean_def core_mqtt_handlerlist_insert_def topic_map_check_def
    core_mqtt_process_datalist_insert_def core_mqtt_process_datalist_remove_def
  by (rule moves_rules unseen | simp add: eventless_def)+

lemma moves_process_handlers [moves_rules]: "moves rel (process_handlers ev d)"
  unfolding process_handlers_def
  by (rule moves_rules quiet_trace | force simp: eventless_def)+

lemma moves_strdup [moves_rules]: "(\<And>x. silent (upd (\<lambda>_. x))) \<Longrightarrow> moves rel (m_strdup field upd src)"
  unfolding m_strdup_def by (rule moves_rules | assumption)+

lemma moves_remainlen [moves_rules]: "moves rel core_mqtt_read_remainlen"
proof -
  have "moves rel (remainlen_loop read_byte i t)" for i t
  proof (induction "read_byte" i t rule: remainlen_loop.induct)
    case (1 i t)
    show ?case
      by (subst remainlen_loop.simps, rule moves_bind, rule moves_pure, rule moves_sum)
        (auto simp: Let_def ret_def [symmetric] intro!: moves_read 1)
  qed
  then show ?thesis unfolding core_mqtt_read_remainlen_def .
qed

lemma moves_backup_ip [moves_rules]: "moves rel m_get_backup_ip"
  unfolding m_get_backup_ip_def by (rule moves_rules unseen | simp)+

lemma moves_setopt_chain [moves_rules]: "moves rel (setopt_chain n)"
proof (induction n)
  case (Suc n)
  show ?case unfolding setopt_chain.simps by (rule moves_rules Suc)+
qed (simp add: moves_read)

lemma moves_connect [moves_rules]: "moves rel core_mqtt_connect"
proof -
  have [moves_rules]: "moves rel (core_mqtt_add_extend_clientid d e)" for d e
    unfolding core_mqtt_add_extend_clientid_def by (rule moves_rules)+
  have [moves_rules]: "moves rel (core_mqtt_add_netstats_extend d)" for d
    unfolding core_mqtt_add_netstats_extend_def by (rule moves_rules unseen | simp)+
  have [moves_rules]: "moves rel m_auth_username" "moves rel m_auth_password"
    unfolding m_auth_username_def m_auth_password_def by (rule moves_rules unseen | simp)+
  have [moves_rules]: "moves rel connect_sign" "moves rel connect_psk" "moves rel m_conn_pkt"
    "moves rel (connect_clientid md r)" for md r
    unfolding connect_sign_def connect_psk_def m_conn_pkt_def connect_clientid_def
    by (rule moves_rules unseen | simp)+
  have [moves_rules]: "moves rel connect_network"
    unfolding connect_network_def by (rule moves_rules unseen | simp)+
  have [moves_rules]: "moves rel connect_handshake"
    unfolding connect_handshake_def by (rule moves_rules)+
  show ?thesis unfolding core_mqtt_connect_def by (rule moves_rules)+
qed

section \<open>Functions that take mutexes\<close>

lemma moves_write_locked [moves_rules]:
  "moves rel (write_locked pkt)" "moves rel network_close_locked" "moves rel (write_failed res)"
  "moves rel (core_mqtt_process_data_process b)"
proof -
  show [moves_rules]: "moves rel (write_locked pkt)" "moves rel network_close_locked"
    unfolding write_locked_def network_close_locked_def by (rule moves_rules)+
  show "moves rel (write_failed res)" "moves rel (core_mqtt_process_data_process b)"
    unfolding write_failed_def core_mqtt_process_data_process_def by (rule moves_rules)+
qed

lemma moves_sending [moves_rules]:
  "moves rel core_mqtt_disconnect" "moves rel core_mqtt_heartbeat"
  "moves rel (core_mqtt_puback_send pid)" "moves rel (core_mqtt_subunsub t n qos ty)"
  unfolding core_mqtt_disconnect_def core_mqtt_heartbeat_def core_mqtt_puback_send_def
    core_mqtt_subunsub_def
  by (rule moves_rules)+

lemma moves_repub_loop:
  "pub_list h = dn @ ns \<Longrightarrow> rel (h, w) (snd (run_state (repub_loop dn ns) (h, w)))"
proof (induction ns arbitrary: dn h w)
  case Nil
  then show ?case by (simp add: rel_refl)
next
  case (Cons n ns)
  define now where "now = p_time (plat w) (calls w)"
  define w1 where "w1 = w \<lparr> calls := Suc (calls w) \<rparr>"
  define n1 where "n1 = (if now < pn_last_send_time n then n \<lparr> pn_last_send_time := now \<rparr> else n)"
  define n2 where "n2 = n1 \<lparr> pn_last_send_time := now \<rparr>"
  define h1 where "h1 = h \<lparr> pub_list := dn @ n1 # ns \<rparr>"
  have id: "pn_packet_id n1 = pn_packet_id n" "pn_packet_id n2 = pn_packet_id n"
    by (simp_all add: n1_def n2_def)
  have 0: "rel (h, w) (h, w1)" unfolding w1_def by (rule rel_quiet [OF quietI]) simp
  have 1: "rel (h, w1) (h1, w1)"
    unfolding h1_def by (rule rel_publist(3)) (simp add: Cons.prems id)
  have start: "rel (h, w) (h1, w1)" using rel_trans [OF 0 1] .
  show ?case
  proof (cases "ucast (repub_timeout_ms h1) \<le> now - pn_last_send_time n1")
    case False
    have "run_state (repub_loop dn (n # ns)) (h, w) = run_state (repub_loop (dn @ [n1]) ns) (h1, w1)"
      using False by (simp add: core_sysdep_time_def put_node_def Let_def now_def [symmetric]
          w1_def [symmetric] n1_def [symmetric] h1_def [symmetric])
    with rel_trans [OF start Cons.IH [of h1 "dn @ [n1]" w1]] show ?thesis by (simp add: h1_def)
  next
    case True
    obtain res h2 w2 where wr: "run_state (write_locked (pn_packet n1)) (h1, w1) = (res, (h2, w2))"
      by (metis prod.exhaust)
    have pl: "pub_list h2 = pub_list h1"
      using wr by (auto simp: write_locked_def core_mqtt_write_def lock_def unlock_def Let_def
          split: if_splits)
    let ?h3 = "h2 \<lparr> pub_list := dn @ n2 # ns \<rparr>"
    have 2: "rel (h1, w1) (h2, w2)" using movesD [OF moves_write_locked(1) wr] .
    have 3: "rel (h2, w2) (?h3, w2)"
      by (rule rel_publist(3)) (simp add: pl h1_def id)
    have mid: "rel (h, w) (?h3, w2)" using rel_trans [OF start rel_trans [OF 2 3]] .
    have "run_state (repub_loop dn (n # ns)) (h, w) =
        (if res < STATE_SUCCESS then (res, (?h3, w2)) else run_state (repub_loop (dn @ [n2]) ns) (?h3, w2))"
      using True wr by (simp add: core_sysdep_time_def put_node_def Let_def now_def [symmetric]
          w1_def [symmetric] n1_def [symmetric] h1_def [symmetric] n2_def)
    with rel_trans [OF mid Cons.IH [of ?h3 "dn @ [n2]" w2]] mid show ?thesis by simp
  qed
qed

lemma moves_repub [moves_rules]: "moves rel core_mqtt_repub"
proof -
  have "moves rel (do { nodes \<leftarrow> hget pub_list; repub_loop [] nodes })"
    unfolding moves_def by (auto simp: moves_repub_loop)
  then have "moves rel ((do { nodes \<leftarrow> hget pub_list; repub_loop [] nodes }) \<bind> (\<lambda>res. do {
      unlock Pub_mutex;
      if res < STATE_SUCCESS then do { write_failed res; ret res } else ret STATE_SUCCESS }))"
    by (rule moves_bind) (rule moves_rules)+
  then have [moves_rules]: "moves rel (do { nodes \<leftarrow> hget pub_list; res \<leftarrow> repub_loop [] nodes;
      unlock Pub_mutex;
      if res < STATE_SUCCESS then do { write_failed res; ret res } else ret STATE_SUCCESS })"
    by simp
  show ?thesis unfolding core_mqtt_repub_def by (rule moves_bind, (rule moves_rules)+)
qed

lemma moves_maps [moves_rules]:
  "moves rel (core_mqtt_append_topic_map t f u)" "moves rel (core_mqtt_remove_topic_map t f)"
  "moves rel (core_mqtt_append_process_data pd)" "moves rel (core_mqtt_remove_process_data pd)"
  unfolding core_mqtt_append_topic_map_def core_mqtt_remove_topic_map_def
    core_mqtt_append_process_data_def core_mqtt_remove_process_data_def
  by (rule moves_rules | simp add: eventless_def)+

section \<open>Reconnecting and receiving\<close>

lemma moves_reconnect [moves_rules]: "moves rel core_mqtt_reconnect_op"
  unfolding core_mqtt_reconnect_op_def by (rule moves_rules | simp)+

lemma moves_read_rest [moves_rules]:
  "moves rel (core_mqtt_read_remainbytes n)" "moves rel (call_recv_handler pk)"
  unfolding core_mqtt_read_remainbytes_def call_recv_handler_def
  by (rule moves_rules | simp add: eventless_def)+

lemma moves_matching [moves_rules]: "moves rel (matching_handlers t dest ns)"
proof -
  have [moves_rules]: "moves rel (handlerlist_append dest src)" for dest src
  proof (induction src arbitrary: dest)
    case (Cons n src)
    show ?case unfolding handlerlist_append.simps by (rule moves_rules Cons)+
  qed (simp add: moves_read)
  show ?thesis
  proof (induction ns arbitrary: dest)
    case (Cons n ns)
    show ?case unfolding matching_handlers.simps by (rule moves_rules Cons)+
  qed (simp add: moves_read)
qed

lemma moves_handlers [moves_rules]:
  "moves rel (core_mqtt_call_user_handler t pl q)" "moves rel (core_mqtt_puback_handler i)"
  "moves rel (core_mqtt_pingresp_handler len)"
proof -
  have [moves_rules]: "moves rel (wmod (\<lambda>w. w \<lparr> trace := trace w @ map (\<lambda>n. Eff_recv (f n) (g n) p) l \<rparr>))"
    for f g and p :: recv_packet and l :: "core_mqtt_sub_handler_node list"
    by (rule moves_wmod, rule quiet_trace) (auto simp: eventless_def)
  show "moves rel (core_mqtt_call_user_handler t pl q)" "moves rel (core_mqtt_puback_handler i)"
    "moves rel (core_mqtt_pingresp_handler len)"
    unfolding core_mqtt_call_user_handler_def core_mqtt_puback_handler_def
      core_mqtt_pingresp_handler_def
    by (rule moves_rules unseen | simp)+
qed

lemma moves_suback_handler [moves_rules]: "moves rel (core_mqtt_subunsuback_handler i ty)"
proof -
  have [moves_rules]: "moves rel (call_suback_handlers es)" for es
  proof (induction es)
    case (Cons e es)
    show ?case unfolding call_suback_handlers.simps by (rule moves_rules Cons)+
  qed (simp add: moves_read)
  show ?thesis unfolding core_mqtt_subunsuback_handler_def by (rule moves_rules)+
qed

lemma moves_pub_handler [moves_rules]: "moves rel (core_mqtt_pub_handler i q)"
  unfolding core_mqtt_pub_handler_def by (rule moves_rules)+

lemma moves_exec [moves_rules]: "moves rel core_mqtt_exec_inc" "moves rel core_mqtt_exec_dec"
  "(\<And>h. True) \<Longrightarrow> moves rel (update_heartbeat fb)"
  unfolding core_mqtt_exec_inc_def core_mqtt_exec_dec_def update_heartbeat_def
  by (rule moves_rules unseen | simp)+

lemma moves_recv [moves_rules]: "moves rel (aiot_mqtt_recv ok)"
proof -
  have [moves_rules]: "moves rel connect_locked" unfolding connect_locked_def by (rule moves_rules)+
  have [moves_rules]: "moves rel (recv_after_connect res)" for res
    unfolding recv_after_connect_def by (rule moves_rules | simp)+
  have [moves_rules]: "moves rel recv_reconnect" "moves rel recv_heartbeat_check" "moves rel recv_read"
    unfolding recv_reconnect_def recv_heartbeat_check_def recv_read_def by (rule moves_rules)+
  have [moves_rules]: "moves rel (recv_dispatch hdr n remain)" for hdr n remain
    unfolding recv_dispatch_def by (rule moves_rules)+
  have [moves_rules]: "moves rel recv_packet_op"
    unfolding recv_packet_op_def by (rule moves_rules | simp)+
  show ?thesis unfolding aiot_mqtt_recv_def by (rule moves_rules)+
qed

section \<open>The API\<close>

lemma moves_api [moves_rules]:
  "moves rel (aiot_mqtt_connect ok)" "moves rel (aiot_mqtt_disconnect ok)"
  "moves rel (aiot_mqtt_heartbeat ok)" "moves rel (aiot_mqtt_process ok)"
proof -
  have [moves_rules]: "moves rel connect_locked" unfolding connect_locked_def by (rule moves_rules)+
  show "moves rel (aiot_mqtt_connect ok)" "moves rel (aiot_mqtt_disconnect ok)"
    "moves rel (aiot_mqtt_heartbeat ok)" "moves rel (aiot_mqtt_process ok)"
    unfolding aiot_mqtt_connect_def aiot_mqtt_disconnect_def aiot_mqtt_heartbeat_def
      aiot_mqtt_process_def
    by (rule moves_rules unseen | simp)+
qed

lemma moves_pub [moves_rules]: "moves rel (aiot_mqtt_pub ok t pl q)"
proof -
  have [moves_rules]: "moves rel (core_mqtt_pub t pl q)" for t pl q
    unfolding core_mqtt_pub_def by (rule moves_rules)+
  have [moves_rules]: "moves rel (core_mqtt_append_rid t)" for t
    unfolding core_mqtt_append_rid_def by (rule moves_rules)+
  show ?thesis unfolding aiot_mqtt_pub_def by (rule moves_rules)+
qed

lemma moves_subunsub [moves_rules]:
  "moves rel (aiot_mqtt_sub ok t f q u)" "moves rel (aiot_mqtt_unsub ok t)"
proof -
  have [moves_rules]: "moves rel (core_mqtt_sub ok t f q u)" "moves rel (core_mqtt_unsub ok t)" for t
    unfolding core_mqtt_sub_def core_mqtt_unsub_def by (rule moves_rules)+
  show "moves rel (aiot_mqtt_sub ok t f q u)" "moves rel (aiot_mqtt_unsub ok t)"
    unfolding aiot_mqtt_sub_def aiot_mqtt_unsub_def by (rule moves_rules)+
qed

lemma moves_core_setopt [moves_rules]: "moves rel (core_mqtt_setopt ok1 ok2 opt)"
proof -
  have [moves_rules]: "moves rel (case opt of
         Core_append_process_handler pd \<Rightarrow> core_mqtt_append_process_data pd
       | Core_remove_process_handler pd \<Rightarrow> core_mqtt_remove_process_data pd
       | Core_compress_handler f \<Rightarrow> do { hmod (\<lambda>h. h \<lparr> compress := f \<rparr>); ret STATE_SUCCESS }
       | Core_decompress_handler f \<Rightarrow> do { hmod (\<lambda>h. h \<lparr> decompress := f \<rparr>); ret STATE_SUCCESS }
       | Core_option_max \<Rightarrow> ret STATE_USER_INPUT_UNKNOWN_OPTION)"
    by (cases opt; simp only: core_mqtt_option.case; (rule moves_rules unseen | simp)+)
  show ?thesis unfolding core_mqtt_setopt_def by (rule moves_rules)+
qed

text \<open>Setting the event handler is the only call a relation may have to exclude.\<close>

lemma moves_setopt_locked:
  assumes "\<And>v. opt = Opt_event_handler v \<Longrightarrow> moves rel (hset (\<lambda>h. h \<lparr> event_handler := v \<rparr>))"
  shows "moves rel (setopt_locked opt)"
proof -
  have cred: "moves rel (set_cred c)" for c
    unfolding set_cred_def by (rule moves_rules unseen | simp)+
  have hset: "silent f \<Longrightarrow> moves rel (hset f)" for f
    unfolding hset_def by (rule moves_rules | assumption)+
  have ret0: "moves rel (hmod f) \<Longrightarrow> moves rel (do { hmod f; ret x })" for f and x :: int
    by (rule moves_bind) (simp_all add: moves_read)
  have rc: "keeps_counter c \<Longrightarrow> moves rel (hmod (\<lambda>h. h \<lparr> reconnect_params := c (reconnect_params h) \<rparr>))" for c
    by (auto simp: moves_def rel_reconnect)
  have rc1: "moves rel (hmod (\<lambda>h. h \<lparr> reconnect_params := (reconnect_params h) \<lparr> rc_enabled := v \<rparr> \<rparr>))" for v
    by (rule rc, rule keeps_counter_basic) simp
  have rc2: "moves rel (hset (\<lambda>h. h \<lparr> reconnect_params := (reconnect_params h)
      \<lparr> rc_interval_ms := v, rc_backoff_enabled := 0 \<rparr> \<rparr>))" for v
    unfolding hset_def
    by (rule moves_bind, rule rc [of "\<lambda>r. r \<lparr> rc_interval_ms := v, rc_backoff_enabled := 0 \<rparr>"],
        rule keeps_counter_basic, simp, rule moves_read)
  have sc: "moves rel m \<Longrightarrow> moves rel (then_sign_clean m)" for m
    unfolding then_sign_clean_def by (rule moves_rules | assumption)+
  show ?thesis
    using assms
    by (cases opt) (simp_all add: setopt_locked_def cred rc1 rc2 ret0 hset sc moves_strdup moves_read
        moves_hmod silent_def)
qed

lemma moves_setopt:
  assumes "\<And>v. opt = Opt_event_handler v \<Longrightarrow> moves rel (hset (\<lambda>h. h \<lparr> event_handler := v \<rparr>))"
  shows "moves rel (aiot_mqtt_setopt ok1 ok2 opt)"
proof -
  have locked: "moves rel (setopt_locked opt)" using assms by (rule moves_setopt_locked)
  have map: "moves rel m \<Longrightarrow> moves rel (setopt_topic_map m)" for m
    unfolding setopt_topic_map_def by (rule moves_rules | assumption)+
  have [moves_rules]: "moves rel (case opt of
         Opt_append_topic_map t f u \<Rightarrow> setopt_topic_map (core_mqtt_append_topic_map t f u)
       | Opt_remove_topic_map t f \<Rightarrow> setopt_topic_map (core_mqtt_remove_topic_map t f)
       | _ \<Rightarrow> setopt_locked opt)"
    using locked by (cases opt) (simp_all add: map moves_maps)
  show ?thesis unfolding aiot_mqtt_setopt_def by (rule moves_rules)+
qed

text \<open>Every API call, and every sequence of them.\<close>

lemma moves_run_call:
  assumes "\<And>d v. c = Call_setopt d (Opt_event_handler v) \<Longrightarrow> moves rel (hset (\<lambda>h. h \<lparr> event_handler := v \<rparr>))"
  shows "moves rel (run_call c)"
  using assms by (cases c) (auto intro: moves_rules moves_setopt)

lemma moves_run_calls:
  assumes "\<And>d v. Call_setopt d (Opt_event_handler v) \<in> set cs
    \<Longrightarrow> moves rel (hset (\<lambda>h. h \<lparr> event_handler := v \<rparr>))"
  shows "rel s (run_calls cs s)"
  using assms
proof (induction cs arbitrary: s)
  case Nil
  then show ?case by (simp add: rel_refl)
next
  case (Cons c cs)
  have "moves rel (run_call c)" using Cons.prems by (intro moves_run_call) auto
  then have "rel s (snd (run_state (run_call c) s))" unfolding moves_def by blast
  moreover have "rel (snd (run_state (run_call c) s)) (run_calls cs (snd (run_state (run_call c) s)))"
    using Cons.prems by (intro Cons.IH) auto
  ultimately show ?case using rel_trans by simp
qed

end

end
