(* ===== verification/Mqtt_Protocol.thy ===== *)
theory Mqtt_Protocol
  imports Mqtt_Moves
begin

text \<open>
  The abstract specification of the client: what a user of the handle may observe is the step
  relation \<open>cstep\<close> on a small view (the connection flags and the events delivered, the last
  packet id, the ids of the cached publications, the subscribed topics). Every API call is shown to be
  a sequence of such steps, and the invariants are proved once, on the abstract steps.
\<close>

section \<open>The abstract client\<close>

record client_view =
  v_seen :: bool \<comment> \<open>was connected at least once\<close>
  v_down :: bool \<comment> \<open>the loss of the connection was reported\<close>
  v_events :: "mqtt_event list"
  v_last_id :: u16
  v_cached :: "u16 list"
  v_topics :: "string list"

definition next_id :: "u16 \<Rightarrow> u16" where
  "next_id x = (if x + 1 = 0 then 1 else x + 1)"

inductive cstep :: "client_view \<Rightarrow> client_view \<Rightarrow> bool" where
  first: "\<not> v_seen v \<Longrightarrow> cstep v (v \<lparr> v_seen := True, v_down := False, v_events := v_events v @ [Ev_connect] \<rparr>)"
| again: "v_seen v \<Longrightarrow> cstep v (v \<lparr> v_down := False, v_events := v_events v @ [Ev_reconnect] \<rparr>)"
| lost: "v_seen v \<Longrightarrow> \<not> v_down v
    \<Longrightarrow> cstep v (v \<lparr> v_down := True, v_events := v_events v @ [Ev_disconnect d] \<rparr>)"
| new_id: "cstep v (v \<lparr> v_last_id := next_id (v_last_id v) \<rparr>)"
| cache: "i \<notin> set (v_cached v) \<Longrightarrow> cstep v (v \<lparr> v_cached := v_cached v @ [i] \<rparr>)"
| acked: "i \<in> set (v_cached v) \<Longrightarrow> cstep v (v \<lparr> v_cached := remove1 i (v_cached v) \<rparr>)"
| subscribed: "t \<notin> set (v_topics v) \<Longrightarrow> cstep v (v \<lparr> v_topics := v_topics v @ [t] \<rparr>)"
| unsubscribed: "cstep v (v \<lparr> v_topics := filter (\<lambda>x. x \<noteq> t) (v_topics v) \<rparr>)"

inductive_cases cstepE: "cstep v v'"

abbreviation csteps :: "client_view \<Rightarrow> client_view \<Rightarrow> bool" where "csteps \<equiv> cstep\<^sup>*\<^sup>*"

section \<open>The view of a state\<close>

fun event_of :: "effect \<Rightarrow> mqtt_event option" where
  "event_of (Eff_event ev) = Some ev"
| "event_of _ = None"

definition events :: "world \<Rightarrow> mqtt_event list" where
  "events w = List.map_filter event_of (trace w)"

definition view :: "mqtt_state \<Rightarrow> client_view" where
  "view s = (case s of (h, w) \<Rightarrow> \<lparr>
     v_seen = (has_connected h \<noteq> 0), v_down = (disconnected h \<noteq> 0), v_events = events w,
     v_last_id = packet_id h, v_cached = map pn_packet_id (pub_list h),
     v_topics = map sn_topic (sub_list h) \<rparr>)"

text \<open>Events are delivered when the user has set a handler.\<close>

definition flags_ok :: "mqtt_state \<Rightarrow> bool" where
  "flags_ok s \<longleftrightarrow> event_handler (fst s) \<noteq> 0 \<and> has_connected (fst s) \<le> 1"

definition refines :: "mqtt_state \<Rightarrow> mqtt_state \<Rightarrow> bool" where
  "refines s t \<longleftrightarrow> (flags_ok s \<longrightarrow> flags_ok t \<and> csteps (view s) (view t))"

lemma events_append: "events (w \<lparr> trace := trace w @ es \<rparr>) = events w @ List.map_filter event_of es"
  by (simp add: events_def map_filter_def)

lemma event_of_eventless: "eventless e \<Longrightarrow> event_of e = None"
  by (cases e) (auto simp: eventless_def)

lemma events_quiet:
  assumes "quiet f"
  shows "events (f w) = events w"
proof -
  obtain es where "trace (f w) = trace w @ es" "\<forall>e \<in> set es. eventless e"
    using assms unfolding quiet_def by blast
  then show ?thesis
    by (auto simp: events_def map_filter_def filter_empty_conv event_of_eventless)
qed

lemma refines_same: "view t = view s \<Longrightarrow> (flags_ok s \<Longrightarrow> flags_ok t) \<Longrightarrow> refines s t"
  by (simp add: refines_def)

lemma refines_step:
  "(flags_ok s \<Longrightarrow> cstep (view s) (view t)) \<Longrightarrow> (flags_ok s \<Longrightarrow> flags_ok t) \<Longrightarrow> refines s t"
  unfolding refines_def by blast

section \<open>The operations refine the steps\<close>

lemma run_event_notify:
  "\<exists>w'. run_state (core_mqtt_event_notify ev) (h, w) = ((), (h, w'))
     \<and> events w' = events w @ (if event_handler h \<noteq> 0 then [ev] else [])"
  by (auto simp: core_mqtt_event_notify_def process_handlers_def lock_def unlock_def events_def
      map_filter_def filter_empty_conv)

lemma refines_connected: "moves refines core_mqtt_connect_event_notify"
proof (rule movesI)
  fix h w x h' w'
  assume run: "run_state core_mqtt_connect_event_notify (h, w) = (x, (h', w'))"
  let ?h0 = "h \<lparr> disconnected := 0 \<rparr>"
  let ?h1 = "h \<lparr> disconnected := 0, has_connected := 1 \<rparr>"
  obtain w0 where w0: "run_state (core_mqtt_event_notify Ev_reconnect) (?h0, w) = ((), (?h0, w0))"
    "events w0 = events w @ (if event_handler h \<noteq> 0 then [Ev_reconnect] else [])"
    using run_event_notify [of Ev_reconnect ?h0 w] by auto
  obtain w1 where w1: "run_state (core_mqtt_event_notify Ev_connect) (?h1, w) = ((), (?h1, w1))"
    "events w1 = events w @ (if event_handler h \<noteq> 0 then [Ev_connect] else [])"
    using run_event_notify [of Ev_connect ?h1 w] by auto
  show "refines (h, w) (h', w')"
  proof (cases "has_connected h = 0")
    case True
    then have "h' = ?h1" "w' = w1" using run w1(1) by (auto simp: core_mqtt_connect_event_notify_def)
    then show ?thesis using True w1(2) cstep.first [of "view (h, w)"]
      by (intro refines_step) (auto simp: view_def flags_ok_def)
  next
    case False
    then have "h' = ?h0" "w' = w0" using run w0(1) by (auto simp: core_mqtt_connect_event_notify_def)
    then show ?thesis using False w0(2) cstep.again [of "view (h, w)"]
      by (intro refines_step) (auto simp: view_def flags_ok_def)
  qed
qed

lemma refines_disconnected: "moves refines (core_mqtt_disconnect_event_notify d)"
proof (rule movesI)
  fix h w x h' w'
  assume run: "run_state (core_mqtt_disconnect_event_notify d) (h, w) = (x, (h', w'))"
  let ?h1 = "h \<lparr> disconnected := 1 \<rparr>"
  obtain w1 where w1: "run_state (core_mqtt_event_notify (Ev_disconnect d)) (?h1, w) = ((), (?h1, w1))"
    "events w1 = events w @ (if event_handler h \<noteq> 0 then [Ev_disconnect d] else [])"
    using run_event_notify [of "Ev_disconnect d" ?h1 w] by auto
  show "refines (h, w) (h', w')"
  proof (cases "has_connected h = 1 \<and> disconnected h = 0")
    case True
    then have "h' = ?h1" "w' = w1" using run w1(1) by (auto simp: core_mqtt_disconnect_event_notify_def)
    then show ?thesis using True w1(2) cstep.lost [of "view (h, w)" d]
      by (intro refines_step) (auto simp: view_def flags_ok_def)
  next
    case False
    then have "h' = h" "w' = w" using run by (auto simp: core_mqtt_disconnect_event_notify_def)
    then show ?thesis by (intro refines_same) simp_all
  qed
qed

lemma refines_packet_id: "moves refines core_mqtt_packet_id"
proof (rule movesI)
  fix h w x h' w'
  assume "run_state core_mqtt_packet_id (h, w) = (x, (h', w'))"
  then have "h' = h \<lparr> packet_id := next_id (packet_id h) \<rparr>" "events w' = events w"
    by (auto simp: core_mqtt_packet_id_def lock_def unlock_def next_id_def events_def)
  then show "refines (h, w) (h', w')"
    using cstep.new_id [of "view (h, w)"]
    by (intro refines_step) (auto simp: view_def flags_ok_def)
qed

lemma publist_scan_None:
  "publist_scan ns pid limit k = None \<Longrightarrow> pid \<notin> set (map pn_packet_id ns)"
  by (induction ns arbitrary: k) (auto split: if_splits)

lemma refines_publist_insert: "moves refines (core_mqtt_publist_insert pkt pid)"
proof (rule movesI)
  fix h w x h' w'
  assume run: "run_state (core_mqtt_publist_insert pkt pid) (h, w) = (x, (h', w'))"
  show "refines (h, w) (h', w')"
  proof (cases "h' = h")
    case True
    with run have "events w' = events w"
      by (auto simp: core_mqtt_publist_insert_def core_sysdep_malloc_def core_sysdep_free_def
          core_sysdep_time_def events_def split: option.splits if_splits)
    with True show ?thesis by (intro refines_same) (auto simp: view_def flags_ok_def)
  next
    case False
    with run obtain n where n: "publist_scan (pub_list h) pid (repub_list_limit h) 0 = None"
      "h' = h \<lparr> pub_list := pub_list h @ [n] \<rparr>" "pn_packet_id n = pid" "events w' = events w"
      by (fastforce simp: core_mqtt_publist_insert_def core_sysdep_malloc_def core_sysdep_free_def
          core_sysdep_time_def events_def split: option.splits if_splits)
    then show ?thesis using cstep.cache [of pid "view (h, w)"] publist_scan_None [OF n(1)]
      by (intro refines_step) (auto simp: view_def flags_ok_def)
  qed
qed

lemma refines_publist_remove: "moves refines (core_mqtt_publist_remove pid)"
proof (rule movesI)
  fix h w x h' w'
  assume run: "run_state (core_mqtt_publist_remove pid) (h, w) = (x, (h', w'))"
  show "refines (h, w) (h', w')"
  proof (cases "List.extract (\<lambda>n. pn_packet_id n = pid) (pub_list h)")
    case None
    with run have "h' = h" "w' = w" by (auto simp: core_mqtt_publist_remove_def)
    then show ?thesis by (intro refines_same) simp_all
  next
    case (Some p)
    obtain before n after where p: "p = (before, n, after)" by (cases p)
    from extract_SomeE [OF Some [unfolded p]]
    have e: "pub_list h = before @ n # after" "pn_packet_id n = pid"
      "pid \<notin> set (map pn_packet_id before)" by auto
    from run Some p have h': "h' = h \<lparr> pub_list := before @ after \<rparr>" "events w' = events w"
      by (auto simp: core_mqtt_publist_remove_def core_sysdep_free_def events_def)
    show ?thesis using cstep.acked [of pid "view (h, w)"] e h'
      by (intro refines_step) (auto simp: view_def flags_ok_def remove1_append)
  qed
qed

text \<open>The list of subscriptions.\<close>

lemma events_live: "events (w \<lparr> calls := n, live := x \<rparr>) = events w" "events (w \<lparr> calls := n \<rparr>) = events w"
  "events (w \<lparr> live := x \<rparr>) = events w"
  by (simp_all add: events_def)

lemma run_handlerlist_insert:
  "\<exists>res hs w'. run_state (core_mqtt_handlerlist_insert ns f u) (h, w) = ((res, hs), (h, w'))
     \<and> events w' = events w"
  by (auto simp: core_mqtt_handlerlist_insert_def core_sysdep_malloc_def events_def split: option.split)

lemma refines_sublist_insert: "moves refines (core_mqtt_sublist_insert topic f u)"
proof (rule movesI)
  fix h w x h' w'
  assume run: "run_state (core_mqtt_sublist_insert topic f u) (h, w) = (x, (h', w'))"
  show "refines (h, w) (h', w')"
  proof (cases "List.extract (\<lambda>n. sn_topic n = topic) (sub_list h)")
    case (Some p)
    obtain before n after where p: "p = (before, n, after)" by (cases p)
    from extract_SomeE [OF Some [unfolded p]]
    have e: "sub_list h = before @ n # after" by simp
    obtain res hs w1 where hl: "run_state (core_mqtt_handlerlist_insert (sn_handle_list n) f u) (h, w)
        = ((res, hs), (h, w1))" "events w1 = events w"
      using run_handlerlist_insert [of "sn_handle_list n" f u h w] by auto
    from run Some p hl
    have "h' = (if f = 0 then h else h \<lparr> sub_list := before @ n \<lparr> sn_handle_list := hs \<rparr> # after \<rparr>)"
      "events w' = events w"
      by (auto simp: core_mqtt_sublist_insert_def split: if_splits)
    then show ?thesis using e by (intro refines_same) (auto simp: view_def flags_ok_def)
  next
    case None
    define w2 where "w2 = w \<lparr> calls := Suc (Suc (calls w)), live := 2 + live w \<rparr>"
    obtain res hs w1 where hl: "run_state (core_mqtt_handlerlist_insert [] f u) (h, w2)
        = ((res, hs), (h, w1))" "events w1 = events w2"
      using run_handlerlist_insert [of "[]" f u h w2] by auto
    have "events w' = events w \<and> (h' = h \<or> h' = h \<lparr> sub_list := sub_list h
        @ [\<lparr> sn_topic = topic, sn_handle_list = (if f \<noteq> 0 then hs else []) \<rparr>] \<rparr>)"
      using run None hl
      by (auto simp: core_mqtt_sublist_insert_def core_sysdep_malloc_def core_sysdep_free_def
          w2_def events_live split: if_splits)
    moreover have "topic \<notin> set (map sn_topic (sub_list h))"
      using None by (auto simp: extract_None_iff)
    ultimately have "events w' = events w" "topic \<notin> set (map sn_topic (sub_list h))" and
      "h' = h \<or> h' = h \<lparr> sub_list := sub_list h
        @ [\<lparr> sn_topic = topic, sn_handle_list = (if f \<noteq> 0 then hs else []) \<rparr>] \<rparr>" by blast+
    then show ?thesis
    proof (elim disjE)
      assume "h' = h" "events w' = events w"
      then show ?thesis by (intro refines_same) (auto simp: view_def flags_ok_def)
    qed (use cstep.subscribed [of topic "view (h, w)"] in
      \<open>auto intro!: refines_step simp: view_def flags_ok_def\<close>)
  qed
qed

lemma refines_sublist_remove: "moves refines (core_mqtt_sublist_remove topic)"
proof (rule movesI)
  fix h w x h' w'
  assume "run_state (core_mqtt_sublist_remove topic) (h, w) = (x, (h', w'))"
  then have "h' = h \<lparr> sub_list := filter (\<lambda>n. sn_topic n \<noteq> topic) (sub_list h) \<rparr>" "events w' = events w"
    by (auto simp: core_mqtt_sublist_remove_def free_sub_nodes_def events_def)
  then show "refines (h, w) (h', w')" using cstep.unsubscribed [of "view (h, w)" topic]
    by (intro refines_step) (auto simp: view_def flags_ok_def filter_map o_def)
qed

lemma refines_sublist_remove_handler: "moves refines (core_mqtt_sublist_remove_handler topic f)"
proof (rule movesI)
  fix h w x h' w'
  assume "run_state (core_mqtt_sublist_remove_handler topic f) (h, w) = (x, (h', w'))"
  then have e: "events w' = events w" and h': "h' = h \<lparr> sub_list := map (\<lambda>n. if sn_topic n = topic
      then n \<lparr> sn_handle_list := filter (\<lambda>x. sh_handler x \<noteq> f) (sn_handle_list n) \<rparr> else n) (sub_list h) \<rparr>"
    by (auto simp: core_mqtt_sublist_remove_handler_def events_def)
  have "map sn_topic (sub_list h') = map sn_topic (sub_list h)" unfolding h' by simp
  then show "refines (h, w) (h', w')"
    using e by (intro refines_same) (simp_all add: view_def flags_ok_def h')
qed

interpretation protocol: client_moves refines
proof
  show "refines s s" for s by (simp add: refines_def)
  show "refines s u" if "refines s t" "refines t u" for s t u
    using that unfolding refines_def by (meson rtranclp_trans)
  show "silent f \<Longrightarrow> refines (h, w) (f h, w)" for f h w
    by (intro refines_same) (simp_all add: silent_def view_def flags_ok_def)
  show "quiet g \<Longrightarrow> refines (h, w) (h, g w)" for g h w
    by (intro refines_same) (simp_all add: view_def flags_ok_def events_quiet)
  show "map pn_packet_id ns = map pn_packet_id (pub_list h)
      \<Longrightarrow> refines (h, w) (h \<lparr> pub_list := ns \<rparr>, w)" for ns h w
    by (intro refines_same) (simp_all add: view_def flags_ok_def)
qed (auto intro!: refines_same refines_connected refines_disconnected refines_packet_id
    refines_publist_insert refines_publist_remove refines_sublist_insert refines_sublist_remove
    refines_sublist_remove_handler simp: view_def flags_ok_def)

lemma refines_run_calls:
  assumes "\<And>d. Call_setopt d (Opt_event_handler 0) \<notin> set cs"
  shows "refines s (run_calls cs s)"
proof (rule protocol.moves_run_calls)
  fix d v
  assume "Call_setopt d (Opt_event_handler v) \<in> set cs"
  then have "v \<noteq> 0" using assms by (cases "v = 0") auto
  then show "moves refines (hset (\<lambda>h. h \<lparr> event_handler := v \<rparr>))"
    unfolding hset_def by (auto simp: moves_def refines_def flags_ok_def view_def)
qed

section \<open>Invariants of the abstract client\<close>

definition is_disconnect :: "mqtt_event \<Rightarrow> bool" where
  "is_disconnect ev = (case ev of Ev_disconnect _ \<Rightarrow> True | _ \<Rightarrow> False)"

text \<open>The order in which events may come.\<close>

definition event_order :: "mqtt_event list \<Rightarrow> bool" where
  "event_order evs \<longleftrightarrow> (evs = [] \<or> hd evs = Ev_connect \<and> Ev_connect \<notin> set (tl evs))
     \<and> successively (\<lambda>x y. \<not> (is_disconnect x \<and> is_disconnect y)) evs"

definition client_inv :: "client_view \<Rightarrow> bool" where
  "client_inv v \<longleftrightarrow> event_order (v_events v) \<and> (v_seen v \<longleftrightarrow> v_events v \<noteq> [])
     \<and> (v_down v \<longleftrightarrow> v_events v \<noteq> [] \<and> is_disconnect (last (v_events v)))
     \<and> distinct (v_cached v) \<and> distinct (v_topics v)"

lemma event_order_append:
  assumes "event_order evs" "evs = [] \<longleftrightarrow> ev = Ev_connect"
    "is_disconnect ev \<Longrightarrow> evs \<noteq> [] \<Longrightarrow> \<not> is_disconnect (last evs)"
  shows "event_order (evs @ [ev])"
proof (cases "evs = []")
  case True
  then show ?thesis using assms by (simp add: event_order_def)
next
  case False
  have "successively (\<lambda>x y. \<not> (is_disconnect x \<and> is_disconnect y)) (evs @ [ev])"
    using assms False unfolding event_order_def successively_append_iff by auto
  then show ?thesis using assms False by (auto simp: event_order_def)
qed

lemma event_order_one: "event_order []" "event_order [Ev_connect]"
  by (simp_all add: event_order_def)

lemma client_inv_step: "cstep v v' \<Longrightarrow> client_inv v \<Longrightarrow> client_inv v'"
proof (induction rule: cstep.induct)
  case (first v)
  then show ?case by (auto simp: client_inv_def is_disconnect_def event_order_one)
qed (auto simp: client_inv_def is_disconnect_def intro!: event_order_append)

lemma client_inv_steps: "csteps v v' \<Longrightarrow> client_inv v \<Longrightarrow> client_inv v'"
  by (induction rule: rtranclp_induct) (auto intro: client_inv_step)

text \<open>A handle that has not been connected, with an event handler set.\<close>

definition never_connected :: "mqtt_state \<Rightarrow> bool" where
  "never_connected s \<longleftrightarrow> (case s of (h, w) \<Rightarrow> has_connected h = 0 \<and> disconnected h = 0
     \<and> event_handler h \<noteq> 0 \<and> sub_list h = [] \<and> pub_list h = [] \<and> events w = [])"

lemma never_connected_inv: "never_connected s \<Longrightarrow> flags_ok s \<and> client_inv (view s)"
  by (auto simp: never_connected_def flags_ok_def client_inv_def view_def event_order_def)

lemma run_calls_inv:
  assumes "never_connected s" "\<And>d. Call_setopt d (Opt_event_handler 0) \<notin> set cs"
  shows "client_inv (view (run_calls cs s))"
  using never_connected_inv [OF assms(1)] refines_run_calls [OF assms(2), where s = s]
    client_inv_steps unfolding refines_def by blast

section \<open>Claims\<close>

definition ready_state :: mqtt_state where
  "ready_state = ((initial_handle 0) \<lparr> event_handler := 1 \<rparr>, fresh_world quiet_platform)"

lemma never_connected_ready: "never_connected ready_state"
  by (simp add: never_connected_def ready_state_def initial_handle_def fresh_world_def events_def)

text \<open>
  C1. Refinement: as long as an event handler is set, whatever sequence of API calls is made and however the
  platform answers, what the user can observe (connection flags, events, packet ids, cached
  publications, subscriptions) changes only by the steps of the abstract client.
\<close>

theorem api_refines_client:
  assumes "event_handler (fst s) \<noteq> 0" "has_connected (fst s) \<le> 1"
    and "\<And>d. Call_setopt d (Opt_event_handler 0) \<notin> set cs"
  shows "cstep\<^sup>*\<^sup>* (view s) (view (run_calls cs s))"
  using refines_run_calls [OF assms(3), where s = s] assms(1,2)
  unfolding refines_def flags_ok_def by blast

lemma api_refines_client_witness:
  "cstep\<^sup>*\<^sup>* (view ready_state) (view (run_calls [Call_connect, Call_recv, Call_disconnect] ready_state))"
  by (rule api_refines_client) (simp_all add: ready_state_def initial_handle_def)

text \<open>
  C2. The events a user sees are ordered: the first one is the connect event, it comes only once (every
  later connection is reported as a reconnect), and two disconnect events never follow each other
  without a reconnect event in between.
\<close>

theorem event_protocol:
  assumes "never_connected s" "\<And>d. Call_setopt d (Opt_event_handler 0) \<notin> set cs"
    and "evs = events (snd (run_calls cs s))"
  shows "(evs \<noteq> [] \<longrightarrow> hd evs = Ev_connect) \<and> Ev_connect \<notin> set (tl evs)
    \<and> (\<forall>i. Suc i < length evs \<longrightarrow> \<not> (is_disconnect (evs ! i) \<and> is_disconnect (evs ! Suc i)))"
proof -
  have "event_order evs"
    using run_calls_inv [OF assms(1,2)] assms(3) by (auto simp: client_inv_def view_def split: prod.splits)
  then show ?thesis
    by (auto simp: event_order_def successively_conv_nth)
qed

lemma event_protocol_witness:
  "Ev_connect \<notin> set (tl (events (snd (run_calls [Call_connect, Call_disconnect] ready_state))))"
  using event_protocol [OF never_connected_ready _ refl, of "[Call_connect, Call_disconnect]"] by simp

text \<open>
  The cached publications always have different packet ids, so an acknowledgement names one of them,
  and the list of subscriptions never holds a topic twice.
\<close>

theorem lists_distinct:
  assumes "never_connected s" "\<And>d. Call_setopt d (Opt_event_handler 0) \<notin> set cs"
    and "run_calls cs s = (h, w)"
  shows "distinct (map pn_packet_id (pub_list h)) \<and> distinct (map sn_topic (sub_list h))"
  using run_calls_inv [OF assms(1,2)] assms(3) by (simp add: client_inv_def view_def)

lemma lists_distinct_witness:
  "distinct (map sn_topic (sub_list (fst (run_calls
     [Call_sub (Some ''/a'') 1 0 0, Call_sub (Some ''/a'') 2 0 0] ready_state))))"
  using lists_distinct [OF never_connected_ready, of
      "[Call_sub (Some ''/a'') 1 0 0, Call_sub (Some ''/a'') 2 0 0]"
      "fst (run_calls [Call_sub (Some ''/a'') 1 0 0, Call_sub (Some ''/a'') 2 0 0] ready_state)"
      "snd (run_calls [Call_sub (Some ''/a'') 1 0 0, Call_sub (Some ''/a'') 2 0 0] ready_state)"]
  by simp

end
