(* ===== verification/Mqtt_Reconnect.thy ===== *)
theory Mqtt_Reconnect
  imports Mqtt_Protocol
begin

text \<open>
  Packet ids and reconnection: the ids repeat only after 65535 calls and are never 0, the counter
  of failed attempts and the jitter stay in their ranges whatever calls are made, and so the interval
  between two attempts is computed without overflow.
\<close>

section \<open>Packet ids\<close>

lemma next_id_nonzero: "next_id x \<noteq> 0"
  by (simp add: next_id_def)

lemma unat_next_id: "unat (next_id x) = unat x mod 65535 + 1"
proof -
  have lt: "unat x < 65536" using unsigned_less [of x, where ?'a = nat] by simp
  show ?thesis
  proof (cases "unat x = 65535")
    case True
    then have "x = 65535" by (intro unsigned_word_eqI [where ?'a = nat]) simp
    then show ?thesis by (simp add: next_id_def)
  next
    case False
    with lt have u: "unat (x + 1) = unat x + 1" by (simp add: unat_word_ariths)
    then have "x + 1 \<noteq> 0" by (metis add_is_0 one_neq_zero unat_0)
    with u False lt show ?thesis by (simp add: next_id_def)
  qed
qed

lemma unat_next_ids: "unat ((next_id ^^ Suc n) x) = (unat x + n) mod 65535 + 1"
proof (induction n)
  case 0
  then show ?case by (simp add: unat_next_id)
next
  case (Suc n)
  have "unat ((next_id ^^ Suc (Suc n)) x) = ((unat x + n) mod 65535 + 1) mod 65535 + 1"
    by (simp only: funpow.simps(2) [of "Suc n"] o_apply unat_next_id Suc)
  then show ?case by (simp add: mod_Suc_eq)
qed

text \<open>The ids that a number of calls hand out.\<close>

fun take_ids :: "nat \<Rightarrow> u16 list mq" where
  "take_ids 0 = ret []"
| "take_ids (Suc n) = do { i \<leftarrow> core_mqtt_packet_id; is \<leftarrow> take_ids n; ret (i # is) }"

lemma run_packet_id:
  assumes "Data_mutex \<notin> set (held w)"
  shows "\<exists>w'. run_state core_mqtt_packet_id (h, w)
      = (next_id (packet_id h), (h \<lparr> packet_id := next_id (packet_id h) \<rparr>, w')) \<and> held w' = held w"
  using assms by (auto simp: core_mqtt_packet_id_def lock_def unlock_def next_id_def)

lemma run_take_ids:
  "Data_mutex \<notin> set (held w)
   \<Longrightarrow> fst (run_state (take_ids n) (h, w)) = map (\<lambda>i. (next_id ^^ Suc i) (packet_id h)) [0..<n]"
proof (induction n arbitrary: h w)
  case (Suc n)
  obtain w1 where 1: "run_state core_mqtt_packet_id (h, w)
      = (next_id (packet_id h), (h \<lparr> packet_id := next_id (packet_id h) \<rparr>, w1))" "held w1 = held w"
    using run_packet_id [OF Suc.prems] by blast
  have "fst (run_state (take_ids (Suc n)) (h, w)) = next_id (packet_id h)
      # map (\<lambda>i. (next_id ^^ Suc i) (next_id (packet_id h))) [0..<n]"
    using 1 Suc.IH [of w1 "h \<lparr> packet_id := next_id (packet_id h) \<rparr>"] Suc.prems
    by (auto split: prod.splits)
  also have "\<dots> = map (\<lambda>i. (next_id ^^ Suc i) (packet_id h)) (0 # map Suc [0..<n])"
    by (simp add: o_def funpow_swap1)
  finally show ?case by (simp only: map_Suc_upt upt_conv_Cons [OF zero_less_Suc])
qed simp

text \<open>
  A packet id handed out is never 0, and the same id is handed out again only after 65535 further
  calls: the ids of up to 65535 packets in flight differ.
\<close>

theorem packet_ids_cycle:
  assumes "Data_mutex \<notin> set (held w)" "run_state (take_ids n) (h, w) = (ids, s)" "j < n"
  shows "length ids = n \<and> ids ! j \<noteq> 0 \<and> (\<forall>i < j. ids ! i = ids ! j \<longrightarrow> 65535 dvd j - i)"
proof -
  have ids: "ids = map (\<lambda>i. (next_id ^^ Suc i) (packet_id h)) [0..<n]"
    using run_take_ids [OF assms(1), of n h] assms(2) by simp
  have "65535 dvd j - i" if "i < j" "ids ! i = ids ! j" for i
  proof -
    have "(unat (packet_id h) + i) mod 65535 = (unat (packet_id h) + j) mod 65535"
      using that assms(3) ids unat_next_ids [of i "packet_id h"] unat_next_ids [of j "packet_id h"]
      by (simp del: funpow.simps)
    then show ?thesis using that(1) by (metis add_diff_cancel_left less_imp_le_nat mod_eq_dvd_iff_nat nat_add_left_cancel_le)
  qed
  moreover have "ids ! j \<noteq> 0" using assms(3) ids next_id_nonzero by simp
  ultimately show ?thesis using ids by simp
qed

lemma packet_ids_cycle_witness:
  "fst (run_state (take_ids 3) ready_state) ! 2 \<noteq> 0"
  using packet_ids_cycle [of "snd ready_state" 3 "fst ready_state" "fst (run_state (take_ids 3) ready_state)"
      "snd (run_state (take_ids 3) ready_state)" 2]
  by (simp add: ready_state_def fresh_world_def)

section \<open>The interval between attempts\<close>

definition counter_kept :: "mqtt_state \<Rightarrow> mqtt_state \<Rightarrow> bool" where
  "counter_kept s t \<longleftrightarrow> (counter_ok (reconnect_params (fst s)) \<longrightarrow> counter_ok (reconnect_params (fst t)))"

lemma counter_keptI:
  "(\<And>h w x h' w'. run_state m (h, w) = (x, (h', w')) \<Longrightarrow> reconnect_params h' = reconnect_params h)
   \<Longrightarrow> moves counter_kept m"
  by (rule movesI) (simp add: counter_kept_def)

lemma counter_kept_lists:
  "moves counter_kept (core_mqtt_publist_insert pkt pid)" "moves counter_kept (core_mqtt_publist_remove pid)"
  "moves counter_kept (core_mqtt_sublist_remove t)" "moves counter_kept (core_mqtt_sublist_remove_handler t f)"
  "moves counter_kept core_mqtt_packet_id"
  by (rule counter_keptI; auto simp: core_mqtt_publist_insert_def core_mqtt_publist_remove_def
      core_mqtt_sublist_remove_def core_mqtt_sublist_remove_handler_def core_mqtt_packet_id_def
      core_sysdep_malloc_def core_sysdep_free_def core_sysdep_time_def free_sub_nodes_def lock_def
      unlock_def split: option.splits if_splits)+

lemma counter_kept_sublist_insert: "moves counter_kept (core_mqtt_sublist_insert t f u)"
proof (rule counter_keptI)
  fix h w x h' w'
  assume run: "run_state (core_mqtt_sublist_insert t f u) (h, w) = (x, (h', w'))"
  have hl: "\<exists>r hs w2. run_state (core_mqtt_handlerlist_insert ns f u) (h, w1) = ((r, hs), (h, w2))" for ns w1
    using run_handlerlist_insert by blast
  show "reconnect_params h' = reconnect_params h"
  proof (cases "List.extract (\<lambda>n. sn_topic n = t) (sub_list h)")
    case None
    obtain r hs w2 where "run_state (core_mqtt_handlerlist_insert [] f u)
        (h, w \<lparr> calls := Suc (Suc (calls w)), live := 2 + live w \<rparr>) = ((r, hs), (h, w2))"
      using hl by blast
    with run None show ?thesis
      by (auto simp: core_mqtt_sublist_insert_def core_sysdep_malloc_def core_sysdep_free_def split: if_splits)
  next
    case (Some p)
    obtain before n after where p: "p = (before, n, after)" by (cases p)
    obtain r hs w2 where "run_state (core_mqtt_handlerlist_insert (sn_handle_list n) f u) (h, w)
        = ((r, hs), (h, w2))" using hl by blast
    with run Some p show ?thesis by (auto simp: core_mqtt_sublist_insert_def split: if_splits)
  qed
qed

lemma counter_kept_events:
  "moves counter_kept core_mqtt_connect_event_notify"
  "moves counter_kept (core_mqtt_disconnect_event_notify d)"
proof -
  have n: "fst (snd (run_state (core_mqtt_event_notify ev) s)) = fst s" for ev s
    using run_event_notify [of ev "fst s" "snd s"] by auto
  show "moves counter_kept core_mqtt_connect_event_notify"
    "moves counter_kept (core_mqtt_disconnect_event_notify d)"
    unfolding core_mqtt_connect_event_notify_def core_mqtt_disconnect_event_notify_def
    by (simp_all add: moves_def counter_kept_def n)
qed

interpretation reconnection: client_moves counter_kept
proof
  show "keeps_counter c \<Longrightarrow> counter_kept (h, w) (h \<lparr> reconnect_params := c (reconnect_params h) \<rparr>, w)"
    for c h w
    by (simp add: counter_kept_def keeps_counter_def)
qed (auto simp: counter_kept_def silent_def intro: counter_kept_lists counter_kept_sublist_insert
    counter_kept_events)

lemma run_calls_counter:
  "counter_ok (reconnect_params (fst s)) \<Longrightarrow> counter_ok (reconnect_params (fst (run_calls cs s)))"
proof -
  have "moves counter_kept (hset (\<lambda>h. h \<lparr> event_handler := v \<rparr>))" for v
    by (auto simp: hset_def moves_def counter_kept_def)
  then show "counter_ok (reconnect_params (fst s)) \<Longrightarrow> counter_ok (reconnect_params (fst (run_calls cs s)))"
    using reconnection.moves_run_calls [of cs s] unfolding counter_kept_def by blast
qed

lemma sint_small:
  assumes "uint x < 2 ^ 31"
  shows "sint (x :: 32 word) = uint x"
proof -
  have "-2147483648 \<le> uint x" using uint_ge_0 [of x] by linarith
  then show ?thesis unfolding sint_uint by (intro signed_take_bit_int_eq_self) (use assms in simp_all)
qed

lemma initial_counter: "counter_ok (reconnect_params (initial_handle r))"
proof -
  have m: "uint (r mod 1000) < 1000" "0 \<le> uint (r mod 1000)" by (simp_all add: uint_mod)
  then have s: "sint (r mod 1000) = uint (r mod 1000)" by (intro sint_small) simp
  have "sint (r mod 1000 - 500) = signed_take_bit 31 (uint (r mod 1000) - 500)"
    by (simp add: sint_word_ariths s)
  also have "\<dots> = uint (r mod 1000) - 500"
    by (rule signed_take_bit_int_eq_self) (use m in simp_all)
  finally show ?thesis using m by (simp add: counter_ok_def initial_handle_def)
qed

text \<open>
  Whatever calls are made on a new handle, the counter of failed attempts stays between 0 and 60 and
  the jitter between -500 and 499 ms, so that for an interval of at most a day's 86400000 ms divided by
  60 the time between two attempts is computed without overflow: the interval times the number of the
  attempt plus the jitter.
\<close>

theorem reconnect_interval_bounds:
  assumes "reconnect_params h = reconnect_params (initial_handle r)"
    and "run_calls cs (h, w) = (h', w')" "p = reconnect_params h'"
    and "rc_backoff_enabled p \<noteq> 0" "500 \<le> rc_interval_ms p" "rc_interval_ms p \<le> 1440000"
  shows "0 \<le> sint (rc_reconnect_counter p) \<and> sint (rc_reconnect_counter p) \<le> 60
    \<and> uint (reconnect_interval p)
        = uint (rc_interval_ms p) * (sint (rc_reconnect_counter p) + 1) + sint (rc_rand_ms p)"
proof -
  have ok: "counter_ok p"
    using run_calls_counter [of "(h, w)" cs] initial_counter [of r] assms(1-3) by simp
  let ?i = "uint (rc_interval_ms p)" and ?c = "sint (rc_reconnect_counter p)"
    and ?j = "sint (rc_rand_ms p)"
  have b: "0 \<le> ?c" "?c \<le> 60" "-500 \<le> ?j" "?j < 500" "500 \<le> ?i" "?i \<le> 1440000"
    using ok assms(5,6) by (simp_all add: counter_ok_def word_le_def)
  have p1: "?i * 1 \<le> ?i * (?c + 1)" "?i * (?c + 1) \<le> 1440000 * 61"
    using b by (intro mult_left_mono mult_mono; simp)+
  have e: "reconnect_interval p = word_of_int (?i * (?c + 1) + ?j)"
    using assms(4) by (simp add: reconnect_interval_def)
  have u: "uint (word_of_int z :: u32) = z mod 2 ^ 32" for z
    by (simp add: uint_word_of_int)
  have "uint (reconnect_interval p) = (?i * (?c + 1) + ?j) mod 2 ^ 32"
    unfolding e by (rule u)
  also have "\<dots> = ?i * (?c + 1) + ?j"
  proof (rule mod_pos_pos_trivial)
    show "0 \<le> ?i * (?c + 1) + ?j" using b p1 by linarith
    show "?i * (?c + 1) + ?j < 2 ^ 32" using b p1 by simp
  qed
  finally show ?thesis using b by simp
qed

lemma reconnect_interval_bounds_witness:
  "uint (reconnect_interval (reconnect_params (initial_handle 0))) = 1500"
  using reconnect_interval_bounds [of "initial_handle 0" 0 "[]" "fresh_world quiet_platform"
      "initial_handle 0" "fresh_world quiet_platform" "reconnect_params (initial_handle 0)"]
  by (simp add: initial_handle_def)

end
