(* ===== verification/Mqtt_Delivery.thy ===== *)
theory Mqtt_Delivery
  imports Mqtt_Locks
begin

text \<open>
  Messages end to end: a publication of a peer reaches exactly the handlers of the subscriptions it
  matches, a QoS 1 publication stays cached until its acknowledgement comes and is sent again
  unchanged until then, and a failed write ends the connection.
\<close>

section \<open>Received publications\<close>

definition memory :: "platform \<Rightarrow> bool" where
  "memory p \<longleftrightarrow> (\<forall>n. p_malloc p n)"

definition matching :: "core_mqtt_handle \<Rightarrow> string \<Rightarrow> core_mqtt_sub_handler_node list" where
  "matching h topic = concat (map sn_handle_list
     (filter (\<lambda>n. core_mqtt_topic_compare (sn_topic n) topic = STATE_SUCCESS) (sub_list h)))"

text \<open>The calls of user handlers a publication leads to.\<close>

definition deliveries :: "core_mqtt_handle \<Rightarrow> recv_packet \<Rightarrow> string \<Rightarrow> effect list" where
  "deliveries h p topic =
     (if matching h topic = []
      then (if recv_handler h \<noteq> 0 then [Eff_recv (recv_handler h) (userdata h) p] else [])
      else map (\<lambda>n. Eff_recv (sh_handler n) (if sh_userdata n = 0 then userdata h else sh_userdata n) p)
             (matching h topic))"

lemma run_handlerlist_append:
  "memory (plat w) \<Longrightarrow> run_state (handlerlist_append dest src) (h, w) =
     (dest @ src, (h, w \<lparr> calls := calls w + length src, live := live w + int (length src) \<rparr>))"
proof (induction src arbitrary: dest w)
  case (Cons n src)
  then show ?case by (simp add: core_sysdep_malloc_def memory_def algebra_simps)
qed simp

lemma run_matching_handlers:
  "memory (plat w) \<Longrightarrow> \<exists>c. run_state (matching_handlers topic dest ns) (h, w) =
     (let hs = concat (map sn_handle_list
        (filter (\<lambda>n. core_mqtt_topic_compare (sn_topic n) topic = STATE_SUCCESS) ns))
      in (dest @ hs, (h, w \<lparr> calls := c, live := live w + int (length hs) \<rparr>)))"
proof (induction ns arbitrary: dest w)
  case Nil
  show ?case by (rule exI [of _ "calls w"]) simp
next
  case (Cons n ns)
  show ?case
  proof (cases "core_mqtt_topic_compare (sn_topic n) topic = STATE_SUCCESS")
    case True
    let ?w = "w \<lparr> calls := calls w + length (sn_handle_list n),
      live := live w + int (length (sn_handle_list n)) \<rparr>"
    from Cons.IH [of ?w "dest @ sn_handle_list n"] Cons.prems True
    show ?thesis by (auto simp: run_handlerlist_append Let_def algebra_simps)
  next
    case False
    with Cons.IH [OF Cons.prems, of dest] show ?thesis by simp
  qed
qed

lemma run_call_user_handler:
  assumes "memory (plat w)" "held w = []"
  shows "\<exists>c a. run_state (core_mqtt_call_user_handler topic payload qos) (h, w) = ((),
     (h, w \<lparr> calls := c, acquired := a, trace := trace w @ deliveries h (Recv_pub qos topic payload) topic \<rparr>))"
proof -
  let ?w = "w \<lparr> held := [Sub_mutex], acquired := acquired w @ [([], Sub_mutex)] \<rparr>"
  obtain c where c: "run_state (matching_handlers topic [] (sub_list h)) (h, ?w) =
      (matching h topic, (h, ?w \<lparr> calls := c, live := live w + int (length (matching h topic)) \<rparr>))"
    using run_matching_handlers [of ?w topic "[]" "sub_list h" h] assms(1)
    by (auto simp: matching_def Let_def)
  show ?thesis
    by (rule exI [of _ c], rule exI [of _ "acquired w @ [([], Sub_mutex)]"])
      (use assms(2) c in \<open>simp add: core_mqtt_call_user_handler_def lock_def unlock_def deliveries_def
        call_recv_handler_def\<close>)
qed

text \<open>
  The acknowledgement of a QoS 1 publication: what is written, and that a failed write touches
  nothing but the connection.
\<close>

lemma run_puback_send:
  assumes "held w = []"
  shows "\<exists>res h1 w1 ack. run_state (core_mqtt_puback_send pid) (h, w) = (res, (h1, w1))
    \<and> h1 = h \<lparr> network_handle := network_handle h1 \<rparr> \<and> plat w1 = plat w \<and> held w1 = []
    \<and> trace w1 = trace w @ ack
    \<and> (network_handle h \<longrightarrow> ack \<noteq> [] \<and> (\<exists>n. hd ack = Eff_send (puback_pkt pid) n))"
  using assms
  by (auto simp: core_mqtt_puback_send_def write_locked_def core_mqtt_write_def lock_def unlock_def
      write_failed_def network_close_locked_def network_deinit_if_def core_sysdep_network_deinit_def
      Let_def)

lemma deliveries_network: "deliveries (h \<lparr> network_handle := b \<rparr>) p topic = deliveries h p topic"
proof -
  have "matching (h \<lparr> network_handle := b \<rparr>) topic = matching h topic" by (simp add: matching_def)
  then show ?thesis by (simp add: deliveries_def)
qed

text \<open>What the handler does with a publication it could take apart.\<close>

lemma run_pub_handler:
  assumes "qos = 0 \<or> qos = 1" "length topic < 2 ^ 16" "length topic + length payload + 4 < 2 ^ 28"
  shows "run_state (core_mqtt_pub_handler (publish_body (bytes_of topic) payload qos pid) qos) (h, w) = run_state (do {
         (if qos = 0x01 then do { core_mqtt_puback_send pid; ret () } else ret ());
         dh \<leftarrow> hget decompress;
         if dh \<noteq> 0 then do {
           f \<leftarrow> call p_decompress;
           (case f topic payload of (res, topic', payload') \<Rightarrow>
             if res < STATE_SUCCESS then ret res
             else do { core_mqtt_call_user_handler topic' payload' qos; ret STATE_SUCCESS }) }
         else do { core_mqtt_call_user_handler topic payload qos; ret STATE_SUCCESS } }) (h, w)"
proof -
  let ?b = "publish_body (bytes_of topic) payload qos pid"
  let ?v = "\<lparr> pv_topic_off = 2, pv_topic_len = of_nat (length (bytes_of topic)),
      pv_packet_id = (if qos = 1 then pid else 0),
      pv_payload_off = 2 + length (bytes_of topic) + (if qos = 1 then 2 else 0),
      pv_payload_len = of_nat (length payload) \<rparr>"
  have len: "length (bytes_of topic) = length topic" by (simp add: bytes_of_def)
  have parse: "parse_publish ?b qos = Ok ?v"
    using assms by (intro parse_publish_body) (simp_all add: len)
  have u: "unat (of_nat (length topic) :: u16) = length topic"
    "unat (of_nat (length payload) :: u32) = length payload"
    using assms(2,3) by (simp_all add: unat_of_nat)
  have t: "string_of (take (unat (pv_topic_len ?v)) (drop (pv_topic_off ?v) ?b)) = topic"
    "take (unat (pv_payload_len ?v)) (drop (pv_payload_off ?v) ?b) = payload"
    using assms(2) u by (simp_all add: publish_body_def utf8_field_short len)
  show ?thesis
    unfolding core_mqtt_pub_handler_def attempt_def parse lift_outcome_def
    by (simp only: outcome.case Let_def t run_state_bind run_prims sum.case split_beta fst_conv snd_conv)
      (simp add: split_beta)
qed

text \<open>
  C6. A publication of a peer, as the packet builder of the client lays it out, is handed once to every
  handler of every subscription whose filter matches its topic, in the order of the subscriptions,
  with its topic, payload and QoS (and to the default handler when none matches), after the
  acknowledgement of a QoS 1 publication was written.
\<close>

theorem publish_delivery:
  assumes "memory (plat w)" "held w = []" "decompress h = 0" "qos = 0 \<or> qos = 1"
    and "length topic < 2 ^ 16" "length topic + length payload + 4 < 2 ^ 28"
    and "run_state (core_mqtt_pub_handler (publish_body (bytes_of topic) payload qos pid) qos) (h, w) = (r, (h', w'))"
  shows "r = STATE_SUCCESS \<and> (\<exists>ack. trace w' = trace w @ ack @ deliveries h (Recv_pub qos topic payload) topic
    \<and> (qos = 0 \<longrightarrow> ack = [])
    \<and> (qos = 1 \<and> network_handle h \<longrightarrow> (\<exists>n. hd ack = Eff_send (puback_pkt pid) n)))"
proof -
  note run = run_pub_handler [OF assms(4-6), of pid h w]
  show ?thesis
  proof (cases "qos = 1")
    case False
    then have "qos = 0" using assms(4) by simp
    moreover obtain c a where "run_state (core_mqtt_call_user_handler topic payload qos) (h, w) = ((),
       (h, w \<lparr> calls := c, acquired := a, trace := trace w @ deliveries h (Recv_pub qos topic payload) topic \<rparr>))"
      using run_call_user_handler [OF assms(1,2)] by blast
    ultimately show ?thesis using assms(3,7) unfolding run by auto
  next
    case True
    obtain res h1 w1 ack where p: "run_state (core_mqtt_puback_send pid) (h, w) = (res, (h1, w1))"
      "h1 = h \<lparr> network_handle := network_handle h1 \<rparr>" "plat w1 = plat w" "held w1 = []"
      "trace w1 = trace w @ ack"
      "network_handle h \<longrightarrow> ack \<noteq> [] \<and> (\<exists>n. hd ack = Eff_send (puback_pkt pid) n)"
      using run_puback_send [OF assms(2), of pid h] by blast
    obtain c a where d: "run_state (core_mqtt_call_user_handler topic payload qos) (h1, w1) = ((),
       (h1, w1 \<lparr> calls := c, acquired := a, trace := trace w1 @ deliveries h1 (Recv_pub qos topic payload) topic \<rparr>))"
      using run_call_user_handler [of w1 topic payload qos h1] assms(1) p(3,4) by auto
    have dh: "decompress h1 = 0" using p(2) assms(3)
      by (metis core_mqtt_handle.select_convs(36) core_mqtt_handle.surjective core_mqtt_handle.update_convs(1))
    have dl: "deliveries h1 (Recv_pub qos topic payload) topic = deliveries h (Recv_pub qos topic payload) topic"
      using p(2) deliveries_network by metis
    show ?thesis using assms(7) True p d dh dl unfolding run by auto
  qed
qed

lemma publish_delivery_witness:
  "trace (snd (snd (run_state (core_mqtt_pub_handler (publish_body (bytes_of ''/a/b'') [1, 2] 0 0) 0)
     (initial_handle 0 \<lparr> sub_list := [\<lparr> sn_topic = ''/a/+'', sn_handle_list =
        [\<lparr> sh_handler = 5, sh_userdata = 9 \<rparr>] \<rparr>] \<rparr>, fresh_world quiet_platform))))
   = [Eff_recv 5 9 (Recv_pub 0 ''/a/b'' [1, 2])]"
proof -
  let ?h = "initial_handle 0 \<lparr> sub_list := [\<lparr> sn_topic = ''/a/+'', sn_handle_list =
        [\<lparr> sh_handler = 5, sh_userdata = 9 \<rparr>] \<rparr>] \<rparr>" and ?w = "fresh_world quiet_platform"
  obtain r h' w' where d: "run_state (core_mqtt_pub_handler (publish_body (bytes_of ''/a/b'') [1, 2] 0 0) 0)
      (?h, ?w) = (r, (h', w'))" by (metis prod.exhaust)
  have m: "matching ?h ''/a/b'' = [\<lparr> sh_handler = 5, sh_userdata = 9 \<rparr>]"
    unfolding matching_def by code_simp
  have "\<exists>ack. trace w' = trace ?w @ ack @ deliveries ?h (Recv_pub 0 ''/a/b'' [1, 2]) ''/a/b''
    \<and> ((0 :: u8) = 0 \<longrightarrow> ack = []) \<and> ((0 :: u8) = 1 \<and> network_handle ?h \<longrightarrow> (\<exists>n. hd ack = Eff_send (puback_pkt 0) n))"
    by (rule publish_delivery [OF _ _ _ _ _ _ d, THEN conjunct2])
      (simp_all add: memory_def fresh_world_def quiet_platform_def initial_handle_def)
  then show ?thesis using d m by (simp add: deliveries_def fresh_world_def)
qed

section \<open>The cache of QoS 1 publications\<close>

text \<open>Room in the cache: the scan refuses only when it passes index \<open>limit + 1\<close>.\<close>

lemma publist_scan_room:
  assumes "pid \<notin> set (map pn_packet_id ns)" "unat k + length ns < 2 ^ 16"
  shows "publist_scan ns pid limit k = None \<longleftrightarrow> ns = [] \<or> unat k + length ns \<le> unat limit + 1"
  using assms
proof (induction ns arbitrary: k)
  case (Cons n ns)
  have k1: "unat (k + 1) = unat k + 1" using Cons.prems(2) by (simp add: unat_word_ariths)
  have "publist_scan (n # ns) pid limit k = None \<longleftrightarrow>
      unat k \<le> unat limit \<and> publist_scan ns pid limit (k + 1) = None"
    using Cons.prems(1) by (auto simp: word_less_nat_alt)
  also have "\<dots> \<longleftrightarrow> unat k \<le> unat limit \<and> (ns = [] \<or> unat k + 1 + length ns \<le> unat limit + 1)"
    using Cons.IH [of "k + 1"] Cons.prems k1 by simp
  finally show ?case by (cases ns) auto
qed simp

lemma publist_scan_roll:
  "pid \<in> set (map pn_packet_id ns) \<Longrightarrow> publist_scan ns pid limit k \<noteq> None"
  by (induction ns arbitrary: k) auto

lemma publist_scan_error: "publist_scan ns pid limit k = Some e \<Longrightarrow> e < STATE_SUCCESS"
  by (induction ns arbitrary: k) (auto split: if_splits)

definition pub_node :: "u16 \<Rightarrow> byte list \<Rightarrow> u64 \<Rightarrow> core_mqtt_pub_node" where
  "pub_node pid pkt t = \<lparr> pn_packet_id = pid, pn_packet = pkt, pn_last_send_time = t \<rparr>"

lemma pub_node_fields [simp]:
  "pn_packet_id (pub_node pid pkt t) = pid" "pn_packet (pub_node pid pkt t) = pkt"
  "pn_last_send_time (pub_node pid pkt t) = t"
  by (simp_all add: pub_node_def)

lemma run_publist_insert:
  assumes "memory (plat w)"
  shows "run_state (core_mqtt_publist_insert pkt pid) (h, w) =
    (case publist_scan (pub_list h) pid (repub_list_limit h) 0 of
       Some e \<Rightarrow> (e, (h, w))
     | None \<Rightarrow> (STATE_SUCCESS, (h \<lparr> pub_list := pub_list h
           @ [pub_node pid pkt (p_time (plat w) (Suc (Suc (calls w))))] \<rparr>,
         w \<lparr> calls := calls w + 3, live := live w + 2 \<rparr>)))"
  using assms
  by (simp add: core_mqtt_publist_insert_def core_sysdep_malloc_def core_sysdep_time_def memory_def
      pub_node_def numeral_3_eq_3 split: option.split)

lemma run_publist_remove:
  assumes "distinct (map pn_packet_id (pub_list h))" "n \<in> set (pub_list h)"
  shows "run_state (core_mqtt_publist_remove (pn_packet_id n)) (h, w) =
    ((), (h \<lparr> pub_list := filter (\<lambda>x. x \<noteq> n) (pub_list h) \<rparr>, w \<lparr> live := live w - 2 \<rparr>))"
proof (cases "List.extract (\<lambda>x. pn_packet_id x = pn_packet_id n) (pub_list h)")
  case None
  with assms(2) show ?thesis by (auto simp: extract_None_iff)
next
  case (Some p)
  obtain before m after where p: "p = (before, m, after)" by (cases p)
  from extract_SomeE [OF Some [unfolded p]]
  have l: "pub_list h = before @ m # after" "pn_packet_id m = pn_packet_id n" by auto
  with assms have m: "m = n" by (auto simp: image_iff)
  with l assms(1) have "n \<notin> set before" "n \<notin> set after" by force+
  with l(1) m have "filter (\<lambda>x. x \<noteq> n) (pub_list h) = before @ after"
    by (simp add: filter_id_conv) (metis (mono_tags, lifting) filter_True)
  with Some p m show ?thesis by (simp add: core_mqtt_publist_remove_def core_sysdep_free_def)
qed

text \<open>
  The cache takes a QoS 1 publication exactly when its packet id is free and at most
  \<open>limit + 1\<close> are cached (so it holds up to two more than the limit the user set); when it
  refuses one, nothing changes.
\<close>

theorem publist_insert_limit:
  assumes "memory (plat w)" "length (pub_list h) < 2 ^ 16"
    and "run_state (core_mqtt_publist_insert pkt pid) (h, w) = (r, (h', w'))"
  shows "(r = STATE_SUCCESS) = (pid \<notin> set (map pn_packet_id (pub_list h))
      \<and> length (pub_list h) \<le> unat (repub_list_limit h) + 1)
    \<and> (r = STATE_SUCCESS \<longrightarrow> (\<exists>t. pub_list h' = pub_list h @ [pub_node pid pkt t]))
    \<and> (r \<noteq> STATE_SUCCESS \<longrightarrow> h' = h \<and> live w' = live w)"
proof (cases "publist_scan (pub_list h) pid (repub_list_limit h) 0")
  case None
  then have "pid \<notin> set (map pn_packet_id (pub_list h))" using publist_scan_roll by blast
  with None assms publist_scan_room [of pid "pub_list h" 0 "repub_list_limit h"] show ?thesis
    by (auto simp: run_publist_insert)
next
  case (Some e)
  then have "e < STATE_SUCCESS" by (rule publist_scan_error)
  with Some assms publist_scan_room [of pid "pub_list h" 0 "repub_list_limit h"] show ?thesis
    by (auto simp: run_publist_insert)
qed

lemma publist_insert_limit_witness:
  "\<exists>t. pub_list (fst (snd (run_state (core_mqtt_publist_insert [0x32] 7) (initial_handle 0, fresh_world quiet_platform))))
     = [pub_node 7 [0x32] t]"
proof -
  obtain r h' w' where run: "run_state (core_mqtt_publist_insert [0x32] 7)
      (initial_handle 0, fresh_world quiet_platform) = (r, (h', w'))" by (metis prod.exhaust)
  show ?thesis
    using publist_insert_limit [OF _ _ run] run
    by (simp add: memory_def fresh_world_def quiet_platform_def initial_handle_def)
qed

text \<open>
  C18. A QoS 1 publication in the cache stays there with the bytes that were sent, and the acknowledgement
  of its packet id takes exactly it out again, tells the user and frees its two blocks.
\<close>

theorem publication_cached_until_ack:
  assumes "memory (plat w)" "distinct (map pn_packet_id (pub_list h))"
    and "run_state (core_mqtt_publist_insert pkt pid) (h, w) = (STATE_SUCCESS, (h1, w1))" "held w1 = []"
    and "run_state (core_mqtt_puback_handler (u16_bytes pid)) (h1, w1) = (r, (h2, w2))"
  shows "(\<exists>t. pub_list h1 = pub_list h @ [pub_node pid pkt t])
    \<and> r = STATE_SUCCESS \<and> pub_list h2 = pub_list h \<and> live w2 = live w
    \<and> trace w2 = trace w1 @ (if recv_handler h \<noteq> 0
        then [Eff_recv (recv_handler h) (userdata h) (Recv_pub_ack pid)] else [])"
proof -
  let ?n = "pub_node pid pkt (p_time (plat w) (Suc (Suc (calls w))))"
  have scan: "publist_scan (pub_list h) pid (repub_list_limit h) 0 = None"
    and h1: "h1 = h \<lparr> pub_list := pub_list h @ [?n] \<rparr>" and w1: "live w1 = live w + 2" "trace w1 = trace w"
    using assms(1,3) by (auto simp: run_publist_insert split: option.splits dest: publist_scan_error)
  have fresh: "pid \<notin> set (map pn_packet_id (pub_list h))" using scan publist_scan_roll by blast
  then have f: "filter (\<lambda>x. x \<noteq> ?n) (pub_list h) = pub_list h"
    by (simp add: filter_id_conv) (metis image_eqI pub_node_fields(1))
  let ?w = "w1 \<lparr> held := [Pub_mutex], acquired := acquired w1 @ [([], Pub_mutex)] \<rparr>"
  have rm: "run_state (core_mqtt_publist_remove pid) (h1, ?w)
      = ((), (h1 \<lparr> pub_list := pub_list h \<rparr>, ?w \<lparr> live := live w1 - 2 \<rparr>))"
    using run_publist_remove [of h1 ?n ?w] assms(2) fresh f h1 by (simp add: pub_node_def)
  have b: "length (u16_bytes pid) = 2" "u16_of_bytes (u16_bytes pid ! 0) (u16_bytes pid ! 1) = pid"
    using u16_bytes_roundtrip [of pid] by (simp_all add: u16_bytes_def)
  have "run_state (core_mqtt_puback_handler (u16_bytes pid)) (h1, w1) = run_state (do {
      lock Pub_mutex; core_mqtt_publist_remove pid; unlock Pub_mutex;
      call_recv_handler (Recv_pub_ack pid); ret STATE_SUCCESS }) (h1, w1)"
    by (simp add: core_mqtt_puback_handler_def b del: One_nat_def)
  then show ?thesis
    using assms(4,5) rm h1 w1
    by (auto simp: lock_def unlock_def call_recv_handler_def)
qed

lemma publication_cached_until_ack_witness:
  "\<exists>h1 w1 h2 w2. run_state (core_mqtt_publist_insert [0x32] 7)
      (initial_handle 0, fresh_world quiet_platform) = (STATE_SUCCESS, (h1, w1))
    \<and> run_state (core_mqtt_puback_handler (u16_bytes 7)) (h1, w1) = (STATE_SUCCESS, (h2, w2))
    \<and> pub_list h2 = []"
proof -
  let ?h = "initial_handle 0" and ?w = "fresh_world quiet_platform"
  have m: "memory (plat ?w)" by (simp add: memory_def fresh_world_def quiet_platform_def)
  obtain h1 w1 where 1: "run_state (core_mqtt_publist_insert [0x32] 7) (?h, ?w) = (STATE_SUCCESS, (h1, w1))"
    "held w1 = []"
    using run_publist_insert [OF m, of "[0x32]" 7 ?h] by (simp add: initial_handle_def fresh_world_def)
  obtain r h2 w2 where 2: "run_state (core_mqtt_puback_handler (u16_bytes 7)) (h1, w1) = (r, (h2, w2))"
    by (metis prod.exhaust)
  show ?thesis
    using publication_cached_until_ack [OF m _ 1 2] 1 2 by (auto simp: initial_handle_def)
qed

section \<open>Sending again\<close>

definition due :: "u64 \<Rightarrow> u32 \<Rightarrow> core_mqtt_pub_node \<Rightarrow> bool" where
  "due now timeout n \<longleftrightarrow>
     ucast timeout \<le> (if now < pn_last_send_time n then 0 else now - pn_last_send_time n)"

definition refreshed :: "u64 \<Rightarrow> u32 \<Rightarrow> core_mqtt_pub_node \<Rightarrow> core_mqtt_pub_node" where
  "refreshed now timeout n = (if due now timeout n \<or> now < pn_last_send_time n
     then n \<lparr> pn_last_send_time := now \<rparr> else n)"

text \<open>A network that takes every packet whole, and a clock that stands still during the loop.\<close>

definition sends_all :: "platform \<Rightarrow> bool" where
  "sends_all p \<longleftrightarrow> (\<forall>n b. p_network_send p n b = int (length b))"

lemma run_write_locked:
  assumes "sends_all (plat w)" "network_handle h" "Send_mutex \<notin> set (held w)"
  shows "run_state (write_locked pkt) (h, w) = (int (length pkt),
    (h, w \<lparr> calls := Suc (calls w), acquired := acquired w @ [(held w, Send_mutex)],
      trace := trace w @ [Eff_send pkt (int (length pkt))] \<rparr>))"
  using assms by (simp add: write_locked_def core_mqtt_write_def lock_def unlock_def sends_all_def Let_def)

lemma run_repub_loop:
  assumes "sends_all (plat w)" "\<forall>n. p_time (plat w) n = now" "network_handle h"
    "Send_mutex \<notin> set (held w)" "timeout = repub_timeout_ms h" "pub_list h = dn @ ns"
  shows "\<exists>c a. run_state (repub_loop dn ns) (h, w) = (STATE_SUCCESS,
    (h \<lparr> pub_list := dn @ map (refreshed now timeout) ns \<rparr>, w \<lparr> calls := c, acquired := a,
      trace := trace w @ map (\<lambda>n. Eff_send (pn_packet n) (int (length (pn_packet n)))) (filter (due now timeout) ns) \<rparr>))"
  using assms
proof (induction ns arbitrary: dn h w)
  case Nil
  then show ?case by (intro exI [of _ "calls w"] exI [of _ "acquired w"]) simp
next
  case (Cons n ns)
  let ?n1 = "if now < pn_last_send_time n then n \<lparr> pn_last_send_time := now \<rparr> else n"
  let ?h1 = "h \<lparr> pub_list := dn @ ?n1 # ns \<rparr>"
  let ?w1 = "w \<lparr> calls := Suc (calls w) \<rparr>"
  have du: "due now timeout n \<longleftrightarrow> ucast timeout \<le> now - pn_last_send_time ?n1"
    by (simp add: due_def)
  show ?case
  proof (cases "due now timeout n")
    case False
    have "refreshed now timeout n = ?n1" using False by (simp add: refreshed_def)
    moreover have "run_state (repub_loop dn (n # ns)) (h, w) = run_state (repub_loop (dn @ [?n1]) ns) (?h1, ?w1)"
      using False Cons.prems unfolding du by (simp add: core_sysdep_time_def put_node_def Let_def)
    ultimately show ?thesis
      using Cons.IH [of ?w1 ?h1 "dn @ [?n1]"] Cons.prems False by simp
  next
    case True
    let ?n2 = "?n1 \<lparr> pn_last_send_time := now \<rparr>"
    have n2: "?n2 = refreshed now timeout n" using True by (simp add: refreshed_def)
    let ?h2 = "h \<lparr> pub_list := dn @ refreshed now timeout n # ns \<rparr>"
    let ?w2 = "w \<lparr> calls := Suc (Suc (calls w)), acquired := acquired w @ [(held w, Send_mutex)],
      trace := trace w @ [Eff_send (pn_packet n) (int (length (pn_packet n)))] \<rparr>"
    have wr: "run_state (write_locked (pn_packet ?n1)) (?h1, ?w1) = (int (length (pn_packet n)), (?h1, ?w2))"
      using run_write_locked [of ?w1 ?h1 "pn_packet ?n1"] Cons.prems by simp
    have "run_state (repub_loop dn (n # ns)) (h, w)
        = run_state (repub_loop (dn @ [refreshed now timeout n]) ns) (?h2, ?w2)"
      using True Cons.prems wr unfolding du n2 [symmetric]
      by (simp add: core_sysdep_time_def put_node_def Let_def)
    then show ?thesis
      using Cons.IH [of ?w2 ?h2 "dn @ [refreshed now timeout n]"] Cons.prems True by simp
  qed
qed



section \<open>Errors of the connection\<close>

lemma run_close:
  "\<exists>w'. run_state network_close_locked (h, w) = ((), (h \<lparr> network_handle := False \<rparr>, w'))"
  by (cases "network_handle h")
    (auto simp: network_close_locked_def network_deinit_if_def core_sysdep_network_deinit_def lock_def
      unlock_def)

lemma run_write_locked_handle:
  "\<exists>res w'. run_state (write_locked pkt) (h, w) = (res, (h, w'))"
  by (auto simp: write_locked_def core_mqtt_write_def lock_def unlock_def Let_def)

text \<open>What every sender does with its packet.\<close>

definition send_or_close :: "byte list \<Rightarrow> int mq" where
  "send_or_close pkt = do {
     res \<leftarrow> write_locked pkt;
     if res < STATE_SUCCESS then do { write_failed res; ret res } else ret STATE_SUCCESS }"

lemma senders:
  "core_mqtt_disconnect = send_or_close [0xE0, 0x00]"
  "core_mqtt_puback_send pid = send_or_close (puback_pkt pid)"
  "core_mqtt_heartbeat = do { core_mqtt_heartbeat_diag 0x00; send_or_close [0xC0, 0x00] }"
  by (simp_all add: core_mqtt_disconnect_def core_mqtt_puback_send_def core_mqtt_heartbeat_def
      send_or_close_def)

lemma run_send_or_close:
  assumes "run_state (send_or_close pkt) (h, w) = (r, (h', w'))"
    "r < STATE_SUCCESS" "r \<noteq> STATE_SYS_DEPEND_NWK_WRITE_LESSDATA"
  shows "h' = h \<lparr> network_handle := False \<rparr>"
proof -
  obtain res w1 where 1: "run_state (write_locked pkt) (h, w) = (res, (h, w1))"
    using run_write_locked_handle by blast
  obtain w2 where 2: "run_state network_close_locked (h, w1) = ((), (h \<lparr> network_handle := False \<rparr>, w2))"
    using run_close by blast
  show ?thesis using assms 1 2 by (auto simp: send_or_close_def write_failed_def split: if_splits)
qed

text \<open>
  When the client cannot write a packet (a ping, an acknowledgement, a disconnect request, a cached
  publication), it returns the error and the connection is closed, so that the next receive call
  starts a reconnection; only a write that was cut short leaves the connection open.
\<close>

theorem failed_write_closes:
  assumes "m \<in> {core_mqtt_heartbeat, core_mqtt_disconnect, core_mqtt_puback_send pid}"
    and "run_state m (h, w) = (r, (h', w'))" "r < STATE_SUCCESS"
    and "r \<noteq> STATE_SYS_DEPEND_NWK_WRITE_LESSDATA"
  shows "h' = h \<lparr> network_handle := False \<rparr>"
proof -
  obtain pkt w0 where "run_state (send_or_close pkt) (h, w0) = (r, (h', w'))"
    using assms(1,2) by (auto simp: senders core_mqtt_heartbeat_diag_def)
  then show ?thesis using assms(3,4) by (rule run_send_or_close)
qed

text \<open>A network on which every write fails.\<close>

definition broken_platform :: platform where
  "broken_platform = quiet_platform \<lparr> p_network_send := \<lambda>_ _. -1, p_network_recv := \<lambda>_ n. (int n, replicate n 0xFF) \<rparr>"

lemma failed_write_closes_witness:
  "network_handle (fst (snd (run_state core_mqtt_heartbeat
     ((initial_handle 0) \<lparr> network_handle := True \<rparr>, fresh_world broken_platform)))) = False"
proof -
  let ?h = "(initial_handle 0) \<lparr> network_handle := True \<rparr>" and ?w = "fresh_world broken_platform"
  obtain r h' w' where run: "run_state core_mqtt_heartbeat (?h, ?w) = (r, (h', w'))"
    by (metis prod.exhaust)
  then have r: "r = STATE_SYS_DEPEND_NWK_SEND_ERR"
    by (auto simp: core_mqtt_heartbeat_def core_mqtt_heartbeat_diag_def write_locked_def
        core_mqtt_write_def lock_def unlock_def fresh_world_def broken_platform_def Let_def
        core_mqtt_sysdep_return_def split: if_splits prod.splits)
  have "h' = ?h \<lparr> network_handle := False \<rparr>"
    by (rule failed_write_closes [OF _ run]) (simp_all add: r)
  then show ?thesis using run by simp
qed

lemma after_close:
  "run_state network_close_locked s = (u, (h', w')) \<Longrightarrow> \<not> network_handle h'"
  using run_close [of "fst s" "snd s"] by auto

lemma after_exec_dec:
  "run_state core_mqtt_exec_dec (h, w) = (u, (h', w')) \<Longrightarrow> network_handle h' = network_handle h"
  by (auto simp: core_mqtt_exec_dec_def lock_def unlock_def)

lemma recv_read_closes:
  assumes "run_state recv_read (h, w) = (Inl e, (h', w'))" "e < STATE_SUCCESS"
  shows "\<not> network_handle h'"
  using assms unfolding recv_read_def
  by (auto split: if_splits prod.splits sum.splits dest: after_close after_exec_dec)

text \<open>
  A receive call that fails while it reads or handles a packet (a read error, a malformed length, a
  packet cut short, no memory, a packet the client refuses) closes the connection before it returns.
\<close>

theorem failed_recv_closes:
  assumes "run_state recv_packet_op (h, w) = (r, (h', w'))" "r < STATE_SUCCESS"
  shows "\<not> network_handle h'"
proof -
  obtain x h1 w1 where 1: "run_state recv_read (h, w) = (x, (h1, w1))" by (metis prod.exhaust)
  show ?thesis
  proof (cases x)
    case (Inl e)
    with assms 1 have "run_state recv_read (h, w) = (Inl r, (h', w'))"
      by (simp add: recv_packet_op_def attempt_def)
    with assms(2) show ?thesis using recv_read_closes by blast
  next
    case (Inr y)
    obtain hdr n remain where y: "y = (hdr, n, remain)" by (cases y)
    obtain res h2 w2 where 2: "run_state (recv_dispatch hdr n remain)
        (h1 \<lparr> heartbeat_params := heartbeat_params h1 \<lparr> hb_lost_times := 0 \<rparr> \<rparr>, w1) = (res, (h2, w2))"
      by (metis prod.exhaust)
    from assms(1) 1 2 Inr y obtain w3 where 3: "run_state (do {
        (if res < STATE_SUCCESS then network_close_locked else ret ());
        core_mqtt_exec_dec; ret res }) (h2, w3) = (r, (h', w'))"
      by (auto simp: recv_packet_op_def attempt_def update_heartbeat_def free_if_def
          core_sysdep_free_def split: if_splits)
    then have "res = r" by (auto split: if_splits prod.splits)
    with 3 assms(2) show ?thesis by (auto split: prod.splits dest: after_close after_exec_dec)
  qed
qed

lemma failed_recv_closes_witness:
  "network_handle (fst (snd (run_state recv_packet_op
     ((initial_handle 0) \<lparr> network_handle := True \<rparr>,
      fresh_world (quiet_platform \<lparr> p_network_recv := \<lambda>_ _. (-1, []) \<rparr>))))) = False"
proof -
  let ?s = "((initial_handle 0) \<lparr> network_handle := True \<rparr>,
      fresh_world (quiet_platform \<lparr> p_network_recv := \<lambda>_ _. (-1, []) \<rparr>))"
  obtain r h' w' where run: "run_state recv_packet_op ?s = (r, (h', w'))" by (metis prod.exhaust)
  then have "r = STATE_SYS_DEPEND_NWK_RECV_ERR"
    by (auto simp: recv_packet_op_def attempt_def recv_read_def core_mqtt_read_def lock_def unlock_def
        fresh_world_def core_mqtt_sysdep_return_def split: if_splits prod.splits)
  with failed_recv_closes [OF run] run show ?thesis by simp
qed

lemma read_result:
  assumes "run_state (core_mqtt_read n) (h, w) = ((res, buf), (h1, w1))"
  shows "h1 = h \<and> res \<noteq> STATE_MQTT_CONNACK_FMT_ERROR"
  using assms
  by (auto simp: core_mqtt_read_def core_mqtt_sysdep_return_def split: if_splits prod.splits)

lemma write_result:
  assumes "run_state (core_mqtt_write pkt) (h, w) = (res, (h1, w1))"
  shows "h1 = h \<and> res \<noteq> STATE_MQTT_CONNACK_FMT_ERROR"
  using assms by (auto simp: core_mqtt_write_def core_mqtt_sysdep_return_def Let_def split: if_splits)

lemma remainlen_result:
  assumes "run_state core_mqtt_read_remainlen (h, w) = (x, (h1, w1))"
  shows "h1 = h \<and> x \<noteq> Inl STATE_MQTT_CONNACK_FMT_ERROR"
proof -
  have "run_state (remainlen_loop read_byte i t) (h, w) = (x, (h1, w1))
      \<Longrightarrow> h1 = h \<and> x \<noteq> Inl STATE_MQTT_CONNACK_FMT_ERROR" for i t w
  proof (induction "read_byte" i t arbitrary: w rule: remainlen_loop.induct)
    case (1 i t)
    obtain res buf w2 where rd: "run_state (core_mqtt_read 1) (h, w) = ((res, buf), (h, w2))"
      "res \<noteq> STATE_MQTT_CONNACK_FMT_ERROR"
      using read_result by (metis prod.exhaust)
    show ?case
      using 1 rd by (subst (asm) (2) remainlen_loop.simps)
        (auto simp: read_byte_def Let_def split: if_splits)
  qed
  with assms show ?thesis by (simp add: core_mqtt_read_remainlen_def)
qed

lemma conn_pkt_result:
  assumes "run_state m_conn_pkt (h, w) = (x, (h1, w1))"
  shows "h1 = h \<and> x \<noteq> Inl STATE_MQTT_CONNACK_FMT_ERROR"
  using assms
  by (auto simp: m_conn_pkt_def core_sysdep_malloc_def lift_outcome_def mark_ub_def
      core_mqtt_conn_pkt_def Let_def split: option.splits if_splits)

lemma handshake_fmt_error:
  assumes "run_state connect_handshake (h, w) = (STATE_MQTT_CONNACK_FMT_ERROR, (h', w'))"
  shows "h' = h"
proof -
  obtain x w1 where c: "run_state m_conn_pkt (h, w) = (x, (h, w1))" "x \<noteq> Inl STATE_MQTT_CONNACK_FMT_ERROR"
    using conn_pkt_result by (metis prod.exhaust)
  with assms obtain pkt where x: "x = Inr pkt"
    by (cases x) (auto simp: connect_handshake_def attempt_def)
  obtain res w2 where wr: "run_state (core_mqtt_write pkt) (h, w1) = (res, (h, w2))"
    "res \<noteq> STATE_MQTT_CONNACK_FMT_ERROR"
    using write_result by (metis prod.exhaust)
  let ?w2 = "w2 \<lparr> live := live w2 - 1 \<rparr>"
  obtain res2 buf w3 where rd: "run_state (core_mqtt_read 1) (h, ?w2) = ((res2, buf), (h, w3))"
    "res2 \<noteq> STATE_MQTT_CONNACK_FMT_ERROR"
    using read_result by (metis prod.exhaust)
  have "\<not> res < STATE_SUCCESS" using assms c x wr
    by (auto simp: connect_handshake_def attempt_def core_sysdep_free_def split: if_splits prod.splits)
  moreover have "\<not> res2 < STATE_SUCCESS" using assms c x wr rd calculation
    by (auto simp: connect_handshake_def attempt_def core_sysdep_free_def split: if_splits prod.splits)
  moreover obtain y w4 where rl: "run_state core_mqtt_read_remainlen (h, w3) = (y, (h, w4))"
    "y \<noteq> Inl STATE_MQTT_CONNACK_FMT_ERROR"
    using remainlen_result by (metis prod.exhaust)
  moreover obtain res3 buf3 w5 where rd3: "run_state (core_mqtt_read 2)
      (h, w4 \<lparr> calls := Suc (calls w4), live := live w4 + 1 \<rparr>) = ((res3, buf3), (h, w5))"
    "res3 \<noteq> STATE_MQTT_CONNACK_FMT_ERROR"
    using read_result by (metis prod.exhaust)
  moreover have "core_mqtt_connack_handle b \<noteq> STATE_MQTT_CONNACK_FMT_ERROR" for b
    by (simp add: core_mqtt_connack_handle_def)
  ultimately show ?thesis using assms c x wr rd
    by (auto simp: connect_handshake_def attempt_def core_sysdep_free_def core_sysdep_malloc_def
        core_mqtt_connect_diag_def Let_def split: if_splits sum.splits prod.splits)
qed

text \<open>
  When the server answers a connection request with something that is not a CONNACK packet, the attempt
  fails but the connection is left open; the client then takes it for established: reconnection
  reports success without doing anything.
\<close>

theorem bad_connack_blocks_reconnect:
  assumes "network_handle h"
    and "run_state connect_handshake (h, w) = (STATE_MQTT_CONNACK_FMT_ERROR, (h', w'))"
  shows "network_handle h' \<and> run_state core_mqtt_reconnect_op (h', v) = (STATE_SUCCESS, (h', v))"
proof -
  have "h' = h" using handshake_fmt_error [OF assms(2)] .
  with assms(1) show ?thesis by (simp add: core_mqtt_reconnect_op_def)
qed

text \<open>A server that answers every request with bytes that are no CONNACK.\<close>

definition noisy_server :: platform where
  "noisy_server = quiet_platform \<lparr> p_network_recv := \<lambda>_ n. (int n, replicate n 0xFF) \<rparr>"

definition named_handle :: core_mqtt_handle where
  "named_handle = (initial_handle 0) \<lparr> network_handle := True, clientid := Some ''c'',
     username := Some ''u'', password := Some ''p'' \<rparr>"

lemma bad_connack_blocks_reconnect_witness:
  "\<exists>h' w'. run_state connect_handshake (named_handle, fresh_world noisy_server)
      = (STATE_MQTT_CONNACK_FMT_ERROR, (h', w'))
    \<and> run_state core_mqtt_reconnect_op (h', w') = (STATE_SUCCESS, (h', w'))"
proof -
  obtain r h' w' where run: "run_state connect_handshake (named_handle, fresh_world noisy_server) = (r, (h', w'))"
    by (metis prod.exhaust)
  then have "r = STATE_MQTT_CONNACK_FMT_ERROR"
    by (auto simp: connect_handshake_def attempt_def m_conn_pkt_def core_sysdep_malloc_def
        lift_outcome_def core_mqtt_conn_pkt_def named_handle_def initial_handle_def fresh_world_def
        noisy_server_def quiet_platform_def core_mqtt_write_def core_mqtt_read_def
        core_sysdep_free_def Let_def core_mqtt_remain_len_encode.simps utf8_field_def
        core_mqtt_set_utf8_encoded_str_def bytes_of_def u16_bytes_def split: if_splits prod.splits)
  with run bad_connack_blocks_reconnect [of named_handle] show ?thesis
    by (auto simp: named_handle_def)
qed

end
