(* ===== verification/Json_Utils.thy ===== *)
theory Json_Utils
  imports Prelude
begin

text \<open>
  The JSON access functions of the IDE application (\<^verbatim>\<open>src/json_utils.c\<close>). A C string is
  the list of its characters before the NUL; a \<^verbatim>\<open>const char *\<close> into a text is the rest
  of the text from there. A function that fills a buffer gives the characters it stored, also where it
  gives up after having stored some: the callers read the buffer even then.
\<close>

section \<open>Scanning\<close>

definition json_skip_ws :: "string \<Rightarrow> string" where
  "json_skip_ws cursor = dropWhile isspace cursor"

text \<open>The loop over the occurrences of the quoted key.\<close>

function find_after_loop :: "string \<Rightarrow> string \<Rightarrow> string option" where
  "find_after_loop pattern cursor =
     (case strstr cursor pattern of
        None \<Rightarrow> None
      | Some s \<Rightarrow>
          (let after = json_skip_ws (drop (length pattern) s) in
           if after \<noteq> [] \<and> hd after = CHR '':'' then Some (json_skip_ws (tl after))
           else if pattern = [] \<or> s = [] then None
           else find_after_loop pattern (drop (length pattern) s)))"
  by pat_completeness auto
termination
proof (relation "measure (\<lambda>(pattern, cursor). length cursor)")
  fix pattern cursor s after :: string
  assume "strstr cursor pattern = Some s" "\<not> (pattern = [] \<or> s = [])"
  then have "length (drop (length pattern) s) < length s" "length s \<le> length cursor"
    using strstr_length by (auto simp: Suc_le_eq)
  then show "((pattern, drop (length pattern) s), pattern, cursor)
      \<in> measure (\<lambda>(pattern, cursor). length cursor)" by simp
qed simp

declare find_after_loop.simps [simp del]

text \<open>The buffer for the pattern takes 127 characters.\<close>

definition key_pattern :: "string \<Rightarrow> string" where
  "key_pattern key = take 127 ([DQUOTE] @ key @ [DQUOTE])"

definition json_find_after_key :: "string option \<Rightarrow> string option \<Rightarrow> string option" where
  "json_find_after_key json key =
     (case (json, key) of
        (Some j, Some k) \<Rightarrow> find_after_loop (key_pattern k) j
      | _ \<Rightarrow> None)"

text \<open>Both searches give the distance to the character they look for.\<close>

fun find_string_end :: "bool \<Rightarrow> string \<Rightarrow> nat option" where
  "find_string_end escaped [] = None"
| "find_string_end escaped (c # s) =
     (if escaped then map_option Suc (find_string_end False s)
      else if c = BSLASH then map_option Suc (find_string_end True s)
      else if c = DQUOTE then Some 0
      else map_option Suc (find_string_end False s))"

definition json_find_string_end :: "string \<Rightarrow> nat option" where
  "json_find_string_end cursor = find_string_end False cursor"

fun find_compound_end :: "char \<Rightarrow> char \<Rightarrow> int \<Rightarrow> bool \<Rightarrow> bool \<Rightarrow> string \<Rightarrow> nat option" where
  "find_compound_end open_char close_char depth in_string escaped [] = None"
| "find_compound_end open_char close_char depth in_string escaped (ch # s) =
     (if in_string then
        map_option Suc
          (if escaped then find_compound_end open_char close_char depth True False s
           else if ch = BSLASH then find_compound_end open_char close_char depth True True s
           else find_compound_end open_char close_char depth (ch \<noteq> DQUOTE) False s)
      else if ch = DQUOTE then map_option Suc (find_compound_end open_char close_char depth True escaped s)
      else if ch = open_char then
        map_option Suc (find_compound_end open_char close_char (depth + 1) False escaped s)
      else if ch = close_char then
        (if depth - 1 = 0 then Some 0
         else map_option Suc (find_compound_end open_char close_char (depth - 1) False escaped s))
      else map_option Suc (find_compound_end open_char close_char depth False escaped s))"

definition json_find_compound_end :: "string \<Rightarrow> char \<Rightarrow> char \<Rightarrow> nat option" where
  "json_find_compound_end cursor open_char close_char =
     find_compound_end open_char close_char 0 False False cursor"

section \<open>Copying\<close>

text \<open>\<open>Copied\<close>: the result 0 and the terminated text; \<open>Failed\<close>: the result -1 and what was stored.\<close>

datatype json_copy = Copied string | Failed string

definition trim :: "string \<Rightarrow> string" where
  "trim s = rev (dropWhile isspace (rev (dropWhile isspace s)))"

definition json_copy_trimmed :: "string \<Rightarrow> nat \<Rightarrow> json_copy" where
  "json_copy_trimmed text out_size =
     (if out_size = 0 then Failed []
      else if out_size \<le> length (trim text) then Failed [] else Copied (trim text))"

definition unescape :: "char \<Rightarrow> char" where
  "unescape esc =
     (if esc = CHR ''b'' then CHR 0x08 else if esc = CHR ''f'' then CHR 0x0C
      else if esc = CHR ''n'' then CHR 0x0A else if esc = CHR ''r'' then CHR 0x0D
      else if esc = CHR ''t'' then CHR 0x09 else esc)"

text \<open>The loop with what was stored so far.\<close>

fun copy_string_loop :: "string \<Rightarrow> nat \<Rightarrow> string \<Rightarrow> json_copy" where
  "copy_string_loop stored out_size [] = Copied stored"
| "copy_string_loop stored out_size [ch] =
     (if out_size \<le> length stored + 1 then Failed stored
      else copy_string_loop (stored @ [ch]) out_size [])"
| "copy_string_loop stored out_size (ch # esc # rest) =
     (if out_size \<le> length stored + 1 then Failed stored
      else if ch = BSLASH then copy_string_loop (stored @ [unescape esc]) out_size rest
      else copy_string_loop (stored @ [ch]) out_size (esc # rest))"

definition json_copy_string_value :: "string \<Rightarrow> nat \<Rightarrow> json_copy" where
  "json_copy_string_value text out_size =
     (if out_size = 0 then Failed [] else copy_string_loop [] out_size text)"

section \<open>Values of a key\<close>

text \<open>A string value, the cursor on its opening quote.\<close>

definition copy_string_at :: "string \<Rightarrow> nat \<Rightarrow> json_copy" where
  "copy_string_at cursor out_size =
     (case json_find_string_end (tl cursor) of
        None \<Rightarrow> Failed []
      | Some n \<Rightarrow> json_copy_string_value (take n (tl cursor)) out_size)"

definition copy_compound_at :: "string \<Rightarrow> char \<Rightarrow> char \<Rightarrow> nat \<Rightarrow> json_copy" where
  "copy_compound_at cursor open_char close_char out_size =
     (case json_find_compound_end cursor open_char close_char of
        None \<Rightarrow> Failed []
      | Some n \<Rightarrow> json_copy_trimmed (take (n + 1) cursor) out_size)"

definition json_get_string :: "string option \<Rightarrow> string option \<Rightarrow> nat \<Rightarrow> json_copy" where
  "json_get_string json key out_size =
     (case json_find_after_key json key of
        None \<Rightarrow> Failed []
      | Some cursor \<Rightarrow>
          if cursor = [] \<or> hd cursor \<noteq> DQUOTE then Failed [] else copy_string_at cursor out_size)"

definition json_get_raw_value :: "string option \<Rightarrow> string option \<Rightarrow> nat \<Rightarrow> json_copy" where
  "json_get_raw_value json key out_size =
     (case json_find_after_key json key of
        None \<Rightarrow> Failed []
      | Some cursor \<Rightarrow>
          if cursor \<noteq> [] \<and> hd cursor = DQUOTE then copy_string_at cursor out_size
          else if cursor \<noteq> [] \<and> hd cursor = CHR ''{'' then copy_compound_at cursor (CHR ''{'') (CHR ''}'') out_size
          else if cursor \<noteq> [] \<and> hd cursor = CHR ''['' then copy_compound_at cursor (CHR ''['') (CHR '']'') out_size
          else json_copy_trimmed
            (takeWhile (\<lambda>c. c \<noteq> CHR '','' \<and> c \<noteq> CHR ''}'' \<and> c \<noteq> CHR '']'') cursor) out_size)"

definition json_get_object :: "string option \<Rightarrow> string option \<Rightarrow> nat \<Rightarrow> json_copy" where
  "json_get_object json key out_size =
     (case json_find_after_key json key of
        None \<Rightarrow> Failed []
      | Some cursor \<Rightarrow>
          if cursor = [] \<or> hd cursor \<noteq> CHR ''{'' then Failed []
          else copy_compound_at cursor (CHR ''{'') (CHR ''}'') out_size)"

definition json_get_array :: "string option \<Rightarrow> string option \<Rightarrow> nat \<Rightarrow> json_copy" where
  "json_get_array json key out_size =
     (case json_find_after_key json key of
        None \<Rightarrow> Failed []
      | Some cursor \<Rightarrow>
          if cursor = [] \<or> hd cursor \<noteq> CHR ''['' then Failed []
          else copy_compound_at cursor (CHR ''['') (CHR '']'') out_size)"

section \<open>Arrays\<close>

text \<open>
  The state of the loop of \<open>json_array_size\<close>; \<open>None\<close> is the result -1 at the end of
  the text.
\<close>

fun array_size_loop :: "int \<Rightarrow> bool \<Rightarrow> bool \<Rightarrow> int \<Rightarrow> bool \<Rightarrow> string \<Rightarrow> int option" where
  "array_size_loop depth in_string escaped count has_item [] = None"
| "array_size_loop depth in_string escaped count has_item (ch # s) =
     (if in_string then
        (if escaped then array_size_loop depth True False count has_item s
         else if ch = BSLASH then array_size_loop depth True True count has_item s
         else array_size_loop depth (ch \<noteq> DQUOTE) False count has_item s)
      else if isspace ch then array_size_loop depth False escaped count has_item s
      else if ch = DQUOTE then array_size_loop depth True escaped count True s
      else if ch = CHR ''{'' \<or> ch = CHR ''['' then array_size_loop (depth + 1) False escaped count True s
      else if ch = CHR ''}'' \<or> ch = CHR '']'' then
        (if depth > 0 then array_size_loop (depth - 1) False escaped count has_item s
         else if ch = CHR '']'' then Some (if has_item then count + 1 else count)
         else array_size_loop depth False escaped count has_item s)
      else if ch = CHR '','' \<and> depth = 0 then
        (if has_item then array_size_loop depth False escaped (count + 1) False s
         else array_size_loop depth False escaped count has_item s)
      else array_size_loop depth False escaped count True s)"

definition json_array_size :: "string option \<Rightarrow> int" where
  "json_array_size array_json =
     (case array_json of
        None \<Rightarrow> -1
      | Some a \<Rightarrow>
          (case json_skip_ws a of
             [] \<Rightarrow> -1
           | c # s \<Rightarrow>
               if c \<noteq> CHR ''['' then -1
               else case json_skip_ws s of
                      [] \<Rightarrow> -1
                    | d # t \<Rightarrow>
                        if d = CHR '']'' then 0
                        else case array_size_loop 0 False False 0 False (d # t) of None \<Rightarrow> -1 | Some n \<Rightarrow> n))"

text \<open>
  The loop of \<open>json_array_get_item\<close>: \<open>item_start\<close> is the text from the start of the
  item, the last argument the text from the cursor.
\<close>

definition copy_between :: "string \<Rightarrow> string \<Rightarrow> nat \<Rightarrow> json_copy" where
  "copy_between start finish out_size =
     (if length start < length finish then Failed []
      else json_copy_trimmed (take (length start - length finish) start) out_size)"

fun get_item_loop :: "nat \<Rightarrow> nat \<Rightarrow> string \<Rightarrow> int \<Rightarrow> bool \<Rightarrow> bool \<Rightarrow> nat \<Rightarrow> string \<Rightarrow> json_copy" where
  "get_item_loop index out_size item_start depth in_string escaped current_index [] = Failed []"
| "get_item_loop index out_size item_start depth in_string escaped current_index (ch # s) =
     (if in_string then
        (if escaped then get_item_loop index out_size item_start depth True False current_index s
         else if ch = BSLASH then get_item_loop index out_size item_start depth True True current_index s
         else get_item_loop index out_size item_start depth (ch \<noteq> DQUOTE) False current_index s)
      else if ch = DQUOTE then get_item_loop index out_size item_start depth True escaped current_index s
      else if ch = CHR ''{'' \<or> ch = CHR ''['' then
        get_item_loop index out_size item_start (depth + 1) False escaped current_index s
      else if ch = CHR ''}'' \<or> ch = CHR '']'' then
        (if depth > 0 then get_item_loop index out_size item_start (depth - 1) False escaped current_index s
         else if ch = CHR '']'' then
           (if current_index = index then copy_between item_start (ch # s) out_size else Failed [])
         else get_item_loop index out_size item_start depth False escaped current_index s)
      else if ch = CHR '','' \<and> depth = 0 then
        (if current_index = index then copy_between item_start (ch # s) out_size
         else get_item_loop index out_size (json_skip_ws s) depth False escaped (current_index + 1) s)
      else get_item_loop index out_size item_start depth False escaped current_index s)"

definition json_array_get_item :: "string option \<Rightarrow> nat \<Rightarrow> nat \<Rightarrow> json_copy" where
  "json_array_get_item array_json index out_size =
     (case array_json of
        None \<Rightarrow> Failed []
      | Some a \<Rightarrow>
          (case json_skip_ws a of
             [] \<Rightarrow> Failed []
           | c # s \<Rightarrow>
               if c \<noteq> CHR ''['' \<or> out_size = 0 then Failed []
               else case json_skip_ws s of
                      [] \<Rightarrow> Failed []
                    | d # t \<Rightarrow>
                        if d = CHR '']'' then Failed []
                        else get_item_loop index out_size (d # t) 0 False False 0 (d # t)))"

section \<open>Escaping\<close>

definition replacement :: "char \<Rightarrow> string option" where
  "replacement ch =
     (if ch = BSLASH then Some [BSLASH, BSLASH]
      else if ch = DQUOTE then Some [BSLASH, DQUOTE]
      else if ch = CHR 0x0A then Some [BSLASH, CHR ''n'']
      else if ch = CHR 0x0D then Some [BSLASH, CHR ''r'']
      else if ch = CHR 0x09 then Some [BSLASH, CHR ''t'']
      else None)"

fun escape_loop :: "string \<Rightarrow> nat \<Rightarrow> string \<Rightarrow> json_copy" where
  "escape_loop stored out_size [] = Copied stored"
| "escape_loop stored out_size (ch # s) =
     (case replacement ch of
        Some r \<Rightarrow>
          if out_size \<le> length stored + length r + 1 then Failed stored
          else escape_loop (stored @ r) out_size s
      | None \<Rightarrow>
          if out_size \<le> length stored + 2 then Failed stored
          else escape_loop (stored @ [ch]) out_size s)"

definition json_escape_string :: "string option \<Rightarrow> nat \<Rightarrow> json_copy" where
  "json_escape_string input out_size =
     (case input of
        None \<Rightarrow> Failed []
      | Some s \<Rightarrow> if out_size = 0 then Failed [] else escape_loop [] out_size s)"

section \<open>Escaping and reading back\<close>

definition escape :: "string \<Rightarrow> string" where
  "escape s = concat (map (\<lambda>c. case replacement c of Some r \<Rightarrow> r | None \<Rightarrow> [c]) s)"

lemma escape_simps [simp]:
  "escape [] = []"
  "escape (c # s) = (case replacement c of Some r \<Rightarrow> r | None \<Rightarrow> [c]) @ escape s"
  by (simp_all add: escape_def)

lemma escape_loop_Copied:
  "escape_loop stored out_size s = Copied t \<Longrightarrow> t = stored @ escape s
   \<and> (s \<noteq> [] \<longrightarrow> length t + 1 < out_size)"
proof (induction s arbitrary: stored)
  case (Cons c s)
  define r where "r = (case replacement c of Some r \<Rightarrow> r | None \<Rightarrow> [c])"
  have "escape_loop (stored @ r) out_size s = Copied t" "length stored + length r + 1 < out_size"
    using Cons.prems by (auto simp: r_def split: option.splits if_splits)
  with Cons.IH [of "stored @ r"] show ?case by (cases "s = []") (auto simp: r_def)
qed simp

lemma escape_loop_fits:
  "length stored + length (escape s) + 1 < out_size
   \<Longrightarrow> escape_loop stored out_size s = Copied (stored @ escape s)"
  by (induction s arbitrary: stored) (auto split: option.splits)

lemma replacement_cases:
  "replacement c = None \<or> (\<exists>e. replacement c = Some [BSLASH, e] \<and> unescape e = c)"
proof -
  have r: "replacement c = (if c = BSLASH then Some [BSLASH, BSLASH]
      else if c = DQUOTE then Some [BSLASH, DQUOTE]
      else if c = CHR 0x0A then Some [BSLASH, CHR ''n'']
      else if c = CHR 0x0D then Some [BSLASH, CHR ''r'']
      else if c = CHR 0x09 then Some [BSLASH, CHR ''t''] else None)"
    by (rule replacement_def)
  consider "c = BSLASH" | "c = DQUOTE" | "c = CHR 0x0A" | "c = CHR 0x0D" | "c = CHR 0x09"
    | "replacement c = None"
    using r by argo
  then show ?thesis
  proof cases
    case 1
    have "replacement c = Some [BSLASH, BSLASH]" "unescape BSLASH = c"
      unfolding 1 by (simp_all add: replacement_def unescape_def)
    then show ?thesis by blast
  next
    case 2
    have "replacement c = Some [BSLASH, DQUOTE]" "unescape DQUOTE = c"
      unfolding 2 by (simp_all add: replacement_def unescape_def)
    then show ?thesis by blast
  next
    case 3
    have "replacement c = Some [BSLASH, CHR ''n'']" "unescape (CHR ''n'') = c"
      unfolding 3 by (simp_all add: replacement_def unescape_def)
    then show ?thesis by blast
  next
    case 4
    have "replacement c = Some [BSLASH, CHR ''r'']" "unescape (CHR ''r'') = c"
      unfolding 4 by (simp_all add: replacement_def unescape_def)
    then show ?thesis by blast
  next
    case 5
    have "replacement c = Some [BSLASH, CHR ''t'']" "unescape (CHR ''t'') = c"
      unfolding 5 by (simp_all add: replacement_def unescape_def)
    then show ?thesis by blast
  qed blast
qed

lemma replacement_Some: "replacement c = Some r \<Longrightarrow> \<exists>e. r = [BSLASH, e] \<and> unescape e = c"
  using replacement_cases [of c] by auto

text \<open>The end of an escaped text is found where its closing quote is.\<close>

lemma find_end_escape:
  "find_string_end False (escape s @ DQUOTE # rest) = Some (length (escape s))"
  by (induction s) (auto simp: replacement_def)

lemma unescape_loop:
  "length stored + length s < out_size
   \<Longrightarrow> copy_string_loop stored out_size (escape s) = Copied (stored @ s)"
proof (induction s arbitrary: stored)
  case (Cons c s)
  have IH: "copy_string_loop (stored @ [c]) out_size (escape s) = Copied (stored @ c # s)"
    using Cons.IH [of "stored @ [c]"] Cons.prems by simp
  show ?case
  proof (cases "replacement c")
    case None
    then have c: "c \<noteq> BSLASH" by (auto simp: replacement_def)
    show ?thesis
    proof (cases "escape s")
      case Nil
      with None IH Cons.prems show ?thesis by simp
    next
      case (Cons e es)
      with None IH Cons.prems c show ?thesis by simp
    qed
  next
    case (Some r)
    then obtain e where "r = [BSLASH, e]" "unescape e = c" using replacement_Some by blast
    with Some IH Cons.prems show ?thesis by simp
  qed
qed simp

section \<open>Well-formed JSON texts\<close>

text \<open>
  Texts whose strings and brackets close: outside strings and brackets, commas only where the flag
  allows them. Every JSON value is one without outer commas, in whatever layout; the items of an array
  and the members of an object form one with.
\<close>

definition plain :: "char \<Rightarrow> bool" where
  "plain c \<longleftrightarrow> c \<notin> {DQUOTE, CHR ''['', CHR '']'', CHR ''{'', CHR ''}'', CHR '',''}"

inductive balanced :: "bool \<Rightarrow> string \<Rightarrow> bool" where
  bal_nil: "balanced commas []"
| bal_char: "plain c \<or> commas \<and> c = CHR '','' \<Longrightarrow> balanced commas s \<Longrightarrow> balanced commas (c # s)"
| bal_string: "balanced commas s \<Longrightarrow> balanced commas (DQUOTE # escape t @ DQUOTE # s)"
| bal_array: "balanced True t \<Longrightarrow> balanced commas s \<Longrightarrow> balanced commas (CHR ''['' # t @ CHR '']'' # s)"
| bal_object: "balanced True t \<Longrightarrow> balanced commas s \<Longrightarrow> balanced commas (CHR ''{'' # t @ CHR ''}'' # s)"

text \<open>Strings leave the state of the scanners as it is.\<close>

lemma escape_scan:
  "array_size_loop d True False n has (escape t @ DQUOTE # s) = array_size_loop d False False n has s"
  "get_item_loop i sz st d True False k (escape t @ DQUOTE # s) = get_item_loop i sz st d False False k s"
  "find_compound_end oc cc d True False (escape t @ DQUOTE # s)
    = map_option (\<lambda>n. n + length (escape t) + 1) (find_compound_end oc cc d False False s)"
proof -
  have c: "replacement c = None \<and> c \<noteq> BSLASH \<and> c \<noteq> DQUOTE \<or> (\<exists>e. replacement c = Some [BSLASH, e])" for c
    using replacement_cases [of c] by (cases "replacement c") (auto simp: replacement_def split: if_splits)
  show "array_size_loop d True False n has (escape t @ DQUOTE # s) = array_size_loop d False False n has s"
  proof (induction t)
    case (Cons x t)
    then show ?case using c [of x] by auto
  qed simp
  show "get_item_loop i sz st d True False k (escape t @ DQUOTE # s) = get_item_loop i sz st d False False k s"
  proof (induction t)
    case (Cons x t)
    then show ?case using c [of x] by auto
  qed simp
  show "find_compound_end oc cc d True False (escape t @ DQUOTE # s)
    = map_option (\<lambda>n. n + length (escape t) + 1) (find_compound_end oc cc d False False s)"
  proof (induction t)
    case Nil
    show ?case by (simp add: option.map_comp o_def)
  next
    case (Cons x t)
    then show ?case using c [of x] by (auto simp: option.map_comp o_def)
  qed
qed

definition has_text :: "string \<Rightarrow> bool" where
  "has_text s \<longleftrightarrow> (\<exists>c \<in> set s. \<not> isspace c)"

lemma not_space [simp]:
  "\<not> isspace DQUOTE" "\<not> isspace (CHR ''['')" "\<not> isspace (CHR '']'')" "\<not> isspace (CHR ''{'')"
  "\<not> isspace (CHR ''}'')" "\<not> isspace (CHR '','')"
  by (simp_all add: isspace_def)

lemma array_size_balanced:
  "balanced commas t \<Longrightarrow> 0 \<le> d \<Longrightarrow> (commas \<longrightarrow> 0 < d)
   \<Longrightarrow> array_size_loop d False False n has (t @ s) = array_size_loop d False False n (has \<or> has_text t) s"
proof (induction arbitrary: d has s rule: balanced.induct)
  case (bal_char c commas t)
  then show ?case by (auto simp: plain_def has_text_def)
qed (simp_all add: has_text_def escape_scan)

lemma get_item_balanced:
  "balanced commas t \<Longrightarrow> 0 \<le> d \<Longrightarrow> (commas \<longrightarrow> 0 < d)
   \<Longrightarrow> get_item_loop i sz st d False False k (t @ s) = get_item_loop i sz st d False False k s"
proof (induction arbitrary: d s rule: balanced.induct)
  case (bal_char c commas t)
  then show ?case by (auto simp: plain_def)
qed (simp_all add: escape_scan)

lemma compound_balanced:
  assumes "(oc, cc) \<in> {(CHR ''{'', CHR ''}''), (CHR ''['', CHR '']'')}"
  shows "balanced commas t \<Longrightarrow> 0 < d \<Longrightarrow> find_compound_end oc cc d False False (t @ s)
     = map_option (\<lambda>n. n + length t) (find_compound_end oc cc d False False s)"
proof (induction arbitrary: d s rule: balanced.induct)
  case (bal_char c commas t)
  then show ?case using assms by (auto simp: plain_def option.map_comp o_def)
qed (use assms in \<open>auto simp: option.map_comp o_def escape_scan option.map_ident algebra_simps\<close>)

section \<open>The items of an array\<close>

text \<open>The items between the brackets; an item holds some text and no outer comma.\<close>

fun join :: "string list \<Rightarrow> string" where
  "join [] = []"
| "join [x] = x"
| "join (x # y # ys) = x @ CHR '','' # join (y # ys)"

definition item :: "string \<Rightarrow> bool" where
  "item t \<longleftrightarrow> balanced False t \<and> has_text t"

definition array_text :: "string list \<Rightarrow> string" where
  "array_text ts = CHR ''['' # join ts @ [CHR '']'']"

lemma skip_ws_item:
  assumes "item t"
  shows "json_skip_ws (t @ s) = json_skip_ws t @ s" "json_skip_ws t \<noteq> []"
    "hd (json_skip_ws t) \<noteq> CHR '']''"
proof -
  have ex: "\<exists>x \<in> set t. \<not> isspace x" using assms by (auto simp: item_def has_text_def)
  then show "json_skip_ws (t @ s) = json_skip_ws t @ s" "json_skip_ws t \<noteq> []"
    unfolding json_skip_ws_def by (auto simp: dropWhile_append dropWhile_eq_Nil_conv)
  have "balanced commas t \<Longrightarrow> has_text t \<Longrightarrow> hd (dropWhile isspace t) \<noteq> CHR '']''" for commas t
    by (induction rule: balanced.induct) (auto simp: has_text_def plain_def)
  then show "hd (json_skip_ws t) \<noteq> CHR '']''" using assms by (auto simp: item_def json_skip_ws_def)
qed

lemma item_scan:
  assumes "item t"
  shows "array_size_loop 0 False False n False (t @ s) = array_size_loop 0 False False n True s"
    "get_item_loop i sz st 0 False False k (t @ s) = get_item_loop i sz st 0 False False k s"
  using array_size_balanced [of False t 0 n False s] get_item_balanced [of False t 0 i sz st k s] assms
  by (simp_all add: item_def)

lemma array_size_items:
  "ts \<noteq> [] \<Longrightarrow> \<forall>t \<in> set ts. item t \<Longrightarrow>
   array_size_loop 0 False False n False (join ts @ CHR '']'' # s) = Some (n + int (length ts))"
proof (induction ts arbitrary: n rule: join.induct)
  case (2 x)
  then show ?case by (simp add: item_scan)
next
  case (3 x y ys)
  have "array_size_loop 0 False False n False (join (x # y # ys) @ CHR '']'' # s)
      = array_size_loop 0 False False (n + 1) False (join (y # ys) @ CHR '']'' # s)"
    using "3.prems" by (simp add: item_scan)
  with "3.IH" [of "n + 1"] "3.prems" show ?case by simp
qed simp

lemma trim_skip_ws: "trim (json_skip_ws t) = trim t"
  by (simp add: trim_def json_skip_ws_def dropWhile_idem)

lemma copy_item:
  assumes "item t"
  shows "copy_between (json_skip_ws (t @ c # s)) (c # s) sz = json_copy_trimmed t sz"
  unfolding copy_between_def skip_ws_item(1) [OF assms]
  by (simp add: json_copy_trimmed_def trim_skip_ws)

lemma get_item_items:
  assumes "\<forall>t \<in> set ts. item t" "i < length ts"
  shows "get_item_loop (k + i) sz (json_skip_ws (join ts @ CHR '']'' # s)) 0 False False k (join ts @ CHR '']'' # s)
    = json_copy_trimmed (ts ! i) sz"
  using assms
proof (induction ts arbitrary: k i rule: join.induct)
  case (2 x)
  then have "item x" "i = 0" by simp_all
  then show ?case by (simp add: item_scan copy_item)
next
  case (3 x y ys)
  have x: "item x" using "3.prems" by simp
  let ?s = "join (y # ys) @ CHR '']'' # s"
  have l: "get_item_loop (k + i) sz st 0 False False k (join (x # y # ys) @ CHR '']'' # s)
      = get_item_loop (k + i) sz st 0 False False k (CHR '','' # ?s)" for st
    using x by (simp add: item_scan)
  show ?case
  proof (cases i)
    case 0
    with l x show ?thesis by (simp add: copy_item)
  next
    case (Suc j)
    with l "3.IH" [of j "k + 1"] "3.prems" show ?thesis by simp
  qed
qed simp

text \<open>The loop may start behind white space.\<close>

lemma skip_first:
  "json_skip_ws s = d # t \<Longrightarrow> array_size_loop 0 False False n False s = array_size_loop 0 False False n False (d # t)"
  "json_skip_ws s = d # t \<Longrightarrow> get_item_loop i sz st 0 False False k s = get_item_loop i sz st 0 False False k (d # t)"
proof -
  have sp: "isspace c \<Longrightarrow> c \<noteq> DQUOTE \<and> c \<noteq> CHR ''{'' \<and> c \<noteq> CHR ''['' \<and> c \<noteq> CHR ''}'' \<and> c \<noteq> CHR '']'' \<and> c \<noteq> CHR '',''" for c
    using not_space by blast
  have g: "isspace c \<Longrightarrow> get_item_loop i sz st 0 False False k (c # s) = get_item_loop i sz st 0 False False k s" for c s
    using sp [of c] by simp
  have z: "isspace c \<Longrightarrow> array_size_loop 0 False False n False (c # s) = array_size_loop 0 False False n False s" for c s
    by simp
  show "json_skip_ws s = d # t \<Longrightarrow> array_size_loop 0 False False n False s = array_size_loop 0 False False n False (d # t)"
    by (induction s) (simp_all add: json_skip_ws_def z del: array_size_loop.simps(2) split: if_splits)
  show "json_skip_ws s = d # t \<Longrightarrow> get_item_loop i sz st 0 False False k s = get_item_loop i sz st 0 False False k (d # t)"
    by (induction s) (simp_all add: json_skip_ws_def g del: get_item_loop.simps(2) split: if_splits)
qed

lemma array_text_items:
  assumes "\<forall>t \<in> set ts. item t" "i < length ts"
  shows "json_array_size (Some (array_text ts @ rest)) = int (length ts)
    \<and> json_array_get_item (Some (array_text ts @ rest)) i out_size
      = (if length (trim (ts ! i)) < out_size then Copied (trim (ts ! i)) else Failed [])"
proof -
  let ?s = "join ts @ CHR '']'' # rest"
  obtain x xs where ts: "ts = x # xs" using assms(2) by (cases ts) auto
  have x: "item x" using assms(1) ts by simp
  obtain u where s: "?s = x @ u" using ts by (cases xs) auto
  have sk: "json_skip_ws ?s = json_skip_ws x @ u" unfolding s by (rule skip_ws_item(1) [OF x])
  obtain d t where dt: "json_skip_ws ?s = d # t" "d \<noteq> CHR '']''"
    using skip_ws_item(2,3) [OF x] unfolding sk by (cases "json_skip_ws x") auto
  have a: "json_skip_ws (array_text ts @ rest) = CHR ''['' # ?s"
    by (simp add: array_text_def json_skip_ws_def)
  have "array_size_loop 0 False False 0 False (d # t) = Some (int (length ts))"
    using array_size_items [of ts 0 rest] assms(1) ts skip_first(1) [OF dt(1)] by simp
  then have "json_array_size (Some (array_text ts @ rest)) = int (length ts)"
    using dt by (simp add: json_array_size_def a)
  moreover have "get_item_loop i out_size (d # t) 0 False False 0 (d # t) = json_copy_trimmed (ts ! i) out_size"
    using get_item_items [OF assms, of 0 out_size rest] skip_first(2) [OF dt(1), of i out_size "d # t" 0] dt(1)
    by simp
  then have "json_array_get_item (Some (array_text ts @ rest)) i out_size
      = (if length (trim (ts ! i)) < out_size then Copied (trim (ts ! i)) else Failed [])"
    using dt by (auto simp: json_array_get_item_def a json_copy_trimmed_def)
  ultimately show ?thesis by simp
qed

lemmas json_array_count = array_text_items [where i = 0 and out_size = 0, THEN conjunct1]
lemmas json_array_item = array_text_items [THEN conjunct2]

text \<open>
  On every JSON array, in whatever layout, the counter gives the number of its items and the accessor
  gives each of them, without the white space around it, exactly when the buffer has room for it and
  its NUL.
\<close>

theorem json_array_items:
  assumes "\<forall>t \<in> set ts. item t" "i < length ts"
  shows "json_array_size (Some (array_text ts @ rest)) = int (length ts)
    \<and> json_array_get_item (Some (array_text ts @ rest)) i out_size
      = (if length (trim (ts ! i)) < out_size then Copied (trim (ts ! i)) else Failed [])"
  using assms by (rule array_text_items)

lemma json_array_items_witness:
  "json_array_size (Some ''[1, {\"a\":[2,3]}]'') = 2
   \<and> json_array_get_item (Some ''[1, {\"a\":[2,3]}]'') 1 20 = Copied ''{\"a\":[2,3]}''"
proof -
  have i1: "item ''1''"
    using bal_char [OF _ bal_nil, of "CHR ''1''" False] by (simp add: item_def has_text_def plain_def isspace_def)
  have n: "balanced True ''2,3''"
    by (rule bal_char, simp add: plain_def)+ (rule bal_nil)
  have o: "balanced True ''\"a\":[2,3]''"
    using bal_string [of True "'':[2,3]''" "''a''"] bal_char [of "CHR '':''" True "''[2,3]''"]
      bal_array [OF n bal_nil, of True] by (simp add: plain_def replacement_def)
  have "balanced False '' {\"a\":[2,3]}''"
    using bal_char [of "CHR '' ''" False, OF _ bal_object [OF o bal_nil, of False]] by (simp add: plain_def)
  then have i2: "item '' {\"a\":[2,3]}''" by (simp add: item_def has_text_def)
  show ?thesis
    using json_array_items [of "[''1'', '' {\"a\":[2,3]}'']" 1 "[]" 20] i1 i2
    by (simp add: array_text_def trim_def isspace_def)
qed

section \<open>The value of a key\<close>

lemma strstr_skip:
  "p \<noteq> [] \<Longrightarrow> hd p \<notin> set pre \<Longrightarrow> strstr (pre @ p @ s) p = Some (p @ s)"
proof (induction pre)
  case Nil
  then show ?case using has_prefix_append [of p s] by (cases p) (simp_all del: has_prefix_append)
next
  case (Cons c pre)
  then have "\<not> has_prefix p (c # pre @ p @ s)" by (cases p) (auto simp: has_prefix_def)
  with Cons show ?case by simp
qed

text \<open>The first key of a text, with a value after white space.\<close>

lemma find_first_key:
  assumes "DQUOTE \<notin> set pre" "length key \<le> 125" "json_skip_ws ws = []"
  shows "json_find_after_key (Some (pre @ [DQUOTE] @ key @ [DQUOTE] @ CHR '':'' # ws @ v)) (Some key)
    = Some (json_skip_ws v)"
proof -
  have p: "key_pattern key = [DQUOTE] @ key @ [DQUOTE]" using assms(2) by (simp add: key_pattern_def)
  have s: "strstr (pre @ [DQUOTE] @ key @ [DQUOTE] @ CHR '':'' # ws @ v) (key_pattern key)
      = Some (key_pattern key @ CHR '':'' # ws @ v)"
    using strstr_skip [of "key_pattern key" pre "CHR '':'' # ws @ v"] assms(1) by (simp add: p)
  have "json_skip_ws (CHR '':'' # ws @ v) = CHR '':'' # ws @ v"
    by (simp add: json_skip_ws_def isspace_def)
  moreover have "json_skip_ws (ws @ v) = json_skip_ws v"
    using assms(3) by (simp add: json_skip_ws_def dropWhile_append dropWhile_eq_Nil_conv)
  ultimately show ?thesis
    unfolding json_find_after_key_def prod.case option.case
    by (subst find_after_loop.simps, unfold s) (simp add: Let_def)
qed

text \<open>
  C33. Any text that \<^verbatim>\<open>json_escape_string\<close> stored can be put between quotes as the value of a
  key, and \<^verbatim>\<open>json_get_string\<close> reads the original text back whenever it fits the buffer: quotes,
  backslashes and line ends in a message cannot break the document or change the message.
\<close>

theorem json_escape_roundtrip:
  assumes "json_escape_string (Some s) n = Copied e"
    and "DQUOTE \<notin> set pre" "length key \<le> 125" "json_skip_ws ws = []" "length s < out_size"
  shows "json_get_string (Some (pre @ [DQUOTE] @ key @ [DQUOTE] @ CHR '':'' # ws @ DQUOTE # e @ DQUOTE # rest)) (Some key) out_size
    = Copied s"
proof -
  have e: "e = escape s"
    using assms(1) escape_loop_Copied [of "[]" n s e] by (simp add: json_escape_string_def split: if_splits)
  have "json_find_after_key (Some (pre @ [DQUOTE] @ key @ [DQUOTE] @ CHR '':'' # ws @ DQUOTE # e @ DQUOTE # rest)) (Some key)
      = Some (json_skip_ws (DQUOTE # e @ DQUOTE # rest))"
    by (rule find_first_key [OF assms(2-4)])
  moreover have "json_skip_ws (DQUOTE # e @ DQUOTE # rest) = DQUOTE # e @ DQUOTE # rest"
    by (simp add: json_skip_ws_def)
  moreover have "copy_string_at (DQUOTE # e @ DQUOTE # rest) out_size = Copied s"
    using find_end_escape [of s rest] unescape_loop [of "[]" s out_size] assms(5)
    by (simp add: copy_string_at_def json_find_string_end_def json_copy_string_value_def e)
  ultimately show ?thesis by (simp add: json_get_string_def)
qed

lemma json_escape_roundtrip_witness:
  "json_get_string (Some (''{\"msg\": \"a'' @ [BSLASH, DQUOTE] @ ''b\"}'')) (Some ''msg'') 4
    = Copied (''a'' @ [DQUOTE] @ ''b'')"
proof -
  have "json_escape_string (Some (''a'' @ [DQUOTE] @ ''b'')) 8 = Copied (''a'' @ [BSLASH, DQUOTE] @ ''b'')"
    by (simp add: json_escape_string_def replacement_def)
  from json_escape_roundtrip [OF this, of "''{''" "''msg''" "'' ''" 4 "''}''"]
  show ?thesis by (simp add: json_skip_ws_def isspace_def)
qed

text \<open>
  The object or array stored under a key is returned whole, whatever it holds inside: nested objects
  and arrays of any depth, and brackets or quotes inside strings, do not end it early.
\<close>

theorem json_get_compound:
  assumes "balanced True t" "DQUOTE \<notin> set pre" "length key \<le> 125" "json_skip_ws ws = []"
    and "length t + 2 < out_size"
    and "doc = pre @ [DQUOTE] @ key @ [DQUOTE] @ CHR '':'' # ws @ v @ rest"
  shows "(v = CHR ''{'' # t @ ''}'' \<longrightarrow> json_get_object (Some doc) (Some key) out_size = Copied v
      \<and> json_get_raw_value (Some doc) (Some key) out_size = Copied v)
    \<and> (v = CHR ''['' # t @ '']'' \<longrightarrow> json_get_array (Some doc) (Some key) out_size = Copied v
      \<and> json_get_raw_value (Some doc) (Some key) out_size = Copied v)"
proof -
  have after: "json_find_after_key (Some doc) (Some key) = Some (json_skip_ws (v @ rest))"
    unfolding assms(6) by (rule find_first_key [OF assms(2-4)])
  have copy: "copy_compound_at (oc # t @ cc # rest) oc cc out_size = Copied (oc # t @ [cc])"
    if "(oc, cc) \<in> {(CHR ''{'', CHR ''}''), (CHR ''['', CHR '']'')}" for oc cc
  proof -
    have "find_compound_end oc cc 1 False False (t @ cc # rest) = Some (length t)"
      using compound_balanced [OF that assms(1), of 1 "cc # rest"] that by auto
    then have e: "json_find_compound_end (oc # t @ cc # rest) oc cc = Some (length t + 1)"
      using that by (auto simp: json_find_compound_end_def)
    have "trim (oc # t @ [cc]) = oc # t @ [cc]"
      using that by (auto simp: trim_def)
    then show ?thesis using e assms(5) by (simp add: copy_compound_at_def json_copy_trimmed_def)
  qed
  show ?thesis
    using copy [of "CHR ''{''" "CHR ''}''"] copy [of "CHR ''[''" "CHR '']''"]
    by (auto simp: json_get_object_def json_get_array_def json_get_raw_value_def after json_skip_ws_def)
qed

lemma json_get_compound_witness:
  "json_get_object (Some ''{\"p\":{\"q\":\"}\"},\"r\":1}'') (Some ''p'') 20 = Copied ''{\"q\":\"}\"}''"
proof -
  have "balanced True ''\"q\":\"}\"''"
    using bal_string [of True "'':\"}\"''" "''q''"] bal_char [of "CHR '':''" True "''\"}\"''"]
      bal_string [OF bal_nil, of True "''}''"] by (simp add: plain_def replacement_def)
  from json_get_compound [OF this, of "''{''" "''p''" "[]" 20 _ "''{\"q\":\"}\"}''" "'',\"r\":1}''"]
  show ?thesis by (simp add: json_skip_ws_def)
qed

text \<open>A failed copy of a string leaves the part that fitted in the buffer.\<close>

lemma copy_string_value_cut:
  assumes "\<forall>c \<in> set t. c \<noteq> BSLASH" "0 < n" "n \<le> length t"
  shows "json_copy_string_value t n = Failed (take (n - 1) t)"
proof -
  have "\<forall>c \<in> set u. c \<noteq> BSLASH \<Longrightarrow> length stored < n \<Longrightarrow> n \<le> length stored + length u
      \<Longrightarrow> copy_string_loop stored n u = Failed (take (n - 1) (stored @ u))" for stored u
  proof (induction u arbitrary: stored)
    case (Cons c u)
    show ?case
    proof (cases "n \<le> length stored + 1")
      case True
      then have "n - 1 = length stored" using Cons.prems(2) by simp
      with True show ?thesis by (cases u) auto
    next
      case False
      with Cons.IH [of "stored @ [c]"] Cons.prems show ?thesis by (cases u) auto
    qed
  qed simp
  from this [of t "[]"] assms show ?thesis by (simp add: json_copy_string_value_def)
qed

end
