(* ===== verification/Json_Text.thy ===== *)
theory Json_Text
  imports Json_Utils
begin

text \<open>
  How the managers of the IDE application use the JSON functions: reading a value into an initialised
  buffer whose result they ignore, and escaping a text into a buffer of twice its length. The same
  function \<^verbatim>\<open>..._escape_alloc\<close> stands in \<^verbatim>\<open>ide_connection_manager.c\<close>,
  \<^verbatim>\<open>deploy_manager.c\<close>, \<^verbatim>\<open>start_manager.c\<close> and
  \<^verbatim>\<open>gateway_manager.c\<close>.
\<close>

section \<open>Texts read into buffers\<close>

text \<open>
  What a zero-filled buffer of \<open>n\<close> bytes initialised with \<open>ini\<close> holds after a JSON
  function wrote to it, also when that function failed.
\<close>

definition stored_text :: "string \<Rightarrow> nat \<Rightarrow> json_copy \<Rightarrow> string" where
  "stored_text ini n r =
     cstr (memcpy_at (cbuf n ini) 0 (case r of Copied t \<Rightarrow> t @ [NUL] | Failed t \<Rightarrow> t))"

section \<open>Escaping into a fresh buffer\<close>

definition escape_alloc :: "bool \<Rightarrow> string option \<Rightarrow> string option" where
  "escape_alloc memory text =
     (let t = (case text of None \<Rightarrow> [] | Some t \<Rightarrow> t) in
      if \<not> memory then None
      else (case json_escape_string (Some t) (length t * 2 + 32) of Copied e \<Rightarrow> Some e | Failed _ \<Rightarrow> None))"

lemma escape_fits: "length (escape t) \<le> 2 * length t"
  by (induction t) (auto simp: replacement_def)

lemma replacement_length: "replacement c = Some r \<Longrightarrow> length r = 2"
  by (auto simp: replacement_def split: if_splits)

lemma escape_loop_succeeds:
  "length stored + 2 * length s + 2 < n \<Longrightarrow> escape_loop stored n s = Copied (stored @ escape s)"
  by (induction s arbitrary: stored) (auto split: option.splits dest!: replacement_length)

text \<open>The buffer for an escaped text is always large enough: only \<^verbatim>\<open>malloc\<close> can fail.\<close>

lemma escape_alloc_eq [simp]:
  "escape_alloc memory (Some t) = (if memory then Some (escape t) else None)"
  by (simp add: escape_alloc_def json_escape_string_def escape_loop_succeeds)

section \<open>What a read buffer holds\<close>

lemma copy_string_loop_length:
  "length stored < n \<Longrightarrow>
   (copy_string_loop stored n t = Copied u \<longrightarrow> length u < n) \<and> (copy_string_loop stored n t = Failed u \<longrightarrow> length u < n)"
  by (induction stored n t rule: copy_string_loop.induct) auto

lemma copy_string_at_length:
  "0 < n \<Longrightarrow> copy_string_at cursor n = Copied u \<or> copy_string_at cursor n = Failed u \<Longrightarrow> length u < n"
  using copy_string_loop_length [of "[]" n] by (auto simp: copy_string_at_def json_copy_string_value_def split: option.splits)

lemma copy_trimmed_length:
  "0 < n \<Longrightarrow> json_copy_trimmed t n = Copied u \<or> json_copy_trimmed t n = Failed u \<Longrightarrow> length u < n"
  by (auto simp: json_copy_trimmed_def split: if_splits)

lemma get_string_length:
  "0 < n \<Longrightarrow> json_get_string j k n = Copied u \<or> json_get_string j k n = Failed u \<Longrightarrow> length u < n"
  using copy_string_at_length [of n _ u] by (auto simp: json_get_string_def split: option.splits if_splits)

lemma get_raw_length:
  "0 < n \<Longrightarrow> json_get_raw_value j k n = Copied u \<or> json_get_raw_value j k n = Failed u \<Longrightarrow> length u < n"
  using copy_string_at_length [of n _ u] copy_trimmed_length [of n _ u]
  by (auto simp: json_get_raw_value_def copy_compound_at_def split: option.splits if_splits)

lemma cstr_length: "i < length buf \<Longrightarrow> buf ! i = NUL \<Longrightarrow> length (cstr buf) \<le> i"
  unfolding cstr_def by (metis (mono_tags, lifting) linorder_not_le nth_mem set_takeWhileD takeWhile_nth)

lemma stored_text_length:
  assumes "length ini < n" "\<And>u. r = Copied u \<or> r = Failed u \<Longrightarrow> length u < n"
  shows "length (stored_text ini n r) < n"
proof -
  obtain u where u: "(case r of Copied t \<Rightarrow> t @ [NUL] | Failed t \<Rightarrow> t) = u" "length u \<le> n"
      "length u = n \<longrightarrow> u ! (n - 1) = NUL"
    using assms(2) by (cases r) (force simp: nth_append)+
  let ?buf = "memcpy_at (cbuf n ini) 0 u"
  have len: "length ?buf = n" using u(2) assms(1) by (simp add: length_cbuf)
  have "?buf ! (n - 1) = NUL"
    using u assms(1) by (auto simp: memcpy_at_def cbuf_def nth_append)
  with len assms(1) have "length (cstr ?buf) \<le> n - 1" by (intro cstr_length) auto
  with assms(1) u(1) show ?thesis by (simp add: stored_text_def)
qed

lemma find_end_plain:
  "\<forall>x \<in> set c. x \<noteq> BSLASH \<and> x \<noteq> DQUOTE \<Longrightarrow> find_string_end False (c @ DQUOTE # rest) = Some (length c)"
  by (induction c) auto

lemma get_string_cut:
  assumes "\<forall>x \<in> set c. x \<noteq> BSLASH \<and> x \<noteq> DQUOTE" "0 < n" "n \<le> length c"
    and "DQUOTE \<notin> set pre" "length key \<le> 125"
  shows "json_get_string (Some (pre @ [DQUOTE] @ key @ [DQUOTE] @ CHR '':'' # DQUOTE # c @ DQUOTE # rest)) (Some key) n
    = Failed (take (n - 1) c)"
proof -
  have "json_find_after_key (Some (pre @ [DQUOTE] @ key @ [DQUOTE] @ CHR '':'' # [] @ DQUOTE # c @ DQUOTE # rest)) (Some key)
      = Some (json_skip_ws (DQUOTE # c @ DQUOTE # rest))"
    by (rule find_first_key [OF assms(4,5)]) (simp add: json_skip_ws_def)
  then show ?thesis
    using copy_string_value_cut [of c n] assms(1-3) find_end_plain [of c rest]
    by (simp add: json_get_string_def copy_string_at_def json_find_string_end_def json_skip_ws_def)
qed

text \<open>A value that is too long for a zero-filled buffer leaves its beginning there.\<close>

lemma stored_text_cut:
  assumes "no_nul t" "length t = n - 1" "length ini < n"
  shows "stored_text ini n (Failed t) = t"
proof -
  have "cbuf n ini ! (n - 1) = NUL" "length (cbuf n ini) = n"
    using assms(3) by (auto simp: cbuf_def nth_append length_cbuf)
  then have "drop (n - 1) (cbuf n ini) = [NUL]"
    using assms(3) Cons_nth_drop_Suc [of "n - 1" "cbuf n ini"] by simp
  then show ?thesis using assms(1,2) by (simp add: stored_text_def memcpy_at_def)
qed

lemma stored_text_Copied [simp]: "no_nul t \<Longrightarrow> stored_text ini n (Copied t) = t"
  by (simp add: stored_text_def memcpy_at_def)

text \<open>The value of the only key before it.\<close>

lemma get_first_string:
  assumes "length c < n" "length key \<le> 125"
  shows "json_get_string (Some (''{'' @ [DQUOTE] @ key @ [DQUOTE] @ CHR '':'' # DQUOTE # escape c @ DQUOTE # rest)) (Some key) n
    = Copied c"
proof -
  have "json_escape_string (Some c) (2 * length c + 3) = Copied (escape c)"
    by (simp add: json_escape_string_def escape_loop_succeeds)
  from json_escape_roundtrip [OF this, of "''{''" key "[]" n rest] assms
  show ?thesis by (simp add: json_skip_ws_def)
qed

end
