(* ===== verification/String_Builder.thy ===== *)
theory String_Builder
  imports Prelude
begin

text \<open>
  The growing text buffer of the IDE application (\<^verbatim>\<open>src/string_builder.c\<close>). A cell
  of the buffer that \<^verbatim>\<open>realloc\<close> gave and nobody wrote is \<open>None\<close>. A size is a
  64-bit word: the program is built for AArch64. Each operation has an argument that says whether
  \<^verbatim>\<open>realloc\<close> has memory; its result is the C result with the builder after the call, and
  \<open>Undef\<close> when the call never returns or \<^verbatim>\<open>memcpy\<close> leaves the buffer.
\<close>

section \<open>The builder\<close>

record string_builder =
  sb_data :: "char option list option"
  sb_length :: u64
  sb_capacity :: u64

text \<open>The doubling loop. \<open>None\<close>: it does not end.\<close>

partial_function (option) grow :: "u64 \<Rightarrow> u64 \<Rightarrow> u64 option" where
  [code]: "grow next_capacity needed =
     (if next_capacity < needed then grow (next_capacity * 2) needed else Some next_capacity)"

text \<open>\<^verbatim>\<open>realloc\<close>: the old cells, as far as they fit, and fresh ones.\<close>

definition realloc_cells :: "char option list option \<Rightarrow> nat \<Rightarrow> char option list" where
  "realloc_cells data n =
     (let old = (case data of None \<Rightarrow> [] | Some cells \<Rightarrow> cells)
      in take n old @ replicate (n - length old) None)"

definition sb_reserve :: "bool \<Rightarrow> string_builder option \<Rightarrow> u64 \<Rightarrow> (int \<times> string_builder option) outcome" where
  "sb_reserve memory builder needed =
     (case builder of
        None \<Rightarrow> Ok (-1, None)
      | Some b \<Rightarrow>
          if needed \<le> sb_capacity b then Ok (0, Some b)
          else case grow (if sb_capacity b = 0 then 256 else sb_capacity b) needed of
                 None \<Rightarrow> Undef
               | Some next_capacity \<Rightarrow>
                   if \<not> memory then Ok (-1, Some b)
                   else Ok (0, Some (b\<lparr>sb_data := Some (realloc_cells (sb_data b) (unat next_capacity)),
                     sb_capacity := next_capacity\<rparr>)))"

text \<open>Writing cells into the buffer, inside it.\<close>

definition write_cells :: "string_builder \<Rightarrow> nat \<Rightarrow> string \<Rightarrow> string_builder outcome" where
  "write_cells b off t =
     (case sb_data b of
        None \<Rightarrow> Undef
      | Some d \<Rightarrow>
          if off + length t \<le> length d then Ok (b\<lparr>sb_data := Some (memcpy_at d off (map Some t))\<rparr>)
          else Undef)"

definition sb_init :: "bool \<Rightarrow> string_builder option \<Rightarrow> u64 \<Rightarrow> (int \<times> string_builder option) outcome" where
  "sb_init memory builder initial_capacity =
     (case builder of
        None \<Rightarrow> Ok (-1, None)
      | Some b \<Rightarrow>
          obind (sb_reserve memory (Some \<lparr>sb_data = None, sb_length = 0, sb_capacity = 0\<rparr>)
              (if initial_capacity = 0 then 256 else initial_capacity))
            (\<lambda>(rc, b1). case b1 of
               Some b' \<Rightarrow>
                 if rc \<noteq> 0 then Ok (-1, Some b')
                 else obind (write_cells b' 0 [NUL]) (\<lambda>b''. Ok (0, Some b''))
             | None \<Rightarrow> Ok (-1, None)))"

definition sb_free :: "string_builder option \<Rightarrow> string_builder option" where
  "sb_free builder = map_option (\<lambda>b. \<lparr>sb_data = None, sb_length = 0, sb_capacity = 0\<rparr>) builder"

text \<open>\<open>text\<close>: the bytes at the address, at least \<open>len\<close> of them.\<close>

definition sb_append_n :: "bool \<Rightarrow> string_builder option \<Rightarrow> string option \<Rightarrow> u64 \<Rightarrow> (int \<times> string_builder option) outcome" where
  "sb_append_n memory builder text len =
     (case (builder, text) of
        (Some b, Some t) \<Rightarrow>
          obind (sb_reserve memory (Some b) (sb_length b + len + 1))
            (\<lambda>(rc, b1). case b1 of
               Some b' \<Rightarrow>
                 if rc \<noteq> 0 then Ok (-1, Some b')
                 else if length t < unat len then Undef
                 else obind (write_cells b' (unat (sb_length b')) (take (unat len) t))
                   (\<lambda>b''. obind (write_cells (b''\<lparr>sb_length := sb_length b'' + len\<rparr>) (unat (sb_length b'' + len)) [NUL])
                     (\<lambda>b3. Ok (0, Some b3)))
             | None \<Rightarrow> Ok (-1, None))
      | _ \<Rightarrow> Ok (-1, builder))"

definition sb_append :: "bool \<Rightarrow> string_builder option \<Rightarrow> string option \<Rightarrow> (int \<times> string_builder option) outcome" where
  "sb_append memory builder text =
     (case text of
        None \<Rightarrow> Ok (-1, builder)
      | Some t \<Rightarrow> sb_append_n memory builder (Some t) (of_nat (length t)))"

text \<open>
  \<open>formatted\<close>: the text \<^verbatim>\<open>vsnprintf\<close> makes of the format and the arguments; the
  length it returns is an \<^verbatim>\<open>int\<close>, negative for a text that is longer than that.
  \<open>None\<close>: the format is NULL.
\<close>

definition sb_appendf :: "bool \<Rightarrow> string_builder option \<Rightarrow> string option \<Rightarrow> (int \<times> string_builder option) outcome" where
  "sb_appendf memory builder formatted =
     (case (builder, formatted) of
        (Some b, Some t) \<Rightarrow>
          if 2 ^ 31 \<le> length t then Ok (-1, Some b)
          else obind (sb_reserve memory (Some b) (sb_length b + of_nat (length t) + 1))
            (\<lambda>(rc, b1). case b1 of
               Some b' \<Rightarrow>
                 if rc \<noteq> 0 then Ok (-1, Some b')
                 else obind (if sb_capacity b' = sb_length b' then Ok b'
                     else write_cells b' (unat (sb_length b'))
                       (snprintf (unat (sb_capacity b' - sb_length b')) t @ [NUL]))
                   (\<lambda>b''. Ok (0, Some (b''\<lparr>sb_length := sb_length b'' + of_nat (length t)\<rparr>)))
             | None \<Rightarrow> Ok (-1, None))
      | _ \<Rightarrow> Ok (-1, builder))"

section \<open>The doubling loop\<close>

lemma grow_returns:
  assumes "0 < c" "unat n \<le> 2 ^ 63"
  shows "\<exists>r. grow c n = Some r \<and> n \<le> r \<and> (r = c \<or> unat r < 2 * unat n)"
  using assms(1)
proof (induction "unat n - unat c" arbitrary: c rule: less_induct)
  case less
  show ?case
  proof (cases "c < n")
    case False
    then show ?thesis by (subst grow.simps) simp
  next
    case True
    then have lt: "unat c < unat n" by (simp add: word_less_nat_alt)
    have "unat (c * 2) = unat c * 2"
      using lt assms(2) unat_mult_lem [of c 2] by simp
    moreover have "0 < unat c" using less.prems by (simp add: unat_gt_0 word_neq_0_conv)
    ultimately have "unat n - unat (c * 2) < unat n - unat c" "0 < c * 2" "unat (c * 2) < 2 * unat n"
      using lt by (simp_all add: word_less_nat_alt)
    with less.hyps [of "c * 2"] True show ?thesis by (subst grow.simps) auto
  qed
qed

text \<open>A capacity that is a power of two stays one, or becomes 0 by overflow: then no bound above \<open>2 ^ 63\<close> is reached.\<close>

lemma grow_power:
  assumes "grow c n = Some r"
  shows "n \<le> r \<and> (\<exists>i. r = c * 2 ^ i)"
proof (rule grow.raw_induct [OF _ assms, where P = "\<lambda>c n r. n \<le> r \<and> (\<exists>i. r = c * 2 ^ i)"])
  fix f and c n r :: u64
  assume 1: "\<And>c n r. f c n = Some r \<Longrightarrow> n \<le> r \<and> (\<exists>i. r = c * 2 ^ i)"
    "(if c < n then f (c * 2) n else Some c) = Some r"
  show "n \<le> r \<and> (\<exists>i. r = c * 2 ^ i)"
  proof (cases "c < n")
    case True
    with 1 obtain i where "n \<le> r" "r = c * 2 * 2 ^ i" by fastforce
    then show ?thesis by (auto intro!: exI [of _ "Suc i"])
  next
    case False
    with 1(2) show ?thesis by (auto intro!: exI [of _ 0])
  qed
qed

lemma grow_diverges:
  assumes "2 ^ 63 < unat n"
  shows "grow (2 ^ k) n = None"
proof (rule ccontr)
  assume "grow (2 ^ k) n \<noteq> None"
  then obtain r i where r: "n \<le> r" "r = 2 ^ k * 2 ^ i" using grow_power by blast
  then have r2: "r = 2 ^ (k + i)" by (simp add: power_add)
  have "r = of_nat (2 ^ (k + i))" unfolding r2 by simp
  then have u: "unat r = (2::nat) ^ (k + i) mod 2 ^ 64"
    by (simp only: unsigned_of_nat) (simp add: take_bit_eq_mod)
  have "unat r \<le> 2 ^ 63"
  proof (cases "k + i < 64")
    case True
    then have "(2::nat) ^ (k + i) \<le> 2 ^ 63" by (intro power_increasing) simp_all
    then show ?thesis unfolding u by (rule order_trans [OF mod_less_eq_dividend])
  next
    case False
    then have "(2::nat) ^ 64 dvd 2 ^ (k + i)" by (intro le_imp_power_dvd) simp
    then show ?thesis unfolding u by (simp only: dvd_eq_mod_eq_0)
  qed
  with r(1) assms show False by (simp add: word_le_nat_alt)
qed

section \<open>The text of a builder\<close>

text \<open>
  Between calls a builder has a buffer of its capacity, whose first \<open>sb_length\<close> cells are
  written and are followed by a NUL.
\<close>

definition sb_ok :: "string_builder \<Rightarrow> bool" where
  "sb_ok b \<longleftrightarrow> (case sb_data b of
     None \<Rightarrow> False
   | Some d \<Rightarrow> length d = unat (sb_capacity b) \<and> unat (sb_length b) < length d
       \<and> d ! unat (sb_length b) = Some NUL \<and> None \<notin> set (take (unat (sb_length b)) d))"

definition sb_text :: "string_builder \<Rightarrow> string" where
  "sb_text b = (case sb_data b of None \<Rightarrow> [] | Some d \<Rightarrow> map the (take (unat (sb_length b)) d))"

lemma sb_ok_cells:
  assumes "sb_ok b"
  obtains rest where "sb_data b = Some (map Some (sb_text b) @ Some NUL # rest)"
    "unat (sb_length b) = length (sb_text b)"
    "unat (sb_capacity b) = length (sb_text b) + 1 + length rest"
proof -
  obtain d where d: "sb_data b = Some d" "length d = unat (sb_capacity b)" "unat (sb_length b) < length d"
      "d ! unat (sb_length b) = Some NUL" "None \<notin> set (take (unat (sb_length b)) d)"
    using assms by (auto simp: sb_ok_def split: option.splits)
  let ?n = "unat (sb_length b)"
  have "map Some (map the (take ?n d)) = take ?n d"
    using d(5) by (auto intro!: map_idI simp: o_def) (metis option.collapse)
  then have "d = map Some (sb_text b) @ Some NUL # drop (Suc ?n) d"
    using d(1,4) id_take_nth_drop [OF d(3)] by (simp add: sb_text_def)
  moreover have "?n = length (sb_text b)" using d(1,3) by (simp add: sb_text_def)
  moreover have "unat (sb_capacity b) = length (sb_text b) + 1 + length (drop (Suc ?n) d)"
    using d(1-3) by (simp add: sb_text_def)
  ultimately show ?thesis using that d(1) by metis
qed

lemma sb_ok_intro:
  assumes "sb_data b = Some (map Some t @ Some NUL # rest)" "unat (sb_length b) = length t"
    "unat (sb_capacity b) = length t + 1 + length rest"
  shows "sb_ok b \<and> sb_text b = t"
  using assms by (auto simp: sb_ok_def sb_text_def o_def nth_append)

lemma reserve_ok:
  assumes "sb_ok b" "unat needed \<le> 2 ^ 63"
  shows "(\<exists>b'. sb_reserve memory (Some b) needed = Ok (0, Some b') \<and> sb_ok b' \<and> sb_text b' = sb_text b
       \<and> sb_length b' = sb_length b \<and> needed \<le> sb_capacity b')
    \<or> (\<not> memory \<and> sb_reserve memory (Some b) needed = Ok (-1, Some b))"
proof (cases "needed \<le> sb_capacity b")
  case True
  with assms show ?thesis by (auto simp: sb_reserve_def)
next
  case False
  obtain rest where b: "sb_data b = Some (map Some (sb_text b) @ Some NUL # rest)"
      "unat (sb_length b) = length (sb_text b)" "unat (sb_capacity b) = length (sb_text b) + 1 + length rest"
    using sb_ok_cells [OF assms(1)] .
  then have c0: "sb_capacity b \<noteq> 0" by (metis add_is_0 one_neq_zero unat_0)
  then obtain r where r: "grow (sb_capacity b) needed = Some r" "needed \<le> r"
    using grow_returns [of "sb_capacity b" needed] assms(2) by (auto simp: word_neq_0_conv)
  have le: "unat (sb_capacity b) \<le> unat r"
    using False r(2) by (simp add: word_le_nat_alt)
  define b' where "b' = b\<lparr>sb_data := Some (realloc_cells (sb_data b) (unat r)), sb_capacity := r\<rparr>"
  have "sb_ok b' \<and> sb_text b' = sb_text b"
    using b le by (intro sb_ok_intro [of _ _ "rest @ replicate (unat r - unat (sb_capacity b)) None"])
      (simp_all add: b'_def realloc_cells_def Let_def)
  moreover have "sb_reserve True (Some b) needed = Ok (0, Some b')"
    using False c0 r(1) by (simp add: sb_reserve_def b'_def)
  moreover have "sb_reserve False (Some b) needed = Ok (-1, Some b)"
    using False c0 r(1) by (simp add: sb_reserve_def)
  ultimately show ?thesis using r(2) by (cases memory) (auto simp: b'_def)
qed

section \<open>Appending\<close>

lemma unat_needed:
  "length t + n < 2 ^ 63 \<Longrightarrow> unat (l :: u64) = length t \<Longrightarrow> unat (l + of_nat n) = length t + n
   \<and> unat (l + of_nat n + 1) = length t + n + 1"
  using unat_add_lem [of l "of_nat n"] unat_add_lem [of "l + of_nat n" 1]
  by (simp add: unsigned_of_nat take_bit_nat_eq_self)

text \<open>Putting a text and its NUL behind the text of a builder with room for them.\<close>

lemma write_behind:
  assumes "sb_ok b" "length (sb_text b) + length t < 2 ^ 63" "length (sb_text b) + length t < unat (sb_capacity b)"
  shows "\<exists>b'. write_cells b (unat (sb_length b)) (t @ [NUL]) = Ok b'
      \<and> sb_ok (b'\<lparr>sb_length := sb_length b' + of_nat (length t)\<rparr>)
      \<and> sb_text (b'\<lparr>sb_length := sb_length b' + of_nat (length t)\<rparr>) = sb_text b @ t"
    "obind (write_cells b (unat (sb_length b)) t)
      (\<lambda>b''. obind (write_cells (b''\<lparr>sb_length := sb_length b'' + of_nat (length t)\<rparr>)
          (unat (sb_length b'' + of_nat (length t))) [NUL]) (\<lambda>b3. Ok (0 :: int, Some b3)))
     = obind (write_cells b (unat (sb_length b)) (t @ [NUL]))
      (\<lambda>b'. Ok (0, Some (b'\<lparr>sb_length := sb_length b' + of_nat (length t)\<rparr>)))"
proof -
  obtain rest where b: "sb_data b = Some (map Some (sb_text b) @ Some NUL # rest)"
      "unat (sb_length b) = length (sb_text b)" "unat (sb_capacity b) = length (sb_text b) + 1 + length rest"
    using sb_ok_cells [OF assms(1)] .
  note len = unat_needed [OF assms(2) b(2), THEN conjunct1]
  have fits: "length t \<le> length rest" using assms(3) b(3) by simp
  let ?d = "map Some (sb_text b) @ map Some t @ Some NUL # drop (length t) rest"
  let ?b = "b\<lparr>sb_data := Some ?d\<rparr>"
  have w: "write_cells b (unat (sb_length b)) (t @ [NUL]) = Ok ?b"
    using b fits by (simp add: write_cells_def memcpy_at_def)
  moreover have "sb_ok (?b\<lparr>sb_length := sb_length ?b + of_nat (length t)\<rparr>)
      \<and> sb_text (?b\<lparr>sb_length := sb_length ?b + of_nat (length t)\<rparr>) = sb_text b @ t"
    by (rule sb_ok_intro [of _ _ "drop (length t) rest"]) (use b(3) fits len in simp_all)
  ultimately show "\<exists>b'. write_cells b (unat (sb_length b)) (t @ [NUL]) = Ok b'
      \<and> sb_ok (b'\<lparr>sb_length := sb_length b' + of_nat (length t)\<rparr>)
      \<and> sb_text (b'\<lparr>sb_length := sb_length b' + of_nat (length t)\<rparr>) = sb_text b @ t" by blast
  show "obind (write_cells b (unat (sb_length b)) t)
      (\<lambda>b''. obind (write_cells (b''\<lparr>sb_length := sb_length b'' + of_nat (length t)\<rparr>)
          (unat (sb_length b'' + of_nat (length t))) [NUL]) (\<lambda>b3. Ok (0 :: int, Some b3)))
     = obind (write_cells b (unat (sb_length b)) (t @ [NUL]))
      (\<lambda>b'. Ok (0, Some (b'\<lparr>sb_length := sb_length b' + of_nat (length t)\<rparr>)))"
  proof -
    have "drop (length t) (Some NUL # rest)
        = (Some NUL # rest) ! length t # drop (length t) rest"
      using Cons_nth_drop_Suc [of "length t" "Some NUL # rest"] fits by simp
    then show ?thesis using b fits len unfolding w
      by (simp add: write_cells_def memcpy_at_def)
  qed
qed

definition appended :: "bool \<Rightarrow> string_builder \<Rightarrow> string \<Rightarrow> (int \<times> string_builder option) outcome \<Rightarrow> bool" where
  "appended memory b t r \<longleftrightarrow>
     (\<exists>b'. r = Ok (0, Some b') \<and> sb_ok b' \<and> sb_text b' = sb_text b @ t) \<or> (\<not> memory \<and> r = Ok (-1, Some b))"

lemma append_n_ok:
  assumes "sb_ok b" "length (sb_text b) + unat len < 2 ^ 63" "unat len \<le> length t"
  shows "appended memory b (take (unat len) t) (sb_append_n memory (Some b) (Some t) len)"
proof -
  let ?t = "take (unat len) t"
  have len: "of_nat (length ?t) = len" "length ?t = unat len" using assms(3) by (simp_all add: min_def)
  obtain rest where l: "unat (sb_length b) = length (sb_text b)" using sb_ok_cells [OF assms(1)] .
  have n: "unat (sb_length b + len + 1) = length (sb_text b) + unat len + 1"
    using unat_needed [OF assms(2) l] by simp
  consider b' where "sb_reserve memory (Some b) (sb_length b + len + 1) = Ok (0, Some b')" "sb_ok b'"
      "sb_text b' = sb_text b" "sb_length b' = sb_length b" "sb_length b + len + 1 \<le> sb_capacity b'"
    | "\<not> memory" "sb_reserve memory (Some b) (sb_length b + len + 1) = Ok (-1, Some b)"
    using reserve_ok [OF assms(1), of "sb_length b + len + 1" memory] assms(2) n by auto
  then show ?thesis
  proof cases
    case 1
    then have "length (sb_text b') + length ?t < unat (sb_capacity b')"
      using n len by (simp add: word_le_nat_alt)
    with write_behind [OF 1(2), of ?t] 1 assms(2,3) len
    show ?thesis by (auto simp: appended_def sb_append_n_def)
  qed (simp add: appended_def sb_append_n_def)
qed

lemma append_ok:
  assumes "sb_ok b" "length (sb_text b) + length t < 2 ^ 63"
  shows "appended memory b t (sb_append memory (Some b) (Some t))"
proof -
  have "unat (of_nat (length t) :: u64) = length t"
    using assms(2) by (simp add: unsigned_of_nat take_bit_nat_eq_self)
  with append_n_ok [OF assms(1), of "of_nat (length t)" t memory] assms(2)
  show ?thesis by (simp add: sb_append_def)
qed

lemma appendf_ok:
  assumes "sb_ok b" "length (sb_text b) + length t < 2 ^ 63" "length t < 2 ^ 31"
  shows "appended memory b t (sb_appendf memory (Some b) (Some t))"
proof -
  let ?n = "sb_length b + of_nat (length t) + 1"
  obtain rest where l: "unat (sb_length b) = length (sb_text b)" using sb_ok_cells [OF assms(1)] .
  note n = unat_needed [OF assms(2) l, THEN conjunct2]
  consider b' where "sb_reserve memory (Some b) ?n = Ok (0, Some b')" "sb_ok b'"
      "sb_text b' = sb_text b" "sb_length b' = sb_length b" "?n \<le> sb_capacity b'"
    | "\<not> memory" "sb_reserve memory (Some b) ?n = Ok (-1, Some b)"
    using reserve_ok [OF assms(1), of ?n memory] assms(2) n by auto
  then show ?thesis
  proof cases
    case 1
    have lt: "length (sb_text b') + length t < unat (sb_capacity b')"
      using n 1 by (simp add: word_le_nat_alt)
    have "unat (sb_length b') \<le> unat (sb_capacity b')" using lt 1 l by simp
    then have "unat (sb_capacity b' - sb_length b') = unat (sb_capacity b') - unat (sb_length b')"
      by (simp add: unat_sub word_le_nat_alt)
    then have "snprintf (unat (sb_capacity b' - sb_length b')) t = t" "sb_capacity b' \<noteq> sb_length b'"
      using lt 1 l by auto
    with write_behind(1) [OF 1(2) _ lt] 1 assms(2,3)
    show ?thesis by (auto simp: appended_def sb_appendf_def)
  qed (use assms(3) in \<open>simp add: appended_def sb_appendf_def\<close>)
qed

lemma init_ok:
  assumes "unat n \<le> 2 ^ 63"
  shows "(\<exists>b'. sb_init True (Some b) n = Ok (0, Some b') \<and> sb_ok b' \<and> sb_text b' = [])
    \<and> sb_init False (Some b) n = Ok (-1, Some \<lparr>sb_data = None, sb_length = 0, sb_capacity = 0\<rparr>)"
proof -
  let ?n = "if n = 0 then 256 else n"
  have "unat ?n \<le> 2 ^ 63" using assms by simp
  then obtain r where r: "grow 256 ?n = Some r" "?n \<le> r"
    using grow_returns [of 256 ?n] by (auto simp del: if_split)
  have n0: "\<not> ?n \<le> 0" by (auto simp: word_le_0_iff split: if_splits)
  with r(2) have "0 < unat r" by (metis gr_zeroI unat_eq_zero)
  then obtain k where k: "unat r = Suc k" by (cases "unat r") auto
  define b' where "b' = \<lparr>sb_data = Some (Some NUL # replicate k None), sb_length = 0, sb_capacity = r\<rparr>"
  have "sb_ok b' \<and> sb_text b' = []"
    using k by (intro sb_ok_intro [of _ _ "replicate k None"]) (simp_all add: b'_def)
  moreover have "sb_init True (Some b) n = Ok (0, Some b')"
    using r n0 k by (simp add: sb_init_def sb_reserve_def write_cells_def realloc_cells_def memcpy_at_def b'_def)
  moreover have "sb_init False (Some b) n = Ok (-1, Some \<lparr>sb_data = None, sb_length = 0, sb_capacity = 0\<rparr>)"
    using r n0 by (simp add: sb_init_def sb_reserve_def)
  ultimately show ?thesis by blast
qed

section \<open>A sequence of appends\<close>

text \<open>
  What a text sink promises its clients: an operation adds its text, or has no memory and changes
  nothing; and what follows for a sequence of operations.
\<close>

fun run_sink :: "(bool \<Rightarrow> 'op \<Rightarrow> 'b \<Rightarrow> (int \<times> 'b) outcome) \<Rightarrow> (bool \<times> 'op) list \<Rightarrow> 'b \<Rightarrow> (int list \<times> 'b) outcome" where
  "run_sink step [] b = Ok ([], b)"
| "run_sink step ((memory, op) # ops) b =
     obind (step memory op b) (\<lambda>(rc, b').
       obind (run_sink step ops b') (\<lambda>(rcs, b''). Ok (rc # rcs, b'')))"

fun accepted :: "('op \<Rightarrow> string) \<Rightarrow> int list \<Rightarrow> (bool \<times> 'op) list \<Rightarrow> string" where
  "accepted added (rc # rcs) ((memory, op) # ops) =
     (if rc = 0 then added op else []) @ accepted added rcs ops"
| "accepted added rcs ops = []"

locale text_sink =
  fixes ok :: "'b \<Rightarrow> bool" and content :: "'b \<Rightarrow> string"
    and step :: "bool \<Rightarrow> 'op \<Rightarrow> 'b \<Rightarrow> (int \<times> 'b) outcome"
    and added :: "'op \<Rightarrow> string" and valid :: "'op \<Rightarrow> bool" and room :: nat
  assumes step: "ok b \<Longrightarrow> valid op \<Longrightarrow> length (content b) + length (added op) < room \<Longrightarrow>
    (\<exists>b'. step memory op b = Ok (0, b') \<and> ok b' \<and> content b' = content b @ added op)
    \<or> (\<not> memory \<and> step memory op b = Ok (-1, b))"
begin

lemma run:
  "ok b \<Longrightarrow> \<forall>(memory, op) \<in> set ops. valid op \<Longrightarrow>
   length (content b) + (\<Sum>(memory, op) \<leftarrow> ops. length (added op)) < room \<Longrightarrow>
   \<exists>rcs b'. run_sink step ops b = Ok (rcs, b') \<and> ok b' \<and> length rcs = length ops
     \<and> content b' = content b @ accepted added rcs ops
     \<and> (\<forall>i < length ops. fst (ops ! i) \<longrightarrow> rcs ! i = 0)"
proof (induction ops arbitrary: b)
  case (Cons x ops)
  obtain memory op where x: "x = (memory, op)" by (cases x)
  consider b1 where "step memory op b = Ok (0, b1)" "ok b1" "content b1 = content b @ added op"
    | "\<not> memory" "step memory op b = Ok (-1, b)"
    using step [of b op memory] Cons.prems x by auto
  then show ?case
  proof cases
    case 1
    with Cons.IH [of b1] Cons.prems x show ?thesis by (auto simp: less_Suc_eq_0_disj)
  next
    case 2
    with Cons.IH [of b] Cons.prems x show ?thesis by (auto simp: less_Suc_eq_0_disj)
  qed
qed simp

end

datatype sb_op = Append string | Append_n string u64 | Appendf string

fun op_text :: "sb_op \<Rightarrow> string" where
  "op_text (Append t) = t"
| "op_text (Append_n t n) = take (unat n) t"
| "op_text (Appendf t) = t"

text \<open>The bytes are there, and \<^verbatim>\<open>vsnprintf\<close> can return the length.\<close>

fun op_valid :: "sb_op \<Rightarrow> bool" where
  "op_valid (Append t) = True"
| "op_valid (Append_n t n) = (unat n \<le> length t)"
| "op_valid (Appendf t) = (length t < 2 ^ 31)"

fun sb_step :: "bool \<Rightarrow> sb_op \<Rightarrow> string_builder option \<Rightarrow> (int \<times> string_builder option) outcome" where
  "sb_step memory (Append t) builder = sb_append memory builder (Some t)"
| "sb_step memory (Append_n t n) builder = sb_append_n memory builder (Some t) n"
| "sb_step memory (Appendf t) builder = sb_appendf memory builder (Some t)"

fun builder_ok :: "string_builder option \<Rightarrow> bool" where
  "builder_ok None = False"
| "builder_ok (Some b) = sb_ok b"

fun builder_text :: "string_builder option \<Rightarrow> string" where
  "builder_text None = []"
| "builder_text (Some b) = sb_text b"

interpretation builder: text_sink builder_ok builder_text sb_step op_text op_valid "2 ^ 63"
proof
  fix builder op memory
  assume a: "builder_ok builder" "op_valid op" "length (builder_text builder) + length (op_text op) < 2 ^ 63"
  then obtain b where b: "builder = Some b" "sb_ok b" by (cases builder) auto
  have "appended memory b (op_text op) (sb_step memory op (Some b))"
    using a b by (cases op) (simp_all add: append_ok append_n_ok appendf_ok min.absorb2)
  then show "(\<exists>b'. sb_step memory op builder = Ok (0, b') \<and> builder_ok b'
        \<and> builder_text b' = builder_text builder @ op_text op)
      \<or> (\<not> memory \<and> sb_step memory op builder = Ok (-1, builder))"
    using b by (auto simp: appended_def)
qed

text \<open>
  C27. A builder that was initialised takes any sequence of appends whose texts together stay below
  \<open>2 ^ 63\<close> bytes: every call returns, none writes outside the buffer, and the buffer holds the
  texts of the calls that returned 0, in order and terminated. A call fails only for lack of memory and
  then changes nothing.
\<close>

theorem string_builder_collects:
  assumes "unat initial_capacity \<le> 2 ^ 63"
    and "\<forall>(memory, op) \<in> set ops. op_valid op" "(\<Sum>(memory, op) \<leftarrow> ops. length (op_text op)) < 2 ^ 63"
  shows "\<exists>b0 rcs b'. sb_init True (Some b) initial_capacity = Ok (0, Some b0)
    \<and> run_sink sb_step ops (Some b0) = Ok (rcs, Some b') \<and> length rcs = length ops
    \<and> (\<forall>i < length ops. fst (ops ! i) \<longrightarrow> rcs ! i = 0)
    \<and> sb_ok b' \<and> sb_text b' = accepted op_text rcs ops"
proof -
  obtain b0 where b0: "sb_init True (Some b) initial_capacity = Ok (0, Some b0)" "sb_ok b0" "sb_text b0 = []"
    using init_ok [OF assms(1)] by blast
  obtain rcs c where c: "run_sink sb_step ops (Some b0) = Ok (rcs, c)" "builder_ok c" "length rcs = length ops"
      "builder_text c = accepted op_text rcs ops" "\<forall>i < length ops. fst (ops ! i) \<longrightarrow> rcs ! i = 0"
    using builder.run [of "Some b0" ops] b0 assms(2,3) by auto
  obtain b' where "c = Some b'" using c(2) by (cases c) auto
  with b0 c show ?thesis by auto
qed

lemma string_builder_collects_witness:
  "\<exists>b0 rcs b'. sb_init True (Some \<lparr>sb_data = None, sb_length = 0, sb_capacity = 0\<rparr>) 2 = Ok (0, Some b0)
    \<and> run_sink sb_step [(True, Append ''ab''), (True, Appendf ''cd'')] (Some b0) = Ok (rcs, Some b')
    \<and> sb_ok b' \<and> sb_text b' = ''abcd''"
proof -
  let ?b = "\<lparr>sb_data = None, sb_length = 0, sb_capacity = 0\<rparr>"
  let ?ops = "[(True, Append ''ab''), (True, Appendf ''cd'')]"
  have "\<exists>b0 rcs b'. sb_init True (Some ?b) 2 = Ok (0, Some b0)
      \<and> run_sink sb_step ?ops (Some b0) = Ok (rcs, Some b') \<and> length rcs = length ?ops
      \<and> (\<forall>i < length ?ops. fst (?ops ! i) \<longrightarrow> rcs ! i = 0)
      \<and> sb_ok b' \<and> sb_text b' = accepted op_text rcs ?ops"
    by (rule string_builder_collects) simp_all
  then obtain b0 rcs b' where x: "sb_init True (Some ?b) 2 = Ok (0, Some b0)"
      "run_sink sb_step ?ops (Some b0) = Ok (rcs, Some b')" "length rcs = 2"
      "\<forall>i < length ?ops. fst (?ops ! i) \<longrightarrow> rcs ! i = 0" "sb_ok b'"
      "sb_text b' = accepted op_text rcs ?ops"
    by auto
  obtain r1 r2 where "rcs = [r1, r2]" using x(3) by (cases rcs; cases "tl rcs") auto
  moreover from this x(4) have "r1 = 0" "r2 = 0" by (auto simp: less_Suc_eq)
  ultimately have "sb_text b' = ''abcd''" using x(6) by simp
  with x show ?thesis by blast
qed

text \<open>
  A request above \<open>2 ^ 63\<close> never returns from a builder whose capacity is a power of two: the
  doubling reaches 0.
\<close>

theorem sb_reserve_endless:
  assumes "sb_capacity b = 2 ^ k \<or> sb_capacity b = 0" "sb_capacity b < needed" "2 ^ 63 < unat needed"
  shows "sb_reserve memory (Some b) needed = Undef"
proof -
  have "(256 :: u64) = 2 ^ 8" by simp
  then have "grow (if sb_capacity b = 0 then 256 else sb_capacity b) needed = None"
    using assms(1) grow_diverges [OF assms(3), of 8] grow_diverges [OF assms(3), of k] by auto
  with assms(2) show ?thesis by (simp add: sb_reserve_def not_le)
qed

end
