(* ===== verification/Shell_Utils.thy ===== *)
theory Shell_Utils
  imports Prelude
begin

text \<open>
  \<^verbatim>\<open>src/shell_utils.c\<close>: quoting a text for the shell, creating a directory with its
  parents, and the end of \<^verbatim>\<open>start_background_command\<close>. The command lines of the
  deployment go to \<^verbatim>\<open>/bin/sh -lc\<close>; \<open>sh_word\<close> is the way a POSIX shell reads a
  word (section 2.2 of the Shell Command Language).
\<close>

section \<open>Quoting\<close>

abbreviation single_quote_escape :: string where
  "single_quote_escape \<equiv> [SQUOTE, DQUOTE, SQUOTE, DQUOTE, SQUOTE]"

text \<open>The loop with the characters stored so far; \<open>None\<close> is the result -1.\<close>

fun shell_quote_loop :: "string \<Rightarrow> nat \<Rightarrow> string \<Rightarrow> string option" where
  "shell_quote_loop stored out_size [] = Some (stored @ [SQUOTE])"
| "shell_quote_loop stored out_size (c # input) =
     (if c = SQUOTE then
        (if out_size \<le> length stored + length single_quote_escape + 2 then None
         else shell_quote_loop (stored @ single_quote_escape) out_size input)
      else if out_size \<le> length stored + 2 then None
      else shell_quote_loop (stored @ [c]) out_size input)"

definition shell_quote :: "string option \<Rightarrow> nat \<Rightarrow> string option" where
  "shell_quote input out_size =
     (case input of
        None \<Rightarrow> None
      | Some s \<Rightarrow> if out_size < 3 then None else shell_quote_loop [SQUOTE] out_size s)"

section \<open>How the shell reads a word\<close>

datatype sh_mode = Bare | Single_quoted | Double_quoted

text \<open>The characters that end a word where nothing quotes them.\<close>

definition ends_word :: "char \<Rightarrow> bool" where
  "ends_word c \<longleftrightarrow> c \<in> {CHR '' '', TAB, LF, CHR '';'', CHR ''&'', CHR ''|'', CHR ''<'', CHR ''>'', CHR ''('', CHR '')''}"

text \<open>Unquoted characters with a meaning of their own: expansions, patterns, comments.\<close>

definition special :: "char \<Rightarrow> bool" where
  "special c \<longleftrightarrow> c \<in> {CHR ''$'', CHR 0x60, CHR ''*'', CHR ''?'', CHR ''['', CHR ''~'', CHR ''#'', CHR ''=''}"

text \<open>
  The literal value of the word at the start of a command line and what follows it; \<open>None\<close>
  where a quote is left open, or where the shell would expand something.
\<close>

fun sh_word :: "sh_mode \<Rightarrow> string \<Rightarrow> (string \<times> string) option" where
  "sh_word Bare [] = Some ([], [])"
| "sh_word Single_quoted [] = None"
| "sh_word Double_quoted [] = None"
| "sh_word Single_quoted (c # s) =
     (if c = SQUOTE then sh_word Bare s
      else map_option (apfst (Cons c)) (sh_word Single_quoted s))"
| "sh_word Double_quoted (c # s) =
     (if c = DQUOTE then sh_word Bare s
      else if c = CHR ''$'' \<or> c = CHR 0x60 \<or> c = BSLASH then None
      else map_option (apfst (Cons c)) (sh_word Double_quoted s))"
| "sh_word Bare (c # s) =
     (if ends_word c then Some ([], c # s)
      else if c = SQUOTE then sh_word Single_quoted s
      else if c = DQUOTE then sh_word Double_quoted s
      else if c = BSLASH \<or> special c then None
      else map_option (apfst (Cons c)) (sh_word Bare s))"

text \<open>What the loop makes of a text.\<close>

fun sh_escape :: "string \<Rightarrow> string" where
  "sh_escape [] = []"
| "sh_escape (c # s) = (if c = SQUOTE then single_quote_escape else [c]) @ sh_escape s"

lemma shell_quote_loop_Some:
  "shell_quote_loop stored n s = Some q \<Longrightarrow> length stored + 2 \<le> n \<Longrightarrow>
   q = stored @ sh_escape s @ [SQUOTE] \<and> length q < n"
  by (induction stored n s rule: shell_quote_loop.induct) (auto split: if_splits)

lemma shell_quote_loop_None:
  "shell_quote_loop stored n s = None \<Longrightarrow> n \<le> length stored + length (sh_escape s) + 2"
  by (induction stored n s rule: shell_quote_loop.induct) (auto split: if_splits)

lemma sh_word_escape:
  "sh_word Single_quoted (sh_escape s @ SQUOTE # rest)
     = map_option (apfst (\<lambda>w. s @ w)) (sh_word Bare rest)"
proof (induction s)
  case Nil
  then show ?case by (simp add: option.map_ident apfst_def map_prod_def split_def)
next
  case (Cons c s)
  have q: "\<not> ends_word SQUOTE" "\<not> ends_word DQUOTE" by (auto simp: ends_word_def)
  show ?case
    by (cases "c = SQUOTE") (simp_all add: Cons q option.map_comp o_def apfst_compose)
qed

lemma shell_quote_word:
  assumes "shell_quote (Some s) n = Some q"
  shows "length q < n \<and> q = SQUOTE # sh_escape s @ [SQUOTE]
    \<and> sh_word Bare (q @ CHR '' '' # rest) = Some (s, CHR '' '' # rest)
    \<and> sh_word Bare (q @ CHR '';'' # rest) = Some (s, CHR '';'' # rest) \<and> sh_word Bare q = Some (s, [])"
proof -
  have sq: "\<not> ends_word SQUOTE" by (auto simp: ends_word_def)
  have l: "q = SQUOTE # sh_escape s @ [SQUOTE]" "length q < n"
    using shell_quote_loop_Some [of "[SQUOTE]" n s q] assms by (auto simp: shell_quote_def split: if_splits)
  have w: "sh_word Bare (q @ r) = map_option (apfst (\<lambda>w. s @ w)) (sh_word Bare r)" for r
    using sh_word_escape [of s r] by (simp add: l(1) sq)
  have "sh_word Bare (q @ CHR '' '' # rest) = Some (s, CHR '' '' # rest)"
    "sh_word Bare (q @ CHR '';'' # rest) = Some (s, CHR '';'' # rest)" "sh_word Bare q = Some (s, [])"
    using w [of "[]"] by (simp_all add: w ends_word_def)
  with l show ?thesis by blast
qed

text \<open>
  C28. A text that was quoted is read by the shell as one word with exactly this text as its value,
  whatever quotes, dollar signs, semicolons or line ends it holds and wherever the command line goes on:
  no argument of the deployment can inject a command. The quoted text fits the buffer with its NUL, and
  quoting fails only when the buffer is at most one character larger than the result.
\<close>

theorem shell_quote_correct:
  "(\<forall>q. shell_quote (Some s) out_size = Some q \<longrightarrow>
      length q < out_size \<and> sh_word Bare (q @ CHR '' '' # rest) = Some (s, CHR '' '' # rest)
      \<and> sh_word Bare (q @ CHR '';'' # rest) = Some (s, CHR '';'' # rest) \<and> sh_word Bare q = Some (s, []))
    \<and> (shell_quote (Some s) out_size = None \<longrightarrow> out_size \<le> length (sh_escape s) + 3)"
proof (intro conjI allI impI)
  assume "shell_quote (Some s) out_size = None"
  then show "out_size \<le> length (sh_escape s) + 3"
    using shell_quote_loop_None [of "[SQUOTE]" out_size s] by (auto simp: shell_quote_def split: if_splits)
qed (use shell_quote_word [of s out_size] in blast)+

lemma shell_quote_correct_witness:
  "\<exists>q. shell_quote (Some ''a; $(b) '') 20 = Some q \<and> sh_word Bare (q @ '' next'') = Some (''a; $(b) '', '' next'')"
proof -
  have "shell_quote (Some ''a; $(b) '') 20 = Some (SQUOTE # ''a; $(b) '' @ [SQUOTE])"
    by (simp add: shell_quote_def)
  moreover from this have "sh_word Bare ((SQUOTE # ''a; $(b) '' @ [SQUOTE]) @ CHR '' '' # ''next'') = Some (''a; $(b) '', CHR '' '' # ''next'')"
    using shell_quote_correct by blast
  ultimately show ?thesis by blast
qed

section \<open>Starting a command in the background\<close>

text \<open>
  The supervisor process: it changes the directory (a failure has the text of
  \<^verbatim>\<open>strerror\<close>), forks the worker, polls it \<open>confirm_sec * 10\<close> times and
  writes one line to the pipe. \<open>polls i\<close> is what \<^verbatim>\<open>waitpid\<close> finds at poll
  \<open>i\<close>.
\<close>

datatype wait_status = Exited nat | Signaled nat

fun status_code :: "wait_status \<Rightarrow> int" where
  "status_code (Exited n) = int n"
| "status_code (Signaled n) = 128 + int n"

fun confirm_loop :: "nat \<Rightarrow> nat \<Rightarrow> (nat \<Rightarrow> wait_status option) \<Rightarrow> nat \<Rightarrow> string" where
  "confirm_loop 0 i polls worker = ''STARTED:'' @ nat_dec worker @ [LF]"
| "confirm_loop (Suc n) i polls worker =
     (case polls i of
        Some status \<Rightarrow> ''EXIT:'' @ int_dec (status_code status) @ [LF]
      | None \<Rightarrow> confirm_loop n (Suc i) polls worker)"

record spawn =
  sp_chdir :: "string option" \<comment> \<open>the error of \<^verbatim>\<open>chdir\<close>\<close>
  sp_fork :: "string + nat" \<comment> \<open>the error of \<^verbatim>\<open>fork\<close>, or the worker\<close>
  sp_polls :: "nat \<Rightarrow> wait_status option"

definition supervisor :: "string option \<Rightarrow> nat \<Rightarrow> spawn \<Rightarrow> string" where
  "supervisor workdir confirm_sec sp =
     (case (if workdir \<noteq> None \<and> workdir \<noteq> Some [] then sp_chdir sp else None) of
        Some e \<Rightarrow> ''CHDIR:'' @ e @ [LF]
      | None \<Rightarrow>
          (case sp_fork sp of
             Inl e \<Rightarrow> ''FORK:'' @ e @ [LF]
           | Inr worker \<Rightarrow> confirm_loop (confirm_sec * 10) 0 (sp_polls sp) worker))"

record start_result =
  sr_rc :: int
  sr_output :: string \<comment> \<open>what was appended to the caller's log\<close>
  sr_started :: bool
  sr_exit_code :: "int option" \<comment> \<open>\<open>None\<close>: left as it was\<close>
  sr_child_pid :: int

text \<open>The parent reads at most 255 bytes of the pipe and takes the line apart.\<close>

definition decode_report :: "string \<Rightarrow> start_result" where
  "decode_report pipe =
     (let buffer = cstr (take 255 pipe) in
      if has_prefix ''STARTED:'' buffer then
        \<lparr> sr_rc = 0, sr_output = buffer, sr_started = True, sr_exit_code = Some 0,
          sr_child_pid = atoi (drop 8 buffer) \<rparr>
      else if has_prefix ''EXIT:'' buffer then
        (let code = atoi (drop 5 buffer) in
         \<lparr> sr_rc = (if code = 0 then 0 else -1), sr_output = buffer, sr_started = False,
           sr_exit_code = Some code, sr_child_pid = -1 \<rparr>)
      else \<lparr> sr_rc = -1, sr_output = buffer, sr_started = False, sr_exit_code = Some (-1), sr_child_pid = -1 \<rparr>)"

text \<open>\<open>None\<close> for the spawn: \<^verbatim>\<open>pipe\<close> or the first \<^verbatim>\<open>fork\<close> failed.\<close>

definition start_background_command :: "string option \<Rightarrow> string option \<Rightarrow> nat \<Rightarrow> spawn option \<Rightarrow> start_result" where
  "start_background_command command workdir confirm_sec sp =
     (let failed = \<lparr> sr_rc = -1, sr_output = [], sr_started = False, sr_exit_code = None, sr_child_pid = -1 \<rparr> in
      case (command, sp) of
        (Some c, Some s) \<Rightarrow> decode_report (supervisor workdir confirm_sec s)
      | _ \<Rightarrow> failed)"

lemma confirm_loop_cases:
  "confirm_loop n i polls worker =
     (case List.find (\<lambda>j. polls j \<noteq> None) [i..<i + n] of
        None \<Rightarrow> ''STARTED:'' @ nat_dec worker @ [LF]
      | Some j \<Rightarrow> ''EXIT:'' @ int_dec (status_code (the (polls j))) @ [LF])"
proof (induction n arbitrary: i)
  case (Suc n)
  have "[i..<i + Suc n] = i # [Suc i..<Suc i + n]" by (simp add: upt_conv_Cons)
  with Suc [of "Suc i"] show ?case by (auto split: option.splits)
qed simp

lemma atoi_line: "atoi (nat_dec n @ [LF]) = int n"
proof -
  obtain c r where r: "nat_dec n = c # r" by (cases "nat_dec n") auto
  then have d: "is_digit c" using nat_dec_digits [of c n] by simp
  then have *: "\<not> isspace c" "c \<noteq> CHR ''-''" "c \<noteq> CHR ''+''" using digit_neq by auto
  have "atoi (nat_dec n @ [LF]) = int (dec_value (takeWhile is_digit (nat_dec n @ [LF])))"
    using * r by (simp add: atoi_def Let_def)
  also have "takeWhile is_digit (nat_dec n @ [LF]) = nat_dec n"
    using takeWhile_append2 [of "nat_dec n" is_digit "[LF]"] nat_dec_digits [of _ n]
    by (simp add: is_digit_def)
  finally show ?thesis by simp
qed

lemma status_dec: "int_dec (status_code st) = nat_dec (nat (status_code st))"
  by (cases st) (simp_all add: int_dec_def)

lemma short_dec: "n < 10 ^ 10 \<Longrightarrow> length (nat_dec n) \<le> 10"
  by (rule length_nat_dec_le) simp_all

text \<open>
  The answer is what became of the command: it was started in the background with the process id of the
  worker exactly when no poll of the confirmation time found it gone; otherwise the exit code is that of
  the worker, a signal counting as 128 plus its number, and the call succeeds exactly when it is 0.
\<close>

lemma start_background_outcome:
  assumes "workdir = None \<or> workdir = Some [] \<or> sp_chdir sp = None"
    and "sp_fork sp = Inr worker" "worker < 10 ^ 10"
    and "\<forall>i st. sp_polls sp i = Some st \<longrightarrow> status_code st < 10 ^ 10"
    and "r = start_background_command (Some c) workdir confirm_sec (Some sp)"
  shows "(if \<forall>i < confirm_sec * 10. sp_polls sp i = None
      then sr_rc r = 0 \<and> sr_started r \<and> sr_child_pid r = int worker \<and> sr_exit_code r = Some 0
      else \<exists>i < confirm_sec * 10. \<exists>st. sp_polls sp i = Some st \<and> (\<forall>j < i. sp_polls sp j = None)
        \<and> \<not> sr_started r \<and> sr_exit_code r = Some (status_code st) \<and> (sr_rc r = 0 \<longleftrightarrow> status_code st = 0))"
proof -
  let ?n = "confirm_sec * 10"
  have r: "r = decode_report (confirm_loop ?n 0 (sp_polls sp) worker)"
    using assms(1,2) by (auto simp: assms(5) start_background_command_def supervisor_def)
  show ?thesis
  proof (cases "List.find (\<lambda>j. sp_polls sp j \<noteq> None) [0..<?n]")
    case None
    then have all: "\<forall>i < ?n. sp_polls sp i = None" by (auto simp: find_None_iff)
    let ?t = "''STARTED:'' @ nat_dec worker @ [LF]"
    have "confirm_loop ?n 0 (sp_polls sp) worker = ?t"
      using None by (simp add: confirm_loop_cases)
    moreover have "cstr (take 255 ?t) = ?t" using short_dec [OF assms(3)] by simp
    ultimately have "sr_rc r = 0 \<and> sr_started r \<and> sr_child_pid r = int worker \<and> sr_exit_code r = Some 0"
      by (simp add: r decode_report_def has_prefix_def atoi_line)
    with all show ?thesis by simp
  next
    case (Some i)
    then obtain st where st: "i < ?n" "sp_polls sp i = Some st" "\<forall>j < i. sp_polls sp j = None"
      by (auto simp: find_Some_iff)
    let ?t = "''EXIT:'' @ nat_dec (nat (status_code st)) @ [LF]"
    have p: "0 \<le> status_code st" by (cases st) simp_all
    have "confirm_loop ?n 0 (sp_polls sp) worker = ?t"
      using Some st(2) by (simp add: confirm_loop_cases status_dec)
    moreover have "status_code st < 10 ^ 10" using assms(4) st(2) by blast
    then have "nat (status_code st) < 10 ^ 10" by simp
    then have "length (nat_dec (nat (status_code st))) \<le> 10" by (rule short_dec)
    then have "cstr (take 255 ?t) = ?t" by simp
    ultimately have "\<not> sr_started r \<and> sr_exit_code r = Some (status_code st) \<and> (sr_rc r = 0 \<longleftrightarrow> status_code st = 0)"
      using p by (simp add: r decode_report_def has_prefix_def atoi_line Let_def)
    with st show ?thesis by auto
  qed
qed

text \<open>The worker that is gone first decides: the polls before it found nothing.\<close>

lemma start_result_code:
  assumes "workdir = None \<or> workdir = Some [] \<or> sp_chdir sp = None"
    and "sp_fork sp = Inr worker" "worker < 10 ^ 10"
    and "\<forall>i st. sp_polls sp i = Some st \<longrightarrow> status_code st < 10 ^ 10"
  shows "sr_rc (start_background_command (Some c) workdir confirm_sec (Some sp)) = 0
    \<longleftrightarrow> (\<forall>i < confirm_sec * 10. sp_polls sp i = None)
      \<or> (\<exists>i < confirm_sec * 10. \<exists>st. sp_polls sp i = Some st \<and> status_code st = 0 \<and> (\<forall>j < i. sp_polls sp j = None))"
proof -
  let ?r = "start_background_command (Some c) workdir confirm_sec (Some sp)"
  note out = start_background_outcome [OF assms refl, where confirm_sec = confirm_sec and c = c]
  show ?thesis
  proof (cases "\<forall>i < confirm_sec * 10. sp_polls sp i = None")
    case True
    then show ?thesis using out by simp
  next
    case False
    then obtain i st where i: "i < confirm_sec * 10" "sp_polls sp i = Some st" "\<forall>j < i. sp_polls sp j = None"
        "sr_rc ?r = 0 \<longleftrightarrow> status_code st = 0"
      using out [unfolded if_not_P [OF False]] by blast
    have "st' = st" if "sp_polls sp k = Some st'" "\<forall>j < k. sp_polls sp j = None" for k st'
      using i(2,3) that by (metis linorder_neqE_nat option.distinct(1) option.inject)
    with i False show ?thesis by blast
  qed
qed

lemma start_background_outcome_sample:
  "sr_exit_code (start_background_command (Some ''run'') None 2
     (Some \<lparr> sp_chdir = None, sp_fork = Inr 42, sp_polls = (\<lambda>i. if i = 3 then Some (Signaled 9) else None) \<rparr>)) = Some 137"
proof -
  define polls :: "nat \<Rightarrow> wait_status option" where "polls = (\<lambda>i. if i = 3 then Some (Signaled 9) else None)"
  have p: "polls i = Some st \<longleftrightarrow> i = 3 \<and> st = Signaled 9" for i st by (auto simp: polls_def)
  let ?sp = "\<lparr> sp_chdir = None, sp_fork = Inr 42, sp_polls = polls \<rparr>"
  have "\<not> (\<forall>i < 20. polls i = None)" by (auto simp: polls_def)
  with start_background_outcome [of None ?sp 42 _ "''run''" 2, OF _ _ _ _ refl]
  obtain i st where "polls i = Some st"
    "sr_exit_code (start_background_command (Some ''run'') None 2 (Some ?sp)) = Some (status_code st)"
    by (auto simp: p split: if_splits)
  then show ?thesis using p by (simp add: polls_def split: if_splits)
qed

end
