(* ===== verification/Shell_System.thy ===== *)
theory Shell_System
  imports Shell_Utils
begin

text \<open>
  The functions of \<^verbatim>\<open>src/shell_utils.c\<close> that drive the file system and a child process:
  making a directory, removing a tree, running a command and capturing what it prints. What the system
  answers is the argument.
\<close>

section \<open>Making a directory\<close>

abbreviation PATH_MAX :: nat where "PATH_MAX \<equiv> 4096"

datatype mkdir_answer = Made | Exists | Mkdir_error

text \<open>The characters before the cursor, those from it; the result and the paths given to \<^verbatim>\<open>mkdir\<close>.\<close>

fun ensure_loop :: "(string \<Rightarrow> mkdir_answer) \<Rightarrow> string \<Rightarrow> string \<Rightarrow> int \<times> string list" where
  "ensure_loop mkdir before [] = (if mkdir before = Mkdir_error then -1 else 0, [before])"
| "ensure_loop mkdir before (c # cs) =
     (if c = CHR ''/'' then
        (if mkdir before = Mkdir_error then (-1, [before])
         else (case ensure_loop mkdir (before @ [c]) cs of (res, calls) \<Rightarrow> (res, before # calls)))
      else ensure_loop mkdir (before @ [c]) cs)"

definition ensure_directory :: "(string \<Rightarrow> mkdir_answer) \<Rightarrow> string option \<Rightarrow> int \<times> string list" where
  "ensure_directory mkdir path =
     (case path of
        None \<Rightarrow> (-1, [])
      | Some p \<Rightarrow> if p = [] \<or> length p \<ge> PATH_MAX then (-1, []) else ensure_loop mkdir (take 1 p) (drop 1 p))"

text \<open>The path before each slash but a first one, and the path itself.\<close>

definition slash_prefixes :: "string \<Rightarrow> string list" where
  "slash_prefixes p = map (\<lambda>i. take i p) (filter (\<lambda>i. p ! i = CHR ''/'') [1..<length p]) @ [p]"

fun prefixes_from :: "string \<Rightarrow> string \<Rightarrow> string list" where
  "prefixes_from before [] = [before]"
| "prefixes_from before (c # cs) = (if c = CHR ''/'' then [before] else []) @ prefixes_from (before @ [c]) cs"

lemma prefixes_from_slashes:
  "prefixes_from before cs =
     map (\<lambda>i. take i (before @ cs)) (filter (\<lambda>i. (before @ cs) ! i = CHR ''/'') [length before..<length (before @ cs)])
     @ [before @ cs]"
proof (induction cs arbitrary: before)
  case (Cons c cs)
  have "[length before..<length (before @ c # cs)] = length before # [length (before @ [c])..<length ((before @ [c]) @ cs)]"
    by (subst upt_rec) simp
  then show ?case using Cons [of "before @ [c]"] by (simp add: nth_append)
qed simp

text \<open>The calls are the prefixes up to the first that fails.\<close>

lemma ensure_loop_calls:
  "ensure_loop mkdir before cs =
     (if \<forall>p \<in> set (prefixes_from before cs). mkdir p \<noteq> Mkdir_error then (0, prefixes_from before cs)
      else (-1, takeWhile (\<lambda>p. mkdir p \<noteq> Mkdir_error) (prefixes_from before cs)
        @ [hd (dropWhile (\<lambda>p. mkdir p \<noteq> Mkdir_error) (prefixes_from before cs))]))"
  by (induction mkdir before cs rule: ensure_loop.induct) auto

lemma ensure_directory_calls:
  assumes "p \<noteq> []" and "length p < PATH_MAX"
  shows "ensure_directory mkdir (Some p) =
     (if \<forall>q \<in> set (slash_prefixes p). mkdir q \<noteq> Mkdir_error then (0, slash_prefixes p)
      else (-1, takeWhile (\<lambda>q. mkdir q \<noteq> Mkdir_error) (slash_prefixes p)
        @ [hd (dropWhile (\<lambda>q. mkdir q \<noteq> Mkdir_error) (slash_prefixes p))]))"
proof -
  have "prefixes_from (take 1 p) (drop 1 p) = slash_prefixes p"
    using assms(1) prefixes_from_slashes [of "take 1 p" "drop 1 p"]
    by (cases p) (simp_all add: slash_prefixes_def del: prefixes_from.simps)
  then show ?thesis using assms ensure_loop_calls [of mkdir "take 1 p" "drop 1 p"]
    by (simp add: ensure_directory_def)
qed

text \<open>That something exists under the name is enough: a file that is no directory gives success, too.\<close>

lemma ensure_directory_accepts_file: "ensure_directory (\<lambda>_. Exists) (Some ''file'') = (0, [''file''])"
  by (simp add: ensure_directory_def)

section \<open>Removing a tree\<close>

text \<open>
  What \<^verbatim>\<open>lstat\<close> and \<^verbatim>\<open>readdir\<close> show below a path; a link is not followed. The
  answers say whether a directory can be opened and read, and whether an entry can be removed.
\<close>

datatype file_node = Plain_file | Sym_link string | Directory "(string \<times> file_node) list"

record remove_answers =
  ra_opendir :: "string \<Rightarrow> bool"
  ra_remove :: "string \<Rightarrow> bool" \<comment> \<open>\<^verbatim>\<open>unlink\<close>, or \<^verbatim>\<open>rmdir\<close> of an empty directory\<close>

text \<open>
  The result and what is left of the node. The entries \<^verbatim>\<open>.\<close> and \<^verbatim>\<open>..\<close> are skipped; the
  path of an entry is cut at the size of the buffer, and names something else then (\<open>Undef\<close>).
\<close>

fun remove_node :: "remove_answers \<Rightarrow> string \<Rightarrow> file_node \<Rightarrow> (bool \<times> file_node option) outcome"
  and remove_entries :: "remove_answers \<Rightarrow> string \<Rightarrow> (string \<times> file_node) list \<Rightarrow> (bool \<times> (string \<times> file_node) list) outcome" where
  "remove_node ans path Plain_file = Ok (if ra_remove ans path then (True, None) else (False, Some Plain_file))"
| "remove_node ans path (Sym_link target) =
     Ok (if ra_remove ans path then (True, None) else (False, Some (Sym_link target)))"
| "remove_node ans path (Directory entries) =
     (if \<not> ra_opendir ans path then Ok (False, Some (Directory entries))
      else obind (remove_entries ans path entries) (\<lambda>(gone, rest).
        if \<not> gone then Ok (False, Some (Directory rest))
        else if rest = [] \<and> ra_remove ans path then Ok (True, None)
        else Ok (False, Some (Directory rest))))"
| "remove_entries ans path [] = Ok (True, [])"
| "remove_entries ans path ((name, node) # entries) =
     (if name = ''.'' \<or> name = ''..'' then remove_entries ans path entries
      else if PATH_MAX \<le> length (path @ ''/'' @ name) then Undef
      else obind (remove_node ans (path @ ''/'' @ name) node) (\<lambda>(gone, rest).
        if \<not> gone then Ok (False, (case rest of None \<Rightarrow> [] | Some r \<Rightarrow> [(name, r)]) @ entries)
        else remove_entries ans path entries))"

datatype lstat_answer = Found file_node | Missing | Lstat_error

definition remove_tree :: "remove_answers \<Rightarrow> lstat_answer \<Rightarrow> string option \<Rightarrow> (int \<times> lstat_answer) outcome" where
  "remove_tree ans found path =
     (case path of
        None \<Rightarrow> Ok (-1, found)
      | Some p \<Rightarrow>
          if p = [] then Ok (-1, found)
          else (case found of
              Missing \<Rightarrow> Ok (0, found)
            | Lstat_error \<Rightarrow> Ok (-1, found)
            | Found node \<Rightarrow>
                obind (remove_node ans p node) (\<lambda>(gone, rest).
                  Ok (if gone then 0 else -1, case rest of None \<Rightarrow> Missing | Some r \<Rightarrow> Found r))))"

text \<open>A node that is gone leaves nothing, one that is not leaves something.\<close>

lemma remove_node_rest:
  "remove_node ans path node = Ok (gone, rest) \<Longrightarrow> gone \<longleftrightarrow> rest = None"
  "remove_entries ans path entries = Ok (gone, entries') \<Longrightarrow> gone \<Longrightarrow> entries' = []"
proof (induction ans path node and ans path entries arbitrary: gone rest and gone entries' rule: remove_node_remove_entries.induct)
  case (3 ans path entries)
  show ?case
  proof (cases "ra_opendir ans path")
    case True
    then obtain gone1 rest1 where "remove_entries ans path entries = Ok (gone1, rest1)"
      using "3.prems" by (cases "remove_entries ans path entries") auto
    then show ?thesis using "3.prems" True by (auto split: if_splits)
  qed (use "3.prems" in auto)
next
  case (5 ans path name node entries)
  show ?case
  proof (cases "name = ''.'' \<or> name = ''..''")
    case True
    then show ?thesis using "5.IH"(1) "5.prems" by auto
  next
    case False
    then obtain gone1 rest1 where node: "remove_node ans (path @ ''/'' @ name) node = Ok (gone1, rest1)"
        and fits: "\<not> PATH_MAX \<le> length (path @ ''/'' @ name)"
      using "5.prems" by (cases "remove_node ans (path @ ''/'' @ name) node") (auto split: if_splits)
    show ?thesis using "5.IH"(3) [OF False fits] "5.prems" False fits node by (auto split: if_splits)
  qed
qed (auto split: if_splits)

text \<open>The names below a node fit the buffers of the paths.\<close>

fun paths_fit :: "nat \<Rightarrow> file_node \<Rightarrow> bool" where
  "paths_fit n (Directory entries) =
     (\<forall>(name, node) \<in> set entries. n + 1 + length name < PATH_MAX \<and> paths_fit (n + 1 + length name) node)"
| "paths_fit n _ = True"

lemma remove_node_all:
  "(\<forall>p. ra_opendir ans p \<and> ra_remove ans p) \<Longrightarrow> paths_fit (length path) node \<Longrightarrow> remove_node ans path node = Ok (True, None)"
  "(\<forall>p. ra_opendir ans p \<and> ra_remove ans p) \<Longrightarrow> paths_fit (length path) (Directory entries)
    \<Longrightarrow> remove_entries ans path entries = Ok (True, [])"
  by (induction ans path node and ans path entries rule: remove_node_remove_entries.induct) auto

lemma remove_tree_removes:
  assumes "p \<noteq> []" and "remove_tree ans found (Some p) = Ok (res, left)"
  shows "(res = 0 \<longleftrightarrow> left = Missing) \<and> (found = Found (Sym_link target) \<and> ra_remove ans p \<longrightarrow> res = 0)
    \<and> ((\<forall>q. ra_opendir ans q \<and> ra_remove ans q) \<and> found = Found node \<and> paths_fit (length p) node \<longrightarrow> res = 0)"
proof (cases found)
  case (Found n)
  obtain gone rest where n: "remove_node ans p n = Ok (gone, rest)" "res = (if gone then 0 else -1)"
      "left = (case rest of None \<Rightarrow> Missing | Some r \<Rightarrow> Found r)"
    using assms by (cases "remove_node ans p n") (auto simp: remove_tree_def Found)
  show ?thesis
    using remove_node_rest(1) [OF n(1)] n remove_node_all(1) [of ans p node] by (auto simp: Found split: option.splits)
qed (use assms in \<open>auto simp: remove_tree_def\<close>)

section \<open>Running a command\<close>

text \<open>What the child does: it reports that it cannot change the directory, or becomes a shell.\<close>

datatype child_action = Report_exit string nat | Exec_shell string

definition run_child :: "string \<Rightarrow> string option \<Rightarrow> string option \<Rightarrow> child_action" where
  "run_child command workdir chdir_error =
     (case (if workdir \<noteq> None \<and> workdir \<noteq> Some [] then chdir_error else None) of
        Some e \<Rightarrow> Report_exit (''chdir failed: '' @ e @ [LF]) 127
      | None \<Rightarrow> Exec_shell command)"

text \<open>
  A round of the parent: whether the pipe can be read, the pieces that are read until there are no more,
  what \<^verbatim>\<open>waitpid\<close> finds, the clock. The result with what was added to the output, in order;
  \<open>None\<close> where the loop has not ended with the rounds given.
\<close>

record run_round =
  ru_readable :: bool
  ru_pieces :: "string list"
  ru_waited :: "wait_status option"
  ru_now :: int

record run_result =
  rr_rc :: int
  rr_exit_code :: "int option" \<comment> \<open>\<open>None\<close>: left as it was\<close>
  rr_added :: "string list"

definition timed_out_text :: string where
  "timed_out_text = [LF] @ ''command timed out'' @ [LF]"

fun capture_loop :: "int \<Rightarrow> int \<Rightarrow> string list \<Rightarrow> string list \<Rightarrow> run_round list \<Rightarrow> run_result option" where
  "capture_loop timeout_sec start drained added [] = None"
| "capture_loop timeout_sec start drained added (r # rs) =
     (let added1 = added @ (if ru_readable r then ru_pieces r else []) in
      case ru_waited r of
        Some status \<Rightarrow> Some \<lparr> rr_rc = 0, rr_exit_code = Some (status_code status), rr_added = added1 @ drained \<rparr>
      | None \<Rightarrow>
          if timeout_sec > 0 \<and> ru_now r - start \<ge> timeout_sec
          then Some \<lparr> rr_rc = -1, rr_exit_code = Some (-1), rr_added = added1 @ [timed_out_text] \<rparr>
          else capture_loop timeout_sec start drained added1 rs)"

text \<open>The rounds are \<open>None\<close> where \<^verbatim>\<open>pipe\<close> or \<^verbatim>\<open>fork\<close> fails; \<open>drained\<close>: the pieces read after the child is gone.\<close>

definition run_command_capture ::
  "string option \<Rightarrow> int \<Rightarrow> int \<Rightarrow> run_round list option \<Rightarrow> string list \<Rightarrow> run_result option" where
  "run_command_capture command timeout_sec start rounds drained =
     (case (command, rounds) of
        (Some c, Some rs) \<Rightarrow> capture_loop timeout_sec start drained [] rs
      | _ \<Rightarrow> Some \<lparr> rr_rc = -1, rr_exit_code = None, rr_added = [] \<rparr>)"

text \<open>What the rounds read.\<close>

definition read_in :: "run_round list \<Rightarrow> string list" where
  "read_in rs = concat (map (\<lambda>r. if ru_readable r then ru_pieces r else []) rs)"

definition run_stops :: "int \<Rightarrow> int \<Rightarrow> run_round \<Rightarrow> bool" where
  "run_stops timeout_sec start r \<longleftrightarrow> ru_waited r \<noteq> None \<or> timeout_sec > 0 \<and> ru_now r - start \<ge> timeout_sec"

definition run_ending :: "run_round \<Rightarrow> string list \<Rightarrow> string list \<Rightarrow> run_result" where
  "run_ending r added drained =
     (case ru_waited r of
        Some status \<Rightarrow> \<lparr> rr_rc = 0, rr_exit_code = Some (status_code status), rr_added = added @ drained \<rparr>
      | None \<Rightarrow> \<lparr> rr_rc = -1, rr_exit_code = Some (-1), rr_added = added @ [timed_out_text] \<rparr>)"

lemma read_in_simps [simp]:
  "read_in [] = []"
  "read_in (r # rs) = (if ru_readable r then ru_pieces r else []) @ read_in rs"
  by (simp_all add: read_in_def)

lemma capture_loop_step:
  "capture_loop timeout_sec start drained added (r # rs) =
     (if run_stops timeout_sec start r then Some (run_ending r (added @ read_in [r]) drained)
      else capture_loop timeout_sec start drained (added @ read_in [r]) rs)"
  by (auto simp: run_stops_def run_ending_def Let_def split: option.split)

declare capture_loop.simps(2) [simp del]

lemma capture_loop_result:
  assumes "capture_loop timeout_sec start drained added rs = Some result"
  shows "\<exists>before r after. rs = before @ r # after \<and> (\<forall>b \<in> set before. \<not> run_stops timeout_sec start b)
    \<and> run_stops timeout_sec start r \<and> result = run_ending r (added @ read_in (before @ [r])) drained"
  using assms
proof (induction rs arbitrary: added)
  case (Cons r rs)
  show ?case
  proof (cases "run_stops timeout_sec start r")
    case True
    then show ?thesis using Cons.prems
      by (intro exI [of _ "[]"] exI [of _ r] exI [of _ rs]) (simp add: capture_loop_step)
  next
    case False
    then have "capture_loop timeout_sec start drained (added @ read_in [r]) rs = Some result"
      using Cons.prems by (simp only: capture_loop_step if_False)
    from Cons.IH [OF this] obtain before r1 after where "rs = before @ r1 # after"
        "\<forall>b \<in> set before. \<not> run_stops timeout_sec start b" "run_stops timeout_sec start r1"
        "result = run_ending r1 ((added @ read_in [r]) @ read_in (before @ [r1])) drained" by blast
    then show ?thesis using False
      by (intro exI [of _ "r # before"] exI [of _ r1] exI [of _ after]) simp
  qed
qed simp

lemma capture_loop_returns:
  "r \<in> set rs \<Longrightarrow> run_stops timeout_sec start r \<Longrightarrow> capture_loop timeout_sec start drained added rs \<noteq> None"
  by (induction rs arbitrary: added) (auto simp: capture_loop_step)



text \<open>Without a limit nothing ends the loop but the end of the child.\<close>

lemma run_without_limit:
  assumes "\<forall>r \<in> set rs. ru_waited r = None"
  shows "run_command_capture (Some command) 0 start (Some rs) drained = None"
proof -
  have "capture_loop 0 start drained added rs = None" for added
    using assms by (induction rs arbitrary: added) (simp_all add: capture_loop_step run_stops_def)
  then show ?thesis by (simp add: run_command_capture_def)
qed

end
