(* ===== verification/Ide_Connection.thy ===== *)
theory Ide_Connection
  imports Json_Text
begin

text \<open>
  The exclusive connection of one IDE to the device (\<^verbatim>\<open>src/ide_connection_manager.c\<close>).
  Each handler decides in one critical section of the manager's mutex, so the calls of all threads are a
  sequence of the operations below. The time a handler read with \<^verbatim>\<open>app_now_ms\<close> before
  it took the mutex is an argument; so are the answers of \<^verbatim>\<open>malloc\<close> and the size of
  the response buffer (\<open>None\<close>: NULL). A result lists the properties that were posted to the
  cloud (\<^verbatim>\<open>app_post_properties\<close>).
\<close>

section \<open>Reports\<close>

abbreviation HEARTBEAT_TIMEOUT_MS :: int where "HEARTBEAT_TIMEOUT_MS \<equiv> 120000"

definition result_text :: "bool \<Rightarrow> string \<Rightarrow> string" where
  "result_text success escaped =
     ''{\"success\":'' @ (if success then ''1'' else ''0'') @ '',\"message\":\"'' @ escaped @ ''\"}''"

text \<open>The C result and what the response buffer holds (\<open>None\<close>: as before).\<close>

definition ide_build_result_json :: "bool \<Rightarrow> bool \<Rightarrow> string \<Rightarrow> nat option \<Rightarrow> int \<times> string option" where
  "ide_build_result_json memory success message response =
     (case response of
        None \<Rightarrow> (-1, None)
      | Some response_size \<Rightarrow>
          if response_size = 0 then (-1, None)
          else (case escape_alloc memory (Some message) of
                  None \<Rightarrow> (-1, None)
                | Some escaped \<Rightarrow>
                    let t = result_text success escaped in
                    (if length t < response_size then 0 else -1, Some (snprintf response_size t))))"

definition ide_info_text :: "string \<Rightarrow> string \<Rightarrow> int \<Rightarrow> string" where
  "ide_info_text escaped_client_id info heartbeat_ms =
     ''{\"clientId\":\"'' @ escaped_client_id @ ''\",\"clientInfo\":'' @ info @ '',\"connectTime\":''
       @ int_dec heartbeat_ms @ ''}''"

definition full_state_text :: "string \<Rightarrow> int \<Rightarrow> string" where
  "full_state_text escaped_ide_info heartbeat_ms =
     ''{\"hasIDEConnected\":1,\"IDEInfo\":\"'' @ escaped_ide_info @ ''\",\"IDEHeartbeat\":\"''
       @ int_dec heartbeat_ms @ ''\"}''"

definition disconnected_text :: string where
  "disconnected_text = ''{\"hasIDEConnected\":0,\"IDEInfo\":\"\",\"IDEHeartbeat\":\"0\"}''"

text \<open>The properties posted, at most one; \<open>mem i\<close> is the answer of the \<open>i\<close>-th allocation.\<close>

definition ide_report_full_state :: "(nat \<Rightarrow> bool) \<Rightarrow> bool \<Rightarrow> string \<Rightarrow> string \<Rightarrow> int \<Rightarrow> string list" where
  "ide_report_full_state mem connected client_id client_info heartbeat_ms =
     (if \<not> connected then [snprintf 4096 disconnected_text]
      else if client_info \<noteq> [] \<and> (hd client_info = CHR ''{'' \<or> hd client_info = CHR ''['') then
        (case escape_alloc (mem 0) (Some client_id) of
           None \<Rightarrow> []
         | Some escaped_client_id \<Rightarrow>
             (case escape_alloc (mem 1)
                 (Some (snprintf 2048 (ide_info_text escaped_client_id client_info heartbeat_ms))) of
                None \<Rightarrow> []
              | Some escaped_ide_info \<Rightarrow> [snprintf 4096 (full_state_text escaped_ide_info heartbeat_ms)]))
      else
        (case (escape_alloc (mem 0) (Some client_id), escape_alloc (mem 1) (Some client_info)) of
           (Some escaped_client_id, Some escaped_client_info) \<Rightarrow>
             (case escape_alloc (mem 2)
                 (Some (snprintf 2048 (ide_info_text escaped_client_id ([DQUOTE] @ escaped_client_info @ [DQUOTE]) heartbeat_ms))) of
                None \<Rightarrow> []
              | Some escaped_ide_info \<Rightarrow> [snprintf 4096 (full_state_text escaped_ide_info heartbeat_ms)])
         | _ \<Rightarrow> []))"

definition ide_report_heartbeat :: "int \<Rightarrow> string list" where
  "ide_report_heartbeat heartbeat_ms =
     [snprintf 256 (''{\"IDEHeartbeat\":\"'' @ int_dec heartbeat_ms @ ''\"}'')]"

section \<open>The manager\<close>

record ide_manager =
  im_connected :: bool
  im_client_id :: string
  im_client_info :: string
  im_last_heartbeat_ms :: int

record ide_result =
  ir_rc :: int
  ir_response :: "string option"
  ir_posted :: "string list"

definition ide_unlock_internal :: "ide_manager \<Rightarrow> ide_manager" where
  "ide_unlock_internal m =
     m \<lparr> im_connected := False, im_client_id := [], im_client_info := [], im_last_heartbeat_ms := 0 \<rparr>"

definition client_id_of :: "string \<Rightarrow> string" where
  "client_id_of params = stored_text ''unknown'' 128 (json_get_string (Some params) (Some ''clientId'') 128)"

definition client_info_of :: "string \<Rightarrow> string" where
  "client_info_of params = stored_text [] 512 (json_get_raw_value (Some params) (Some ''clientInfo'') 512)"

definition take_lock :: "string \<Rightarrow> string \<Rightarrow> int \<Rightarrow> ide_manager \<Rightarrow> ide_manager" where
  "take_lock client_id client_info now_ms m =
     m \<lparr> im_connected := True, im_last_heartbeat_ms := now_ms, im_client_id := snprintf 128 client_id,
       im_client_info := snprintf 512 client_info \<rparr>"

text \<open>The critical section of \<^verbatim>\<open>requestConnect\<close>: success, message, manager.\<close>

definition connect_section :: "string \<Rightarrow> string \<Rightarrow> int \<Rightarrow> ide_manager \<Rightarrow> bool \<times> string \<times> ide_manager" where
  "connect_section client_id client_info now_ms m =
     (if \<not> im_connected m then
        (True, snprintf 256 ''connect accepted'', take_lock client_id client_info now_ms m)
      else if im_client_id m = client_id then
        (True, snprintf 256 ''reconnect accepted'',
         m \<lparr> im_last_heartbeat_ms := now_ms, im_client_info := snprintf 512 client_info \<rparr>)
      else if now_ms - im_last_heartbeat_ms m > HEARTBEAT_TIMEOUT_MS then
        (True, snprintf 256 ''previous IDE heartbeat timed out, lock transferred'',
         take_lock client_id client_info now_ms m)
      else (False, snprintf 256 (''device is occupied by '' @ im_client_id m), m))"

definition rejected :: ide_result where
  "rejected = \<lparr> ir_rc = -1, ir_response = None, ir_posted = [] \<rparr>"

definition answer :: "(nat \<Rightarrow> bool) \<Rightarrow> nat option \<Rightarrow> bool \<Rightarrow> string \<Rightarrow> string list \<Rightarrow> ide_result" where
  "answer mem response success message posted =
     (case ide_build_result_json (mem 3) success message response of
        (rc, text) \<Rightarrow> \<lparr> ir_rc = rc, ir_response = text, ir_posted = posted \<rparr>)"

definition ide_connection_manager_handle_request_connect ::
  "bool \<Rightarrow> string option \<Rightarrow> nat option \<Rightarrow> int \<Rightarrow> (nat \<Rightarrow> bool) \<Rightarrow> ide_manager \<Rightarrow> ide_result \<times> ide_manager" where
  "ide_connection_manager_handle_request_connect manager_ok params_json response now_ms mem m =
     (case params_json of
        None \<Rightarrow> (rejected, m)
      | Some params \<Rightarrow>
          if \<not> manager_ok then (rejected, m)
          else (case connect_section (client_id_of params) (client_info_of params) now_ms m of
            (success, message, m') \<Rightarrow>
              (answer mem response success message
                 (if success then ide_report_full_state mem True (client_id_of params) (client_info_of params) now_ms
                  else []), m')))"

definition ide_connection_manager_handle_disconnect ::
  "bool \<Rightarrow> string option \<Rightarrow> nat option \<Rightarrow> (nat \<Rightarrow> bool) \<Rightarrow> ide_manager \<Rightarrow> ide_result \<times> ide_manager" where
  "ide_connection_manager_handle_disconnect manager_ok params_json response mem m =
     (case params_json of
        None \<Rightarrow> (rejected, m)
      | Some params \<Rightarrow>
          if \<not> manager_ok then (rejected, m)
          else if \<not> im_connected m then
            (answer mem response True (snprintf 256 ''no active IDE connection'') [], m)
          else if im_client_id m \<noteq> client_id_of params then
            (answer mem response False
               (snprintf 256 (''disconnect rejected, active client is '' @ im_client_id m)) [], m)
          else
            (answer mem response True (snprintf 256 ''disconnect accepted'')
               (ide_report_full_state mem False [] [] 0), ide_unlock_internal m))"

definition ide_connection_manager_handle_heartbeat ::
  "bool \<Rightarrow> string option \<Rightarrow> nat option \<Rightarrow> int \<Rightarrow> (nat \<Rightarrow> bool) \<Rightarrow> ide_manager \<Rightarrow> ide_result \<times> ide_manager" where
  "ide_connection_manager_handle_heartbeat manager_ok params_json response now_ms mem m =
     (case params_json of
        None \<Rightarrow> (rejected, m)
      | Some params \<Rightarrow>
          if \<not> manager_ok then (rejected, m)
          else if \<not> im_connected m \<or> im_client_id m \<noteq> client_id_of params then
            (answer mem response False
               (snprintf 256 (''heartbeat rejected, active client is '' @ im_client_id m)) [], m)
          else
            (answer mem response True (snprintf 256 ''heartbeat updated'') (ide_report_heartbeat now_ms),
             m \<lparr> im_last_heartbeat_ms := now_ms \<rparr>))"

definition ide_connection_manager_is_connected_client :: "bool \<Rightarrow> string option \<Rightarrow> ide_manager \<Rightarrow> bool" where
  "ide_connection_manager_is_connected_client manager_ok client_id m =
     (case client_id of
        None \<Rightarrow> False
      | Some c \<Rightarrow> manager_ok \<and> c \<noteq> [] \<and> im_connected m \<and> im_client_id m = c)"

definition ide_connection_manager_get_snapshot :: "nat \<Rightarrow> ide_manager \<Rightarrow> bool \<times> string \<times> int" where
  "ide_connection_manager_get_snapshot client_id_size m =
     (im_connected m, snprintf client_id_size (im_client_id m), im_last_heartbeat_ms m)"

definition ide_connection_manager_clear_cloud_state :: "(nat \<Rightarrow> bool) \<Rightarrow> ide_manager \<Rightarrow> string list \<times> ide_manager" where
  "ide_connection_manager_clear_cloud_state mem m =
     (ide_report_full_state mem False [] [] 0, ide_unlock_internal m)"

text \<open>
  One round of the heartbeat thread after its wait, and the thread: a round has the value of the
  running flag it finds and the time it reads.
\<close>

definition ide_heartbeat_round :: "(nat \<Rightarrow> bool) \<Rightarrow> int \<Rightarrow> ide_manager \<Rightarrow> string list \<times> ide_manager" where
  "ide_heartbeat_round mem now_ms m =
     (if im_connected m \<and> now_ms - im_last_heartbeat_ms m > HEARTBEAT_TIMEOUT_MS
      then (ide_report_full_state mem False [] [] 0, ide_unlock_internal m)
      else ([], m))"

fun ide_heartbeat_thread :: "(bool \<times> int \<times> (nat \<Rightarrow> bool)) list \<Rightarrow> ide_manager \<Rightarrow> string list \<times> ide_manager" where
  "ide_heartbeat_thread [] m = ([], m)"
| "ide_heartbeat_thread ((keep_running, now_ms, mem) # rounds) m =
     (if \<not> keep_running then ([], m)
      else case ide_heartbeat_round mem now_ms m of
        (posted, m1) \<Rightarrow> (case ide_heartbeat_thread rounds m1 of (posted', m2) \<Rightarrow> (posted @ posted', m2)))"

lemma client_texts_fit [simp]:
  "length (client_id_of params) < 128" "length (client_info_of params) < 512"
  unfolding client_id_of_def client_info_of_def
  by (rule stored_text_length, simp, use get_string_length [of 128] get_raw_length [of 512] in force)+

section \<open>The lock\<close>

text \<open>
  What the handlers implement: a lock with an owner and the time of its last sign of life. An owner
  keeps it until it gives it back, or is silent for longer than the timeout.
\<close>

datatype ide_lock = Free | Held (owner: string) (info: string) (since: int)

fun lock_connect :: "string \<Rightarrow> string \<Rightarrow> int \<Rightarrow> ide_lock \<Rightarrow> bool \<times> ide_lock" where
  "lock_connect c i now Free = (True, Held c i now)"
| "lock_connect c i now (Held d j t) =
     (if c = d \<or> now - t > HEARTBEAT_TIMEOUT_MS then (True, Held c i now) else (False, Held d j t))"

fun lock_disconnect :: "string \<Rightarrow> ide_lock \<Rightarrow> bool \<times> ide_lock" where
  "lock_disconnect c Free = (True, Free)"
| "lock_disconnect c (Held d j t) = (if c = d then (True, Free) else (False, Held d j t))"

fun lock_heartbeat :: "string \<Rightarrow> int \<Rightarrow> ide_lock \<Rightarrow> bool \<times> ide_lock" where
  "lock_heartbeat c now Free = (False, Free)"
| "lock_heartbeat c now (Held d j t) = (if c = d then (True, Held d j now) else (False, Held d j t))"

fun lock_expire :: "int \<Rightarrow> ide_lock \<Rightarrow> ide_lock" where
  "lock_expire now Free = Free"
| "lock_expire now (Held d j t) = (if now - t > HEARTBEAT_TIMEOUT_MS then Free else Held d j t)"

definition lock_of :: "ide_manager \<Rightarrow> ide_lock" where
  "lock_of m = (if im_connected m then Held (im_client_id m) (im_client_info m) (im_last_heartbeat_ms m) else Free)"

definition succeeded :: "ide_result \<Rightarrow> bool" where
  "succeeded r \<longleftrightarrow> (\<exists>t. ir_response r = Some t \<and> has_prefix ''{\"success\":1'' t)"

section \<open>The handlers implement the lock\<close>

definition im_ok :: "ide_manager \<Rightarrow> bool" where
  "im_ok m \<longleftrightarrow> length (im_client_id m) < 128 \<and> length (im_client_info m) < 512"

lemma connect_section_lock:
  "im_ok m \<Longrightarrow> length c < 128 \<Longrightarrow> length i < 512 \<Longrightarrow>
   (case connect_section c i now m of (success, message, m') \<Rightarrow>
      im_ok m' \<and> (success, lock_of m') = lock_connect c i now (lock_of m)
      \<and> length (escape message) \<le> 320 \<and> length message < 256)"
  using escape_fits [of "im_client_id m"]
  by (auto simp: connect_section_def take_lock_def lock_of_def im_ok_def snprintf_fits escape_def replacement_def)

lemma answer_complete:
  assumes "mem 3" "512 \<le> n" "length (escape message) \<le> 320"
  shows "ir_rc (answer mem (Some n) success message posted) = 0
    \<and> ir_response (answer mem (Some n) success message posted) = Some (result_text success (escape message))
    \<and> (succeeded (answer mem (Some n) success message posted) \<longleftrightarrow> success)"
proof -
  have l: "length (result_text success (escape message)) < n"
    using assms(2,3) by (simp add: result_text_def)
  have "ide_build_result_json True success message (Some n) = (0, Some (result_text success (escape message)))"
    using l assms(2) by (simp add: ide_build_result_json_def snprintf_fits)
  moreover have "has_prefix ''{\"success\":1'' (result_text success e) \<longleftrightarrow> success" for e
    by (cases success) (simp_all add: has_prefix_def result_text_def)
  ultimately show ?thesis using assms(1) by (simp add: answer_def succeeded_def)
qed

lemma connect_refines:
  assumes "im_ok m"
    and "ide_connection_manager_handle_request_connect True (Some params) response now mem m = (r, m')"
  shows "im_ok m'" "lock_of m' = snd (lock_connect (client_id_of params) (client_info_of params) now (lock_of m))"
    and "mem 3 \<Longrightarrow> response = Some n \<Longrightarrow> 512 \<le> n \<Longrightarrow> ir_rc r = 0
      \<and> (succeeded r \<longleftrightarrow> fst (lock_connect (client_id_of params) (client_info_of params) now (lock_of m)))"
proof -
  obtain success message m1 where s: "connect_section (client_id_of params) (client_info_of params) now m = (success, message, m1)"
    by (cases "connect_section (client_id_of params) (client_info_of params) now m") auto
  note k = connect_section_lock [OF assms(1) client_texts_fit, of params params now, unfolded s prod.case]
  have m: "m' = m1" "r = answer mem response success message
      (if success then ide_report_full_state mem True (client_id_of params) (client_info_of params) now else [])"
    using assms(2) by (auto simp: ide_connection_manager_handle_request_connect_def s)
  show "im_ok m'" using k m by simp
  show "lock_of m' = snd (lock_connect (client_id_of params) (client_info_of params) now (lock_of m))"
    using k m by (metis snd_conv)
  show "ir_rc r = 0 \<and> (succeeded r \<longleftrightarrow> fst (lock_connect (client_id_of params) (client_info_of params) now (lock_of m)))"
    if "mem 3" "response = Some n" "512 \<le> n"
    using answer_complete [of mem n message success] k m that by (metis fst_conv)
qed

lemma disconnect_refines:
  assumes "im_ok m"
    and "ide_connection_manager_handle_disconnect True (Some params) response mem m = (r, m')"
  shows "im_ok m'" "lock_of m' = snd (lock_disconnect (client_id_of params) (lock_of m))"
    and "mem 3 \<Longrightarrow> response = Some n \<Longrightarrow> 512 \<le> n \<Longrightarrow> ir_rc r = 0
      \<and> (succeeded r \<longleftrightarrow> fst (lock_disconnect (client_id_of params) (lock_of m)))"
proof -
  show "im_ok m'" "lock_of m' = snd (lock_disconnect (client_id_of params) (lock_of m))"
    using assms by (auto simp: ide_connection_manager_handle_disconnect_def lock_of_def ide_unlock_internal_def
        im_ok_def split: if_splits)
  assume a: "mem 3" "response = Some n" "512 \<le> n"
  have l: "length (escape (snprintf 256 (''disconnect rejected, active client is '' @ im_client_id m))) \<le> 320"
    using assms(1) escape_fits [of "im_client_id m"]
    by (simp add: im_ok_def snprintf_fits escape_def replacement_def)
  show "ir_rc r = 0 \<and> (succeeded r \<longleftrightarrow> fst (lock_disconnect (client_id_of params) (lock_of m)))"
    using assms(2) answer_complete [of mem n, OF a(1,3)] l unfolding a(2)
    by (auto simp: ide_connection_manager_handle_disconnect_def lock_of_def snprintf_fits escape_def
        replacement_def split: if_splits)
qed

lemma heartbeat_refines:
  assumes "im_ok m"
    and "ide_connection_manager_handle_heartbeat True (Some params) response now mem m = (r, m')"
  shows "im_ok m'" "lock_of m' = snd (lock_heartbeat (client_id_of params) now (lock_of m))"
    and "mem 3 \<Longrightarrow> response = Some n \<Longrightarrow> 512 \<le> n \<Longrightarrow> ir_rc r = 0
      \<and> (succeeded r \<longleftrightarrow> fst (lock_heartbeat (client_id_of params) now (lock_of m)))"
proof -
  show "im_ok m'" "lock_of m' = snd (lock_heartbeat (client_id_of params) now (lock_of m))"
    using assms by (auto simp: ide_connection_manager_handle_heartbeat_def lock_of_def im_ok_def split: if_splits)
  assume a: "mem 3" "response = Some n" "512 \<le> n"
  have l: "length (escape (snprintf 256 (''heartbeat rejected, active client is '' @ im_client_id m))) \<le> 320"
    using assms(1) escape_fits [of "im_client_id m"]
    by (simp add: im_ok_def snprintf_fits escape_def replacement_def)
  show "ir_rc r = 0 \<and> (succeeded r \<longleftrightarrow> fst (lock_heartbeat (client_id_of params) now (lock_of m)))"
    using assms(2) answer_complete [of mem n, OF a(1,3)] l unfolding a(2)
    by (auto simp: ide_connection_manager_handle_heartbeat_def lock_of_def snprintf_fits escape_def
        replacement_def split: if_splits)
qed

section \<open>Calls\<close>

datatype ide_call =
    Request_connect string int
  | Request_disconnect string
  | Ide_heartbeat string int
  | Heartbeat_round int
  | Clear_cloud_state

text \<open>A call with the answers of \<^verbatim>\<open>malloc\<close> and the response buffer.\<close>

type_synonym ide_env = "(nat \<Rightarrow> bool) \<times> nat option"

fun ide_do :: "ide_env \<times> ide_call \<Rightarrow> ide_manager \<Rightarrow> ide_result \<times> ide_manager" where
  "ide_do ((mem, response), Request_connect params now) m =
     ide_connection_manager_handle_request_connect True (Some params) response now mem m"
| "ide_do ((mem, response), Request_disconnect params) m =
     ide_connection_manager_handle_disconnect True (Some params) response mem m"
| "ide_do ((mem, response), Ide_heartbeat params now) m =
     ide_connection_manager_handle_heartbeat True (Some params) response now mem m"
| "ide_do ((mem, response), Heartbeat_round now) m =
     (case ide_heartbeat_round mem now m of (posted, m') \<Rightarrow> (rejected \<lparr> ir_rc := 0, ir_posted := posted \<rparr>, m'))"
| "ide_do ((mem, response), Clear_cloud_state) m =
     (case ide_connection_manager_clear_cloud_state mem m of
        (posted, m') \<Rightarrow> (rejected \<lparr> ir_rc := 0, ir_posted := posted \<rparr>, m'))"

fun ide_run :: "(ide_env \<times> ide_call) list \<Rightarrow> ide_manager \<Rightarrow> ide_manager" where
  "ide_run [] m = m"
| "ide_run (c # cs) m = ide_run cs (snd (ide_do c m))"

text \<open>The specification of a call: does it succeed, and the lock after it.\<close>

fun lock_do :: "ide_call \<Rightarrow> ide_lock \<Rightarrow> bool \<times> ide_lock" where
  "lock_do (Request_connect params now) l = lock_connect (client_id_of params) (client_info_of params) now l"
| "lock_do (Request_disconnect params) l = lock_disconnect (client_id_of params) l"
| "lock_do (Ide_heartbeat params now) l = lock_heartbeat (client_id_of params) now l"
| "lock_do (Heartbeat_round now) l = (True, lock_expire now l)"
| "lock_do Clear_cloud_state l = (True, Free)"

fun answered :: "ide_call \<Rightarrow> bool" where
  "answered (Heartbeat_round now) = False"
| "answered Clear_cloud_state = False"
| "answered _ = True"

lemma ide_do_refines:
  assumes "im_ok m"
  shows "im_ok (snd (ide_do (env, c) m)) \<and> lock_of (snd (ide_do (env, c) m)) = snd (lock_do c (lock_of m))"
proof -
  obtain mem response where env: "env = (mem, response)" by (cases env)
  obtain r m' where d: "ide_do ((mem, response), c) m = (r, m')" by (cases "ide_do ((mem, response), c) m") auto
  have "im_ok m' \<and> lock_of m' = snd (lock_do c (lock_of m))"
  proof (cases c)
    case (Request_connect params now)
    then show ?thesis using connect_refines(1,2) [OF assms, of params response now mem r m'] d by simp
  next
    case (Request_disconnect params)
    then show ?thesis using disconnect_refines(1,2) [OF assms, of params response mem r m'] d by simp
  next
    case (Ide_heartbeat params now)
    then show ?thesis using heartbeat_refines(1,2) [OF assms, of params response now mem r m'] d by simp
  next
    case (Heartbeat_round now)
    then show ?thesis using d assms
      by (auto simp: ide_heartbeat_round_def lock_of_def ide_unlock_internal_def im_ok_def split: if_splits)
  next
    case Clear_cloud_state
    then show ?thesis using d
      by (auto simp: ide_connection_manager_clear_cloud_state_def lock_of_def ide_unlock_internal_def im_ok_def)
  qed
  with d env show ?thesis by simp
qed

lemma ide_do_answers:
  assumes "im_ok m" "answered c" "mem 3" "512 \<le> n"
  shows "ir_rc (fst (ide_do ((mem, Some n), c) m)) = 0
    \<and> (succeeded (fst (ide_do ((mem, Some n), c) m)) \<longleftrightarrow> fst (lock_do c (lock_of m)))"
proof -
  obtain r m' where d: "ide_do ((mem, Some n), c) m = (r, m')" by (cases "ide_do ((mem, Some n), c) m") auto
  have "ir_rc r = 0 \<and> (succeeded r \<longleftrightarrow> fst (lock_do c (lock_of m)))"
  proof (cases c)
    case (Request_connect params now)
    then show ?thesis using connect_refines(3) [OF assms(1), of params "Some n" now mem r m' n] d assms(3,4) by simp
  next
    case (Request_disconnect params)
    then show ?thesis using disconnect_refines(3) [OF assms(1), of params "Some n" mem r m' n] d assms(3,4) by simp
  next
    case (Ide_heartbeat params now)
    then show ?thesis using heartbeat_refines(3) [OF assms(1), of params "Some n" now mem r m' n] d assms(3,4) by simp
  qed (use assms(2) in simp_all)
  with d show ?thesis by simp
qed

text \<open>A manager as \<^verbatim>\<open>memset\<close> leaves it.\<close>

definition ide_fresh :: ide_manager where
  "ide_fresh = \<lparr> im_connected = False, im_client_id = [], im_client_info = [], im_last_heartbeat_ms = 0 \<rparr>"

lemma ide_fresh_lock [simp]: "im_ok ide_fresh" "lock_of ide_fresh = Free"
  by (simp_all add: ide_fresh_def im_ok_def lock_of_def)

lemma ide_run_refines:
  "im_ok m \<Longrightarrow> im_ok (ide_run cs m) \<and> lock_of (ide_run cs m) = fold (\<lambda>(env, c) l. snd (lock_do c l)) cs (lock_of m)"
proof (induction cs arbitrary: m)
  case (Cons x cs)
  obtain env c where x: "x = (env, c)" by (cases x)
  with Cons.IH [of "snd (ide_do (env, c) m)"] ide_do_refines [OF Cons.prems, of env c] show ?case by simp
qed simp

text \<open>
  C12. After any sequence of requests of IDEs, rounds of the heartbeat thread and clearings, the next
  request is answered and leaves the manager as a lock with one owner prescribes: what the response
  says (for a response buffer as the service dispatcher has it) and what the manager holds are the
  result and the next state of the abstract lock.
\<close>

theorem ide_manager_implements_lock:
  assumes "mem 3" "512 \<le> n" "answered c" "l = fold (\<lambda>(env, c) l. snd (lock_do c l)) cs Free"
    and "ide_do ((mem, Some n), c) (ide_run cs ide_fresh) = (r, m')"
  shows "ir_rc r = 0 \<and> (succeeded r \<longleftrightarrow> fst (lock_do c l)) \<and> lock_of m' = snd (lock_do c l)"
  using ide_do_answers [of "ide_run cs ide_fresh" c mem n] ide_do_refines [of "ide_run cs ide_fresh" "(mem, Some n)" c]
    ide_run_refines [of ide_fresh cs] assms by simp

lemma ide_manager_implements_lock_witness:
  "succeeded (fst (ide_do ((\<lambda>_. True, Some 512), Request_connect ''{}'' 5) (ide_run [] ide_fresh)))"
  using ide_manager_implements_lock [of "\<lambda>_. True" 512 "Request_connect ''{}'' 5" Free "[]"
      "fst (ide_do ((\<lambda>_. True, Some 512), Request_connect ''{}'' 5) (ide_run [] ide_fresh))"
      "snd (ide_do ((\<lambda>_. True, Some 512), Request_connect ''{}'' 5) (ide_run [] ide_fresh))"]
  by (simp del: ide_do.simps ide_run.simps)

section \<open>Keeping and losing the lock\<close>

text \<open>
  The contract of a lock that its owner renews: \<open>renew c t e\<close> is the time of the last sign of
  life of owner \<open>c\<close> after the event \<open>e\<close>, if \<open>c\<close> owns the lock with time
  \<open>t\<close> and cannot lose it by \<open>e\<close>.
\<close>

fun renewals :: "('c \<Rightarrow> int \<Rightarrow> 'e \<Rightarrow> int option) \<Rightarrow> 'c \<Rightarrow> int \<Rightarrow> 'e list \<Rightarrow> int option" where
  "renewals renew c t [] = Some t"
| "renewals renew c t (e # es) = (case renew c t e of None \<Rightarrow> None | Some t' \<Rightarrow> renewals renew c t' es)"

locale renewed_lock =
  fixes holds :: "'s \<Rightarrow> 'c \<Rightarrow> int \<Rightarrow> bool" and step :: "'e \<Rightarrow> 's \<Rightarrow> 's" and renew :: "'c \<Rightarrow> int \<Rightarrow> 'e \<Rightarrow> int option"
  assumes unique: "holds s c t \<Longrightarrow> holds s c' t' \<Longrightarrow> c' = c"
    and kept: "holds s c t \<Longrightarrow> renew c t e = Some t' \<Longrightarrow> holds (step e s) c t'"
begin

lemma kept_run: "holds s c t \<Longrightarrow> renewals renew c t es = Some t' \<Longrightarrow> holds (fold step es s) c t'"
  by (induction es arbitrary: s t) (auto split: option.splits dest: kept)

lemma only_owner: "holds s c t \<Longrightarrow> renewals renew c t es = Some t' \<Longrightarrow> holds (fold step es s) d u \<Longrightarrow> d = c"
  using kept_run unique by blast

end

fun ide_renew :: "string \<Rightarrow> int \<Rightarrow> ide_env \<times> ide_call \<Rightarrow> int option" where
  "ide_renew c t (env, Request_connect params now) =
     (if client_id_of params = c then Some now
      else if now - t \<le> HEARTBEAT_TIMEOUT_MS then Some t else None)"
| "ide_renew c t (env, Request_disconnect params) = (if client_id_of params = c then None else Some t)"
| "ide_renew c t (env, Ide_heartbeat params now) = (if client_id_of params = c then Some now else Some t)"
| "ide_renew c t (env, Heartbeat_round now) = (if now - t \<le> HEARTBEAT_TIMEOUT_MS then Some t else None)"
| "ide_renew c t (env, Clear_cloud_state) = None"

definition ide_holds :: "ide_manager \<Rightarrow> string \<Rightarrow> int \<Rightarrow> bool" where
  "ide_holds m c t \<longleftrightarrow> im_ok m \<and> (\<exists>i. lock_of m = Held c i t)"

interpretation ide_lock: renewed_lock ide_holds "\<lambda>c m. snd (ide_do c m)" ide_renew
proof
  fix m c t c' t'
  show "ide_holds m c t \<Longrightarrow> ide_holds m c' t' \<Longrightarrow> c' = c" by (auto simp: ide_holds_def)
next
  fix m c t t' and e :: "ide_env \<times> ide_call"
  assume h: "ide_holds m c t" and r: "ide_renew c t e = Some t'"
  obtain env call where e: "e = (env, call)" by (cases e)
  have "im_ok m" using h by (simp add: ide_holds_def)
  note d = ide_do_refines [OF this, of env call]
  from h r e d show "ide_holds (snd (ide_do e m)) c t'"
    by (cases call) (auto simp: ide_holds_def split: if_splits)
qed

lemma ide_run_fold: "ide_run cs m = fold (\<lambda>c m. snd (ide_do c m)) cs m"
  by (induction cs arbitrary: m) simp_all

text \<open>
  C13. An IDE that has the device keeps it as long as it gives a sign of life (a heartbeat or a connection
  request with its client id) at least every two minutes and does not disconnect: whatever the other
  IDEs send in between, the manager stays its, it alone counts as connected, and every connection
  request of another client id is refused and changes nothing.
\<close>

theorem ide_owner_keeps_device:
  assumes "ide_holds m c t" "renewals ide_renew c t cs = Some t'"
    and "client_id_of params \<noteq> c" "now - t' \<le> HEARTBEAT_TIMEOUT_MS" "mem 3" "512 \<le> n"
    and "ide_do ((mem, Some n), Request_connect params now) (ide_run cs m) = (r, m')"
  shows "ide_holds (ide_run cs m) c t' \<and> \<not> succeeded r \<and> ide_holds m' c t'
    \<and> (\<forall>d. ide_connection_manager_is_connected_client True (Some d) m' \<longrightarrow> d = c)"
proof -
  have h: "ide_holds (ide_run cs m) c t'"
    unfolding ide_run_fold by (rule ide_lock.kept_run [OF assms(1,2)])
  then have ok: "im_ok (ide_run cs m)" by (simp add: ide_holds_def)
  have "ide_holds m' c t'"
    using ide_lock.kept [OF h, of "((mem, Some n), Request_connect params now)" t'] assms(3,4,7) by simp
  moreover from this have "\<forall>d. ide_connection_manager_is_connected_client True (Some d) m' \<longrightarrow> d = c"
    by (auto simp: ide_holds_def lock_of_def ide_connection_manager_is_connected_client_def)
  moreover have "\<not> succeeded r"
    using ide_do_answers [OF ok, of "Request_connect params now" mem n] h assms(3-7)
    by (auto simp: ide_holds_def simp del: ide_do.simps)
  ultimately show ?thesis using h by blast
qed

text \<open>The client id of a request that an IDE composed.\<close>

definition connect_params :: "string \<Rightarrow> string" where
  "connect_params c = ''{\"clientId\":\"'' @ escape c @ ''\"}''"

lemma client_id_connect_params:
  assumes "length c < 128" "no_nul c"
  shows "client_id_of (connect_params c) = c"
proof -
  have eq: "connect_params c = ''{'' @ [DQUOTE] @ ''clientId'' @ [DQUOTE] @ CHR '':'' # DQUOTE # escape c @ DQUOTE # ''}''"
    by (simp add: connect_params_def)
  have "json_get_string (Some (connect_params c)) (Some ''clientId'') 128 = Copied c"
    unfolding eq using assms(1) by (intro get_first_string) simp_all
  then show ?thesis using assms by (simp add: client_id_of_def)
qed

lemma ide_owner_keeps_device_witness:
  "\<not> succeeded (fst (ide_do ((\<lambda>_. True, Some 512), Request_connect (connect_params ''b'') 240005)
     (ide_run [((\<lambda>_. True, None), Ide_heartbeat (connect_params ''a'') 120005), ((\<lambda>_. True, None), Heartbeat_round 240005)]
       \<lparr> im_connected = True, im_client_id = ''a'', im_client_info = [], im_last_heartbeat_ms = 5 \<rparr>)))"
proof -
  let ?cs = "[((\<lambda>_. True, None), Ide_heartbeat (connect_params ''a'') 120005), ((\<lambda>_. True, None), Heartbeat_round 240005)] :: (ide_env \<times> ide_call) list"
  let ?m = "\<lparr> im_connected = True, im_client_id = ''a'', im_client_info = [], im_last_heartbeat_ms = 5 \<rparr>"
  have h: "ide_holds ?m ''a'' 5" by (simp add: ide_holds_def im_ok_def lock_of_def)
  have k: "renewals ide_renew ''a'' 5 ?cs = Some 120005" by (simp add: client_id_connect_params)
  have b: "client_id_of (connect_params ''b'') \<noteq> ''a''" by (simp add: client_id_connect_params)
  obtain r m' where d: "ide_do ((\<lambda>_. True, Some 512), Request_connect (connect_params ''b'') 240005) (ide_run ?cs ?m) = (r, m')"
    by (rule prod.exhaust)
  have "\<not> succeeded r"
    by (rule ide_owner_keeps_device [OF h k b _ _ _ d, THEN conjunct2, THEN conjunct1]) simp_all
  then show ?thesis unfolding d by simp
qed

text \<open>The lock is lost by silence: nothing but a sign of life of the owner keeps it past the timeout.\<close>

fun sign_of_life :: "string \<Rightarrow> ide_call \<Rightarrow> bool" where
  "sign_of_life c (Request_connect params now) = (client_id_of params = c)"
| "sign_of_life c (Ide_heartbeat params now) = (client_id_of params = c)"
| "sign_of_life c _ = False"

fun notices :: "int \<Rightarrow> ide_call \<Rightarrow> bool" where
  "notices t (Heartbeat_round now) = (now - t > HEARTBEAT_TIMEOUT_MS)"
| "notices t (Request_connect params now) = (now - t > HEARTBEAT_TIMEOUT_MS)"
| "notices t _ = False"

definition lost :: "string \<Rightarrow> ide_lock \<Rightarrow> bool" where
  "lost c l \<longleftrightarrow> l = Free \<or> owner l \<noteq> c"

lemma silent_step:
  assumes "\<not> sign_of_life c call"
  shows "lost c l \<Longrightarrow> lost c (snd (lock_do call l))"
    and "snd (lock_do call (Held c i t)) = Held c i t \<or> lost c (snd (lock_do call (Held c i t)))"
    and "notices t call \<Longrightarrow> lost c (snd (lock_do call (Held c i t)))"
  using assms by (cases call; cases l; auto simp: lost_def)+

lemma silent_run:
  "\<forall>(env, call) \<in> set cs. \<not> sign_of_life c call \<Longrightarrow> l = Held c i t \<or> lost c l \<Longrightarrow>
   (let l' = fold (\<lambda>(env, call) l. snd (lock_do call l)) cs l in
    (l' = Held c i t \<or> lost c l') \<and> ((\<exists>(env, call) \<in> set cs. notices t call) \<longrightarrow> lost c l') \<and> (lost c l \<longrightarrow> lost c l'))"
proof (induction cs arbitrary: l)
  case (Cons x cs)
  obtain env call where x: "x = (env, call)" by (cases x)
  have "snd (lock_do call l) = Held c i t \<or> lost c (snd (lock_do call l))"
    "notices t call \<Longrightarrow> lost c (snd (lock_do call l))" "lost c l \<Longrightarrow> lost c (snd (lock_do call l))"
    using Cons.prems silent_step(1) [of c call l] silent_step(2) [of c call i t] silent_step(3) [of c call t i] x by auto
  with Cons.IH [of "snd (lock_do call l)"] Cons.prems(1) show ?case by (auto simp: x Let_def)
qed (auto simp: Let_def)

text \<open>
  C36. A silent IDE does not block the device: once a round of the heartbeat thread or the connection
  request of another IDE comes more than two minutes after its last sign of life, it has lost the device,
  whatever else happened in between, and a connection request of another IDE that finds the manager free
  is accepted.
\<close>

theorem ide_silent_owner_loses_device:
  assumes "ide_holds m c t" "\<forall>(env, call) \<in> set cs. \<not> sign_of_life c call"
    and "(env, call) \<in> set cs" "notices t call"
    and "mem 3" "512 \<le> n"
    and "ide_do ((mem, Some n), Request_connect params now) (ide_run cs m) = (r, m')"
  shows "(\<forall>u. \<not> ide_holds (ide_run cs m) c u)
    \<and> (lock_of (ide_run cs m) = Free \<longrightarrow> succeeded r \<and> ide_holds m' (client_id_of params) now)"
proof -
  obtain i where i: "lock_of m = Held c i t" "im_ok m" using assms(1) by (auto simp: ide_holds_def)
  note run = ide_run_refines [OF i(2), of cs]
  have "lost c (lock_of (ide_run cs m))"
    using silent_run [OF assms(2), of "Held c i t" i t] assms(3,4) run by (auto simp: i Let_def)
  then have "\<forall>u. \<not> ide_holds (ide_run cs m) c u" by (auto simp: lost_def ide_holds_def)
  moreover have "succeeded r \<and> ide_holds m' (client_id_of params) now" if "lock_of (ide_run cs m) = Free"
    using ide_do_answers [of "ide_run cs m" "Request_connect params now" mem n]
      ide_do_refines [of "ide_run cs m" "(mem, Some n)" "Request_connect params now"] run that assms(5-7)
    by (simp add: ide_holds_def del: ide_do.simps)
  ultimately show ?thesis by blast
qed

lemma ide_silent_owner_loses_device_witness:
  "\<forall>u. \<not> ide_holds (ide_run [((\<lambda>_. True, None), Heartbeat_round 120006)]
     \<lparr> im_connected = True, im_client_id = ''a'', im_client_info = [], im_last_heartbeat_ms = 5 \<rparr>) ''a'' u"
proof -
  let ?m = "\<lparr> im_connected = True, im_client_id = ''a'', im_client_info = [], im_last_heartbeat_ms = 5 \<rparr>"
  let ?cs = "[((\<lambda>_. True, None), Heartbeat_round 120006)] :: (ide_env \<times> ide_call) list"
  have h: "ide_holds ?m ''a'' 5" by (simp add: ide_holds_def im_ok_def lock_of_def)
  obtain r m' where d: "ide_do ((\<lambda>_. True, Some 512), Request_connect [] 0) (ide_run ?cs ?m) = (r, m')"
    by (rule prod.exhaust)
  show ?thesis
    by (rule ide_silent_owner_loses_device [OF h _ _ _ _ _ d, THEN conjunct1,
          of "(\<lambda>_. True, None)" "Heartbeat_round 120006"]) simp_all
qed

section \<open>Client ids that are too long\<close>

text \<open>
  The handlers ignore that \<^verbatim>\<open>json_get_string\<close> failed: of an id that does not fit they
  use the first 127 characters, so two IDEs whose long ids begin alike are the same client.
\<close>

theorem long_client_ids_collide:
  assumes "\<forall>x \<in> set c. x \<noteq> BSLASH \<and> x \<noteq> DQUOTE" "no_nul c" "128 \<le> length c"
  shows "client_id_of (''{\"clientId\":\"'' @ c @ ''\"}'') = take 127 c"
proof -
  have "json_get_string (Some (''{'' @ [DQUOTE] @ ''clientId'' @ [DQUOTE] @ CHR '':'' # DQUOTE # c @ DQUOTE # ''}'')) (Some ''clientId'') 128
      = Failed (take 127 c)"
    using get_string_cut [OF assms(1), of 128 "''{''" "''clientId''" "''}''"] assms(3) by simp
  then have "client_id_of (''{\"clientId\":\"'' @ c @ ''\"}'') = stored_text ''unknown'' 128 (Failed (take 127 c))"
    by (simp add: client_id_of_def)
  then show ?thesis using assms(2,3) by (simp add: stored_text_cut no_nul_take)
qed

section \<open>Creating and destroying the manager\<close>

text \<open>
  The system objects a manager owns. \<open>ok r\<close>: the system creates the object. The second
  result is what exists after the call.
\<close>

datatype ide_resource = Lock | Heartbeat_lock | Heartbeat_cond | Heartbeat_thread

definition ide_connection_manager_init ::
  "bool \<Rightarrow> (ide_resource \<Rightarrow> bool) \<Rightarrow> int \<times> ide_resource list \<times> ide_manager option" where
  "ide_connection_manager_init args_ok ok =
     (if \<not> args_ok then (-1, [], None)
      else if \<not> ok Lock then (-1, [], Some ide_fresh)
      else if \<not> ok Heartbeat_lock then (-1, removeAll Lock [Lock], Some ide_fresh)
      else if \<not> ok Heartbeat_cond then
        (-1, removeAll Lock (removeAll Heartbeat_lock [Lock, Heartbeat_lock]), Some ide_fresh)
      else if \<not> ok Heartbeat_thread then
        (-1, removeAll Lock (removeAll Heartbeat_lock (removeAll Heartbeat_cond [Lock, Heartbeat_lock, Heartbeat_cond])),
         Some ide_fresh)
      else (0, [Lock, Heartbeat_lock, Heartbeat_cond, Heartbeat_thread], Some ide_fresh))"

definition ide_connection_manager_cleanup :: "bool \<Rightarrow> ide_resource list \<Rightarrow> ide_resource list" where
  "ide_connection_manager_cleanup manager_ok live =
     (if \<not> manager_ok then live
      else removeAll Lock (removeAll Heartbeat_lock (removeAll Heartbeat_cond (removeAll Heartbeat_thread live))))"

lemma ide_init_balanced:
  "ide_connection_manager_init args_ok ok = (rc, live, m) \<Longrightarrow>
   (rc \<noteq> 0 \<longrightarrow> live = []) \<and> (rc = 0 \<longrightarrow> m = Some ide_fresh \<and> ide_connection_manager_cleanup True live = [])"
  by (auto simp: ide_connection_manager_init_def ide_connection_manager_cleanup_def split: if_splits)

end
