(* ===== verification/Deploy_Manager.thy ===== *)
theory Deploy_Manager
  imports Json_Text Shell_Utils
begin

text \<open>
  The deployment of a project (\<^verbatim>\<open>src/deploy_manager.c\<close>): a request starts one
  worker thread, which downloads and unpacks an archive and runs a command. What the worker does to the
  system is the list of its actions, in order; the answers of the system are the record
  \<open>deploy_env\<close>. An append to a text builder either adds its text or, without memory, changes
  nothing (theory String_Builder); \<open>de_append i\<close> says so for the worker's \<open>i\<close>-th.
\<close>

section \<open>Answers and reports\<close>

definition deploy_result_text :: "bool \<Rightarrow> string \<Rightarrow> string \<Rightarrow> string" where
  "deploy_result_text success escaped_message escaped_log =
     ''{\"success\":'' @ (if success then ''1'' else ''0'') @ '',\"message\":\"'' @ escaped_message
       @ ''\",\"deployLog\":\"'' @ escaped_log @ ''\"}''"

definition deploy_build_result_json ::
  "(nat \<Rightarrow> bool) \<Rightarrow> bool \<Rightarrow> string \<Rightarrow> string \<Rightarrow> nat option \<Rightarrow> int \<times> string option" where
  "deploy_build_result_json mem success message deploy_log response =
     (case response of
        None \<Rightarrow> (-1, None)
      | Some response_size \<Rightarrow>
          if response_size = 0 then (-1, None)
          else (case (escape_alloc (mem 0) (Some message), escape_alloc (mem 1) (Some deploy_log)) of
                  (Some escaped_message, Some escaped_log) \<Rightarrow>
                    let t = deploy_result_text success escaped_message escaped_log in
                    (if length t < response_size then 0 else -1, Some (snprintf response_size t))
                | _ \<Rightarrow> (-1, None)))"

definition deploy_status_text ::
  "bool \<Rightarrow> string \<Rightarrow> string \<Rightarrow> int \<Rightarrow> string \<Rightarrow> string \<Rightarrow> string" where
  "deploy_status_text success escaped_message escaped_log now_ms escaped_project escaped_path =
     ''{\"success\":'' @ (if success then ''true'' else ''false'') @ '',\"message\":\"'' @ escaped_message
       @ ''\",\"deployLog\":\"'' @ escaped_log @ ''\",\"timestamp\":'' @ int_dec now_ms
       @ '',\"projectName\":\"'' @ escaped_project @ ''\",\"deployPath\":\"'' @ escaped_path @ ''\"}''"

text \<open>
  The properties posted. The memory answers in the order of the code: two builders, four escaped texts,
  the status, its escaped copy, the parameters. When the first builder has no memory the second one is
  freed without having been initialised.
\<close>

definition deploy_report_status ::
  "(nat \<Rightarrow> bool) \<Rightarrow> bool \<Rightarrow> string \<Rightarrow> string \<Rightarrow> string \<Rightarrow> string \<Rightarrow> int \<Rightarrow> string list outcome" where
  "deploy_report_status mem success message deploy_log project_name deploy_path now_ms =
     (if \<not> mem 0 then Undef
      else if \<not> mem 1 then Ok []
      else case (escape_alloc (mem 2) (Some message), escape_alloc (mem 3) (Some deploy_log),
                 escape_alloc (mem 4) (Some project_name), escape_alloc (mem 5) (Some deploy_path)) of
        (Some escaped_message, Some escaped_log, Some escaped_project, Some escaped_path) \<Rightarrow>
          (let status = (if mem 6 then deploy_status_text success escaped_message escaped_log now_ms
                           escaped_project escaped_path else []) in
           case escape_alloc (mem 7) (Some status) of
             None \<Rightarrow> Ok []
           | Some escaped_status \<Rightarrow>
               Ok [if mem 8 then ''{\"deployStatus\":\"'' @ escaped_status @ ''\"}'' else []])
      | _ \<Rightarrow> Ok [])"

section \<open>The task\<close>

definition sanitize_char :: "char \<Rightarrow> char" where
  "sanitize_char ch =
     (let c = of_char ch :: nat in
      if (97 \<le> c \<and> c \<le> 122) \<or> (65 \<le> c \<and> c \<le> 90) \<or> (48 \<le> c \<and> c \<le> 57) \<or> ch = CHR ''-'' \<or> ch = CHR ''_''
      then ch else CHR ''_'')"

definition deploy_sanitize_name :: "string option \<Rightarrow> nat \<Rightarrow> string" where
  "deploy_sanitize_name input output_size =
     (case input of
        None \<Rightarrow> snprintf output_size ''project''
      | Some s \<Rightarrow>
          if s = [] then snprintf output_size ''project''
          else (let t = map sanitize_char (take (output_size - 1) s) in
                if t = [] then snprintf output_size ''project'' else t))"

record deploy_task =
  dt_project_name :: string
  dt_download_url :: string
  dt_deploy_path :: string
  dt_deploy_command :: string

definition deploy_task_of :: "string \<Rightarrow> deploy_task" where
  "deploy_task_of params = \<lparr>
     dt_project_name = stored_text ''project'' 128 (json_get_string (Some params) (Some ''projectName'') 128),
     dt_download_url = stored_text [] 1024 (json_get_string (Some params) (Some ''downloadUrl'') 1024),
     dt_deploy_path = stored_text ''/tmp/deploy'' 512 (json_get_string (Some params) (Some ''deployPath'') 512),
     dt_deploy_command = stored_text [] 1024 (json_get_string (Some params) (Some ''deployCommand'') 1024) \<rparr>"

section \<open>The worker\<close>

datatype deploy_action =
    Ensure_directory string
  | Remove_tree string
  | Run_command string "string option" int
  | Report bool string
  | Unlink string

record deploy_env =
  de_log :: bool \<comment> \<open>memory for the log\<close>
  de_append :: "nat \<Rightarrow> bool"
  de_now :: int
  de_ensure :: "string \<Rightarrow> bool" \<comment> \<open>\<^verbatim>\<open>ensure_directory\<close> returns 0\<close>
  de_remove :: "string \<Rightarrow> bool" \<comment> \<open>\<^verbatim>\<open>remove_tree\<close> returns 0\<close>
  de_exists :: "string \<Rightarrow> bool" \<comment> \<open>\<^verbatim>\<open>access(path, F_OK)\<close> returns 0\<close>
  de_run :: "string \<Rightarrow> (int \<times> int) \<times> string" \<comment> \<open>result and exit code of \<^verbatim>\<open>run_command_capture\<close>, its output\<close>

text \<open>A step gives its result, the actions and the texts appended to the log.\<close>

definition download_command :: "string \<Rightarrow> string \<Rightarrow> string" where
  "download_command quoted_zip quoted_url =
     ''if command -v curl >/dev/null 2>&1; then curl -L --fail -o '' @ quoted_zip @ '' '' @ quoted_url
     @ ''; elif command -v wget >/dev/null 2>&1; then wget -O '' @ quoted_zip @ '' '' @ quoted_url
     @ ''; else echo '' @ [SQUOTE] @ ''curl or wget is required for deployProject'' @ [SQUOTE]
     @ '' >&2; exit 127; fi''"

definition deploy_download_zip :: "deploy_env \<Rightarrow> deploy_task \<Rightarrow> string \<Rightarrow> int \<times> deploy_action list \<times> string list" where
  "deploy_download_zip env task zip_path =
     (case (shell_quote (Some (dt_download_url task)) 2048, shell_quote (Some zip_path) 8192) of
        (Some quoted_url, Some quoted_zip) \<Rightarrow>
          (let command = snprintf 65536 (download_command quoted_zip quoted_url) in
           case de_run env command of ((rc, exit_code), out) \<Rightarrow>
             (if rc \<noteq> 0 \<or> exit_code \<noteq> 0 then -1 else 0, [Run_command command None 300],
              [''=== download ==='' @ [LF], ''url='' @ dt_download_url task @ [LF], out]))
      | _ \<Rightarrow> (-1, [], []))"

definition extract_command :: "string \<Rightarrow> string \<Rightarrow> string" where
  "extract_command quoted_zip quoted_target =
     ''if command -v unzip >/dev/null 2>&1; then unzip -oq '' @ quoted_zip @ '' -d '' @ quoted_target
     @ ''; elif command -v busybox >/dev/null 2>&1; then busybox unzip -o '' @ quoted_zip @ '' -d '' @ quoted_target
     @ ''; else echo '' @ [SQUOTE] @ ''unzip or busybox unzip is required for deployProject'' @ [SQUOTE]
     @ '' >&2; exit 127; fi''"

definition deploy_extract_zip :: "deploy_env \<Rightarrow> string \<Rightarrow> string \<Rightarrow> int \<times> deploy_action list \<times> string list" where
  "deploy_extract_zip env zip_path target_path =
     (if \<not> de_remove env target_path \<and> de_exists env target_path then (-1, [Remove_tree target_path], [])
      else if \<not> de_ensure env target_path then (-1, [Remove_tree target_path, Ensure_directory target_path], [])
      else case (shell_quote (Some zip_path) 8192, shell_quote (Some target_path) 8192) of
        (Some quoted_zip, Some quoted_target) \<Rightarrow>
          (let command = snprintf 65536 (extract_command quoted_zip quoted_target) in
           case de_run env command of ((rc, exit_code), out) \<Rightarrow>
             (if rc \<noteq> 0 \<or> exit_code \<noteq> 0 then -1 else 0,
              [Remove_tree target_path, Ensure_directory target_path, Run_command command None 600],
              [''=== extract ==='' @ [LF], out]))
      | _ \<Rightarrow> (-1, [Remove_tree target_path, Ensure_directory target_path], []))"

definition zip_path_of :: "deploy_env \<Rightarrow> deploy_task \<Rightarrow> string" where
  "zip_path_of env task =
     snprintf 4096 (''/tmp/'' @ deploy_sanitize_name (Some (dt_project_name task)) 128 @ ''-'' @ int_dec (de_now env) @ ''.zip'')"

definition target_path_of :: "deploy_task \<Rightarrow> string" where
  "target_path_of task = snprintf 4096 (dt_deploy_path task @ ''/'' @ dt_project_name task)"

text \<open>The deploy command, if there is one; the exit code that the log names on a failure.\<close>

definition deploy_command_step :: "deploy_env \<Rightarrow> deploy_task \<Rightarrow> int \<times> deploy_action list \<times> string list" where
  "deploy_command_step env task =
     (if dt_deploy_command task = [] then (0, [], [])
      else case de_run env (dt_deploy_command task) of ((rc, exit_code), out) \<Rightarrow>
        (if rc \<noteq> 0 \<or> exit_code \<noteq> 0 then -1 else 0,
         [Run_command (dt_deploy_command task) (Some (target_path_of task)) 600],
         [''=== deploy command ==='' @ [LF], ''$ '' @ dt_deploy_command task @ [LF], out]
         @ (if rc \<noteq> 0 \<or> exit_code \<noteq> 0
            then [''deploy command failed, exitCode='' @ int_dec exit_code @ [LF]] else [])))"

text \<open>
  The steps in their order, up to the first that fails: the actions before \<^verbatim>\<open>cleanup\<close>,
  the outcome that is reported, and the texts for the log.
\<close>

definition worker_steps :: "deploy_env \<Rightarrow> deploy_task \<Rightarrow> deploy_action list \<times> (bool \<times> string) \<times> string list" where
  "worker_steps env task =
     (let start = [''projectName='' @ dt_project_name task @ [LF], ''deployPath='' @ dt_deploy_path task @ [LF],
                   ''targetPath='' @ target_path_of task @ [LF]];
          zip = zip_path_of env task in
      if \<not> de_ensure env (dt_deploy_path task) then
        ([Ensure_directory (dt_deploy_path task)], (False, ''failed to create deploy root directory''),
         start @ [''failed to create deploy root directory'' @ [LF]])
      else case deploy_download_zip env task zip of (rc1, a1, l1) \<Rightarrow>
        if rc1 \<noteq> 0 then
          (Ensure_directory (dt_deploy_path task) # a1, (False, ''download step failed''),
           start @ l1 @ [''download step failed'' @ [LF]])
        else case deploy_extract_zip env zip (target_path_of task) of (rc2, a2, l2) \<Rightarrow>
          if rc2 \<noteq> 0 then
            (Ensure_directory (dt_deploy_path task) # a1 @ a2, (False, ''extract step failed''),
             start @ l1 @ l2 @ [''extract step failed'' @ [LF]])
          else case deploy_command_step env task of (rc3, a3, l3) \<Rightarrow>
            if rc3 \<noteq> 0 then
              (Ensure_directory (dt_deploy_path task) # a1 @ a2 @ a3, (False, ''deploy command failed''),
               start @ l1 @ l2 @ l3)
            else
              (Ensure_directory (dt_deploy_path task) # a1 @ a2 @ a3, (True, ''deploy success''),
               start @ l1 @ l2 @ l3 @ [''deploy finished successfully'' @ [LF]]))"

text \<open>The log: the texts whose append had memory.\<close>

definition log_text :: "(nat \<Rightarrow> bool) \<Rightarrow> string list \<Rightarrow> string" where
  "log_text ok texts = concat (map snd (filter (\<lambda>(i, t). ok i) (enumerate 0 texts)))"

text \<open>The actions, the log, and whether the busy flag was cleared.\<close>

definition deploy_worker :: "deploy_env \<Rightarrow> deploy_task option \<Rightarrow> deploy_action list \<times> string \<times> bool" where
  "deploy_worker env task =
     (case task of
        None \<Rightarrow> ([], [], False)
      | Some t \<Rightarrow>
          if \<not> de_log env then ([], [], False)
          else case worker_steps env t of
            (actions, (success, message), texts) \<Rightarrow>
              (actions @ [Report success message, Unlink (zip_path_of env t)], log_text (de_append env) texts, True))"

section \<open>The manager\<close>

text \<open>The flag \<open>busy\<close>, and the worker threads that run with their tasks.\<close>

record deploy_manager =
  dm_busy :: bool
  dm_workers :: "deploy_task list"

record deploy_call =
  dc_mem :: "nat \<Rightarrow> bool" \<comment> \<open>memory for the answer\<close>
  dc_report :: "nat \<Rightarrow> bool" \<comment> \<open>memory for the report\<close>
  dc_task :: bool \<comment> \<open>memory for the task\<close>
  dc_thread :: bool \<comment> \<open>\<^verbatim>\<open>pthread_create\<close> returns 0\<close>
  dc_now :: int
  dc_response :: "nat option"

record deploy_result =
  dr_rc :: int
  dr_response :: "string option"
  dr_posted :: "string list outcome"

definition deploy_answer :: "deploy_call \<Rightarrow> bool \<Rightarrow> string \<Rightarrow> string list outcome \<Rightarrow> deploy_result" where
  "deploy_answer call success message posted =
     (case deploy_build_result_json (dc_mem call) success message [] (dc_response call) of
        (rc, text) \<Rightarrow> \<lparr> dr_rc = rc, dr_response = text, dr_posted = posted \<rparr>)"

definition deploy_manager_handle_deploy ::
  "bool \<Rightarrow> string option \<Rightarrow> deploy_call \<Rightarrow> deploy_manager \<Rightarrow> deploy_result \<times> deploy_manager" where
  "deploy_manager_handle_deploy manager_ok params_json call m =
     (case params_json of
        None \<Rightarrow> (\<lparr> dr_rc = -1, dr_response = None, dr_posted = Ok [] \<rparr>, m)
      | Some params \<Rightarrow>
          if \<not> manager_ok then (\<lparr> dr_rc = -1, dr_response = None, dr_posted = Ok [] \<rparr>, m)
          else if \<not> dc_task call then (deploy_answer call False ''failed to allocate deploy task'' (Ok []), m)
          else (let task = deploy_task_of params in
            if dt_download_url task = [] then
              (deploy_answer call False ''downloadUrl is empty''
                 (deploy_report_status (dc_report call) False ''downloadUrl is empty'' [] (dt_project_name task)
                    (dt_deploy_path task) (dc_now call)), m)
            else if dm_busy m then
              (deploy_answer call False ''another deploy task is still running'' (Ok []), m)
            else
              (let m1 = m \<lparr> dm_busy := True \<rparr> in
               if \<not> dc_thread call then
                 (deploy_answer call False ''failed to create deploy worker'' (Ok []), m1 \<lparr> dm_busy := False \<rparr>)
               else
                 (deploy_answer call True ''deploy task received, executing asynchronously'' (Ok []),
                  m1 \<lparr> dm_workers := task # dm_workers m1 \<rparr>))))"

text \<open>The worker of a task returns: the flag as \<open>deploy_worker\<close> left it.\<close>

definition worker_returns :: "deploy_env \<Rightarrow> deploy_task \<Rightarrow> deploy_manager \<Rightarrow> deploy_manager" where
  "worker_returns env task m =
     (case deploy_worker env (Some task) of
        (actions, log, cleared) \<Rightarrow>
          m \<lparr> dm_busy := dm_busy m \<and> \<not> cleared, dm_workers := remove1 task (dm_workers m) \<rparr>)"

inductive deploy_step :: "deploy_manager \<Rightarrow> deploy_manager \<Rightarrow> bool" where
  handle: "deploy_step m (snd (deploy_manager_handle_deploy True (Some params) call m))"
| returns: "task \<in> set (dm_workers m) \<Longrightarrow> deploy_step m (worker_returns env task m)"

inductive_cases deploy_stepE: "deploy_step m m'"

definition deploy_fresh :: deploy_manager where
  "deploy_fresh = \<lparr> dm_busy = False, dm_workers = [] \<rparr>"

text \<open>\<^verbatim>\<open>deploy_manager_init\<close> and \<^verbatim>\<open>deploy_manager_cleanup\<close>: the two system objects; the cleanup first waits for the flag.\<close>

definition deploy_manager_init :: "bool \<Rightarrow> bool \<Rightarrow> bool \<Rightarrow> int \<times> nat \<times> deploy_manager option" where
  "deploy_manager_init args_ok lock_ok cond_ok =
     (if \<not> args_ok then (-1, 0, None)
      else if \<not> lock_ok then (-1, 0, Some deploy_fresh)
      else if \<not> cond_ok then (-1, 1 - 1, Some deploy_fresh)
      else (0, 2, Some deploy_fresh))"

definition cleanup_waits :: "deploy_manager \<Rightarrow> bool" where
  "cleanup_waits m = dm_busy m"

section \<open>One deployment at a time\<close>

definition one_worker :: "deploy_manager \<Rightarrow> bool" where
  "one_worker m \<longleftrightarrow> length (dm_workers m) \<le> 1 \<and> (dm_workers m \<noteq> [] \<longrightarrow> dm_busy m)"

lemma handle_cases:
  "snd (deploy_manager_handle_deploy True (Some params) call m) = m
   \<or> (\<not> dm_busy m \<and> snd (deploy_manager_handle_deploy True (Some params) call m)
        = m \<lparr> dm_busy := True, dm_workers := deploy_task_of params # dm_workers m \<rparr>)"
  by (cases m) (simp add: deploy_manager_handle_deploy_def Let_def)

lemma one_worker_step: "deploy_step m m' \<Longrightarrow> one_worker m \<Longrightarrow> one_worker m'"
proof (erule deploy_stepE)
  fix params call
  assume "m' = snd (deploy_manager_handle_deploy True (Some params) call m)" "one_worker m"
  then show "one_worker m'"
    using handle_cases [of params call m] by (auto simp: one_worker_def)
next
  fix task env
  assume a: "m' = worker_returns env task m" "task \<in> set (dm_workers m)" "one_worker m"
  then have "dm_workers m = [task]" by (cases "dm_workers m") (auto simp: one_worker_def)
  with a(1) show "one_worker m'" by (auto simp: one_worker_def worker_returns_def split: prod.splits)
qed

text \<open>
  C26. Whatever requests arrive and however workers end, at most one deployment runs at a time, the busy
  flag is set while it runs, and a request is then refused without touching anything.
\<close>

theorem deploy_one_at_a_time:
  assumes "deploy_step\<^sup>*\<^sup>* deploy_fresh m"
  shows "length (dm_workers m) \<le> 1 \<and> (dm_workers m \<noteq> [] \<longrightarrow> dm_busy m
    \<and> snd (deploy_manager_handle_deploy True (Some params) call m) = m)"
proof -
  have "one_worker m" using assms
  proof induction
    case base
    show ?case by (simp add: one_worker_def deploy_fresh_def)
  qed (rule one_worker_step)
  then show ?thesis using handle_cases [of params call m] by (auto simp: one_worker_def)
qed

lemma download_url_of:
  "length u < 1024 \<Longrightarrow> no_nul u \<Longrightarrow>
   dt_download_url (deploy_task_of (''{'' @ [DQUOTE] @ ''downloadUrl'' @ [DQUOTE] @ CHR '':'' # DQUOTE # escape u @ DQUOTE # rest)) = u"
  by (simp only: deploy_task_of_def deploy_task.simps)
    (simp only: get_first_string [of u 1024 "''downloadUrl''" rest] list.size, simp)

lemma deploy_one_at_a_time_witness:
  "length (dm_workers (snd (deploy_manager_handle_deploy True
     (Some (''{'' @ [DQUOTE] @ ''downloadUrl'' @ [DQUOTE] @ CHR '':'' # DQUOTE # escape ''u'' @ DQUOTE # ''}''))
     \<lparr> dc_mem = (\<lambda>_. True), dc_report = (\<lambda>_. True), dc_task = True, dc_thread = True, dc_now = 0, dc_response = None \<rparr>
     deploy_fresh))) = 1"
proof -
  let ?p = "''{'' @ [DQUOTE] @ ''downloadUrl'' @ [DQUOTE] @ CHR '':'' # DQUOTE # escape ''u'' @ DQUOTE # ''}''"
  let ?call = "\<lparr> dc_mem = (\<lambda>_. True), dc_report = (\<lambda>_. True), dc_task = True, dc_thread = True, dc_now = 0, dc_response = None \<rparr>"
  let ?m = "snd (deploy_manager_handle_deploy True (Some ?p) ?call deploy_fresh)"
  have "deploy_step\<^sup>*\<^sup>* deploy_fresh ?m" by (rule r_into_rtranclp, rule deploy_step.handle)
  then have "length (dm_workers ?m) \<le> 1" by (rule deploy_one_at_a_time [THEN conjunct1])
  moreover have "dt_download_url (deploy_task_of ?p) \<noteq> []"
    using download_url_of [of "''u''" "''}''"] by simp
  then have "dm_workers ?m \<noteq> []"
    unfolding deploy_manager_handle_deploy_def by (simp add: Let_def deploy_fresh_def del: append_Cons)
  ultimately show ?thesis by (cases "dm_workers ?m") (simp_all del: append_Cons)
qed

text \<open>
  When the worker finds no memory for its log, it leaves without clearing the busy flag: from then on
  every deployment is refused and the cleanup of the manager waits for ever, in every later state.
\<close>

theorem deploy_log_failure_blocks:
  assumes "dm_workers m = [task]" "dm_busy m" "\<not> de_log env"
    and "deploy_step\<^sup>*\<^sup>* (worker_returns env task m) m'"
  shows "cleanup_waits m' \<and> dm_workers m' = []
    \<and> snd (deploy_manager_handle_deploy True (Some params) call m') = m'"
proof -
  have "dm_busy m' \<and> dm_workers m' = []" using assms(4)
  proof induction
    case base
    then show ?case using assms(1-3) by (simp add: worker_returns_def deploy_worker_def)
  next
    case (step y z)
    from step.hyps(2) show ?case
    proof (cases rule: deploy_step.cases)
      case (handle params call)
      then show ?thesis using step.IH handle_cases [of params call y] by auto
    qed (use step.IH in simp)
  qed
  then show ?thesis using handle_cases [of params call m'] by (auto simp: cleanup_waits_def)
qed

lemma deploy_log_failure_blocks_witness:
  "cleanup_waits (worker_returns \<lparr> de_log = False, de_append = (\<lambda>_. True), de_now = 0, de_ensure = (\<lambda>_. True),
      de_remove = (\<lambda>_. True), de_exists = (\<lambda>_. True), de_run = (\<lambda>_. ((0, 0), [])) \<rparr>
     (deploy_task_of []) \<lparr> dm_busy = True, dm_workers = [deploy_task_of []] \<rparr>)"
  by (rule deploy_log_failure_blocks [OF _ _ _ rtranclp.rtrancl_refl, THEN conjunct1]) simp_all

section \<open>What the worker does\<close>

definition root_of :: "deploy_task \<Rightarrow> deploy_action" where
  "root_of t = Ensure_directory (dt_deploy_path t)"

definition download_of :: "deploy_env \<Rightarrow> deploy_task \<Rightarrow> deploy_action" where
  "download_of env t = Run_command (snprintf 65536 (download_command
     (the (shell_quote (Some (zip_path_of env t)) 8192)) (the (shell_quote (Some (dt_download_url t)) 2048)))) None 300"

definition extract_of :: "deploy_env \<Rightarrow> deploy_task \<Rightarrow> deploy_action" where
  "extract_of env t = Run_command (snprintf 65536 (extract_command
     (the (shell_quote (Some (zip_path_of env t)) 8192)) (the (shell_quote (Some (target_path_of t)) 8192)))) None 600"

text \<open>All the steps of a deployment.\<close>

definition plan :: "deploy_env \<Rightarrow> deploy_task \<Rightarrow> deploy_action list" where
  "plan env t = [root_of t, download_of env t, Remove_tree (target_path_of t), Ensure_directory (target_path_of t),
       extract_of env t]
     @ (if dt_deploy_command t = [] then [] else [Run_command (dt_deploy_command t) (Some (target_path_of t)) 600])"

fun step_done :: "deploy_env \<Rightarrow> deploy_action \<Rightarrow> bool" where
  "step_done env (Ensure_directory p) = de_ensure env p"
| "step_done env (Remove_tree p) = (de_remove env p \<or> \<not> de_exists env p)"
| "step_done env (Run_command c d t) = (fst (de_run env c) = (0, 0))"
| "step_done env _ = True"

lemma download_steps:
  "deploy_download_zip env t (zip_path_of env t) = (rc, a, l) \<Longrightarrow>
   (a = [] \<and> rc = -1) \<or> (a = [download_of env t] \<and> (rc = 0 \<longleftrightarrow> step_done env (download_of env t)))"
  by (auto simp: deploy_download_zip_def download_of_def Let_def split: option.splits prod.splits if_splits)

lemma extract_steps:
  "deploy_extract_zip env (zip_path_of env t) (target_path_of t) = (rc, a, l) \<Longrightarrow>
   (\<exists>k \<in> {1, 2, 3}. a = take k [Remove_tree (target_path_of t), Ensure_directory (target_path_of t), extract_of env t]
     \<and> (rc = 0 \<longleftrightarrow> k = 3 \<and> step_done env (extract_of env t)) \<and>
     (1 < k \<longrightarrow> step_done env (Remove_tree (target_path_of t))) \<and>
     (2 < k \<longrightarrow> step_done env (Ensure_directory (target_path_of t))))"
  by (auto simp: deploy_extract_zip_def extract_of_def Let_def split: option.splits prod.splits if_splits)

lemma command_steps:
  "deploy_command_step env t = (rc, a, l) \<Longrightarrow>
   a = drop 5 (plan env t) \<and> (rc = 0 \<longleftrightarrow> (\<forall>x \<in> set a. step_done env x))"
  by (auto simp: deploy_command_step_def plan_def split: prod.splits if_splits)

text \<open>The first \<open>k\<close> steps were taken, and all but the last of them were done.\<close>

definition taken :: "deploy_env \<Rightarrow> deploy_task \<Rightarrow> nat \<Rightarrow> bool \<Rightarrow> bool" where
  "taken env t k success \<longleftrightarrow> k \<le> length (plan env t) \<and> (\<forall>i < k - 1. step_done env (plan env t ! i))
     \<and> (success \<longleftrightarrow> k = length (plan env t) \<and> (\<forall>a \<in> set (plan env t). step_done env a))"

lemma plan_steps:
  "plan env t = root_of t # download_of env t # Remove_tree (target_path_of t) # Ensure_directory (target_path_of t)
     # extract_of env t # drop 5 (plan env t)"
  by (simp add: plan_def)

lemma five_steps: "5 \<le> length (plan env t)"
  by (simp add: plan_def)

lemma early_stop:
  "k < 5 \<or> k = 5 \<and> \<not> step_done env (extract_of env t) \<Longrightarrow> \<forall>i < k - 1. step_done env (plan env t ! i) \<Longrightarrow> taken env t k False"
proof -
  assume k: "k < 5 \<or> k = 5 \<and> \<not> step_done env (extract_of env t)" "\<forall>i < k - 1. step_done env (plan env t ! i)"
  have "extract_of env t \<in> set (plan env t)" by (simp add: plan_def)
  then have "\<not> (k = length (plan env t) \<and> (\<forall>a \<in> set (plan env t). step_done env a))"
    using k(1) five_steps [of env t] by auto
  then show ?thesis using k five_steps [of env t] unfolding taken_def by auto
qed

lemma root_done: "step_done env (root_of t) \<longleftrightarrow> de_ensure env (dt_deploy_path t)"
  by (simp add: root_of_def)

lemma plan_takes: "take 1 (plan env t) = [root_of t]" "take 2 (plan env t) = [root_of t, download_of env t]"
  by (simp_all add: plan_def)

lemma all_taken:
  assumes "\<forall>a \<in> set (take 5 (plan env t)). step_done env a"
    and "rc = 0 \<longleftrightarrow> (\<forall>a \<in> set (drop 5 (plan env t)). step_done env a)"
  shows "taken env t (length (plan env t)) (rc = (0 :: int))"
proof -
  have "set (plan env t) = set (take 5 (plan env t)) \<union> set (drop 5 (plan env t))"
    by (metis append_take_drop_id set_append)
  moreover have "length (drop 5 (plan env t)) \<le> 1" by (simp add: plan_def)
  then have "i < length (plan env t) - 1 \<Longrightarrow> plan env t ! i \<in> set (take 5 (plan env t))" for i
    by (auto simp: in_set_conv_nth intro: exI [of _ i])
  ultimately show ?thesis using assms by (auto simp: taken_def)
qed

lemma worker_steps_plan:
  "\<exists>k success. taken env t k success \<and> fst (worker_steps env t) = take k (plan env t)
     \<and> fst (fst (snd (worker_steps env t))) = success"
proof -
  obtain rc1 a1 l1 where d: "deploy_download_zip env t (zip_path_of env t) = (rc1, a1, l1)" by (rule prod_cases3)
  obtain rc2 a2 l2 where e: "deploy_extract_zip env (zip_path_of env t) (target_path_of t) = (rc2, a2, l2)" by (rule prod_cases3)
  obtain rc3 a3 l3 where c: "deploy_command_step env t = (rc3, a3, l3)" by (rule prod_cases3)
  note w = worker_steps_def [of env t] d e c Let_def root_of_def [symmetric] root_done
  note p = plan_steps [of env t]
  consider "\<not> step_done env (root_of t)"
    | "step_done env (root_of t)" "rc1 \<noteq> 0"
    | "step_done env (root_of t)" "rc1 = 0" "rc2 \<noteq> 0"
    | "step_done env (root_of t)" "rc1 = 0" "rc2 = 0" by blast
  then show ?thesis
  proof cases
    case 1
    then have "taken env t 1 False" by (intro early_stop) simp_all
    then show ?thesis using 1 plan_takes by (intro exI [of _ 1] exI [of _ False]) (simp add: w)
  next
    case 2
    have "plan env t ! 0 = root_of t" by (simp add: plan_def)
    then have t: "taken env t 1 False" "taken env t 2 False"
      using 2(1) by (intro early_stop; simp)+
    have "a1 = [] \<or> a1 = [download_of env t]" using download_steps [OF d] by blast
    then show ?thesis
      using 2 t plan_takes by (elim disjE; intro exI [of _ "length a1 + 1"] exI [of _ False]) (simp_all add: w numeral_2_eq_2)
  next
    case 3
    obtain k where k: "k \<in> {1, 2, 3}" "a2 = take k [Remove_tree (target_path_of t), Ensure_directory (target_path_of t), extract_of env t]"
      "rc2 = 0 \<longleftrightarrow> k = 3 \<and> step_done env (extract_of env t)"
      "1 < k \<longrightarrow> step_done env (Remove_tree (target_path_of t))"
      "2 < k \<longrightarrow> step_done env (Ensure_directory (target_path_of t))"
      by (rule bexE [OF extract_steps [OF e]]) blast
    have x: "k = 3 \<longrightarrow> \<not> step_done env (extract_of env t)" using k(3) 3(3) by simp
    have dl: "a1 = [download_of env t]" "step_done env (download_of env t)" using download_steps [OF d] 3(2) by auto
    have n: "plan env t ! 0 = root_of t" "plan env t ! 1 = download_of env t"
      "plan env t ! 2 = Remove_tree (target_path_of t)" "plan env t ! 3 = Ensure_directory (target_path_of t)"
      by (simp_all add: plan_def)
    have "taken env t (k + 2) False"
      using k(1,4,5) x 3(1) dl(2) n by (intro early_stop) (auto simp: less_Suc_eq numeral_eq_Suc simp del: step_done.simps)
    moreover have "take (k + 2) (plan env t) = root_of t # download_of env t # a2"
      unfolding k(2) by (subst p) (use k(1) in \<open>auto simp: numeral_eq_Suc\<close>)
    ultimately show ?thesis using 3 dl(1) by (intro exI [of _ "k + 2"] exI [of _ False]) (simp add: w)
  next
    case 4
    have dl: "a1 = [download_of env t]" "step_done env (download_of env t)" using download_steps [OF d] 4(2) by auto
    have ex: "a2 = [Remove_tree (target_path_of t), Ensure_directory (target_path_of t), extract_of env t]"
      "\<forall>x \<in> set a2. step_done env x" using extract_steps [OF e] 4(3) by auto
    have "take 5 (plan env t) = root_of t # a1 @ a2" by (simp add: plan_def dl(1) ex(1))
    then have "taken env t (length (plan env t)) (rc3 = 0)"
      using command_steps [OF c] 4(1) dl ex(2) by (intro all_taken) auto
    moreover have "fst (worker_steps env t) = plan env t"
      using 4 dl(1) ex(1) command_steps [OF c] p by (simp add: w)
    moreover have "fst (fst (snd (worker_steps env t))) = (rc3 = 0)" using 4 by (simp add: w)
    ultimately show ?thesis by (intro exI [of _ "length (plan env t)"] exI [of _ "rc3 = 0"]) simp
  qed
qed

text \<open>
  C25. The worker goes through the steps create the root, fetch the archive, clear and create the
  target, unpack, run the deploy command, in this order and no further than the first step that fails;
  it reports success exactly when all of them were done. It then reports the outcome once, removes the
  archive and clears the busy flag.
\<close>

theorem deploy_worker_plan:
  assumes "deploy_worker env (Some t) = (actions, log, cleared)" "de_log env"
  shows "\<exists>k success message. actions = take k (plan env t) @ [Report success message, Unlink (zip_path_of env t)]
    \<and> cleared \<and> k \<le> length (plan env t) \<and> (\<forall>i < k - 1. step_done env (plan env t ! i))
    \<and> (success \<longleftrightarrow> k = length (plan env t) \<and> (\<forall>a \<in> set (plan env t). step_done env a))"
proof -
  obtain k success where "taken env t k success" "fst (worker_steps env t) = take k (plan env t)"
      "fst (fst (snd (worker_steps env t))) = success" using worker_steps_plan by blast
  moreover obtain as s m texts where "worker_steps env t = (as, (s, m), texts)" by (metis prod.collapse)
  ultimately show ?thesis using assms by (auto simp: deploy_worker_def taken_def)
qed

definition sample_env :: deploy_env where
  "sample_env = \<lparr> de_log = True, de_append = (\<lambda>_. True), de_now = 0, de_ensure = (\<lambda>_. True),
     de_remove = (\<lambda>_. True), de_exists = (\<lambda>_. True), de_run = (\<lambda>_. ((0, 0), [])) \<rparr>"

lemma deploy_worker_plan_witness:
  "\<exists>k success message. fst (deploy_worker sample_env (Some \<lparr> dt_project_name = ''p'', dt_download_url = ''u'',
      dt_deploy_path = ''/d'', dt_deploy_command = ''make'' \<rparr>))
    = take k (plan sample_env \<lparr> dt_project_name = ''p'', dt_download_url = ''u'',
        dt_deploy_path = ''/d'', dt_deploy_command = ''make'' \<rparr>)
      @ [Report success message, Unlink (zip_path_of sample_env \<lparr> dt_project_name = ''p'', dt_download_url = ''u'',
        dt_deploy_path = ''/d'', dt_deploy_command = ''make'' \<rparr>)]"
proof -
  let ?t = "\<lparr> dt_project_name = ''p'', dt_download_url = ''u'', dt_deploy_path = ''/d'', dt_deploy_command = ''make'' \<rparr>"
  obtain as l c where d: "deploy_worker sample_env (Some ?t) = (as, l, c)" by (rule prod_cases3)
  have "de_log sample_env" by (simp add: sample_env_def)
  from deploy_worker_plan [OF d this] show ?thesis unfolding d fst_conv by blast
qed

text \<open>
  \<open>projectName\<close> is not restricted where the target is built, so a name with
  \<^verbatim>\<open>..\<close> makes the worker remove a directory outside the deployment root.
\<close>

lemma target_outside_root:
  assumes "step_done env (root_of t)" "step_done env (download_of env t)"
    and "shell_quote (Some (dt_download_url t)) 2048 \<noteq> None" "shell_quote (Some (zip_path_of env t)) 8192 \<noteq> None"
    and "dt_deploy_path t = ''/tmp/deploy''" "dt_project_name t = ''../../home''"
  shows "Remove_tree ''/tmp/deploy/../../home'' \<in> set (fst (worker_steps env t))"
proof -
  have "target_path_of t = ''/tmp/deploy/../../home''" by (simp add: target_path_of_def assms(5,6))
  then show ?thesis using assms(1-4)
    by (auto simp: worker_steps_def Let_def root_of_def deploy_download_zip_def download_of_def deploy_extract_zip_def
        split: prod.splits option.splits)
qed

text \<open>
  A deploy command of more than 1023 characters is cut: its beginning is executed.
\<close>

lemma deploy_command_cut:
  assumes "\<forall>x \<in> set c. x \<noteq> BSLASH \<and> x \<noteq> DQUOTE" "no_nul c" "1024 \<le> length c"
  shows "dt_deploy_command (deploy_task_of (''{'' @ [DQUOTE] @ ''deployCommand'' @ [DQUOTE] @ CHR '':'' # DQUOTE # c @ DQUOTE # rest))
    = take 1023 c"
proof -
  have "json_get_string (Some (''{'' @ [DQUOTE] @ ''deployCommand'' @ [DQUOTE] @ CHR '':'' # DQUOTE # c @ DQUOTE # rest))
      (Some ''deployCommand'') 1024 = Failed (take 1023 c)"
    using get_string_cut [OF assms(1), of 1024 "''{''" "''deployCommand''" rest] assms(3) by simp
  moreover have "stored_text [] 1024 (Failed (take 1023 c)) = take 1023 c"
    using assms(2,3) by (intro stored_text_cut no_nul_take) simp_all
  ultimately show ?thesis by (simp only: deploy_task_of_def deploy_task.simps)
qed

end
