(* ===== verification/Start_Manager.thy ===== *)
theory Start_Manager
  imports Json_Text Shell_Utils
begin

text \<open>
  Starting a deployed project (\<^verbatim>\<open>src/start_manager.c\<close>). The call sets the busy flag,
  runs the command through \<^verbatim>\<open>start_background_command\<close> and clears the flag; what the
  system does with the processes is the argument \<open>sc_spawn\<close>.
\<close>

record start_manager =
  sm_busy :: bool

record start_call =
  sc_mem :: bool \<comment> \<open>memory for the answer\<close>
  sc_log :: bool \<comment> \<open>memory for the log\<close>
  sc_append :: "nat \<Rightarrow> bool" \<comment> \<open>memory for the \<open>i\<close>-th append to it\<close>
  sc_spawn :: "string \<Rightarrow> string \<Rightarrow> spawn option" \<comment> \<open>for a command and a directory\<close>
  sc_response :: nat

definition start_result_text :: "bool \<Rightarrow> string \<Rightarrow> string" where
  "start_result_text success escaped =
     ''{\"success\":'' @ (if success then ''1'' else ''0'') @ '',\"message\":\"'' @ escaped @ ''\"}''"

definition start_build_result_json :: "bool \<Rightarrow> bool \<Rightarrow> string \<Rightarrow> nat \<Rightarrow> int \<times> string option" where
  "start_build_result_json memory success message response_size =
     (case escape_alloc memory (Some message) of
        None \<Rightarrow> (-1, None)
      | Some escaped \<Rightarrow>
          (let t = start_result_text success escaped in
           (if length t < response_size then 0 else -1,
            if response_size = 0 then None else Some (snprintf response_size t))))"

definition start_manager_init :: "bool \<Rightarrow> bool \<Rightarrow> int \<times> start_manager option" where
  "start_manager_init args_ok lock_ok =
     (if \<not> args_ok then (-1, None) else (if lock_ok then 0 else -1, Some \<lparr> sm_busy = False \<rparr>))"

record start_params =
  st_project_name :: string
  st_deploy_path :: string
  st_start_command :: string

definition start_params_of :: "string \<Rightarrow> start_params" where
  "start_params_of params = \<lparr>
     st_project_name = stored_text ''project'' 128 (json_get_string (Some params) (Some ''projectName'') 128),
     st_deploy_path = stored_text ''/tmp/deploy'' 512 (json_get_string (Some params) (Some ''deployPath'') 512),
     st_start_command = stored_text [] 1024 (json_get_string (Some params) (Some ''startCommand'') 1024) \<rparr>"

definition start_target :: "start_params \<Rightarrow> string" where
  "start_target p = snprintf 768 (st_deploy_path p @ ''/'' @ st_project_name p)"

text \<open>The log after the call of \<^verbatim>\<open>start_background_command\<close>.\<close>

definition start_log :: "(nat \<Rightarrow> bool) \<Rightarrow> start_params \<Rightarrow> start_result \<Rightarrow> string" where
  "start_log ok p r =
     (if ok 0 then ''targetPath='' @ start_target p @ [LF] else [])
     @ (if ok 1 then ''command='' @ st_start_command p @ [LF] else [])
     @ (if ok 2 then sr_output r else [])"

definition start_message :: "(nat \<Rightarrow> bool) \<Rightarrow> start_params \<Rightarrow> start_result \<Rightarrow> bool \<times> string" where
  "start_message ok p r =
     (if sr_rc r = 0 then
        (True, if sr_started r then snprintf 512 (''service started in background, pid='' @ int_dec (sr_child_pid r))
               else snprintf 512 ''start command finished successfully'')
      else
        (False, snprintf 512 (''start failed, exitCode=''
           @ int_dec (case sr_exit_code r of None \<Rightarrow> -1 | Some e \<Rightarrow> e) @ '', log='' @ start_log ok p r)))"

text \<open>The third result is what was started: command and directory.\<close>

definition start_manager_handle_start ::
  "bool \<Rightarrow> string option \<Rightarrow> start_call \<Rightarrow> start_manager
   \<Rightarrow> (int \<times> string option) \<times> start_manager \<times> (string \<times> string) option" where
  "start_manager_handle_start manager_ok params_json call m =
     (case params_json of
        None \<Rightarrow> ((-1, None), m, None)
      | Some params \<Rightarrow>
          if \<not> manager_ok then ((-1, None), m, None)
          else (let p = start_params_of params;
                    answer = (\<lambda>success message. start_build_result_json (sc_mem call) success message (sc_response call)) in
            if st_start_command p = [] then (answer False ''startCommand is empty'', m, None)
            else if sm_busy m then (answer False ''another start task is still running'', m, None)
            else (let m1 = m \<lparr> sm_busy := True \<rparr> in
              if \<not> sc_log call then
                (answer False ''failed to allocate log buffer'', m1 \<lparr> sm_busy := False \<rparr>, None)
              else (let r = start_background_command (Some (st_start_command p)) (Some (start_target p)) 2
                        (sc_spawn call (st_start_command p) (start_target p));
                      (success, message) = start_message (sc_append call) p r in
                (answer success message, m1 \<lparr> sm_busy := False \<rparr>, Some (st_start_command p, start_target p))))))"

text \<open>A request with a command runs it, when the manager is free and has memory for its log.\<close>

lemma start_runs:
  "st_start_command (start_params_of params) \<noteq> [] \<Longrightarrow> \<not> sm_busy m \<Longrightarrow> sc_log call \<Longrightarrow>
   \<exists>a m'. start_manager_handle_start True (Some params) call m =
     (a, m', Some (st_start_command (start_params_of params), start_target (start_params_of params)))"
  by (simp add: start_manager_handle_start_def Let_def split: prod.splits)

definition start_ok :: "(int \<times> string option) \<Rightarrow> bool" where
  "start_ok a \<longleftrightarrow> (\<exists>t. snd a = Some t \<and> has_prefix ''{\"success\":1'' t)"

lemma start_ok_answer:
  "16 \<le> n \<Longrightarrow> start_ok (start_build_result_json memory success message n) \<longleftrightarrow> memory \<and> success"
proof -
  assume n: "16 \<le> n"
  have "has_prefix ''{\"success\":1'' (snprintf n t) \<longleftrightarrow> has_prefix ''{\"success\":1'' t" for t
    using n by (auto simp: has_prefix_def snprintf_def min_def)
  moreover have "has_prefix ''{\"success\":1'' (start_result_text success e) \<longleftrightarrow> success" for e
    by (cases success) (simp_all add: has_prefix_def start_result_text_def)
  ultimately show ?thesis
    using n by (simp add: start_ok_def start_build_result_json_def Let_def)
qed

text \<open>
  The start request runs the command at most once, in the directory of the project, always clears
  the busy flag again, and reports success exactly when the command is still running after the
  confirmation time or has exited with code 0 within it.
\<close>

theorem start_manager_outcome:
  assumes "p = start_params_of params" "st_start_command p \<noteq> []" "\<not> sm_busy m" "sc_log call" "sc_mem call"
    and "16 \<le> sc_response call"
    and "sc_spawn call (st_start_command p) (start_target p) = Some sp" "sp_chdir sp = None"
    and "sp_fork sp = Inr worker" "worker < 10 ^ 10"
    and "\<forall>i st. sp_polls sp i = Some st \<longrightarrow> status_code st < 10 ^ 10"
    and "start_manager_handle_start True (Some params) call m = (a, m', started)"
  shows "m' = m \<and> started = Some (st_start_command p, start_target p)
    \<and> (start_ok a \<longleftrightarrow> (\<forall>i < 20. sp_polls sp i = None)
         \<or> (\<exists>i < 20. sp_polls sp i = Some (Exited 0) \<and> (\<forall>j < i. sp_polls sp j = None)))"
proof -
  let ?r = "start_background_command (Some (st_start_command p)) (Some (start_target p)) 2 (Some sp)"
  have m: "m \<lparr> sm_busy := False \<rparr> = m" using assms(3) by (cases m) simp
  have code0: "status_code st = 0 \<longleftrightarrow> st = Exited 0" for st by (cases st) auto
  have "start_ok a \<longleftrightarrow> sr_rc ?r = 0" "m' = m" "started = Some (st_start_command p, start_target p)"
    using assms(12) assms(2-7) m start_ok_answer [OF assms(6)]
    by (auto simp: start_manager_handle_start_def Let_def assms(1) [symmetric] start_message_def split: prod.splits if_splits)
  moreover have "sr_rc ?r = 0 \<longleftrightarrow> (\<forall>i < 20. sp_polls sp i = None)
      \<or> (\<exists>i < 20. sp_polls sp i = Some (Exited 0) \<and> (\<forall>j < i. sp_polls sp j = None))"
    using start_result_code [of "Some (start_target p)" sp worker "st_start_command p" 2] assms(8-11) code0 by auto
  ultimately show ?thesis by simp
qed

lemma start_manager_outcome_witness:
  "start_ok (fst (start_manager_handle_start True (Some ''{\"startCommand\":\"run\"}'')
     \<lparr> sc_mem = True, sc_log = True, sc_append = (\<lambda>_. True), sc_spawn = (\<lambda>_ _. Some \<lparr> sp_chdir = None, sp_fork = Inr 42,
        sp_polls = (\<lambda>i. None) \<rparr>), sc_response = 1024 \<rparr> \<lparr> sm_busy = False \<rparr>))"
proof -
  let ?sp = "\<lparr> sp_chdir = None, sp_fork = Inr 42, sp_polls = (\<lambda>i. None) \<rparr>"
  let ?call = "\<lparr> sc_mem = True, sc_log = True, sc_append = (\<lambda>_. True), sc_spawn = (\<lambda>_ _. Some ?sp), sc_response = 1024 \<rparr>"
  let ?doc = "''{\"startCommand\":\"run\"}''"
  have p: "st_start_command (start_params_of ?doc) = ''run''" by code_simp
  obtain a m' started where h: "start_manager_handle_start True (Some ?doc) ?call \<lparr> sm_busy = False \<rparr> = (a, m', started)"
    by (rule prod_cases3)
  have "start_ok a"
    using start_manager_outcome [of "start_params_of ?doc" ?doc "\<lparr> sm_busy = False \<rparr>" ?call ?sp 42 a m' started] p h by simp
  then show ?thesis unfolding h by simp
qed

end
