(* ===== verification/Device_Config.thy ===== *)
theory Device_Config
  imports Json_Text
begin

text \<open>
  The configuration of the device (\<^verbatim>\<open>src/device_config.c\<close>): the identity, the
  sub devices of the gateway and the name of the MQTT host. The file is the argument: its bytes, or
  \<open>None\<close> where it cannot be read.
\<close>

record sub_device_config =
  sd_product_key :: string
  sd_device_name :: string
  sd_device_secret :: string
  sd_sign_method :: string

record device_config =
  cf_product_key :: string
  cf_device_name :: string
  cf_device_secret :: string
  cf_instance_id :: string
  cf_region :: string
  cf_sub_devices :: "sub_device_config list"

definition empty_config :: device_config where
  "empty_config = \<lparr> cf_product_key = [], cf_device_name = [], cf_device_secret = [], cf_instance_id = [],
     cf_region = [], cf_sub_devices = [] \<rparr>"

text \<open>One item of the array; \<open>None\<close> where the loop goes on with the next.\<close>

definition sub_device_of :: "string \<Rightarrow> sub_device_config option" where
  "sub_device_of item_json =
     (case (json_get_string (Some item_json) (Some ''productKey'') 128,
            json_get_string (Some item_json) (Some ''deviceName'') 128) of
        (Copied key, Copied name) \<Rightarrow>
          if key = [] \<or> name = [] then None
          else Some \<lparr> sd_product_key = key, sd_device_name = name,
            sd_device_secret = stored_text [] 128 (json_get_string (Some item_json) (Some ''deviceSecret'') 128),
            sd_sign_method = (case json_get_string (Some item_json) (Some ''signMethod'') 32 of
               Copied s \<Rightarrow> if s = [] then snprintf 32 ''hmacsha256'' else s
             | Failed _ \<Rightarrow> snprintf 32 ''hmacsha256'') \<rparr>
      | _ \<Rightarrow> None)"

text \<open>The loop: \<open>n\<close> items are left, the next one is \<open>index\<close>.\<close>

fun sub_devices_loop :: "string \<Rightarrow> nat \<Rightarrow> nat \<Rightarrow> sub_device_config list \<Rightarrow> sub_device_config list" where
  "sub_devices_loop array_json 0 index devices = devices"
| "sub_devices_loop array_json (Suc n) index devices =
     (if length devices \<ge> 8 then devices
      else case json_array_get_item (Some array_json) index 1024 of
        Failed _ \<Rightarrow> sub_devices_loop array_json n (Suc index) devices
      | Copied item_json \<Rightarrow>
          (case sub_device_of item_json of
             None \<Rightarrow> sub_devices_loop array_json n (Suc index) devices
           | Some d \<Rightarrow> sub_devices_loop array_json n (Suc index) (devices @ [d])))"

definition load_array :: "string \<Rightarrow> sub_device_config list" where
  "load_array array_json =
     (let item_count = json_array_size (Some array_json) in
      if item_count \<le> 0 then [] else sub_devices_loop array_json (nat item_count) 0 [])"

definition device_config_load_sub_devices :: "string option \<Rightarrow> device_config \<Rightarrow> device_config" where
  "device_config_load_sub_devices json config =
     (case json of
        None \<Rightarrow> config
      | Some j \<Rightarrow>
          (case json_get_array (Some j) (Some ''subDevice'') 8192 of
             Failed _ \<Rightarrow> config
           | Copied array_json \<Rightarrow> config \<lparr> cf_sub_devices := load_array array_json \<rparr>))"

text \<open>The three texts that must be there are read one after the other, up to the first that fails.\<close>

definition device_config_load :: "bool \<Rightarrow> string option \<Rightarrow> device_config \<Rightarrow> int \<times> device_config" where
  "device_config_load args_ok file config =
     (if \<not> args_ok then (-1, config)
      else case file of
        None \<Rightarrow> (-1, config)
      | Some bytes \<Rightarrow>
          (let json = cstr bytes;
               field = (\<lambda>key n. json_get_string (Some json) (Some key) n);
               c1 = empty_config \<lparr> cf_product_key := stored_text [] 128 (field ''productKey'' 128) \<rparr>;
               c2 = c1 \<lparr> cf_device_name := stored_text [] 128 (field ''deviceName'' 128) \<rparr>;
               c3 = c2 \<lparr> cf_device_secret := stored_text [] 128 (field ''deviceSecret'' 128) \<rparr> in
           case field ''productKey'' 128 of
             Failed _ \<Rightarrow> (-1, c1)
           | Copied _ \<Rightarrow>
               (case field ''deviceName'' 128 of
                  Failed _ \<Rightarrow> (-1, c2)
                | Copied _ \<Rightarrow>
                    (case field ''deviceSecret'' 128 of
                       Failed _ \<Rightarrow> (-1, c3)
                     | Copied _ \<Rightarrow>
                         (0, device_config_load_sub_devices (Some json)
                           (c3 \<lparr> cf_instance_id := stored_text [] 128 (field ''instanceId'' 128),
                                 cf_region := stored_text [] 64 (field ''region'' 64) \<rparr>))))))"

text \<open>The result and the host name in the buffer.\<close>

definition device_config_build_mqtt_host :: "device_config option \<Rightarrow> nat option \<Rightarrow> int \<times> string option" where
  "device_config_build_mqtt_host config host =
     (case (config, host) of
        (Some c, Some host_size) \<Rightarrow>
          if host_size = 0 then (-1, None)
          else if cf_instance_id c \<noteq> [] then
            (0, Some (snprintf host_size (cf_instance_id c @ ''.mqtt.iothub.aliyuncs.com'')))
          else if cf_region c = [] then (-1, None)
          else (0, Some (snprintf host_size (cf_product_key c @ ''.iot-as-mqtt.'' @ cf_region c @ ''.aliyuncs.com'')))
      | _ \<Rightarrow> (-1, None))"

section \<open>The sub devices\<close>

lemma loop_length: "length devices \<le> 8 \<Longrightarrow> length (sub_devices_loop a n index devices) \<le> 8"
  by (induction n arbitrary: index devices) (auto split: json_copy.splits option.splits)

lemma loop_named:
  "\<forall>d \<in> set devices. sd_product_key d \<noteq> [] \<and> sd_device_name d \<noteq> [] \<and> sd_sign_method d \<noteq> [] \<Longrightarrow>
   d \<in> set (sub_devices_loop a n index devices) \<Longrightarrow> sd_product_key d \<noteq> [] \<and> sd_device_name d \<noteq> [] \<and> sd_sign_method d \<noteq> []"
proof (induction n arbitrary: index devices)
  case (Suc n)
  have "sub_device_of i = Some x \<Longrightarrow> sd_product_key x \<noteq> [] \<and> sd_device_name x \<noteq> [] \<and> sd_sign_method x \<noteq> []" for i x
    by (auto simp: sub_device_of_def snprintf_def split: json_copy.splits if_splits)
  with Suc show ?case by (fastforce split: json_copy.splits option.splits if_splits)
qed simp

text \<open>On an array of items that fit the item buffer the loop keeps, in order, the valid ones.\<close>

lemma loop_items:
  assumes "\<forall>t \<in> set ts. item t \<and> length (trim t) < 1024"
  shows "n + index = length ts \<Longrightarrow> length devices \<le> 8 \<Longrightarrow>
    sub_devices_loop (array_text ts) n index devices
      = take 8 (devices @ List.map_filter (\<lambda>t. sub_device_of (trim t)) (drop index ts))"
proof (induction n arbitrary: index devices)
  case 0
  then show ?case by (simp add: map_filter_def)
next
  case (Suc n)
  then have i: "index < length ts" by simp
  then have "json_array_get_item (Some (array_text ts)) index 1024 = Copied (trim (ts ! index))"
    using json_array_item [of ts index "[]" 1024] assms by simp
  moreover have "drop index ts = ts ! index # drop (Suc index) ts" using i by (simp add: Cons_nth_drop_Suc)
  ultimately show ?case
    using Suc.prems Suc.IH [of "Suc index"] by (auto simp: map_filter_simps take_Cons' split: option.splits)
qed

text \<open>
  The sub devices that are loaded from a configuration are the first eight valid ones of the array
  \<^verbatim>\<open>subDevice\<close>, in its order, in whatever layout it is written; every one of them has a product key, a
  device name and a sign method.
\<close>

theorem sub_devices_loaded:
  assumes "\<forall>t \<in> set ts. item t \<and> length (trim t) < 1024"
    and "json_get_array (Some j) (Some ''subDevice'') 8192 = Copied (array_text ts)"
    and "devices = cf_sub_devices (device_config_load_sub_devices (Some j) empty_config)"
  shows "devices = take 8 (List.map_filter (\<lambda>t. sub_device_of (trim t)) ts)
    \<and> (\<forall>d \<in> set devices. sd_product_key d \<noteq> [] \<and> sd_device_name d \<noteq> [] \<and> sd_sign_method d \<noteq> [])"
proof -
  have d: "devices = load_array (array_text ts)"
    using assms(2,3) by (simp add: device_config_load_sub_devices_def)
  show ?thesis
  proof (cases "ts = []")
    case True
    have "json_array_size (Some (array_text [])) = 0"
      by (simp add: json_array_size_def array_text_def json_skip_ws_def isspace_def)
    with True d show ?thesis by (simp add: load_array_def map_filter_def)
  next
    case False
    then have "json_array_size (Some (array_text ts)) = int (length ts)"
      using json_array_count [of ts "[]"] assms(1) by simp
    then have "devices = sub_devices_loop (array_text ts) (length ts) 0 []"
      using False d by (simp add: load_array_def)
    with loop_items [OF assms(1), of "length ts" 0 "[]"] loop_named [of "[]" _ "array_text ts" "length ts" 0]
    show ?thesis by auto
  qed
qed

lemma sample_sub_device:
  "sub_device_of ''{\"productKey\":\"k\",\"deviceName\":\"n\"}''
   = Some \<lparr> sd_product_key = ''k'', sd_device_name = ''n'', sd_device_secret = [], sd_sign_method = ''hmacsha256'' \<rparr>"
  by code_simp

lemma sample_item: "item ''{\"productKey\":\"k\",\"deviceName\":\"n\"}''"
proof -
  have "balanced True ''\"productKey\":\"k\",\"deviceName\":\"n\"''"
    using bal_string [OF bal_nil, of True "''n''"] bal_string [of True _ "''deviceName''"]
      bal_string [of True _ "''k''"] bal_string [of True _ "''productKey''"] bal_char [of _ True]
    by (simp add: plain_def replacement_def)
  from bal_object [OF this bal_nil, of False] show ?thesis by (simp add: item_def has_text_def isspace_def)
qed

lemma sub_devices_loaded_witness:
  "map sd_device_name (cf_sub_devices (device_config_load_sub_devices
     (Some ''{\"subDevice\":[{\"productKey\":\"k\",\"deviceName\":\"n\"}]}'') empty_config)) = [''n'']"
proof -
  let ?t = "''{\"productKey\":\"k\",\"deviceName\":\"n\"}''"
  have t: "trim ?t = ?t" by (simp add: trim_def isspace_def)
  have "json_get_array (Some ''{\"subDevice\":[{\"productKey\":\"k\",\"deviceName\":\"n\"}]}'') (Some ''subDevice'') 8192
      = Copied (array_text [?t])" by code_simp
  from sub_devices_loaded [OF _ this refl] sample_item sample_sub_device t
  show ?thesis by (simp add: map_filter_simps)
qed

text \<open>The host name is never cut for a configuration that was loaded.\<close>

lemma mqtt_host_fits:
  assumes "length (cf_instance_id c) < 128" "length (cf_product_key c) < 128" "length (cf_region c) < 64"
    and "device_config_build_mqtt_host (Some c) (Some 256) = (0, Some host)"
  shows "host = (if cf_instance_id c \<noteq> [] then cf_instance_id c @ ''.mqtt.iothub.aliyuncs.com''
    else cf_product_key c @ ''.iot-as-mqtt.'' @ cf_region c @ ''.aliyuncs.com'')"
  using assms by (auto simp: device_config_build_mqtt_host_def snprintf_fits split: if_splits)

end
