(* ===== verification/Ide_Publish.thy ===== *)
theory Ide_Publish
  imports Json_Text Device_Config "HOL-Library.Word"
begin

text \<open>
  How the IDE application sends (\<^verbatim>\<open>app_publish_topic\<close> and the functions on top of it
  in \<^verbatim>\<open>src/iot_ide_app.c\<close>): over MQTT, or in library mode as an event of the host
  program. What is sent is a list of effects. The memory answers are those of the text builder: its
  creation, and its append, which adds the whole text or nothing (theory String_Builder).
\<close>

datatype app_effect =
    Mqtt_pub string string u8 \<comment> \<open>\<^verbatim>\<open>aiot_mqtt_pub\<close>: topic, payload, QoS\<close>
  | Mqtt_sub string \<comment> \<open>\<^verbatim>\<open>aiot_mqtt_sub\<close>: topic\<close>
  | Runtime_event string string \<comment> \<open>the event callback: name, JSON\<close>

text \<open>The fields of \<^verbatim>\<open>AppContext\<close> the functions use, and the answers of the MQTT client.\<close>

record app_link =
  al_runtime_library_mode :: bool
  al_runtime_event_cb :: bool \<comment> \<open>a callback is set\<close>
  al_mqtt_handle :: bool
  al_product_key :: string
  al_device_name :: string
  al_pub :: "string \<Rightarrow> int"
  al_sub :: "string \<Rightarrow> int"

definition app_emit_runtime_event :: "app_link \<Rightarrow> string option \<Rightarrow> string option \<Rightarrow> app_effect list" where
  "app_emit_runtime_event app event_name event_json =
     (if \<not> al_runtime_library_mode app \<or> \<not> al_runtime_event_cb app then []
      else [Runtime_event (case event_name of None \<Rightarrow> ''event'' | Some n \<Rightarrow> n)
        (case event_json of None \<Rightarrow> ''{}'' | Some j \<Rightarrow> j)])"

definition app_publish_topic :: "app_link \<Rightarrow> string option \<Rightarrow> string option \<Rightarrow> u8 \<Rightarrow> int \<times> app_effect list" where
  "app_publish_topic app topic payload qos =
     (if al_runtime_library_mode app then
        (0, app_emit_runtime_event app (Some ''mqtt.publish'')
          (Some (snprintf 4096 (''{\"topic\":\"'' @ (case topic of None \<Rightarrow> [] | Some t \<Rightarrow> t) @ ''\",\"payload\":''
             @ (case payload of None \<Rightarrow> ''\"\"'' | Some p \<Rightarrow> if p = [] then ''\"\"'' else p) @ ''}''))))
      else case (topic, payload) of
        (Some t, Some p) \<Rightarrow>
          if \<not> al_mqtt_handle app then (-1, [])
          else (if al_pub app t < STATE_SUCCESS then -1 else 0, [Mqtt_pub t p qos])
      | _ \<Rightarrow> (-1, []))"

definition app_subscribe_topic :: "app_link \<Rightarrow> string \<Rightarrow> int \<times> app_effect list" where
  "app_subscribe_topic app topic = (if al_sub app topic < STATE_SUCCESS then -1 else 0, [Mqtt_sub topic])"

definition app_build_simple_result_json :: "bool \<Rightarrow> string option \<Rightarrow> nat \<Rightarrow> int \<times> string option" where
  "app_build_simple_result_json success message buffer_size =
     (if buffer_size = 0 then (-1, None)
      else case json_escape_string (Some (case message of None \<Rightarrow> [] | Some m \<Rightarrow> m)) 512 of
        Failed _ \<Rightarrow> (-1, None)
      | Copied escaped \<Rightarrow>
          (0, Some (snprintf buffer_size (''{\"success\":'' @ (if success then ''1'' else ''0'')
             @ '',\"message\":\"'' @ escaped @ ''\"}''))))"

definition post_topic :: "app_link \<Rightarrow> string" where
  "post_topic app = snprintf 320 (''/sys/'' @ al_product_key app @ ''/'' @ al_device_name app @ ''/thing/event/property/post'')"

definition post_payload :: "int \<Rightarrow> string \<Rightarrow> string" where
  "post_payload now_ms params_json =
     ''{\"id\":\"'' @ int_dec now_ms @ ''\",\"version\":\"1.0\",\"params\":'' @ params_json
     @ '',\"method\":\"thing.event.property.post\"}''"

text \<open>The memory answers: the builder, its append.\<close>

type_synonym sb_memory = "bool \<times> bool"

definition app_post_properties :: "app_link \<Rightarrow> sb_memory \<Rightarrow> int \<Rightarrow> string option \<Rightarrow> int \<times> app_effect list" where
  "app_post_properties app mem now_ms params_json =
     (case params_json of
        None \<Rightarrow> (-1, [])
      | Some params \<Rightarrow>
          if al_runtime_library_mode app then (0, app_emit_runtime_event app (Some ''property.post'') (Some params))
          else if \<not> fst mem then (-1, [])
          else app_publish_topic app (Some (post_topic app)) (Some (if snd mem then post_payload now_ms params else [])) 0)"

definition reply_topic :: "app_link \<Rightarrow> string \<Rightarrow> string" where
  "reply_topic app service_path =
     snprintf 320 (''/sys/'' @ al_product_key app @ ''/'' @ al_device_name app @ ''/thing/service/'' @ service_path @ ''_reply'')"

definition reply_payload :: "string \<Rightarrow> int \<Rightarrow> string \<Rightarrow> string" where
  "reply_payload reply_id code data =
     ''{\"id\":\"'' @ reply_id @ ''\",\"code\":'' @ int_dec code @ '',\"data\":'' @ data @ ''}''"

definition app_reply_service ::
  "app_link \<Rightarrow> sb_memory \<Rightarrow> string option \<Rightarrow> string option \<Rightarrow> int \<Rightarrow> string option \<Rightarrow> int \<times> app_effect list" where
  "app_reply_service app mem service_path request_id code data_json =
     (let reply_id = (case request_id of None \<Rightarrow> ''0'' | Some r \<Rightarrow> if r = [] then ''0'' else r);
          data = (case data_json of None \<Rightarrow> ''{}'' | Some d \<Rightarrow> if d = [] then ''{}'' else d) in
      case service_path of
        None \<Rightarrow> (-1, [])
      | Some service \<Rightarrow>
          if al_runtime_library_mode app then
            (0, app_emit_runtime_event app (Some ''service.reply'')
              (Some (snprintf 4096 (''{\"service\":\"'' @ service @ ''\",\"id\":\"'' @ reply_id @ ''\",\"code\":''
                 @ int_dec code @ '',\"data\":'' @ data @ ''}''))))
          else if \<not> fst mem then (-1, [])
          else app_publish_topic app (Some (reply_topic app service))
            (Some (if snd mem then reply_payload reply_id code data else [])) 0)"

definition app_publish_trace :: "app_link \<Rightarrow> string option \<Rightarrow> int \<times> app_effect list" where
  "app_publish_trace app payload_json =
     (if al_runtime_library_mode app then
        (0, app_emit_runtime_event app (Some ''trace.publish'')
          (Some (case payload_json of None \<Rightarrow> ''{}'' | Some p \<Rightarrow> p)))
      else app_publish_topic app
        (Some (snprintf 320 (''/'' @ al_product_key app @ ''/'' @ al_device_name app @ ''/user/trace/data''))) payload_json 0)"

text \<open>The identity of a loaded configuration: every topic fits its buffer.\<close>

definition link_ok :: "app_link \<Rightarrow> bool" where
  "link_ok app \<longleftrightarrow> length (al_product_key app) < 128 \<and> length (al_device_name app) < 128"

lemma topics_fit:
  assumes "link_ok app"
  shows "post_topic app = ''/sys/'' @ al_product_key app @ ''/'' @ al_device_name app @ ''/thing/event/property/post''"
    and "length service_path < 30 \<Longrightarrow>
      reply_topic app service_path = ''/sys/'' @ al_product_key app @ ''/'' @ al_device_name app @ ''/thing/service/'' @ service_path @ ''_reply''"
  using assms by (simp_all add: post_topic_def reply_topic_def link_ok_def snprintf_fits)

end
