(* ===== verification/Device_Shadow.thy ===== *)
theory Device_Shadow
  imports Ide_Publish
begin

text \<open>
  The device shadow (\<^verbatim>\<open>src/device_shadow_manager.c\<close>): the cloud sends the wanted state
  on one topic, the device reports on another; both carry a version number, a C \<^verbatim>\<open>int\<close>.
  \<open>Undef\<close> is the overflow of the version.
\<close>

record shadow_manager =
  sh_version :: int

abbreviation INT_MAX :: int where "INT_MAX \<equiv> 2147483647"

definition device_shadow_manager_build_get_topic :: "app_link \<Rightarrow> string" where
  "device_shadow_manager_build_get_topic app =
     snprintf 320 (''/shadow/get/'' @ al_product_key app @ ''/'' @ al_device_name app)"

definition device_shadow_manager_build_update_topic :: "app_link \<Rightarrow> string" where
  "device_shadow_manager_build_update_topic app =
     snprintf 320 (''/shadow/update/'' @ al_product_key app @ ''/'' @ al_device_name app)"

definition device_shadow_manager_get_next_version :: "shadow_manager \<Rightarrow> int outcome" where
  "device_shadow_manager_get_next_version m =
     (if sh_version m > 0 then (if sh_version m = INT_MAX then Undef else Ok (sh_version m + 1)) else Ok 0)"

definition device_shadow_manager_update_version :: "shadow_manager \<Rightarrow> int \<Rightarrow> shadow_manager" where
  "device_shadow_manager_update_version m version = (if version \<le> 0 then m else m \<lparr> sh_version := version \<rparr>)"

definition device_shadow_manager_publish :: "app_link \<Rightarrow> string option \<Rightarrow> int \<times> app_effect list" where
  "device_shadow_manager_publish app payload_json =
     (case payload_json of
        None \<Rightarrow> (-1, [])
      | Some p \<Rightarrow> app_publish_topic app (Some (device_shadow_manager_build_update_topic app)) (Some p) 0)"

definition device_shadow_manager_init :: "bool \<Rightarrow> bool \<Rightarrow> int \<times> shadow_manager option" where
  "device_shadow_manager_init args_ok lock_ok =
     (if \<not> args_ok then (-1, None) else (if lock_ok then 0 else -1, Some \<lparr> sh_version = 0 \<rparr>))"

definition device_shadow_manager_get :: "app_link \<Rightarrow> int \<times> app_effect list" where
  "device_shadow_manager_get app = device_shadow_manager_publish app (Some ''{\"method\":\"get\"}'')"

definition device_shadow_manager_start :: "app_link \<Rightarrow> int \<times> app_effect list" where
  "device_shadow_manager_start app =
     (case app_subscribe_topic app (device_shadow_manager_build_get_topic app) of
        (rc, eff) \<Rightarrow>
          if rc \<noteq> 0 then (-1, eff)
          else case device_shadow_manager_get app of (rc', eff') \<Rightarrow> (rc', eff @ eff'))"

definition version_suffix :: "int \<Rightarrow> string" where
  "version_suffix version = (if version > 0 then '',\"version\":'' @ int_dec version @ ''}'' else ''}'')"

text \<open>The payload of a builder with memory for its append, or nothing.\<close>

definition shadow_send :: "app_link \<Rightarrow> sb_memory \<Rightarrow> shadow_manager \<Rightarrow> string \<Rightarrow> (int \<times> app_effect list) outcome" where
  "shadow_send app mem m body =
     (if \<not> fst mem then Ok (-1, [])
      else obind (device_shadow_manager_get_next_version m) (\<lambda>version.
        Ok (device_shadow_manager_publish app (Some (if snd mem then body @ version_suffix version else [])))))"

definition device_shadow_manager_update_reported ::
  "app_link \<Rightarrow> sb_memory \<Rightarrow> shadow_manager \<Rightarrow> string option \<Rightarrow> (int \<times> app_effect list) outcome" where
  "device_shadow_manager_update_reported app mem m reported_json =
     (case reported_json of
        None \<Rightarrow> Ok (-1, [])
      | Some r \<Rightarrow> shadow_send app mem m (''{\"method\":\"update\",\"state\":{\"reported\":'' @ r @ ''}''))"

definition device_shadow_manager_delete_key ::
  "app_link \<Rightarrow> sb_memory \<Rightarrow> shadow_manager \<Rightarrow> string option \<Rightarrow> (int \<times> app_effect list) outcome" where
  "device_shadow_manager_delete_key app mem m key =
     (case key of
        None \<Rightarrow> Ok (-1, [])
      | Some k \<Rightarrow>
          (case json_escape_string (Some k) 256 of
             Failed _ \<Rightarrow> Ok (-1, [])
           | Copied escaped_key \<Rightarrow>
               shadow_send app mem m (''{\"method\":\"delete\",\"state\":{\"reported\":{\"'' @ escaped_key @ ''\":\"null\"}}'')))"

definition device_shadow_manager_delete_all ::
  "app_link \<Rightarrow> sb_memory \<Rightarrow> shadow_manager \<Rightarrow> (int \<times> app_effect list) outcome" where
  "device_shadow_manager_delete_all app mem m =
     shadow_send app mem m ''{\"method\":\"delete\",\"state\":{\"reported\":\"null\"}''"

text \<open>The wanted state of a control message.\<close>

definition desired_state :: "string \<Rightarrow> string option" where
  "desired_state payload =
     (case json_get_object (Some payload) (Some ''payload'') 4096 of
        Failed _ \<Rightarrow> None
      | Copied payload_json \<Rightarrow>
          (case json_get_object (Some payload_json) (Some ''state'') 3072 of
             Failed _ \<Rightarrow> None
           | Copied state_json \<Rightarrow>
               (case json_get_object (Some state_json) (Some ''desired'') 2048 of
                  Failed _ \<Rightarrow> None
                | Copied desired_json \<Rightarrow> Some desired_json)))"

definition apply_control ::
  "app_link \<Rightarrow> sb_memory \<Rightarrow> sb_memory \<Rightarrow> int \<Rightarrow> shadow_manager \<Rightarrow> bool \<Rightarrow> string \<Rightarrow> (bool \<times> app_effect list) outcome" where
  "apply_control app mem1 mem2 now_ms m adas_switch desired_json =
     (case json_get_raw_value (Some desired_json) (Some ''ADASSwitch'') 64 of
        Copied adas_value \<Rightarrow>
          obind (device_shadow_manager_update_reported app mem2 m (Some desired_json)) (\<lambda>(rc, eff).
            Ok (atoi adas_value \<noteq> 0, snd (app_post_properties app mem1 now_ms (Some desired_json)) @ eff))
      | Failed _ \<Rightarrow>
          obind (device_shadow_manager_update_reported app mem2 m (Some desired_json)) (\<lambda>(rc, eff).
            Ok (adas_switch, eff)))"

text \<open>Whether the message was for the shadow, the manager, the switch, and what was sent.\<close>

definition device_shadow_manager_handle_message ::
  "app_link \<Rightarrow> sb_memory \<Rightarrow> sb_memory \<Rightarrow> int \<Rightarrow> shadow_manager \<Rightarrow> bool \<Rightarrow> string option \<Rightarrow> string option
   \<Rightarrow> (bool \<times> shadow_manager \<times> bool \<times> app_effect list) outcome" where
  "device_shadow_manager_handle_message app mem1 mem2 now_ms m adas_switch topic payload =
     (case (topic, payload) of
        (Some t, Some p) \<Rightarrow>
          if t \<noteq> device_shadow_manager_build_get_topic app then Ok (False, m, adas_switch, [])
          else (let m1 = (case json_get_raw_value (Some p) (Some ''version'') 64 of
                   Copied version_raw \<Rightarrow> device_shadow_manager_update_version m (atoi version_raw)
                 | Failed _ \<Rightarrow> m);
                    method = stored_text [] 64 (json_get_string (Some p) (Some ''method'') 64) in
            if method \<noteq> ''control'' then Ok (True, m1, adas_switch, [])
            else case desired_state p of
              None \<Rightarrow> Ok (True, m1, adas_switch, [])
            | Some desired_json \<Rightarrow>
                obind (apply_control app mem1 mem2 now_ms m1 adas_switch desired_json) (\<lambda>(adas, eff).
                  Ok (True, m1, adas, eff)))
      | _ \<Rightarrow> Ok (False, m, adas_switch, []))"

section \<open>Applying the wanted state\<close>

lemma update_reported_text:
  assumes "\<not> al_runtime_library_mode app" "al_mqtt_handle app" "sh_version m < INT_MAX"
  shows "device_shadow_manager_update_reported app (True, True) m (Some r)
    = Ok (if al_pub app (device_shadow_manager_build_update_topic app) < 0 then -1 else 0,
        [Mqtt_pub (device_shadow_manager_build_update_topic app)
          (''{\"method\":\"update\",\"state\":{\"reported\":'' @ r @ ''}''
             @ version_suffix (if sh_version m > 0 then sh_version m + 1 else 0)) 0])"
  using assms by (simp add: device_shadow_manager_update_reported_def shadow_send_def device_shadow_manager_publish_def
      device_shadow_manager_get_next_version_def app_publish_topic_def)

text \<open>
  A control message of the cloud is answered on the update topic with the wanted state, unchanged,
  and with the next version number after the one it carried; when it holds the switch, the switch takes
  its value and the same state is posted as properties first.
\<close>

theorem shadow_control_applied:
  assumes "\<not> al_runtime_library_mode app" "al_mqtt_handle app"
    and "json_get_raw_value (Some p) (Some ''version'') 64 = Copied v" "0 < atoi v" "atoi v < INT_MAX"
    and "json_get_string (Some p) (Some ''method'') 64 = Copied ''control''" "desired_state p = Some d"
  shows "\<exists>posted adas'. device_shadow_manager_handle_message app (True, True) (True, True) now_ms m adas_switch
      (Some (device_shadow_manager_build_get_topic app)) (Some p)
    = Ok (True, m \<lparr> sh_version := atoi v \<rparr>, adas',
        posted @ [Mqtt_pub (device_shadow_manager_build_update_topic app)
          (''{\"method\":\"update\",\"state\":{\"reported\":'' @ d @ ''},\"version\":'' @ int_dec (atoi v + 1) @ ''}'') 0])
    \<and> (case json_get_raw_value (Some d) (Some ''ADASSwitch'') 64 of
         Copied a \<Rightarrow> adas' = (atoi a \<noteq> 0) \<and> posted = [Mqtt_pub (post_topic app) (post_payload now_ms d) 0]
       | Failed _ \<Rightarrow> adas' = adas_switch \<and> posted = [])"
proof -
  let ?m = "m \<lparr> sh_version := atoi v \<rparr>"
  have "no_nul ''control''" by simp
  then have ctrl: "stored_text [] 64 (json_get_string (Some p) (Some ''method'') 64) = ''control''"
    by (simp only: assms(6) stored_text_Copied)
  have vm: "device_shadow_manager_update_version m (atoi v) = ?m"
    using assms(4) by (simp add: device_shadow_manager_update_version_def)
  have "sh_version ?m < INT_MAX" using assms(5) by simp
  note up = update_reported_text [OF assms(1,2) this, of d]
  have post: "app_post_properties app (True, True) now_ms (Some d)
      = (if al_pub app (post_topic app) < 0 then -1 else 0, [Mqtt_pub (post_topic app) (post_payload now_ms d) 0])"
    using assms(1,2) by (simp add: app_post_properties_def app_publish_topic_def)
  have "device_shadow_manager_handle_message app (True, True) (True, True) now_ms m adas_switch
      (Some (device_shadow_manager_build_get_topic app)) (Some p)
    = obind (apply_control app (True, True) (True, True) now_ms ?m adas_switch d) (\<lambda>(adas, eff). Ok (True, ?m, adas, eff))"
    by (simp add: device_shadow_manager_handle_message_def assms(3,7) ctrl vm Let_def)
  then show ?thesis
    using assms(4) by (auto simp: apply_control_def up post version_suffix_def split: json_copy.splits)
qed

definition sample_link :: app_link where
  "sample_link = \<lparr> al_runtime_library_mode = False, al_runtime_event_cb = False, al_mqtt_handle = True,
     al_product_key = ''pk'', al_device_name = ''dn'', al_pub = (\<lambda>_. 0), al_sub = (\<lambda>_. 0) \<rparr>"

definition sample_control :: string where
  "sample_control = ''{\"method\":\"control\",\"payload\":{\"state\":{\"desired\":{\"ADASSwitch\":1}}},\"version\":3}''"

lemma sample_control_fields:
  "json_get_raw_value (Some sample_control) (Some ''version'') 64 = Copied ''3''"
  "json_get_string (Some sample_control) (Some ''method'') 64 = Copied ''control''"
  "desired_state sample_control = Some ''{\"ADASSwitch\":1}''"
  "json_get_raw_value (Some ''{\"ADASSwitch\":1}'') (Some ''ADASSwitch'') 64 = Copied ''1''"
  by code_simp+

lemma shadow_control_applied_witness:
  "\<exists>effects. device_shadow_manager_handle_message sample_link (True, True) (True, True) 0 \<lparr> sh_version = 0 \<rparr> False
      (Some (device_shadow_manager_build_get_topic sample_link)) (Some sample_control)
    = Ok (True, \<lparr> sh_version = 3 \<rparr>, True, effects)"
proof -
  have n: "atoi ''3'' = 3" "atoi ''1'' = 1" by code_simp+
  have l: "\<not> al_runtime_library_mode sample_link" "al_mqtt_handle sample_link" by (simp_all add: sample_link_def)
  have "0 < atoi ''3''" "atoi ''3'' < INT_MAX" by (simp_all add: n)
  from shadow_control_applied [OF l sample_control_fields(1) this sample_control_fields(2,3), of 0 "\<lparr> sh_version = 0 \<rparr>" False]
  obtain posted adas' effects where "device_shadow_manager_handle_message sample_link (True, True) (True, True) 0
      \<lparr> sh_version = 0 \<rparr> False (Some (device_shadow_manager_build_get_topic sample_link)) (Some sample_control)
      = Ok (True, \<lparr> sh_version = 0 \<rparr> \<lparr> sh_version := atoi ''3'' \<rparr>, adas', effects)"
    "case json_get_raw_value (Some ''{\"ADASSwitch\":1}'') (Some ''ADASSwitch'') 64 of
         Copied a \<Rightarrow> adas' = (atoi a \<noteq> 0) \<and> posted = [Mqtt_pub (post_topic sample_link) (post_payload 0 ''{\"ADASSwitch\":1}'') 0]
       | Failed _ \<Rightarrow> adas' = False \<and> posted = []"
    by blast
  then show ?thesis by (simp add: sample_control_fields(4) n)
qed

end
