(* ===== verification/Gateway_Manager.thy ===== *)
theory Gateway_Manager
  imports Ide_Publish Core_Sha256 Core_String
begin

text \<open>
  The gateway manager (\<^verbatim>\<open>src/gateway_manager.c\<close>): the sub devices behind the gateway,
  their topology and login state at the cloud, the signed requests the gateway makes for them, and the
  property service it answers in their name.

  The state is the array of sub devices; with it run the number of platform calls made so far (clock
  and text builder, whose answers the environment gives by the number of the call) and what was sent.
  Each section the code runs under the mutex of the manager is one update. Indices are natural
  numbers: a negative index, which the code tests for, never arises. What is printed is not modelled.
\<close>

section \<open>State and environment\<close>

record gateway_sub =
  gs_config :: sub_device_config
  gs_topo_added :: bool
  gs_online :: bool
  gs_disabled :: bool
  gs_last_property_json :: string

record gateway_manager =
  gm_sub_devices :: "gateway_sub list"
  gm_calls :: nat
  gm_sent :: "app_effect list"

record gateway_env =
  ge_link :: app_link
  ge_now :: "nat \<Rightarrow> int"
  ge_memory :: "nat \<Rightarrow> bool"
  ge_stack :: "nat \<Rightarrow> byte list" \<comment> \<open>what the stack holds where a buffer is not initialised\<close>

definition gateway_now :: "gateway_env \<Rightarrow> gateway_manager \<Rightarrow> int \<times> gateway_manager" where
  "gateway_now env m = (ge_now env (gm_calls m), m \<lparr> gm_calls := gm_calls m + 1 \<rparr>)"

definition gateway_memory :: "gateway_env \<Rightarrow> gateway_manager \<Rightarrow> bool \<times> gateway_manager" where
  "gateway_memory env m = (ge_memory env (gm_calls m), m \<lparr> gm_calls := gm_calls m + 1 \<rparr>)"

text \<open>\<^verbatim>\<open>sb_append\<close>: the whole piece, or nothing without memory.\<close>

definition gateway_append :: "gateway_env \<Rightarrow> string \<Rightarrow> string \<Rightarrow> gateway_manager \<Rightarrow> string \<times> gateway_manager" where
  "gateway_append env t piece m =
     (case gateway_memory env m of (ok, m1) \<Rightarrow> (if ok then t @ piece else t, m1))"

definition gateway_publish :: "gateway_env \<Rightarrow> string \<Rightarrow> string \<Rightarrow> gateway_manager \<Rightarrow> int \<times> gateway_manager" where
  "gateway_publish env topic payload m =
     (case app_publish_topic (ge_link env) (Some topic) (Some payload) 0 of (rc, eff) \<Rightarrow>
        (rc, m \<lparr> gm_sent := gm_sent m @ eff \<rparr>))"

definition gateway_subscribe :: "gateway_env \<Rightarrow> string \<Rightarrow> gateway_manager \<Rightarrow> int \<times> gateway_manager" where
  "gateway_subscribe env topic m =
     (case app_subscribe_topic (ge_link env) topic of (rc, eff) \<Rightarrow> (rc, m \<lparr> gm_sent := gm_sent m @ eff \<rparr>))"

section \<open>Texts\<close>

definition tolower :: "char \<Rightarrow> char" where
  "tolower c = (let v = of_char c :: nat in if 65 \<le> v \<and> v \<le> 90 then char_of (v + 32) else c)"

fun equals_loop :: "string \<Rightarrow> string \<Rightarrow> bool" where
  "equals_loop (l # lhs) (r # rhs) = (tolower l = tolower r \<and> equals_loop lhs rhs)"
| "equals_loop [] [] = True"
| "equals_loop _ _ = False"

definition gateway_equals_ignore_case :: "string option \<Rightarrow> string option \<Rightarrow> bool" where
  "gateway_equals_ignore_case lhs rhs =
     (case (lhs, rhs) of (Some l, Some r) \<Rightarrow> equals_loop l r | _ \<Rightarrow> False)"

text \<open>The method, and whether a fallback is reported.\<close>

definition gateway_get_sign_method :: "gateway_sub option \<Rightarrow> string \<times> bool" where
  "gateway_get_sign_method sub_device = (''hmacSha256'',
     (case sub_device of None \<Rightarrow> False
      | Some s \<Rightarrow> sd_sign_method (gs_config s) \<noteq> []
          \<and> \<not> gateway_equals_ignore_case (Some (sd_sign_method (gs_config s))) (Some ''hmacsha256'')
          \<and> \<not> gateway_equals_ignore_case (Some (sd_sign_method (gs_config s))) (Some ''hmacSha256'')))"

definition gateway_build_topo_topic :: "app_link \<Rightarrow> string \<Rightarrow> string" where
  "gateway_build_topo_topic app suffix =
     snprintf 320 (''/sys/'' @ al_product_key app @ ''/'' @ al_device_name app @ ''/thing/topo/'' @ suffix)"

definition gateway_build_list_found_topic :: "app_link \<Rightarrow> string" where
  "gateway_build_list_found_topic app =
     snprintf 320 (''/sys/'' @ al_product_key app @ ''/'' @ al_device_name app @ ''/thing/list/found'')"

text \<open>\<^verbatim>\<open>strncat\<close> of the suffix into what is left of the buffer.\<close>

definition list_found_reply_topic :: "app_link \<Rightarrow> string" where
  "list_found_reply_topic app =
     (let topic = gateway_build_list_found_topic app in topic @ take (320 - length topic - 1) ''_reply'')"

definition gateway_build_combine_topic :: "app_link \<Rightarrow> string \<Rightarrow> string" where
  "gateway_build_combine_topic app suffix =
     snprintf 320 (''/ext/session/'' @ al_product_key app @ ''/'' @ al_device_name app @ ''/combine/'' @ suffix)"

definition gateway_build_sub_service_prefix :: "gateway_sub \<Rightarrow> string" where
  "gateway_build_sub_service_prefix s =
     snprintf 320 (''/sys/'' @ sd_product_key (gs_config s) @ ''/'' @ sd_device_name (gs_config s) @ ''/thing/service/'')"

definition gateway_build_sub_post_reply_prefix :: "gateway_sub \<Rightarrow> string" where
  "gateway_build_sub_post_reply_prefix s =
     snprintf 320 (''/sys/'' @ sd_product_key (gs_config s) @ ''/'' @ sd_device_name (gs_config s) @ ''/thing/event/'')"

section \<open>The sub devices\<close>

text \<open>The loops over the array that end at the first sub device with a property.\<close>

fun match_sub :: "(gateway_sub \<Rightarrow> bool) \<Rightarrow> nat \<Rightarrow> gateway_sub list \<Rightarrow> nat option" where
  "match_sub found index [] = None"
| "match_sub found index (s # ss) = (if found s then Some index else match_sub found (Suc index) ss)"

definition gateway_find_sub_device_index :: "gateway_manager \<Rightarrow> string \<Rightarrow> string \<Rightarrow> nat option" where
  "gateway_find_sub_device_index m product_key device_name =
     match_sub (\<lambda>s. sd_product_key (gs_config s) = product_key \<and> sd_device_name (gs_config s) = device_name) 0
       (gm_sub_devices m)"

definition gateway_sub_device_has_secret :: "gateway_sub \<Rightarrow> bool" where
  "gateway_sub_device_has_secret s \<longleftrightarrow> sd_device_secret (gs_config s) \<noteq> []"

text \<open>The three updates: out of the range of the array nothing changes.\<close>

definition gateway_update_topo_state ::
  "gateway_manager \<Rightarrow> nat \<Rightarrow> bool \<Rightarrow> bool \<Rightarrow> bool \<Rightarrow> gateway_manager" where
  "gateway_update_topo_state m index topo_added disabled online =
     (if index \<ge> length (gm_sub_devices m) then m
      else m \<lparr> gm_sub_devices := (gm_sub_devices m)[index := (gm_sub_devices m ! index)
        \<lparr> gs_topo_added := topo_added, gs_disabled := disabled, gs_online := online \<rparr>] \<rparr>)"

definition gateway_update_online_state :: "gateway_manager \<Rightarrow> nat \<Rightarrow> bool \<Rightarrow> gateway_manager" where
  "gateway_update_online_state m index online =
     (if index \<ge> length (gm_sub_devices m) then m
      else m \<lparr> gm_sub_devices := (gm_sub_devices m)[index := (gm_sub_devices m ! index) \<lparr> gs_online := online \<rparr>] \<rparr>)"

definition gateway_store_properties :: "gateway_manager \<Rightarrow> nat \<Rightarrow> string \<Rightarrow> gateway_manager" where
  "gateway_store_properties m index properties_json =
     (if index \<ge> length (gm_sub_devices m) then m
      else m \<lparr> gm_sub_devices := (gm_sub_devices m)[index := (gm_sub_devices m ! index)
        \<lparr> gs_last_property_json := snprintf 1024 properties_json \<rparr>] \<rparr>)"

text \<open>The buffer after the call: \<open>old\<close> where nothing is written.\<close>

definition gateway_get_properties :: "gateway_manager \<Rightarrow> nat \<Rightarrow> string \<Rightarrow> nat \<Rightarrow> string" where
  "gateway_get_properties m index old out_size =
     (if out_size = 0 \<or> index \<ge> length (gm_sub_devices m) then old
      else snprintf out_size (gs_last_property_json (gm_sub_devices m ! index)))"

section \<open>Requests to the cloud\<close>

definition sign_text_of :: "gateway_sub \<Rightarrow> string \<Rightarrow> string \<Rightarrow> string" where
  "sign_text_of s client_id timestamp =
     ''clientId'' @ client_id @ ''deviceName'' @ sd_device_name (gs_config s)
     @ ''productKey'' @ sd_product_key (gs_config s) @ ''timestamp'' @ timestamp"

text \<open>\<open>None\<close> where the builder cannot be created; the signature buffer is not initialised.\<close>

definition gateway_build_sign ::
  "gateway_env \<Rightarrow> gateway_sub \<Rightarrow> string \<Rightarrow> string \<Rightarrow> nat \<Rightarrow> gateway_manager \<Rightarrow> string option \<times> gateway_manager" where
  "gateway_build_sign env s client_id timestamp sign_out_size m =
     (case gateway_memory env m of (ok, m1) \<Rightarrow>
        if \<not> ok then (None, m1)
        else (case gateway_append env [] (sign_text_of s client_id timestamp) m1 of (plain_text, m2) \<Rightarrow>
          (case core_hmac_sha256 (Some (bytes_of plain_text)) (Some (bytes_of (sd_device_secret (gs_config s))))
              (Some (ge_stack env (gm_calls m))) of
             Some sign \<Rightarrow> (Some (snprintf sign_out_size (core_hex2str sign False)), m2)
           | None \<Rightarrow> (None, m2))))"

definition found_item :: "gateway_sub \<Rightarrow> string" where
  "found_item s = ''{\"productKey\":\"'' @ sd_product_key (gs_config s) @ ''\",\"deviceName\":\"''
     @ sd_device_name (gs_config s) @ ''\"}''"

fun list_found_loop :: "gateway_env \<Rightarrow> gateway_sub list \<Rightarrow> nat \<Rightarrow> string \<Rightarrow> gateway_manager \<Rightarrow> string \<times> gateway_manager" where
  "list_found_loop env [] index t m = (t, m)"
| "list_found_loop env (s # ss) index t m =
     (case (if index > 0 then gateway_append env t '','' m else (t, m)) of (t1, m1) \<Rightarrow>
        (case gateway_append env t1 (found_item s) m1 of (t2, m2) \<Rightarrow> list_found_loop env ss (Suc index) t2 m2))"

definition gateway_request_list_found :: "gateway_env \<Rightarrow> gateway_manager \<Rightarrow> int \<times> gateway_manager" where
  "gateway_request_list_found env m =
     (if gm_sub_devices m = [] then (0, m)
      else (case gateway_memory env m of (ok, m1) \<Rightarrow>
        if \<not> ok then (-1, m1)
        else (case gateway_now env m1 of (now, m2) \<Rightarrow>
          (case gateway_append env [] (''{\"id\":\"'' @ int_dec now @ ''\",\"version\":\"1.0\",\"params\":['') m2 of (t1, m3) \<Rightarrow>
          (case list_found_loop env (gm_sub_devices m) 0 t1 m3 of (t2, m4) \<Rightarrow>
          (case gateway_append env t2 ''],\"method\":\"thing.list.found\"}'' m4 of (payload, m5) \<Rightarrow>
            gateway_publish env (gateway_build_list_found_topic (ge_link env)) payload m5))))))"

definition gateway_request_topo_get :: "gateway_env \<Rightarrow> gateway_manager \<Rightarrow> int \<times> gateway_manager" where
  "gateway_request_topo_get env m =
     (if gm_sub_devices m = [] then (0, m)
      else (case gateway_now env m of (now, m1) \<Rightarrow>
        gateway_publish env (gateway_build_topo_topic (ge_link env) ''get'')
          (snprintf 256 (''{\"id\":\"'' @ int_dec now @ ''\",\"version\":\"1.0\",\"params\":{},\"method\":\"thing.topo.get\"}'')) m1))"

definition gateway_client_id :: "gateway_sub \<Rightarrow> string" where
  "gateway_client_id s = snprintf 256 (sd_product_key (gs_config s) @ ''&'' @ sd_device_name (gs_config s))"

definition topo_add_payload :: "gateway_sub \<Rightarrow> int \<Rightarrow> string \<Rightarrow> string \<Rightarrow> string" where
  "topo_add_payload s now sign timestamp = snprintf 1024
     (''{\"id\":\"'' @ int_dec now @ ''\",\"version\":\"1.0\",\"params\":[{\"productKey\":\"'' @ sd_product_key (gs_config s)
      @ ''\",\"deviceName\":\"'' @ sd_device_name (gs_config s) @ ''\",\"sign\":\"'' @ sign
      @ ''\",\"signmethod\":\"'' @ fst (gateway_get_sign_method (Some s)) @ ''\",\"timestamp\":\"'' @ timestamp
      @ ''\",\"clientId\":\"'' @ gateway_client_id s @ ''\"}],\"method\":\"thing.topo.add\"}'')"

definition login_payload :: "gateway_sub \<Rightarrow> int \<Rightarrow> string \<Rightarrow> string \<Rightarrow> string" where
  "login_payload s now sign timestamp = snprintf 1024
     (''{\"id\":\"'' @ int_dec now @ ''\",\"params\":{\"productKey\":\"'' @ sd_product_key (gs_config s)
      @ ''\",\"deviceName\":\"'' @ sd_device_name (gs_config s) @ ''\",\"clientId\":\"'' @ gateway_client_id s
      @ ''\",\"timestamp\":\"'' @ timestamp @ ''\",\"signMethod\":\"'' @ fst (gateway_get_sign_method (Some s))
      @ ''\",\"sign\":\"'' @ sign @ ''\",\"cleanSession\":\"false\"}}'')"

text \<open>The two requests for one sub device differ in their topic and payload only.\<close>

definition signed_request ::
  "(gateway_sub \<Rightarrow> int \<Rightarrow> string \<Rightarrow> string \<Rightarrow> string) \<Rightarrow> string \<Rightarrow> gateway_env \<Rightarrow> nat \<Rightarrow> gateway_manager \<Rightarrow> int \<times> gateway_manager" where
  "signed_request payload topic env index m =
     (if index \<ge> length (gm_sub_devices m) then (-1, m)
      else (let s = gm_sub_devices m ! index in
        if \<not> gateway_sub_device_has_secret s then (-1, m)
        else (case gateway_now env m of (now1, m1) \<Rightarrow>
          (let timestamp = snprintf 64 (int_dec now1) in
           case gateway_build_sign env s (gateway_client_id s) timestamp 65 m1 of
             (None, m2) \<Rightarrow> (-1, m2)
           | (Some sign, m2) \<Rightarrow>
               (case gateway_now env m2 of (now2, m3) \<Rightarrow> gateway_publish env topic (payload s now2 sign timestamp) m3)))))"

definition gateway_request_topo_add :: "gateway_env \<Rightarrow> nat \<Rightarrow> gateway_manager \<Rightarrow> int \<times> gateway_manager" where
  "gateway_request_topo_add env = signed_request topo_add_payload (gateway_build_topo_topic (ge_link env) ''add'') env"

definition gateway_request_login :: "gateway_env \<Rightarrow> nat \<Rightarrow> gateway_manager \<Rightarrow> int \<times> gateway_manager" where
  "gateway_request_login env = signed_request login_payload (gateway_build_combine_topic (ge_link env) ''login'') env"

definition reply_id_of :: "string option \<Rightarrow> string" where
  "reply_id_of request_id = (case request_id of None \<Rightarrow> ''0'' | Some r \<Rightarrow> if r = [] then ''0'' else r)"

definition gateway_reply_notify :: "gateway_env \<Rightarrow> string \<Rightarrow> string option \<Rightarrow> gateway_manager \<Rightarrow> int \<times> gateway_manager" where
  "gateway_reply_notify env suffix request_id m =
     gateway_publish env (gateway_build_topo_topic (ge_link env) suffix)
       (snprintf 256 (''{\"id\":\"'' @ reply_id_of request_id @ ''\",\"code\":200,\"data\":{}}'')) m"

definition sub_post_topic :: "gateway_sub \<Rightarrow> string" where
  "sub_post_topic s = snprintf 320 (''/sys/'' @ sd_product_key (gs_config s) @ ''/'' @ sd_device_name (gs_config s)
     @ ''/thing/event/property/post'')"

definition gateway_post_sub_properties ::
  "gateway_env \<Rightarrow> nat \<Rightarrow> string option \<Rightarrow> gateway_manager \<Rightarrow> int \<times> gateway_manager" where
  "gateway_post_sub_properties env index properties_json m =
     (case properties_json of
        None \<Rightarrow> (-1, m)
      | Some properties \<Rightarrow>
          if index \<ge> length (gm_sub_devices m) then (-1, m)
          else (case gateway_memory env m of (ok, m1) \<Rightarrow>
            if \<not> ok then (-1, m1)
            else (case gateway_now env m1 of (now, m2) \<Rightarrow>
              (case gateway_append env [] (post_payload now properties) m2 of (payload, m3) \<Rightarrow>
                gateway_publish env (sub_post_topic (gm_sub_devices m ! index)) payload m3))))"

definition sub_reply_topic :: "gateway_sub \<Rightarrow> string \<Rightarrow> string" where
  "sub_reply_topic s service_path = snprintf 320 (''/sys/'' @ sd_product_key (gs_config s) @ ''/''
     @ sd_device_name (gs_config s) @ ''/thing/service/'' @ service_path @ ''_reply'')"

definition gateway_reply_sub_service ::
  "gateway_env \<Rightarrow> nat \<Rightarrow> string option \<Rightarrow> string option \<Rightarrow> string option \<Rightarrow> gateway_manager \<Rightarrow> int \<times> gateway_manager" where
  "gateway_reply_sub_service env index service_path request_id data_json m =
     (case service_path of
        None \<Rightarrow> (-1, m)
      | Some service \<Rightarrow>
          if index \<ge> length (gm_sub_devices m) then (-1, m)
          else gateway_publish env (sub_reply_topic (gm_sub_devices m ! index) service)
            (snprintf 1536 (''{\"id\":\"'' @ reply_id_of request_id @ ''\",\"code\":200,\"data\":''
               @ (case data_json of None \<Rightarrow> ''{}'' | Some d \<Rightarrow> if d = [] then ''{}'' else d) @ ''}'')) m)"

section \<open>Creation and start\<close>

text \<open>The configuration of the application, and whether the mutex could be created.\<close>

definition gateway_sub_of :: "sub_device_config \<Rightarrow> gateway_sub" where
  "gateway_sub_of c = \<lparr> gs_config = c, gs_topo_added = False, gs_online = False, gs_disabled = False,
     gs_last_property_json = snprintf 1024 ''{}'' \<rparr>"

definition gateway_manager_init :: "device_config \<Rightarrow> bool \<Rightarrow> int \<times> gateway_manager" where
  "gateway_manager_init config mutex_ok =
     (if mutex_ok then 0 else -1,
      \<lparr> gm_sub_devices = map gateway_sub_of (cf_sub_devices config), gm_calls = 0, gm_sent = [] \<rparr>)"

text \<open>Subscriptions are made one after the other up to the first that fails.\<close>

fun gateway_subscribe_all :: "gateway_env \<Rightarrow> string list \<Rightarrow> gateway_manager \<Rightarrow> int \<times> gateway_manager" where
  "gateway_subscribe_all env [] m = (0, m)"
| "gateway_subscribe_all env (topic # topics) m =
     (case gateway_subscribe env topic m of (rc, m1) \<Rightarrow>
        if rc \<noteq> 0 then (-1, m1) else gateway_subscribe_all env topics m1)"

definition sub_topics :: "gateway_sub \<Rightarrow> string list" where
  "sub_topics s =
     [snprintf 320 (''/sys/'' @ sd_product_key (gs_config s) @ ''/'' @ sd_device_name (gs_config s) @ ''/thing/service/#''),
      snprintf 320 (''/sys/'' @ sd_product_key (gs_config s) @ ''/'' @ sd_device_name (gs_config s) @ ''/thing/event/+/post_reply'')]"

definition gateway_topics :: "app_link \<Rightarrow> gateway_sub list \<Rightarrow> string list" where
  "gateway_topics app subs =
     [gateway_build_topo_topic app ''#'', list_found_reply_topic app, gateway_build_combine_topic app ''#'']
     @ concat (map sub_topics subs)"

definition gateway_manager_start :: "gateway_env \<Rightarrow> gateway_manager \<Rightarrow> int \<times> gateway_manager" where
  "gateway_manager_start env m =
     (if gm_sub_devices m = [] then (0, m)
      else (case gateway_subscribe_all env (gateway_topics (ge_link env) (gm_sub_devices m)) m of (rc, m1) \<Rightarrow>
        if rc \<noteq> 0 then (-1, m1)
        else (case gateway_request_list_found env m1 of (rc2, m2) \<Rightarrow>
          if rc2 \<noteq> 0 then (-1, m2) else gateway_request_topo_get env m2)))"

section \<open>Messages of the cloud\<close>

text \<open>The code of a reply: a value that does not start with a number is not 200.\<close>

definition reply_accepted :: "string \<Rightarrow> bool" where
  "reply_accepted payload =
     (case json_get_raw_value (Some payload) (Some ''code'') 64 of Failed _ \<Rightarrow> False | Copied code_raw \<Rightarrow> atoi code_raw = 200)"

text \<open>The identity an object names; \<open>None\<close> where a loop goes on with the next item.\<close>

definition identity_in :: "string \<Rightarrow> (string \<times> string) option" where
  "identity_in item_json =
     (case json_get_string (Some item_json) (Some ''productKey'') 128 of
        Failed _ \<Rightarrow> None
      | Copied product_key \<Rightarrow>
          (case json_get_string (Some item_json) (Some ''deviceName'') 128 of
             Failed _ \<Rightarrow> None
           | Copied device_name \<Rightarrow> Some (product_key, device_name)))"

definition item_identity :: "string \<Rightarrow> nat \<Rightarrow> (string \<times> string) option" where
  "item_identity array_json index =
     (case json_array_get_item (Some array_json) index 512 of Failed _ \<Rightarrow> None | Copied item_json \<Rightarrow> identity_in item_json)"

text \<open>The loop over the items of an array: \<open>n\<close> are left, the next one is \<open>index\<close>.\<close>

fun items_loop ::
  "(nat \<Rightarrow> gateway_manager \<Rightarrow> gateway_manager) \<Rightarrow> string \<Rightarrow> nat \<Rightarrow> nat \<Rightarrow> gateway_manager \<Rightarrow> gateway_manager" where
  "items_loop body array_json 0 index m = m"
| "items_loop body array_json (Suc n) index m =
     (case item_identity array_json index of
        None \<Rightarrow> items_loop body array_json n (Suc index) m
      | Some (product_key, device_name) \<Rightarrow>
          (case gateway_find_sub_device_index m product_key device_name of
             None \<Rightarrow> items_loop body array_json n (Suc index) m
           | Some sub_index \<Rightarrow> items_loop body array_json n (Suc index) (body sub_index m)))"

definition for_items :: "(nat \<Rightarrow> gateway_manager \<Rightarrow> gateway_manager) \<Rightarrow> string \<Rightarrow> gateway_manager \<Rightarrow> gateway_manager" where
  "for_items body array_json m = items_loop body array_json (nat (json_array_size (Some array_json))) 0 m"

definition reset_sub :: "gateway_sub \<Rightarrow> gateway_sub" where
  "reset_sub s = s \<lparr> gs_topo_added := False, gs_disabled := False, gs_online := False \<rparr>"

text \<open>The requests after the topology is known; each device is read when its turn comes.\<close>

definition request_for :: "gateway_env \<Rightarrow> nat \<Rightarrow> gateway_manager \<Rightarrow> gateway_manager" where
  "request_for env index m =
     (let snapshot = gm_sub_devices m ! index in
      if gs_disabled snapshot then m
      else if gs_topo_added snapshot then
        (if gateway_sub_device_has_secret snapshot then snd (gateway_request_login env index m) else m)
      else if gateway_sub_device_has_secret snapshot then snd (gateway_request_topo_add env index m)
      else m)"

fun request_loop :: "gateway_env \<Rightarrow> nat \<Rightarrow> nat \<Rightarrow> gateway_manager \<Rightarrow> gateway_manager" where
  "request_loop env 0 index m = m"
| "request_loop env (Suc n) index m = request_loop env n (Suc index) (request_for env index m)"

definition gateway_handle_topo_get_reply :: "gateway_env \<Rightarrow> string \<Rightarrow> gateway_manager \<Rightarrow> gateway_manager" where
  "gateway_handle_topo_get_reply env payload m =
     (if \<not> reply_accepted payload then m
      else (let m1 = m \<lparr> gm_sub_devices := map reset_sub (gm_sub_devices m) \<rparr>;
                m2 = (case json_get_array (Some payload) (Some ''data'') 4096 of
                  Failed _ \<Rightarrow> m1
                | Copied data_array \<Rightarrow>
                    for_items (\<lambda>i m. gateway_update_topo_state m i True False False) data_array m1) in
        request_loop env (length (gm_sub_devices m2)) 0 m2))"

definition gateway_handle_topo_add_reply :: "gateway_env \<Rightarrow> string \<Rightarrow> gateway_manager \<Rightarrow> gateway_manager" where
  "gateway_handle_topo_add_reply env payload m =
     (if \<not> reply_accepted payload then m
      else case json_get_array (Some payload) (Some ''data'') 4096 of
        Failed _ \<Rightarrow> m
      | Copied data_array \<Rightarrow>
          for_items (\<lambda>i m. snd (gateway_request_login env i (gateway_update_topo_state m i True False False))) data_array m)"

definition request_id_in :: "string \<Rightarrow> string" where
  "request_id_in payload = stored_text ''0'' 64 (json_get_raw_value (Some payload) (Some ''id'') 64)"

definition gateway_handle_topo_add_notify :: "gateway_env \<Rightarrow> string \<Rightarrow> gateway_manager \<Rightarrow> gateway_manager" where
  "gateway_handle_topo_add_notify env payload m =
     (let m1 = snd (gateway_reply_notify env ''add/notify_reply'' (Some (request_id_in payload)) m) in
      case json_get_array (Some payload) (Some ''params'') 4096 of
        Failed _ \<Rightarrow> m1
      | Copied params_array \<Rightarrow>
          for_items (\<lambda>i m. if \<not> gateway_sub_device_has_secret (gm_sub_devices m ! i) then m
            else snd (gateway_request_topo_add env i m)) params_array m1)"

definition change_body :: "gateway_env \<Rightarrow> int \<Rightarrow> nat \<Rightarrow> gateway_manager \<Rightarrow> gateway_manager" where
  "change_body env status i m =
     (if status = 0 \<or> status = 2 then
        (let m1 = gateway_update_topo_state m i True False False in
         if gateway_sub_device_has_secret (gm_sub_devices m1 ! i) then snd (gateway_request_login env i m1) else m1)
      else if status = 1 then gateway_update_topo_state m i False False False
      else if status = 8 then gateway_update_topo_state m i True True False
      else m)"

definition gateway_handle_topo_change :: "gateway_env \<Rightarrow> string \<Rightarrow> gateway_manager \<Rightarrow> gateway_manager" where
  "gateway_handle_topo_change env payload m =
     (let m1 = snd (gateway_reply_notify env ''change_reply'' (Some (request_id_in payload)) m) in
      case json_get_object (Some payload) (Some ''params'') 4096 of
        Failed _ \<Rightarrow> m1
      | Copied params_json \<Rightarrow>
          (case json_get_raw_value (Some params_json) (Some ''status'') 64 of
             Failed _ \<Rightarrow> m1
           | Copied status_raw \<Rightarrow>
               (case json_get_array (Some params_json) (Some ''subList'') 4096 of
                  Failed _ \<Rightarrow> m1
                | Copied sub_list \<Rightarrow> for_items (change_body env (atoi status_raw)) sub_list m1)))"

definition gateway_handle_combine_reply :: "string \<Rightarrow> string \<Rightarrow> gateway_manager \<Rightarrow> gateway_manager" where
  "gateway_handle_combine_reply topic payload m =
     (if \<not> reply_accepted payload then m
      else case json_get_object (Some payload) (Some ''data'') 512 of
        Failed _ \<Rightarrow> m
      | Copied data_json \<Rightarrow>
          (case identity_in data_json of
             None \<Rightarrow> m
           | Some (product_key, device_name) \<Rightarrow>
               (case gateway_find_sub_device_index m product_key device_name of
                  None \<Rightarrow> m
                | Some i \<Rightarrow> gateway_update_online_state m i (strstr topic ''/login_reply'' \<noteq> None))))"

text \<open>A service request for the sub device \<open>index\<close>.\<close>

definition sub_service :: "gateway_env \<Rightarrow> nat \<Rightarrow> string \<Rightarrow> string \<Rightarrow> gateway_manager \<Rightarrow> gateway_manager" where
  "sub_service env index service_path payload m =
     (let request_id = request_id_in payload in
      if service_path = ''property/set'' then
        (let m1 = (case json_get_object (Some payload) (Some ''params'') 1024 of
             Failed _ \<Rightarrow> m
           | Copied params_json \<Rightarrow>
               snd (gateway_post_sub_properties env index (Some params_json) (gateway_store_properties m index params_json))) in
         snd (gateway_reply_sub_service env index (Some service_path) (Some request_id) (Some ''{}'') m1))
      else if service_path = ''property/get'' then
        snd (gateway_reply_sub_service env index (Some service_path) (Some request_id)
          (Some (gateway_get_properties m index [] 1024)) m)
      else snd (gateway_reply_sub_service env index (Some service_path) (Some request_id) (Some ''{}'') m))"

definition gateway_handle_sub_service_message ::
  "gateway_env \<Rightarrow> string \<Rightarrow> string \<Rightarrow> gateway_manager \<Rightarrow> bool \<times> gateway_manager" where
  "gateway_handle_sub_service_message env topic payload m =
     (case match_sub (\<lambda>s. has_prefix (gateway_build_sub_service_prefix s) topic) 0 (gm_sub_devices m) of
        None \<Rightarrow> (False, m)
      | Some index \<Rightarrow>
          (True, sub_service env index
             (drop (length (gateway_build_sub_service_prefix (gm_sub_devices m ! index))) topic) payload m))"

definition gateway_handle_sub_post_reply :: "string \<Rightarrow> gateway_manager \<Rightarrow> bool" where
  "gateway_handle_sub_post_reply topic m =
     (match_sub (\<lambda>s. has_prefix (gateway_build_sub_post_reply_prefix s) topic \<and> strstr topic ''/post_reply'' \<noteq> None)
        0 (gm_sub_devices m) \<noteq> None)"

definition gateway_manager_handle_message ::
  "gateway_env \<Rightarrow> string option \<Rightarrow> string option \<Rightarrow> gateway_manager \<Rightarrow> bool \<times> gateway_manager" where
  "gateway_manager_handle_message env topic payload m =
     (case (topic, payload) of
        (Some t, Some p) \<Rightarrow>
          if gm_sub_devices m = [] then (False, m)
          else if t = gateway_build_topo_topic (ge_link env) ''get_reply'' then (True, gateway_handle_topo_get_reply env p m)
          else if t = gateway_build_topo_topic (ge_link env) ''add_reply'' then (True, gateway_handle_topo_add_reply env p m)
          else if t = gateway_build_topo_topic (ge_link env) ''add/notify'' then (True, gateway_handle_topo_add_notify env p m)
          else if t = gateway_build_topo_topic (ge_link env) ''change'' then (True, gateway_handle_topo_change env p m)
          else if t = list_found_reply_topic (ge_link env) then (True, m)
          else if t = gateway_build_combine_topic (ge_link env) ''login_reply'' then (True, gateway_handle_combine_reply t p m)
          else if t = gateway_build_combine_topic (ge_link env) ''logout_reply'' then (True, gateway_handle_combine_reply t p m)
          else (case gateway_handle_sub_service_message env t p m of (claimed, m1) \<Rightarrow>
            if claimed then (True, m1) else (gateway_handle_sub_post_reply t m1, m1))
      | _ \<Rightarrow> (False, m))"

end
