(* ===== verification/Gateway_Topology.thy ===== *)
theory Gateway_Topology
  imports Gateway_Manager
begin

text \<open>
  What the gateway manager promises, over every sequence of its operations: requests in the name of a
  sub device are signed with the secret of that device, the texts of the state stay within their
  buffers, a sub device is online only by an accepted login, and the topology the cloud reports decides
  which request each device makes.
\<close>

section \<open>The setting\<close>

definition login_topic :: "app_link \<Rightarrow> string" where
  "login_topic app = gateway_build_combine_topic app ''login''"

definition add_topic :: "app_link \<Rightarrow> string" where
  "add_topic app = gateway_build_topo_topic app ''add''"

text \<open>The client sends over MQTT, the text builder has memory, the names fit their buffers.\<close>

definition gateway_ok :: "gateway_env \<Rightarrow> bool" where
  "gateway_ok env \<longleftrightarrow> \<not> al_runtime_library_mode (ge_link env) \<and> al_mqtt_handle (ge_link env)
     \<and> (\<forall>n. ge_memory env n) \<and> link_ok (ge_link env)"

definition config_fits :: "sub_device_config \<Rightarrow> bool" where
  "config_fits c \<longleftrightarrow> length (sd_product_key c) < 128 \<and> length (sd_device_name c) < 128
     \<and> length (sd_device_secret c) < 128 \<and> length (sd_sign_method c) < 32"

definition short_secret :: "sub_device_config \<Rightarrow> bool" where
  "short_secret c \<longleftrightarrow> length (sd_device_secret c) \<le> 64"

text \<open>The signature the cloud computes: HMAC-SHA256 over the identity and the time, keyed with the secret.\<close>

definition signature :: "sub_device_config \<Rightarrow> string \<Rightarrow> string" where
  "signature c timestamp = core_hex2str (hmac_spec sha256_spec (bytes_of (sd_device_secret c))
     (bytes_of (''clientId'' @ sd_product_key c @ ''&'' @ sd_device_name c @ ''deviceName'' @ sd_device_name c
        @ ''productKey'' @ sd_product_key c @ ''timestamp'' @ timestamp))) False"

text \<open>The login and the topology request of a configured device.\<close>

definition login_request :: "app_link \<Rightarrow> sub_device_config \<Rightarrow> int \<Rightarrow> string \<Rightarrow> app_effect" where
  "login_request app c now ts =
     Mqtt_pub (login_topic app) (login_payload (gateway_sub_of c) now (signature c ts) ts) 0"

definition add_request :: "app_link \<Rightarrow> sub_device_config \<Rightarrow> int \<Rightarrow> string \<Rightarrow> app_effect" where
  "add_request app c now ts =
     Mqtt_pub (add_topic app) (topo_add_payload (gateway_sub_of c) now (signature c ts) ts) 0"

section \<open>One request\<close>

lemma payload_config [simp]:
  "login_payload (gateway_sub_of (gs_config s)) = login_payload s"
  "topo_add_payload (gateway_sub_of (gs_config s)) = topo_add_payload s"
  by (simp_all add: login_payload_def topo_add_payload_def gateway_sub_of_def gateway_client_id_def
      gateway_get_sign_method_def fun_eq_iff)

lemma length_hmac_spec: "length (hmac_spec sha256_spec k m) = 32"
  by (simp add: hmac_spec_def length_sha256_spec)

lemma length_signature: "length (signature c ts) = 64"
  by (simp add: signature_def length_core_hex2str length_hmac_spec)

lemma publish_ok:
  "gateway_ok env \<Longrightarrow> gateway_publish env topic payload m
     = (if al_pub (ge_link env) topic < 0 then -1 else 0, m \<lparr> gm_sent := gm_sent m @ [Mqtt_pub topic payload 0] \<rparr>)"
  by (simp add: gateway_publish_def gateway_ok_def app_publish_topic_def)

lemma build_sign_ok:
  assumes "gateway_ok env" "config_fits (gs_config s)" "short_secret (gs_config s)" "length ts < 64"
  shows "gateway_build_sign env s (gateway_client_id s) ts 65 m
    = (Some (signature (gs_config s) ts), m \<lparr> gm_calls := gm_calls m + 2 \<rparr>)"
proof -
  let ?c = "gs_config s"
  have id: "gateway_client_id s = sd_product_key ?c @ ''&'' @ sd_device_name ?c"
    using assms(2) by (simp add: gateway_client_id_def config_fits_def)
  have "length (bytes_of (sign_text_of s (gateway_client_id s) ts)) < 2 ^ 32" "length (bytes_of (sd_device_secret ?c)) \<le> 64"
    using assms(2-4) by (simp_all add: id sign_text_of_def config_fits_def short_secret_def)
  from core_hmac_short [OF this, of "ge_stack env (gm_calls m)"]
  have "core_hmac_sha256 (Some (bytes_of (sign_text_of s (gateway_client_id s) ts))) (Some (bytes_of (sd_device_secret ?c)))
      (Some (ge_stack env (gm_calls m)))
    = Some (hmac_spec sha256_spec (bytes_of (sd_device_secret ?c)) (bytes_of (sign_text_of s (gateway_client_id s) ts)))" .
  moreover have "signature ?c ts = core_hex2str (hmac_spec sha256_spec (bytes_of (sd_device_secret ?c))
      (bytes_of (sign_text_of s (gateway_client_id s) ts))) False"
    by (simp add: signature_def sign_text_of_def id)
  ultimately show ?thesis
    using assms(1) length_signature [of ?c ts]
    by (simp add: gateway_build_sign_def gateway_memory_def gateway_append_def gateway_ok_def)
qed

text \<open>With a longer secret the HMAC is not computed: what the stack held is sent as the signature.\<close>

lemma long_secret_sends_stack:
  assumes "gateway_ok env" "64 < length (sd_device_secret (gs_config s))" "length (ge_stack env (gm_calls m)) = 32"
  shows "fst (gateway_build_sign env s client_id ts 65 m) = Some (core_hex2str (ge_stack env (gm_calls m)) False)"
  using assms by (simp add: gateway_build_sign_def gateway_memory_def gateway_append_def gateway_ok_def core_hmac_sha256_def
      length_core_hex2str)

text \<open>A request for a device with a usable secret is the signed one; for one without a secret nothing is sent.\<close>

definition sends :: "gateway_manager \<Rightarrow> app_effect list \<Rightarrow> gateway_manager \<Rightarrow> bool" where
  "sends m new m' \<longleftrightarrow> gm_sub_devices m' = gm_sub_devices m \<and> gm_sent m' = gm_sent m @ new"

lemma sends_trans: "sends m a m1 \<Longrightarrow> sends m1 b m2 \<Longrightarrow> sends m (a @ b) m2"
  by (simp add: sends_def)

lemma sends_refl [simp]: "sends m [] m"
  by (simp add: sends_def)

lemma signed_request_ok:
  assumes "gateway_ok env" "index < length (gm_sub_devices m)" "c = gs_config (gm_sub_devices m ! index)"
    and "config_fits c" "short_secret c" "sd_device_secret c \<noteq> []"
  shows "\<exists>now ts. sends m [Mqtt_pub topic (payload (gm_sub_devices m ! index) now (signature c (snprintf 64 (int_dec ts))) (snprintf 64 (int_dec ts))) 0]
    (snd (signed_request payload topic env index m))"
proof -
  have "length (snprintf 64 (int_dec n)) < 64" for n by simp
  note sign = build_sign_ok [OF assms(1) _ _ this, of "gm_sub_devices m ! index"]
  show ?thesis
    using assms unfolding signed_request_def sends_def Let_def gateway_sub_device_has_secret_def gateway_now_def
    by (auto simp: sign publish_ok simp del: snprintf_fits)
qed

lemma signed_request_none:
  "index < length (gm_sub_devices m) \<Longrightarrow> sd_device_secret (gs_config (gm_sub_devices m ! index)) = [] \<Longrightarrow>
   snd (signed_request payload topic env index m) = m"
  by (simp add: signed_request_def gateway_sub_device_has_secret_def Let_def)

lemma request_ok:
  assumes "gateway_ok env" "index < length (gm_sub_devices m)" "c = gs_config (gm_sub_devices m ! index)"
    and "config_fits c" "short_secret c" "sd_device_secret c \<noteq> []"
  shows "\<exists>now ts. sends m [login_request (ge_link env) c now (snprintf 64 (int_dec ts))] (snd (gateway_request_login env index m))"
    and "\<exists>now ts. sends m [add_request (ge_link env) c now (snprintf 64 (int_dec ts))] (snd (gateway_request_topo_add env index m))"
  using signed_request_ok [OF assms, of "login_topic (ge_link env)" login_payload]
    signed_request_ok [OF assms, of "add_topic (ge_link env)" topo_add_payload] assms(3)
  by (simp_all add: gateway_request_login_def gateway_request_topo_add_def login_request_def add_request_def
      login_topic_def add_topic_def)

section \<open>Loops over the items of a message\<close>

definition sub_identity :: "gateway_sub \<Rightarrow> string \<times> string" where
  "sub_identity s = (sd_product_key (gs_config s), sd_device_name (gs_config s))"

text \<open>The devices an array names, in order.\<close>

definition identities :: "string \<Rightarrow> (string \<times> string) list" where
  "identities array_json = List.map_filter (item_identity array_json) [0..<nat (json_array_size (Some array_json))]"

definition on_device :: "(nat \<Rightarrow> gateway_manager \<Rightarrow> gateway_manager) \<Rightarrow> string \<times> string \<Rightarrow> gateway_manager \<Rightarrow> gateway_manager" where
  "on_device body i m =
     (case gateway_find_sub_device_index m (fst i) (snd i) of None \<Rightarrow> m | Some index \<Rightarrow> body index m)"

lemma items_loop_fold:
  "items_loop body a n index m = fold (on_device body) (List.map_filter (item_identity a) [index..<index + n]) m"
proof (induction n arbitrary: index m)
  case (Suc n)
  have "[index..<index + Suc n] = index # [Suc index..<Suc index + n]" by (simp add: upt_rec)
  then show ?case
    by (simp add: Suc.IH map_filter_simps on_device_def split: option.splits prod.splits)
qed (simp add: map_filter_simps)

lemma for_items_fold: "for_items body a = fold (on_device body) (identities a)"
  by (simp add: for_items_def identities_def items_loop_fold fun_eq_iff)

lemma match_sub_None: "match_sub found k ss = None \<longleftrightarrow> (\<forall>s \<in> set ss. \<not> found s)"
  by (induction ss arbitrary: k) auto

lemma match_sub_Some:
  "match_sub found k ss = Some i \<Longrightarrow> k \<le> i \<and> i - k < length ss \<and> found (ss ! (i - k))"
proof (induction ss arbitrary: k)
  case (Cons s ss)
  show ?case
  proof (cases "found s")
    case False
    with Cons.prems have "match_sub found (Suc k) ss = Some i" by simp
    from Cons.IH [OF this] show ?thesis by (auto simp: nth_Cons split: nat.splits) (metis Suc_diff_le diff_Suc_1 diff_Suc_Suc)
  qed (use Cons.prems in auto)
qed simp

lemma find_Some:
  assumes "gateway_find_sub_device_index m k n = Some i"
  shows "i < length (gm_sub_devices m)" "sub_identity (gm_sub_devices m ! i) = (k, n)"
  using match_sub_Some [of _ 0 "gm_sub_devices m" i] assms
  by (force simp: gateway_find_sub_device_index_def sub_identity_def)+

lemma find_SomeD:
  "gateway_find_sub_device_index m k n = Some i \<Longrightarrow>
   i < length (gm_sub_devices m) \<and> sub_identity (gm_sub_devices m ! i) = (k, n)"
  using find_Some by blast

lemma find_None:
  "gateway_find_sub_device_index m k n = None \<longleftrightarrow> (k, n) \<notin> sub_identity ` set (gm_sub_devices m)"
  by (auto simp: gateway_find_sub_device_index_def match_sub_None sub_identity_def)

text \<open>A loop whose body changes one device changes the named devices, when no two have the same identity.\<close>

definition distinct_ids :: "gateway_manager \<Rightarrow> bool" where
  "distinct_ids m \<longleftrightarrow> distinct (map sub_identity (gm_sub_devices m))"

lemma on_device_topo:
  assumes "distinct_ids m"
  shows "on_device (\<lambda>i m. gateway_update_topo_state m i a d u) x m
    = m \<lparr> gm_sub_devices := map (\<lambda>s. if sub_identity s = x then s \<lparr> gs_topo_added := a, gs_disabled := d, gs_online := u \<rparr> else s)
        (gm_sub_devices m) \<rparr>"
proof (cases "gateway_find_sub_device_index m (fst x) (snd x)")
  case None
  then have "map (\<lambda>s. if sub_identity s = x then s \<lparr> gs_topo_added := a, gs_disabled := d, gs_online := u \<rparr> else s)
      (gm_sub_devices m) = gm_sub_devices m"
    by (intro map_idI) (auto simp: find_None)
  with None show ?thesis by (simp add: on_device_def)
next
  case (Some i)
  note f = find_Some [OF Some]
  have "sub_identity (gm_sub_devices m ! j) = x \<longleftrightarrow> j = i" if "j < length (gm_sub_devices m)" for j
    using assms that f nth_eq_iff_index_eq [of "map sub_identity (gm_sub_devices m)" j i] by (auto simp: distinct_ids_def)
  then have "(gm_sub_devices m)[i := (gm_sub_devices m ! i) \<lparr> gs_topo_added := a, gs_disabled := d, gs_online := u \<rparr>]
      = map (\<lambda>s. if sub_identity s = x then s \<lparr> gs_topo_added := a, gs_disabled := d, gs_online := u \<rparr> else s) (gm_sub_devices m)"
    by (intro nth_equalityI) (auto simp: nth_list_update f(1))
  with Some f(1) show ?thesis by (simp add: on_device_def gateway_update_topo_state_def)
qed

lemma topo_loop:
  assumes "distinct_ids m"
  shows "fold (on_device (\<lambda>i m. gateway_update_topo_state m i a d u)) names m
    = m \<lparr> gm_sub_devices := map (\<lambda>s. if sub_identity s \<in> set names
          then s \<lparr> gs_topo_added := a, gs_disabled := d, gs_online := u \<rparr> else s) (gm_sub_devices m) \<rparr>"
  using assms
proof (induction names arbitrary: m)
  case (Cons x names)
  let ?f = "\<lambda>s. if sub_identity s = x then s \<lparr> gs_topo_added := a, gs_disabled := d, gs_online := u \<rparr> else s"
  have id: "sub_identity (?f s) = sub_identity s" for s by (simp add: sub_identity_def)
  then have "distinct_ids (m \<lparr> gm_sub_devices := map ?f (gm_sub_devices m) \<rparr>)"
    using Cons.prems by (simp add: distinct_ids_def comp_def)
  from Cons.IH [OF this] show ?case
    by (auto simp: on_device_topo [OF Cons.prems] id comp_def intro!: arg_cong [of _ _ "\<lambda>x. m \<lparr> gm_sub_devices := x \<rparr>"]
        simp del: if_split)
qed simp

section \<open>A sample\<close>

definition sample_gateway_env :: gateway_env where
  "sample_gateway_env = \<lparr> ge_link = \<lparr> al_runtime_library_mode = False, al_runtime_event_cb = False, al_mqtt_handle = True,
       al_product_key = ''gk'', al_device_name = ''gw'', al_pub = (\<lambda>_. 0), al_sub = (\<lambda>_. 0) \<rparr>,
     ge_now = (\<lambda>n. int n), ge_memory = (\<lambda>_. True), ge_stack = (\<lambda>_. []) \<rparr>"

definition sample_config_file :: string where
  "sample_config_file = ''{\"productKey\":\"gk\",\"deviceName\":\"gw\",\"deviceSecret\":\"s\",\"subDevice\":[{\"productKey\":\"p1\",\"deviceName\":\"d1\",\"deviceSecret\":\"k1\"},{\"productKey\":\"p2\",\"deviceName\":\"d2\"}]}''"

definition sample_gateway_config :: device_config where
  "sample_gateway_config = \<lparr> cf_product_key = ''gk'', cf_device_name = ''gw'', cf_device_secret = ''s'', cf_instance_id = [],
     cf_region = [], cf_sub_devices =
      [\<lparr> sd_product_key = ''p1'', sd_device_name = ''d1'', sd_device_secret = ''k1'', sd_sign_method = ''hmacsha256'' \<rparr>,
       \<lparr> sd_product_key = ''p2'', sd_device_name = ''d2'', sd_device_secret = [], sd_sign_method = ''hmacsha256'' \<rparr>] \<rparr>"

lemma sample_config_loads: "device_config_load True (Some sample_config_file) empty_config = (0, sample_gateway_config)"
  by code_simp

definition sample_gateway :: gateway_manager where
  "sample_gateway = snd (gateway_manager_init sample_gateway_config True)"

definition sample_topo_reply :: string where
  "sample_topo_reply = ''{\"id\":\"1\",\"code\":200,\"data\":[{\"productKey\":\"p1\",\"deviceName\":\"d1\"}]}''"

lemma sample_topo_fields:
  "reply_accepted sample_topo_reply"
  "json_get_array (Some sample_topo_reply) (Some ''data'') 4096 = Copied ''[{\"productKey\":\"p1\",\"deviceName\":\"d1\"}]''"
  "identities ''[{\"productKey\":\"p1\",\"deviceName\":\"d1\"}]'' = [(''p1'', ''d1'')]"
  by code_simp+

lemma sample_gateway_ok: "gateway_ok sample_gateway_env"
  by (simp add: gateway_ok_def sample_gateway_env_def link_ok_def)

lemma sample_gateway_ids:
  "distinct_ids sample_gateway" "\<forall>s \<in> set (gm_sub_devices sample_gateway). config_fits (gs_config s) \<and> short_secret (gs_config s)"
  by (simp_all add: sample_gateway_def gateway_manager_init_def sample_gateway_config_def distinct_ids_def sub_identity_def
      gateway_sub_of_def config_fits_def short_secret_def)

section \<open>The reported topology\<close>

definition request_of :: "app_link \<Rightarrow> gateway_sub \<Rightarrow> app_effect \<Rightarrow> bool" where
  "request_of app s e \<longleftrightarrow> (\<exists>now ts. e = (if gs_topo_added s then login_request else add_request)
     app (gs_config s) now (snprintf 64 (int_dec ts)))"

lemma request_for_ok:
  assumes "gateway_ok env" "index < length (gm_sub_devices m)" "s = gm_sub_devices m ! index"
    and "config_fits (gs_config s)" "short_secret (gs_config s)" "\<not> gs_disabled s"
  shows "\<exists>new. sends m new (request_for env index m) \<and> list_all2 (request_of (ge_link env)) (filter gateway_sub_device_has_secret [s]) new"
proof (cases "gateway_sub_device_has_secret s")
  case True
  then have "sd_device_secret (gs_config s) \<noteq> []" by (simp add: gateway_sub_device_has_secret_def)
  note r = request_ok [OF assms(1,2) _ assms(4,5) this, unfolded assms(3), OF refl]
  obtain e where "sends m [e] (request_for env index m)" "request_of (ge_link env) s e"
  proof (cases "gs_topo_added s")
    case t: True
    from r(1) obtain now ts where "sends m [login_request (ge_link env) (gs_config (gm_sub_devices m ! index)) now
        (snprintf 64 (int_dec ts))] (snd (gateway_request_login env index m))" by blast
    with t True assms(3,6) show ?thesis by (intro that) (auto simp: request_for_def Let_def request_of_def)
  next
    case t: False
    from r(2) obtain now ts where "sends m [add_request (ge_link env) (gs_config (gm_sub_devices m ! index)) now
        (snprintf 64 (int_dec ts))] (snd (gateway_request_topo_add env index m))" by blast
    with t True assms(3,6) show ?thesis by (intro that) (auto simp: request_for_def Let_def request_of_def)
  qed
  with True show ?thesis by (intro exI [of _ "[e]"]) simp
next
  case False
  then show ?thesis using assms by (intro exI [of _ "[]"]) (simp add: request_for_def Let_def)
qed

lemma request_loop_ok:
  assumes "gateway_ok env" "\<forall>s \<in> set (gm_sub_devices m). config_fits (gs_config s) \<and> short_secret (gs_config s) \<and> \<not> gs_disabled s"
  shows "index + n = length (gm_sub_devices m) \<Longrightarrow> \<exists>new. sends m new (request_loop env n index m)
    \<and> list_all2 (request_of (ge_link env)) (filter gateway_sub_device_has_secret (drop index (gm_sub_devices m))) new"
  using assms(2)
proof (induction n arbitrary: index m)
  case 0
  then show ?case by (auto intro!: exI [of _ "[]"])
next
  case (Suc n)
  then have i: "index < length (gm_sub_devices m)" by simp
  let ?s = "gm_sub_devices m ! index" and ?m = "request_for env index m"
  have "config_fits (gs_config ?s)" "short_secret (gs_config ?s)" "\<not> gs_disabled ?s"
    using Suc.prems(2) i by (simp_all add: nth_mem)
  from request_for_ok [OF assms(1) i refl this] obtain a where a: "sends m a ?m"
    "list_all2 (request_of (ge_link env)) (filter gateway_sub_device_has_secret [?s]) a" by blast
  then have eq: "gm_sub_devices ?m = gm_sub_devices m" by (simp add: sends_def)
  from Suc.IH [of "Suc index" ?m] Suc.prems obtain b where b: "sends ?m b (request_loop env n (Suc index) ?m)"
    "list_all2 (request_of (ge_link env)) (filter gateway_sub_device_has_secret (drop (Suc index) (gm_sub_devices m))) b"
    by (auto simp: eq)
  have "filter gateway_sub_device_has_secret (drop index (gm_sub_devices m))
      = filter gateway_sub_device_has_secret [?s] @ filter gateway_sub_device_has_secret (drop (Suc index) (gm_sub_devices m))"
    using i by (simp flip: Cons_nth_drop_Suc)
  with sends_trans [OF a(1) b(1)] list_all2_appendI [OF a(2) b(2)] show ?case by auto
qed

definition reported :: "(string \<times> string) list \<Rightarrow> gateway_sub \<Rightarrow> gateway_sub" where
  "reported names s = s \<lparr> gs_topo_added := sub_identity s \<in> set names, gs_disabled := False, gs_online := False \<rparr>"

lemma topo_get_reply_state:
  assumes "distinct_ids m" "reply_accepted payload" "json_get_array (Some payload) (Some ''data'') 4096 = Copied data"
  shows "gateway_handle_topo_get_reply env payload m = request_loop env (length (gm_sub_devices m)) 0
    (m \<lparr> gm_sub_devices := map (reported (identities data)) (gm_sub_devices m) \<rparr>)"
proof -
  let ?m1 = "m \<lparr> gm_sub_devices := map reset_sub (gm_sub_devices m) \<rparr>"
  have id: "sub_identity (reset_sub s) = sub_identity s" for s by (simp add: reset_sub_def sub_identity_def)
  have "distinct_ids ?m1" using assms(1) by (simp add: distinct_ids_def comp_def id)
  have mark: "(\<lambda>s. if sub_identity s \<in> set (identities data)
      then s \<lparr> gs_topo_added := True, gs_disabled := False, gs_online := False \<rparr> else s) \<circ> reset_sub = reported (identities data)"
    by (auto simp: fun_eq_iff reported_def reset_sub_def sub_identity_def)
  have "for_items (\<lambda>i m. gateway_update_topo_state m i True False False) data ?m1
      = m \<lparr> gm_sub_devices := map (reported (identities data)) (gm_sub_devices m) \<rparr>"
    using topo_loop [OF \<open>distinct_ids ?m1\<close>, of True False False "identities data"]
    by (simp add: for_items_fold mark del: comp_apply)
  then show ?thesis using assms(2,3) by (simp add: gateway_handle_topo_get_reply_def)
qed

lemma reported_loop:
  assumes "gateway_ok env" "\<forall>s \<in> set (gm_sub_devices m). config_fits (gs_config s) \<and> short_secret (gs_config s)"
    and "subs = map (reported names) (gm_sub_devices m)"
  shows "\<exists>requests. sends (m \<lparr> gm_sub_devices := subs \<rparr>) requests
      (request_loop env (length (gm_sub_devices m)) 0 (m \<lparr> gm_sub_devices := subs \<rparr>))
    \<and> list_all2 (request_of (ge_link env)) (filter gateway_sub_device_has_secret subs) requests"
proof -
  have "\<forall>s \<in> set subs. config_fits (gs_config s) \<and> short_secret (gs_config s) \<and> \<not> gs_disabled s"
    using assms(2,3) by (auto simp: reported_def)
  with request_loop_ok [OF assms(1), of "m \<lparr> gm_sub_devices := subs \<rparr>" 0 "length subs"] assms(3)
  show ?thesis by simp
qed

text \<open>
  C20. The list of sub devices the cloud reports decides everything: afterwards exactly the
  configured devices it names are in the topology, none is disabled or online, and each device with a
  secret, in the order of the configuration, makes one signed request: a login when it is in the
  topology, else to be added to it. Devices without a secret make none.
\<close>

theorem topology_decides_requests:
  assumes "gateway_ok env" "distinct_ids m"
    and "\<forall>s \<in> set (gm_sub_devices m). config_fits (gs_config s) \<and> short_secret (gs_config s)"
    and "reply_accepted payload" "json_get_array (Some payload) (Some ''data'') 4096 = Copied data"
    and "subs = map (reported (identities data)) (gm_sub_devices m)"
  shows "\<exists>requests. gm_sub_devices (gateway_handle_topo_get_reply env payload m) = subs
    \<and> gm_sent (gateway_handle_topo_get_reply env payload m) = gm_sent m @ requests
    \<and> list_all2 (request_of (ge_link env)) (filter gateway_sub_device_has_secret subs) requests"
  using topo_get_reply_state [OF assms(2,4,5), of env] reported_loop [OF assms(1,3,6)] assms(6)
  by (auto simp: sends_def)

lemma topology_decides_requests_witness:
  "\<exists>now ts. gm_sent (gateway_handle_topo_get_reply sample_gateway_env sample_topo_reply sample_gateway)
    = [login_request (ge_link sample_gateway_env) (hd (cf_sub_devices sample_gateway_config)) now (snprintf 64 (int_dec ts))]"
proof -
  obtain requests where
    "gm_sent (gateway_handle_topo_get_reply sample_gateway_env sample_topo_reply sample_gateway) = gm_sent sample_gateway @ requests"
    "list_all2 (request_of (ge_link sample_gateway_env)) (filter gateway_sub_device_has_secret
       (map (reported (identities ''[{\"productKey\":\"p1\",\"deviceName\":\"d1\"}]'')) (gm_sub_devices sample_gateway))) requests"
    using topology_decides_requests [OF sample_gateway_ok sample_gateway_ids sample_topo_fields(1,2) refl] by blast
  then show ?thesis unfolding sample_topo_fields(3)
    by (auto simp: sample_gateway_def gateway_manager_init_def sample_gateway_config_def reported_def gateway_sub_of_def
        sub_identity_def gateway_sub_device_has_secret_def list_all2_Cons1 request_of_def)
qed

section \<open>How the state evolves\<close>

definition gateway_configs :: "gateway_manager \<Rightarrow> sub_device_config list" where
  "gateway_configs m = map gs_config (gm_sub_devices m)"

definition usable :: "gateway_env \<Rightarrow> gateway_manager \<Rightarrow> bool" where
  "usable env m \<longleftrightarrow> gateway_ok env \<and> (\<forall>c \<in> set (gateway_configs m). config_fits c \<and> short_secret c)"

definition stored_fits :: "gateway_manager \<Rightarrow> bool" where
  "stored_fits m \<longleftrightarrow> (\<forall>s \<in> set (gm_sub_devices m). length (gs_last_property_json s) < 1024)"

text \<open>A message on the login or the topology topic is a signed request of a configured device with a secret.\<close>

definition signed_for :: "app_link \<Rightarrow> sub_device_config list \<Rightarrow> app_effect \<Rightarrow> bool" where
  "signed_for app cs e \<longleftrightarrow> (\<forall>t p q. e = Mqtt_pub t p q \<and> t \<in> {login_topic app, add_topic app} \<longrightarrow>
     (\<exists>c \<in> set cs. sd_device_secret c \<noteq> [] \<and>
        (\<exists>now ts. e = (if t = login_topic app then login_request else add_request) app c now (snprintf 64 (int_dec ts)))))"

text \<open>
  The steps of the manager: the configuration stays, stored texts fit, what is sent is signed, only
  devices of the first set come online, and only the properties of those of the second change.
\<close>

definition evolves :: "gateway_env \<Rightarrow> nat set \<times> nat set \<Rightarrow> gateway_manager \<Rightarrow> gateway_manager \<Rightarrow> bool" where
  "evolves env A m m' \<longleftrightarrow> gateway_configs m' = gateway_configs m
     \<and> (stored_fits m \<longrightarrow> stored_fits m')
     \<and> (usable env m \<longrightarrow> (\<exists>new. gm_sent m' = gm_sent m @ new \<and> (\<forall>e \<in> set new. signed_for (ge_link env) (gateway_configs m) e)))
     \<and> (\<forall>i < length (gm_sub_devices m). gs_online (gm_sub_devices m' ! i) \<longrightarrow> gs_online (gm_sub_devices m ! i) \<or> i \<in> fst A)
     \<and> (\<forall>i < length (gm_sub_devices m). i \<notin> snd A \<longrightarrow>
          gs_last_property_json (gm_sub_devices m' ! i) = gs_last_property_json (gm_sub_devices m ! i))"

lemma evolves_refl [simp, intro]: "evolves env A m m"
  by (simp add: evolves_def)

lemma usable_configs: "gateway_configs m' = gateway_configs m \<Longrightarrow> usable env m' = usable env m"
  by (simp add: usable_def)

lemma configs_length: "gateway_configs m' = gateway_configs m \<Longrightarrow> length (gm_sub_devices m') = length (gm_sub_devices m)"
  unfolding gateway_configs_def by (metis length_map)

lemma evolves_trans:
  assumes "evolves env A m m1" "evolves env A m1 m2"
  shows "evolves env A m m2"
proof -
  have "gateway_configs m1 = gateway_configs m" "gateway_configs m2 = gateway_configs m1"
    using assms by (simp_all add: evolves_def)
  note c = this usable_configs [OF this(1)] configs_length [OF this(1)] configs_length [OF this(2)]
  have "\<exists>new. gm_sent m2 = gm_sent m @ new \<and> (\<forall>e \<in> set new. signed_for (ge_link env) (gateway_configs m) e)"
    if u: "usable env m"
  proof -
    obtain a b where "gm_sent m1 = gm_sent m @ a" "gm_sent m2 = gm_sent m1 @ b"
      "\<forall>e \<in> set a. signed_for (ge_link env) (gateway_configs m) e" "\<forall>e \<in> set b. signed_for (ge_link env) (gateway_configs m) e"
      using u assms c by (auto simp: evolves_def)
    then show ?thesis by auto
  qed
  with assms c show ?thesis by (auto simp: evolves_def)
qed

lemma evolves_calls [simp]:
  "evolves env A m (m1 \<lparr> gm_calls := n \<rparr>) = evolves env A m m1"
  by (simp add: evolves_def gateway_configs_def stored_fits_def)

lemma evolves_update:
  assumes "evolves env A m m1" "\<And>s. gs_config (f s) = gs_config s"
    and "\<And>s. length (gs_last_property_json s) < 1024 \<Longrightarrow> length (gs_last_property_json (f s)) < 1024"
    and "\<And>s. gs_online (f s) \<Longrightarrow> gs_online s \<or> index \<in> fst A"
    and "\<And>s. index \<notin> snd A \<Longrightarrow> gs_last_property_json (f s) = gs_last_property_json s"
  shows "evolves env A m (m1 \<lparr> gm_sub_devices := (gm_sub_devices m1)[index := f (gm_sub_devices m1 ! index)] \<rparr>)"
proof (cases "index < length (gm_sub_devices m1)")
  case True
  let ?m = "m1 \<lparr> gm_sub_devices := (gm_sub_devices m1)[index := f (gm_sub_devices m1 ! index)] \<rparr>"
  have "map gs_config ((gm_sub_devices m1)[index := f (gm_sub_devices m1 ! index)]) = map gs_config (gm_sub_devices m1)"
    using True by (intro nth_equalityI) (auto simp: nth_list_update assms(2))
  moreover have "stored_fits m1 \<Longrightarrow> stored_fits ?m"
    using True assms(3) set_update_subset_insert [of "gm_sub_devices m1" index "f (gm_sub_devices m1 ! index)"]
    by (auto simp: stored_fits_def)
  ultimately have "evolves env A m1 ?m"
    using True assms(4,5) by (auto simp: evolves_def gateway_configs_def nth_list_update)
  with assms(1) show ?thesis by (rule evolves_trans)
next
  case False
  then have "m1 \<lparr> gm_sub_devices := (gm_sub_devices m1)[index := f (gm_sub_devices m1 ! index)] \<rparr> = m1"
    by (cases m1) (simp add: list_update_beyond)
  with assms(1) show ?thesis by simp
qed

lemma evolves_topo:
  assumes "evolves env A m m1" shows "evolves env A m (gateway_update_topo_state m1 i a d False)"
  using evolves_update [OF assms, of "\<lambda>s. s \<lparr> gs_topo_added := a, gs_disabled := d, gs_online := False \<rparr>" i] assms
  by (simp add: gateway_update_topo_state_def)

lemma evolves_online:
  assumes "evolves env A m m1" "u \<Longrightarrow> i \<in> fst A" shows "evolves env A m (gateway_update_online_state m1 i u)"
  using evolves_update [OF assms(1), of "\<lambda>s. s \<lparr> gs_online := u \<rparr>" i] assms
  by (simp add: gateway_update_online_state_def)

lemma evolves_store:
  assumes "evolves env A m m1" "i \<in> snd A" shows "evolves env A m (gateway_store_properties m1 i t)"
  using evolves_update [OF assms(1), of "\<lambda>s. s \<lparr> gs_last_property_json := snprintf 1024 t \<rparr>" i] assms
  by (simp add: gateway_store_properties_def min_def)

lemma evolves_send:
  assumes "evolves env A m m1" "usable env m \<Longrightarrow> \<forall>e \<in> set new. signed_for (ge_link env) (gateway_configs m) e"
  shows "evolves env A m (m1 \<lparr> gm_sent := gm_sent m1 @ new \<rparr>)"
  using assms by (auto simp: evolves_def gateway_configs_def stored_fits_def usable_def)

lemma evolves_publish:
  assumes "evolves env A m m1" "usable env m \<Longrightarrow> topic \<noteq> login_topic (ge_link env) \<and> topic \<noteq> add_topic (ge_link env)"
  shows "evolves env A m (snd (gateway_publish env topic payload m1))"
proof -
  have "snd (gateway_publish env topic payload m1)
      = m1 \<lparr> gm_sent := gm_sent m1 @ snd (app_publish_topic (ge_link env) (Some topic) (Some payload) 0) \<rparr>"
    by (simp add: gateway_publish_def split: prod.splits)
  moreover have "\<forall>e \<in> set (snd (app_publish_topic (ge_link env) (Some topic) (Some payload) 0)).
      signed_for (ge_link env) (gateway_configs m) e" if "usable env m"
    using that assms(2) by (auto simp: usable_def gateway_ok_def app_publish_topic_def signed_for_def)
  ultimately show ?thesis using evolves_send [OF assms(1)] by simp
qed

section \<open>Every operation\<close>

text \<open>The topics of the other messages are not those of the requests.\<close>

lemma topic_texts:
  assumes "link_ok app"
  shows "login_topic app = ''/ext/session/'' @ al_product_key app @ ''/'' @ al_device_name app @ ''/combine/login''"
    "add_topic app = ''/sys/'' @ al_product_key app @ ''/'' @ al_device_name app @ ''/thing/topo/add''"
  using assms by (simp_all add: login_topic_def add_topic_def gateway_build_combine_topic_def gateway_build_topo_topic_def
      link_ok_def snprintf_fits)

lemma topo_topic_text:
  "link_ok app \<Longrightarrow> length suffix < 20 \<Longrightarrow>
   gateway_build_topo_topic app suffix = ''/sys/'' @ al_product_key app @ ''/'' @ al_device_name app @ ''/thing/topo/'' @ suffix"
  by (simp add: gateway_build_topo_topic_def link_ok_def snprintf_fits)

lemma list_found_text:
  "link_ok app \<Longrightarrow> gateway_build_list_found_topic app
    = ''/sys/'' @ al_product_key app @ ''/'' @ al_device_name app @ ''/thing/list/found''"
  by (simp add: gateway_build_list_found_topic_def link_ok_def snprintf_fits)

lemma other_topics:
  assumes "link_ok app"
  shows "length suffix < 20 \<Longrightarrow> suffix \<noteq> ''add'' \<Longrightarrow> gateway_build_topo_topic app suffix \<notin> {login_topic app, add_topic app}"
    and "gateway_build_list_found_topic app \<notin> {login_topic app, add_topic app}"
  using assms by (auto simp: topic_texts topo_topic_text list_found_text)

lemma last_neq: "last s \<noteq> last t \<Longrightarrow> s \<noteq> t"
  by blast

lemma sub_topics_differ:
  assumes "link_ok app" "config_fits (gs_config s)"
  shows "sub_post_topic s \<notin> {login_topic app, add_topic app}"
    and "sub_reply_topic s service \<notin> {login_topic app, add_topic app}"
proof -
  let ?t = "''/sys/'' @ sd_product_key (gs_config s) @ ''/'' @ sd_device_name (gs_config s) @ ''/thing/service/'' @ service @ ''_reply''"
  have "sub_post_topic s = ''/sys/'' @ sd_product_key (gs_config s) @ ''/'' @ sd_device_name (gs_config s) @ ''/thing/event/property/post''"
    using assms(2) by (simp add: sub_post_topic_def config_fits_def snprintf_fits)
  then have "last (sub_post_topic s) = CHR ''t''" by simp
  then show "sub_post_topic s \<notin> {login_topic app, add_topic app}"
    using topic_texts [OF assms(1)] by auto
  have l: "length (login_topic app) < 300" "length (add_topic app) < 300"
    using assms(1) by (simp_all add: topic_texts link_ok_def)
  show "sub_reply_topic s service \<notin> {login_topic app, add_topic app}"
  proof (cases "length ?t < 320")
    case True
    then have "sub_reply_topic s service = ?t" unfolding sub_reply_topic_def by (rule snprintf_fits)
    then have "last (sub_reply_topic s service) = CHR ''y''" by simp
    then show ?thesis using topic_texts [OF assms(1)] by auto
  next
    case False
    then have "length (sub_reply_topic s service) = 319" unfolding sub_reply_topic_def length_snprintf by simp
    then show ?thesis using l by auto
  qed
qed

lemma evolves_signed_request:
  assumes "evolves env A m m1" "(payload, topic) \<in> {(login_payload, login_topic (ge_link env)), (topo_add_payload, add_topic (ge_link env))}"
  shows "evolves env A m (snd (signed_request payload topic env i m1))"
proof -
  let ?r = "snd (signed_request payload topic env i m1)"
  have "\<exists>n new. ?r = m1 \<lparr> gm_calls := n, gm_sent := new \<rparr>"
    by (cases m1) (auto simp: signed_request_def gateway_now_def gateway_publish_def gateway_build_sign_def gateway_memory_def
        gateway_append_def Let_def split: prod.splits option.splits)
  then obtain n new where r: "?r = m1 \<lparr> gm_calls := n, gm_sent := new \<rparr>" by blast
  have "\<exists>a. gm_sent ?r = gm_sent m1 @ a \<and> (\<forall>e \<in> set a. signed_for (ge_link env) (gateway_configs m1) e)" if u: "usable env m1"
  proof (cases "i < length (gm_sub_devices m1) \<and> sd_device_secret (gs_config (gm_sub_devices m1 ! i)) \<noteq> []")
    case True
    let ?c = "gs_config (gm_sub_devices m1 ! i)"
    have c: "?c \<in> set (gateway_configs m1)" using True by (simp add: gateway_configs_def)
    with u have ok: "gateway_ok env" "config_fits ?c" "short_secret ?c" by (simp_all add: usable_def)
    obtain now ts where s: "sends m1 [Mqtt_pub topic (payload (gm_sub_devices m1 ! i) now (signature ?c (snprintf 64 (int_dec ts)))
        (snprintf 64 (int_dec ts))) 0] ?r"
      using signed_request_ok [OF ok(1) _ refl ok(2,3), of topic payload] True by blast
    have "login_topic (ge_link env) \<noteq> add_topic (ge_link env)" using ok(1) by (simp add: gateway_ok_def topic_texts)
    then have "Mqtt_pub topic (payload (gm_sub_devices m1 ! i) now (signature ?c (snprintf 64 (int_dec ts))) (snprintf 64 (int_dec ts))) 0
        = (if topic = login_topic (ge_link env) then login_request else add_request) (ge_link env) ?c now (snprintf 64 (int_dec ts))"
      using assms(2) by (auto simp: login_request_def add_request_def)
    with c True have "signed_for (ge_link env) (gateway_configs m1)
        (Mqtt_pub topic (payload (gm_sub_devices m1 ! i) now (signature ?c (snprintf 64 (int_dec ts))) (snprintf 64 (int_dec ts))) 0)"
      unfolding signed_for_def by (metis app_effect.inject(1))
    with s show ?thesis by (auto simp: sends_def)
  next
    case False
    then have "?r = m1" by (auto simp: signed_request_def gateway_sub_device_has_secret_def Let_def)
    then show ?thesis by simp
  qed
  then have "evolves env A m1 ?r" using r by (auto simp: evolves_def gateway_configs_def stored_fits_def)
  with assms(1) show ?thesis by (rule evolves_trans)
qed

lemma evolves_request:
  assumes "evolves env A m m1"
  shows "evolves env A m (snd (gateway_request_login env i m1))" "evolves env A m (snd (gateway_request_topo_add env i m1))"
  unfolding gateway_request_login_def gateway_request_topo_add_def login_topic_def [symmetric] add_topic_def [symmetric]
  by (intro evolves_signed_request assms; simp)+

lemmas evolves_intros = evolves_topo evolves_store evolves_request evolves_publish evolves_online

lemma evolves_items:
  assumes "\<And>i m2. evolves env A m m2 \<Longrightarrow> evolves env A m (body i m2)"
  shows "evolves env A m m1 \<Longrightarrow> evolves env A m (for_items body a m1)"
proof -
  have "evolves env A m (fold (on_device body) names m1)" if "evolves env A m m1" for names
    using that by (induction names arbitrary: m1) (auto simp: on_device_def assms split: option.splits)
  then show "evolves env A m m1 \<Longrightarrow> evolves env A m (for_items body a m1)" by (simp add: for_items_fold)
qed

lemma evolves_request_loop: "evolves env A m m1 \<Longrightarrow> evolves env A m (request_loop env n i m1)"
  by (induction n arbitrary: i m1) (auto simp: request_for_def Let_def intro: evolves_request)

lemma evolves_reset: "evolves env A m (m \<lparr> gm_sub_devices := map reset_sub (gm_sub_devices m) \<rparr>)"
  by (auto simp: evolves_def gateway_configs_def stored_fits_def reset_sub_def)

lemma evolves_get_reply: "evolves env A m (gateway_handle_topo_get_reply env payload m)"
  by (auto simp: gateway_handle_topo_get_reply_def Let_def evolves_reset
      intro!: evolves_request_loop evolves_items evolves_topo split: json_copy.splits)

lemma evolves_add_reply: "evolves env A m (gateway_handle_topo_add_reply env payload m)"
  by (auto simp: gateway_handle_topo_add_reply_def intro!: evolves_items evolves_request evolves_topo split: json_copy.splits)

lemma evolves_notify_reply:
  assumes "length suffix < 20" "suffix \<noteq> ''add''"
  shows "evolves env A m (snd (gateway_reply_notify env suffix rid m))"
  using other_topics(1) [OF _ assms] unfolding gateway_reply_notify_def
  by (intro evolves_publish evolves_refl) (auto simp: usable_def gateway_ok_def)

lemma evolves_notify: "evolves env A m (gateway_handle_topo_add_notify env payload m)"
  by (auto simp: gateway_handle_topo_add_notify_def Let_def
      intro!: evolves_items evolves_request evolves_notify_reply split: json_copy.splits)

lemma evolves_change_body: "evolves env A m m1 \<Longrightarrow> evolves env A m (change_body env status i m1)"
  by (auto simp: change_body_def Let_def intro!: evolves_request evolves_topo)

lemma evolves_change: "evolves env A m (gateway_handle_topo_change env payload m)"
  by (auto simp: gateway_handle_topo_change_def Let_def
      intro!: evolves_items evolves_change_body evolves_notify_reply split: json_copy.splits)

text \<open>The devices an accepted reply of the session service names.\<close>

definition session_device :: "string \<Rightarrow> gateway_manager \<Rightarrow> nat set" where
  "session_device payload m =
     (if \<not> reply_accepted payload then {}
      else case json_get_object (Some payload) (Some ''data'') 512 of
        Failed _ \<Rightarrow> {}
      | Copied data_json \<Rightarrow>
          (case identity_in data_json of None \<Rightarrow> {}
           | Some (k, n) \<Rightarrow> {i. i < length (gm_sub_devices m) \<and> sub_identity (gm_sub_devices m ! i) = (k, n)}))"

lemma evolves_combine:
  assumes "strstr topic ''/login_reply'' \<noteq> None \<Longrightarrow> session_device payload m \<subseteq> fst A"
  shows "evolves env A m (gateway_handle_combine_reply topic payload m)"
  using assms by (auto simp: gateway_handle_combine_reply_def session_device_def
      intro!: evolves_online dest!: find_SomeD subsetD split: json_copy.splits option.splits if_splits)

lemma sub_index_topics:
  assumes "evolves env A m m1" "usable env m" "i < length (gm_sub_devices m1)"
  shows "sub_post_topic (gm_sub_devices m1 ! i) \<noteq> login_topic (ge_link env) \<and> sub_post_topic (gm_sub_devices m1 ! i) \<noteq> add_topic (ge_link env)"
    "sub_reply_topic (gm_sub_devices m1 ! i) t \<noteq> login_topic (ge_link env) \<and> sub_reply_topic (gm_sub_devices m1 ! i) t \<noteq> add_topic (ge_link env)"
proof -
  have "gs_config (gm_sub_devices m1 ! i) \<in> set (gateway_configs m)"
    using assms(1,3) by (metis evolves_def gateway_configs_def length_map nth_map nth_mem)
  then have "config_fits (gs_config (gm_sub_devices m1 ! i))" "link_ok (ge_link env)"
    using assms(2) by (auto simp: usable_def gateway_ok_def)
  from sub_topics_differ [OF this(2,1)]
  show "sub_post_topic (gm_sub_devices m1 ! i) \<noteq> login_topic (ge_link env) \<and> sub_post_topic (gm_sub_devices m1 ! i) \<noteq> add_topic (ge_link env)"
    "sub_reply_topic (gm_sub_devices m1 ! i) t \<noteq> login_topic (ge_link env) \<and> sub_reply_topic (gm_sub_devices m1 ! i) t \<noteq> add_topic (ge_link env)"
    by auto
qed

lemma evolves_sub_reply:
  assumes "evolves env A m m1"
  shows "evolves env A m (snd (gateway_reply_sub_service env i service rid d m1))"
proof (cases "i < length (gm_sub_devices m1)")
  case True
  note t = sub_index_topics(2) [OF assms _ True]
  show ?thesis
    by (auto simp: gateway_reply_sub_service_def assms intro!: evolves_publish t split: option.splits)
qed (use assms in \<open>auto simp: gateway_reply_sub_service_def split: option.splits\<close>)

lemma evolves_sub_post:
  assumes "evolves env A m m1"
  shows "evolves env A m (snd (gateway_post_sub_properties env i p m1))"
proof (cases "i < length (gm_sub_devices m1)")
  case True
  note t = sub_index_topics(1) [OF assms _ True]
  show ?thesis
    by (auto simp: gateway_post_sub_properties_def gateway_memory_def gateway_now_def gateway_append_def assms
        intro!: evolves_publish t split: option.splits)
qed (use assms in \<open>auto simp: gateway_post_sub_properties_def split: option.splits\<close>)

text \<open>The device whose properties a message on a topic sets.\<close>

definition stored_by :: "string \<Rightarrow> gateway_manager \<Rightarrow> nat set" where
  "stored_by topic m = (case match_sub (\<lambda>s. has_prefix (gateway_build_sub_service_prefix s) topic) 0 (gm_sub_devices m) of
     None \<Rightarrow> {}
   | Some i \<Rightarrow> if drop (length (gateway_build_sub_service_prefix (gm_sub_devices m ! i))) topic = ''property/set'' then {i} else {})"

lemma evolves_service:
  assumes "stored_by topic m \<subseteq> snd A"
  shows "evolves env A m (snd (gateway_handle_sub_service_message env topic payload m))"
  using assms by (auto simp: gateway_handle_sub_service_message_def stored_by_def sub_service_def Let_def
      intro!: evolves_sub_reply evolves_sub_post evolves_store split: option.splits json_copy.splits)

text \<open>The devices a message may bring online: those an accepted reply names.\<close>

definition logged_in :: "gateway_env \<Rightarrow> string option \<Rightarrow> string option \<Rightarrow> gateway_manager \<Rightarrow> nat set" where
  "logged_in env topic payload m =
     (case (topic, payload) of
        (Some t, Some p) \<Rightarrow>
          if t \<in> {gateway_build_combine_topic (ge_link env) ''login_reply'', gateway_build_combine_topic (ge_link env) ''logout_reply''}
             \<and> strstr t ''/login_reply'' \<noteq> None
          then session_device p m else {}
      | _ \<Rightarrow> {})"

definition stores :: "string option \<Rightarrow> gateway_manager \<Rightarrow> nat set" where
  "stores topic m = (case topic of None \<Rightarrow> {} | Some t \<Rightarrow> stored_by t m)"

lemma evolves_message:
  "evolves env (logged_in env topic payload m, stores topic m) m (snd (gateway_manager_handle_message env topic payload m))"
proof (cases "topic = None \<or> payload = None \<or> gm_sub_devices m = []")
  case True
  then show ?thesis by (auto simp: gateway_manager_handle_message_def split: option.splits)
next
  case False
  then obtain t p where tp: "topic = Some t" "payload = Some p" by auto
  let ?A = "(logged_in env topic payload m, stores topic m)"
  have combine: "evolves env ?A m (gateway_handle_combine_reply t p m)"
    if "t \<in> {gateway_build_combine_topic (ge_link env) ''login_reply'', gateway_build_combine_topic (ge_link env) ''logout_reply''}"
    using that by (intro evolves_combine) (simp add: logged_in_def tp)
  have service: "evolves env ?A m (snd (gateway_handle_sub_service_message env t p m))"
    by (rule evolves_service) (simp add: tp stores_def)
  show ?thesis using False combine service
    unfolding gateway_manager_handle_message_def tp option.case prod.case
    by (auto simp: evolves_get_reply evolves_add_reply evolves_notify evolves_change split: prod.splits)
qed

lemma evolves_subscribe_all: "evolves env A m m1 \<Longrightarrow> evolves env A m (snd (gateway_subscribe_all env topics m1))"
proof (induction topics arbitrary: m1)
  case (Cons t topics)
  have "evolves env A m (snd (gateway_subscribe env t m1))"
    using evolves_send [OF Cons.prems, of "[Mqtt_sub t]"] by (simp add: gateway_subscribe_def app_subscribe_topic_def signed_for_def)
  with Cons.IH show ?case by (auto split: prod.splits)
qed simp

lemma append_calls: "gateway_append env t p m = (fst (gateway_append env t p m), m \<lparr> gm_calls := gm_calls m + 1 \<rparr>)"
  by (simp add: gateway_append_def gateway_memory_def)

lemma evolves_list_found_loop: "evolves env A m m1 \<Longrightarrow> evolves env A m (snd (list_found_loop env ss i t m1))"
proof (induction ss arbitrary: i t m1)
  case (Cons s ss)
  then have "evolves env A m (snd (gateway_append env t p m1))" for t p by (subst append_calls) simp
  then have c: "evolves env A m (m1 \<lparr> gm_calls := n \<rparr>)" for n using Cons.prems by simp
  show ?case
    by (subst list_found_loop.simps, subst (1 2) append_calls)
      (auto intro!: Cons.IH c split: prod.splits)
qed simp

lemma evolves_list_found_result:
  "list_found_loop env ss i t m1 = (t', m2) \<Longrightarrow> evolves env A m m1 \<Longrightarrow> evolves env A m m2"
  using evolves_list_found_loop [of env A m m1 ss i t] by simp

lemma evolves_start: "evolves env A m (snd (gateway_manager_start env m))"
proof -
  have found: "evolves env A m (snd (gateway_request_list_found env m1))" if e: "evolves env A m m1" for m1
    unfolding gateway_request_list_found_def gateway_memory_def gateway_now_def
    using other_topics(2)
    by (subst (1 2) append_calls)
      (auto simp: e usable_def gateway_ok_def intro!: evolves_publish elim!: evolves_list_found_result split: prod.splits)
  have get: "evolves env A m (snd (gateway_request_topo_get env m1))" if e: "evolves env A m m1" for m1
    using other_topics(1) [of "ge_link env" "''get''"]
    by (auto simp: gateway_request_topo_get_def gateway_now_def e usable_def gateway_ok_def intro!: evolves_publish)
  show ?thesis
    using evolves_subscribe_all [of env A m m "gateway_topics (ge_link env) (gm_sub_devices m)"]
    by (auto simp: gateway_manager_start_def found get split: prod.splits)
      (metis found get evolves_refl snd_conv)+
qed

text \<open>The contract of an operation, and what follows from it for every state.\<close>

locale gateway_operation =
  fixes op :: "gateway_env \<Rightarrow> gateway_manager \<Rightarrow> gateway_manager"
  assumes op_evolves: "\<exists>A. evolves env A m (op env m)"
begin

lemma op_configs: "gateway_configs (op env m) = gateway_configs m"
  using op_evolves [of env m] by (auto simp: evolves_def)

lemma op_stored: "stored_fits m \<Longrightarrow> stored_fits (op env m)"
  using op_evolves [of env m] by (auto simp: evolves_def)

lemma op_signed:
  assumes "usable env m" "\<forall>e \<in> set (gm_sent m). signed_for (ge_link env) (gateway_configs m) e"
  shows "\<forall>e \<in> set (gm_sent (op env m)). signed_for (ge_link env) (gateway_configs (op env m)) e"
proof -
  obtain new where "gm_sent (op env m) = gm_sent m @ new" "\<forall>e \<in> set new. signed_for (ge_link env) (gateway_configs m) e"
    using op_evolves [of env m] assms(1) by (auto simp: evolves_def)
  with assms(2) show ?thesis by (auto simp: op_configs)
qed

end

interpretation gateway_start: gateway_operation "\<lambda>env m. snd (gateway_manager_start env m)"
  by unfold_locales (blast intro: evolves_start)

interpretation gateway_message: gateway_operation "\<lambda>env m. snd (gateway_manager_handle_message env topic payload m)"
  for topic payload
  by unfold_locales (blast intro: evolves_message)

section \<open>Every state the manager reaches\<close>

inductive gateway_reaches :: "gateway_env \<Rightarrow> device_config \<Rightarrow> gateway_manager \<Rightarrow> bool"
  for env config where
  created: "gateway_manager_init config mutex_ok = (0, m) \<Longrightarrow> gateway_reaches env config m"
| started: "gateway_reaches env config m \<Longrightarrow> gateway_reaches env config (snd (gateway_manager_start env m))"
| message: "gateway_reaches env config m \<Longrightarrow>
    gateway_reaches env config (snd (gateway_manager_handle_message env topic payload m))"

lemma reaches_configs: "gateway_reaches env config m \<Longrightarrow> gateway_configs m = cf_sub_devices config"
proof (induction rule: gateway_reaches.induct)
  case (created mutex_ok m)
  then show ?case by (auto simp: gateway_manager_init_def gateway_configs_def comp_def gateway_sub_of_def split: if_splits)
qed (simp_all add: gateway_start.op_configs gateway_message.op_configs)

text \<open>What loading the configuration gives.\<close>

definition loaded :: "sub_device_config \<Rightarrow> bool" where
  "loaded c \<longleftrightarrow> config_fits c \<and> sd_product_key c \<noteq> [] \<and> sd_device_name c \<noteq> []"

lemma get_string_lengths:
  "json_get_string j k 128 = Copied u \<Longrightarrow> length u < 128" "json_get_string j k 128 = Failed u \<Longrightarrow> length u < 128"
  "json_get_string j k 32 = Copied u \<Longrightarrow> length u < 32"
  using get_string_length [of 128 j k u] get_string_length [of 32 j k u] by auto

lemma sub_device_of_loaded: "sub_device_of item_json = Some c \<Longrightarrow> loaded c"
  by (auto simp: sub_device_of_def loaded_def config_fits_def
      intro!: stored_text_length dest: get_string_lengths split: json_copy.splits if_splits)

lemma sub_devices_loop_loaded:
  "\<forall>c \<in> set devices. loaded c \<Longrightarrow> \<forall>c \<in> set (sub_devices_loop a n index devices). loaded c"
proof (induction n arbitrary: index devices)
  case (Suc n)
  have "\<forall>c \<in> set (sub_devices_loop a n (Suc index) (devices @ [c])). loaded c" if "loaded c" for c
    using Suc.prems that by (intro Suc.IH) simp
  moreover have "\<forall>c \<in> set (sub_devices_loop a n (Suc index) devices). loaded c" by (rule Suc.IH [OF Suc.prems])
  ultimately show ?case using Suc.prems
    by (auto simp del: set_append dest: sub_device_of_loaded split: json_copy.split option.split)
qed simp

lemma config_load_loaded:
  assumes "device_config_load True file config0 = (0, config)"
  shows "length (cf_sub_devices config) \<le> 8 \<and> (\<forall>c \<in> set (cf_sub_devices config). loaded c)"
proof -
  have array: "length (load_array a) \<le> 8" "\<forall>c \<in> set (load_array a). loaded c" for a
    using loop_length [of "[]" a] sub_devices_loop_loaded [of "[]" a] by (simp_all add: load_array_def Let_def)
  have "cf_sub_devices (empty_config \<lparr> cf_product_key := a, cf_device_name := b, cf_device_secret := c,
      cf_instance_id := d, cf_region := e \<rparr>) = []" for a b c d e by (simp add: empty_config_def)
  with assms array show ?thesis
    by (auto simp: device_config_load_def device_config_load_sub_devices_def Let_def split: option.splits json_copy.splits)
qed

lemma reaches_stored: "gateway_reaches env config m \<Longrightarrow> stored_fits m"
proof (induction rule: gateway_reaches.induct)
  case (created mutex_ok m)
  then show ?case by (auto simp: gateway_manager_init_def stored_fits_def gateway_sub_of_def split: if_splits)
qed (simp_all add: gateway_start.op_stored gateway_message.op_stored)

text \<open>
  C32. The state keeps its shape: in every state the manager reaches the sub devices are those of the
  loaded configuration, in order, at most eight of them, each with a product key and a name, and every
  text of them fits the buffer the code has for it.
\<close>

theorem gateway_state_typed:
  assumes "device_config_load True file config0 = (0, config)" "gateway_reaches env config m"
  shows "map gs_config (gm_sub_devices m) = cf_sub_devices config \<and> length (gm_sub_devices m) \<le> 8
    \<and> (\<forall>s \<in> set (gm_sub_devices m). sd_product_key (gs_config s) \<noteq> [] \<and> sd_device_name (gs_config s) \<noteq> []
        \<and> config_fits (gs_config s) \<and> length (gs_last_property_json s) < 1024)"
proof -
  have c: "map gs_config (gm_sub_devices m) = cf_sub_devices config"
    using reaches_configs [OF assms(2)] by (simp add: gateway_configs_def)
  moreover have "length (gm_sub_devices m) = length (cf_sub_devices config)" using arg_cong [OF c, of length] by simp
  moreover have "loaded (gs_config s)" if "s \<in> set (gm_sub_devices m)" for s
    using config_load_loaded [OF assms(1)] that by (simp flip: c)
  ultimately show ?thesis
    using config_load_loaded [OF assms(1)] reaches_stored [OF assms(2)] by (simp add: loaded_def stored_fits_def)
qed

lemma gateway_state_typed_witness:
  "length (gm_sub_devices (snd (gateway_manager_start sample_gateway_env sample_gateway))) \<le> 8"
proof -
  have "gateway_manager_init sample_gateway_config True = (0, sample_gateway)"
    by (simp add: sample_gateway_def gateway_manager_init_def)
  then have "gateway_reaches sample_gateway_env sample_gateway_config (snd (gateway_manager_start sample_gateway_env sample_gateway))"
    by (intro gateway_reaches.started gateway_reaches.created)
  from gateway_state_typed [OF sample_config_loads this] show ?thesis by blast
qed


lemma sample_topo_message:
  "gateway_manager_handle_message sample_gateway_env (Some (gateway_build_topo_topic (ge_link sample_gateway_env) ''get_reply''))
     (Some sample_topo_reply) sample_gateway
   = (True, gateway_handle_topo_get_reply sample_gateway_env sample_topo_reply sample_gateway)"
  by (simp add: gateway_manager_handle_message_def sample_gateway_def gateway_manager_init_def sample_gateway_config_def)

lemma sample_login_sent:
  "\<exists>now ts. login_request (ge_link sample_gateway_env) (hd (cf_sub_devices sample_gateway_config)) now ts
    \<in> set (gm_sent (gateway_handle_topo_get_reply sample_gateway_env sample_topo_reply sample_gateway))"
proof -
  let ?c = "hd (cf_sub_devices sample_gateway_config)" and ?names = "[(''p1'', ''d1'')]"
  have one: "filter gateway_sub_device_has_secret (map (reported ?names) (gm_sub_devices sample_gateway))
      = [reported ?names (gateway_sub_of ?c)]" "gs_topo_added (reported ?names (gateway_sub_of ?c))"
    "gs_config (reported ?names (gateway_sub_of ?c)) = ?c"
    by (simp_all add: sample_gateway_def gateway_manager_init_def sample_gateway_config_def reported_def gateway_sub_of_def
        sub_identity_def gateway_sub_device_has_secret_def)
  obtain requests where r: "gm_sent (gateway_handle_topo_get_reply sample_gateway_env sample_topo_reply sample_gateway)
      = gm_sent sample_gateway @ requests"
    "list_all2 (request_of (ge_link sample_gateway_env)) [reported ?names (gateway_sub_of ?c)] requests"
    using reported_loop [OF sample_gateway_ok sample_gateway_ids(2) refl, of ?names]
      topo_get_reply_state [OF sample_gateway_ids(1) sample_topo_fields(1,2), of sample_gateway_env]
    by (auto simp: sends_def sample_topo_fields(3) one(1))
  then obtain e where "requests = [e]" "request_of (ge_link sample_gateway_env) (reported ?names (gateway_sub_of ?c)) e"
    by (auto simp: list_all2_Cons1)
  with r(1) one(2,3) show ?thesis unfolding request_of_def by auto
qed


text \<open>
  C31. A sub device comes online only by an accepted reply of the session service that names it: no
  other message, and no reply with another code, does it.
\<close>

theorem online_needs_login:
  assumes "gateway_manager_handle_message env topic payload m = (claimed, m')"
    and "i < length (gm_sub_devices m)" "gs_online (gm_sub_devices m' ! i)" "\<not> gs_online (gm_sub_devices m ! i)"
  shows "\<exists>t p data. topic = Some t \<and> payload = Some p \<and> strstr t ''/login_reply'' \<noteq> None
    \<and> t \<in> {gateway_build_combine_topic (ge_link env) ''login_reply'', gateway_build_combine_topic (ge_link env) ''logout_reply''}
    \<and> reply_accepted p \<and> json_get_object (Some p) (Some ''data'') 512 = Copied data
    \<and> identity_in data = Some (sub_identity (gm_sub_devices m ! i))"
proof -
  have "i \<in> logged_in env topic payload m"
    using evolves_message [of env topic payload m] assms by (auto simp: evolves_def)
  then show ?thesis
    by (auto simp: logged_in_def session_device_def split: option.splits if_splits json_copy.splits)
qed

definition sample_login_reply :: string where
  "sample_login_reply = ''{\"id\":\"2\",\"code\":200,\"data\":{\"productKey\":\"p1\",\"deviceName\":\"d1\"}}''"

lemma sample_login_online:
  "gs_online (gm_sub_devices (snd (gateway_manager_handle_message sample_gateway_env
     (Some ''/ext/session/gk/gw/combine/login_reply'') (Some sample_login_reply) sample_gateway)) ! 0)"
  by code_simp

lemma online_needs_login_witness:
  "reply_accepted sample_login_reply \<and> (\<exists>data. json_get_object (Some sample_login_reply) (Some ''data'') 512 = Copied data
     \<and> identity_in data = Some (''p1'', ''d1''))"
proof -
  obtain claimed m' where r: "gateway_manager_handle_message sample_gateway_env
      (Some ''/ext/session/gk/gw/combine/login_reply'') (Some sample_login_reply) sample_gateway = (claimed, m')"
    by fastforce
  have m: "0 < length (gm_sub_devices sample_gateway)" "\<not> gs_online (gm_sub_devices sample_gateway ! 0)"
    "sub_identity (gm_sub_devices sample_gateway ! 0) = (''p1'', ''d1'')"
    by (simp_all add: sample_gateway_def gateway_manager_init_def sample_gateway_config_def gateway_sub_of_def sub_identity_def)
  from online_needs_login [OF r m(1) _ m(2)] sample_login_online show ?thesis by (auto simp: r m(3))
qed

end
