(* ===== verification/Gateway_Services.thy ===== *)
theory Gateway_Services
  imports Gateway_Topology
begin

text \<open>
  Messages on the service topics of the sub devices: which of them the gateway manager takes, and what a
  device is told of its properties. The identities are names without a slash, as the cloud gives them.
\<close>

section \<open>Topics\<close>

definition no_slash :: "string \<Rightarrow> bool" where
  "no_slash t \<longleftrightarrow> CHR ''/'' \<notin> set t"

text \<open>Texts are cut at the first slash in one way only.\<close>

lemma slash_split:
  assumes "no_slash a" "no_slash b"
  shows "a @ CHR ''/'' # x = b @ CHR ''/'' # y \<longleftrightarrow> a = b \<and> x = y"
  using assms
proof (induction a arbitrary: b)
  case Nil
  then show ?case by (cases b) (auto simp: no_slash_def)
next
  case (Cons c a)
  then show ?case by (cases b) (auto simp: no_slash_def)
qed

definition plain_identity :: "string \<times> string \<Rightarrow> bool" where
  "plain_identity i \<longleftrightarrow> no_slash (fst i) \<and> no_slash (snd i) \<and> length (fst i) < 128 \<and> length (snd i) < 128"

text \<open>The topic of a service of a device.\<close>

definition service_topic :: "string \<times> string \<Rightarrow> string \<Rightarrow> string" where
  "service_topic i service = ''/sys/'' @ fst i @ ''/'' @ snd i @ ''/thing/service/'' @ service"

lemma sys_topic_eq:
  assumes "plain_identity i" "plain_identity j"
  shows "''/sys/'' @ fst i @ ''/'' @ snd i @ CHR ''/'' # u = ''/sys/'' @ fst j @ ''/'' @ snd j @ CHR ''/'' # v \<longleftrightarrow> i = j \<and> u = v"
  using slash_split [of "fst i" "fst j" "snd i @ CHR ''/'' # u" "snd j @ CHR ''/'' # v"]
    slash_split [of "snd i" "snd j" u v] assms
  by (cases i; cases j) (auto simp: plain_identity_def)

lemma service_topic_eq:
  "plain_identity i \<Longrightarrow> plain_identity j \<Longrightarrow> service_topic i x = service_topic j y \<longleftrightarrow> i = j \<and> x = y"
  using sys_topic_eq [of i j "''thing/service/'' @ x" "''thing/service/'' @ y"] by (simp add: service_topic_def)

text \<open>The other topics the manager takes are no service topics.\<close>

lemma service_topic_other:
  assumes "plain_identity i" "plain_identity j"
  shows "service_topic i x \<noteq> ''/sys/'' @ fst j @ ''/'' @ snd j @ ''/thing/topo/'' @ y"
    "service_topic i x \<noteq> ''/sys/'' @ fst j @ ''/'' @ snd j @ ''/thing/list/found_reply''"
    "service_topic i x \<noteq> ''/sys/'' @ fst j @ ''/'' @ snd j @ ''/thing/event/'' @ y"
    "service_topic i x \<noteq> ''/ext/session/'' @ z"
  using sys_topic_eq [OF assms, of "''thing/service/'' @ x" "''thing/topo/'' @ y"]
    sys_topic_eq [OF assms, of "''thing/service/'' @ x" "''thing/list/found_reply''"]
    sys_topic_eq [OF assms, of "''thing/service/'' @ x" "''thing/event/'' @ y"]
  by (auto simp: service_topic_def)

section \<open>Which messages the manager takes\<close>

definition link_identity :: "app_link \<Rightarrow> string \<times> string" where
  "link_identity app = (al_product_key app, al_device_name app)"

definition plain_names :: "gateway_env \<Rightarrow> gateway_manager \<Rightarrow> bool" where
  "plain_names env m \<longleftrightarrow> plain_identity (link_identity (ge_link env)) \<and> (\<forall>s \<in> set (gm_sub_devices m). plain_identity (sub_identity s))"

lemma has_prefix_iff: "has_prefix p t \<longleftrightarrow> (\<exists>r. t = p @ r)"
  unfolding has_prefix_def by (metis append_eq_conv_conj)

lemma sub_prefix:
  assumes "plain_identity (sub_identity s)"
  shows "gateway_build_sub_service_prefix s = service_topic (sub_identity s) []"
    "gateway_build_sub_post_reply_prefix s = ''/sys/'' @ fst (sub_identity s) @ ''/'' @ snd (sub_identity s) @ ''/thing/event/''"
  using assms by (simp_all add: gateway_build_sub_service_prefix_def gateway_build_sub_post_reply_prefix_def
      service_topic_def sub_identity_def plain_identity_def snprintf_fits)

lemma service_topic_append: "service_topic i x @ y = service_topic i (x @ y)"
  by (simp add: service_topic_def)

lemma service_prefix_match:
  assumes "plain_identity (sub_identity s)" "plain_identity i"
  shows "has_prefix (gateway_build_sub_service_prefix s) (service_topic i x) \<longleftrightarrow> sub_identity s = i"
    "\<not> has_prefix (gateway_build_sub_post_reply_prefix s) (service_topic i x)"
  using service_topic_eq [OF assms(2,1), of x] service_topic_other(3) [OF assms(2,1), of x]
  unfolding has_prefix_iff sub_prefix [OF assms(1)] by (auto simp: service_topic_append)

lemma manager_topics:
  assumes "plain_identity (link_identity app)" "plain_identity i"
  shows "length suffix < 20 \<Longrightarrow> service_topic i x \<noteq> gateway_build_topo_topic app suffix"
    "service_topic i x \<noteq> list_found_reply_topic app"
    "service_topic i x \<noteq> gateway_build_combine_topic app suffix"
proof -
  have l: "link_ok app" using assms(1) by (simp add: link_ok_def link_identity_def plain_identity_def)
  note o = service_topic_other [OF assms(2,1), of x, unfolded link_identity_def fst_conv snd_conv]
  show "length suffix < 20 \<Longrightarrow> service_topic i x \<noteq> gateway_build_topo_topic app suffix"
    using o(1) by (simp add: topo_topic_text [OF l])
  have "list_found_reply_topic app = ''/sys/'' @ al_product_key app @ ''/'' @ al_device_name app @ ''/thing/list/found_reply''"
    using l by (auto simp: list_found_reply_topic_def list_found_text link_ok_def Let_def)
  then show "service_topic i x \<noteq> list_found_reply_topic app" using o(2) by simp
  show "service_topic i x \<noteq> gateway_build_combine_topic app suffix"
    by (simp add: gateway_build_combine_topic_def snprintf_def service_topic_def)
qed

lemma match_service:
  assumes "plain_names env m" "plain_identity i"
  shows "match_sub (\<lambda>s. has_prefix (gateway_build_sub_service_prefix s) (service_topic i x)) 0 (gm_sub_devices m)
    = gateway_find_sub_device_index m (fst i) (snd i)"
proof -
  have match_cong: "match_sub f k ss = match_sub g k ss" if "\<forall>s \<in> set ss. f s = g s" for f g k ss
    using that by (induction ss arbitrary: k) auto
  then show ?thesis using assms service_prefix_match(1) [OF _ assms(2)]
    unfolding gateway_find_sub_device_index_def
    by (intro match_cong) (cases i, auto simp: plain_names_def sub_identity_def)
qed

text \<open>A message on a service topic is taken exactly when it is for a configured sub device.\<close>

lemma handle_service:
  assumes "plain_names env m" "plain_identity i"
  shows "gateway_manager_handle_message env (Some (service_topic i x)) (Some p) m
    = (case gateway_find_sub_device_index m (fst i) (snd i) of
         None \<Rightarrow> (False, m) | Some index \<Rightarrow> (True, sub_service env index x p m))"
proof -
  have l: "plain_identity (link_identity (ge_link env))" using assms(1) by (simp add: plain_names_def)
  have post: "\<not> gateway_handle_sub_post_reply (service_topic i x) m"
    using assms service_prefix_match(2) [OF _ assms(2)]
    by (auto simp: gateway_handle_sub_post_reply_def match_sub_None plain_names_def)
  have drop: "drop (length (gateway_build_sub_service_prefix (gm_sub_devices m ! index))) (service_topic i x) = x"
    if "gateway_find_sub_device_index m (fst i) (snd i) = Some index" for index
  proof -
    have s: "index < length (gm_sub_devices m)" "sub_identity (gm_sub_devices m ! index) = i"
      using find_SomeD [OF that] by simp_all
    then have "gateway_build_sub_service_prefix (gm_sub_devices m ! index) = service_topic i []"
      using sub_prefix(1) [of "gm_sub_devices m ! index"] assms(2) by simp
    then show ?thesis using service_topic_append [of i "[]" x, symmetric] by simp
  qed
  have "gateway_find_sub_device_index m (fst i) (snd i) = None" if "gm_sub_devices m = []"
    using that by (simp add: gateway_find_sub_device_index_def)
  then show ?thesis
    using post drop unfolding gateway_manager_handle_message_def
    by (simp add: manager_topics [OF l assms(2)] gateway_handle_sub_service_message_def match_service [OF assms]
        split: option.splits)
qed

section \<open>What a sub device is told of its properties\<close>

text \<open>A sequence of messages.\<close>

fun gateway_messages :: "gateway_env \<Rightarrow> (string option \<times> string option) list \<Rightarrow> gateway_manager \<Rightarrow> gateway_manager" where
  "gateway_messages env [] m = m"
| "gateway_messages env ((topic, payload) # ms) m =
     gateway_messages env ms (snd (gateway_manager_handle_message env topic payload m))"

lemma trim_nonempty: "\<not> isspace c \<Longrightarrow> trim (c # t) \<noteq> []"
  by (auto simp: trim_def dropWhile_eq_Nil_conv)

lemma get_object_fits:
  assumes "json_get_object j k n = Copied d"
  shows "d \<noteq> [] \<and> length d < n"
proof -
  obtain cursor where c: "copy_compound_at (CHR ''{'' # cursor) (CHR ''{'') (CHR ''}'') n = Copied d"
    using assms by (auto simp: json_get_object_def neq_Nil_conv split: option.splits if_splits)
  then obtain e where "json_copy_trimmed (CHR ''{'' # take e cursor) n = Copied d"
    by (auto simp: copy_compound_at_def split: option.splits)
  then show ?thesis using trim_nonempty [of "CHR ''{''"] by (auto simp: json_copy_trimmed_def isspace_def split: if_splits)
qed

lemma request_id_fits: "length (request_id_in p) < 64"
  unfolding request_id_in_def using get_raw_length [of 64] by (intro stored_text_length) auto

definition sub_reply_payload :: "string \<Rightarrow> string \<Rightarrow> string" where
  "sub_reply_payload rid data = ''{\"id\":\"'' @ (if rid = [] then ''0'' else rid) @ ''\",\"code\":200,\"data\":'' @ data @ ''}''"

lemma sub_reply_ok:
  assumes "gateway_ok env" "i < length (gm_sub_devices m)" "length d < 1024" "d \<noteq> []" "length rid < 64"
  shows "snd (gateway_reply_sub_service env i (Some service) (Some rid) (Some d) m)
    = m \<lparr> gm_sent := gm_sent m @ [Mqtt_pub (sub_reply_topic (gm_sub_devices m ! i) service) (sub_reply_payload rid d) 0] \<rparr>"
  using assms by (auto simp: gateway_reply_sub_service_def publish_ok reply_id_of_def sub_reply_payload_def snprintf_fits)

text \<open>What a device is: its identity and its stored properties.\<close>

definition holds_properties :: "gateway_manager \<Rightarrow> nat \<Rightarrow> string \<times> string \<Rightarrow> string \<Rightarrow> bool" where
  "holds_properties m i x d \<longleftrightarrow> i < length (gm_sub_devices m) \<and> sub_identity (gm_sub_devices m ! i) = x
     \<and> gs_last_property_json (gm_sub_devices m ! i) = d"

lemma configs_identity:
  assumes "gateway_configs m' = gateway_configs m" "i < length (gm_sub_devices m)"
  shows "sub_identity (gm_sub_devices m' ! i) = sub_identity (gm_sub_devices m ! i)"
proof -
  have "gs_config (gm_sub_devices m' ! i) = gs_config (gm_sub_devices m ! i)"
    using assms configs_length [OF assms(1)] unfolding gateway_configs_def by (metis nth_map)
  then show ?thesis by (simp add: sub_identity_def)
qed

lemma configs_names: "gateway_configs m' = gateway_configs m \<Longrightarrow> plain_names env m' = plain_names env m"
proof -
  have "(\<forall>s \<in> set (gm_sub_devices m). plain_identity (sub_identity s))
      \<longleftrightarrow> (\<forall>c \<in> set (gateway_configs m). plain_identity (sd_product_key c, sd_device_name c))" for m
    by (simp add: gateway_configs_def sub_identity_def)
  then show "gateway_configs m' = gateway_configs m \<Longrightarrow> plain_names env m' = plain_names env m"
    by (simp add: plain_names_def)
qed

lemma message_keeps_properties:
  assumes "plain_names env m" "holds_properties m i x d" "topic \<noteq> Some (service_topic x ''property/set'')"
  shows "holds_properties (snd (gateway_manager_handle_message env topic payload m)) i x d"
proof -
  let ?m = "snd (gateway_manager_handle_message env topic payload m)"
  have i: "i < length (gm_sub_devices m)" "sub_identity (gm_sub_devices m ! i) = x"
    using assms(2) by (simp_all add: holds_properties_def)
  then have p: "gateway_build_sub_service_prefix (gm_sub_devices m ! i) = service_topic x []"
    using assms(1) sub_prefix(1) by (auto simp: plain_names_def)
  have "i \<notin> stores topic m"
  proof
    assume "i \<in> stores topic m"
    then obtain t where t: "topic = Some t" "drop (length (service_topic x [])) t = ''property/set''"
        "match_sub (\<lambda>s. has_prefix (gateway_build_sub_service_prefix s) t) 0 (gm_sub_devices m) = Some i"
      by (auto simp: stores_def stored_by_def p split: option.splits if_splits)
    from match_sub_Some [OF t(3)] have "has_prefix (service_topic x []) t" by (simp add: p)
    then have "t = service_topic x [] @ ''property/set''"
      using t(2) append_take_drop_id [of "length (service_topic x [])" t] by (simp add: has_prefix_def)
    with assms(3) t(1) show False by (simp add: service_topic_append)
  qed
  moreover note evolves_message [of env topic payload m]
  ultimately have e: "gateway_configs ?m = gateway_configs m"
    "gs_last_property_json (gm_sub_devices ?m ! i) = gs_last_property_json (gm_sub_devices m ! i)"
    using i(1) by (simp_all add: evolves_def)
  then show ?thesis
    using assms(2) i configs_identity [OF e(1) i(1)] configs_length [OF e(1)] by (simp add: holds_properties_def)
qed

lemma messages_keep_properties:
  assumes "\<forall>(topic, payload) \<in> set ms. topic \<noteq> Some (service_topic x ''property/set'')"
    and "plain_names env m" "holds_properties m i x d"
  shows "holds_properties (gateway_messages env ms m) i x d \<and> gateway_configs (gateway_messages env ms m) = gateway_configs m"
  using assms
proof (induction ms arbitrary: m)
  case (Cons tp ms)
  obtain topic payload where tp: "tp = (topic, payload)" by fastforce
  let ?m = "snd (gateway_manager_handle_message env topic payload m)"
  have c: "gateway_configs ?m = gateway_configs m" by (rule gateway_message.op_configs)
  have "holds_properties ?m i x d"
    using Cons.prems by (intro message_keeps_properties) (auto simp: tp)
  with Cons.IH [of ?m] Cons.prems configs_names [OF c] show ?case by (simp add: tp c)
qed simp

lemma find_identity:
  assumes "distinct_ids m" "i < length (gm_sub_devices m)" "sub_identity (gm_sub_devices m ! i) = x"
  shows "gateway_find_sub_device_index m (fst x) (snd x) = Some i"
proof (cases "gateway_find_sub_device_index m (fst x) (snd x)")
  case None
  then show ?thesis using assms(2,3) by (auto simp: find_None)
next
  case (Some j)
  with find_SomeD [OF Some] assms show ?thesis
    using nth_eq_iff_index_eq [of "map sub_identity (gm_sub_devices m)" i j] by (simp add: distinct_ids_def)
qed

text \<open>A setting stores the properties; the message is taken.\<close>

lemma set_holds:
  assumes "plain_names env m" "distinct_ids m" "i < length (gm_sub_devices m)" "sub_identity (gm_sub_devices m ! i) = x"
    and "json_get_object (Some p) (Some ''params'') 1024 = Copied d"
    and "gateway_manager_handle_message env (Some (service_topic x ''property/set'')) (Some p) m = (c1, m1)"
  shows "c1 \<and> holds_properties m1 i x d \<and> gateway_configs m1 = gateway_configs m"
proof -
  have x: "plain_identity x" using assms(1,3,4) by (auto simp: plain_names_def)
  note d = get_object_fits [OF assms(5)]
  note msg = handle_service [OF assms(1) x, of "''property/set''" p, unfolded find_identity [OF assms(2-4)]]
  let ?ms = "gateway_store_properties m i d"
  let ?mp = "snd (gateway_post_sub_properties env i (Some d) ?ms)"
  have m1: "c1" "m1 = snd (gateway_reply_sub_service env i (Some ''property/set'') (Some (request_id_in p)) (Some ''{}'') ?mp)"
    using assms(6) unfolding msg by (simp_all add: sub_service_def assms(5) Let_def)
  have subs: "gm_sub_devices m1 = gm_sub_devices ?ms"
    unfolding m1(2) by (auto simp: gateway_reply_sub_service_def gateway_post_sub_properties_def gateway_publish_def
        gateway_memory_def gateway_now_def gateway_append_def split: prod.splits)
  have "gateway_configs (snd (gateway_manager_handle_message env (Some (service_topic x ''property/set'')) (Some p) m)) = gateway_configs m"
    by (rule gateway_message.op_configs)
  then show ?thesis
    using m1(1) assms(3,4,6) d by (simp add: holds_properties_def subs gateway_store_properties_def sub_identity_def)
qed

lemma configs_distinct: "gateway_configs m' = gateway_configs m \<Longrightarrow> distinct_ids m' = distinct_ids m"
proof -
  have "map sub_identity (gm_sub_devices m) = map (\<lambda>c. (sd_product_key c, sd_device_name c)) (gateway_configs m)" for m
    by (simp add: gateway_configs_def sub_identity_def)
  then show "gateway_configs m' = gateway_configs m \<Longrightarrow> distinct_ids m' = distinct_ids m" by (simp add: distinct_ids_def)
qed

text \<open>A get is answered with what the device holds.\<close>

lemma get_answers:
  assumes "gateway_ok env" "plain_names env m" "distinct_ids m" "holds_properties m i x d" "d \<noteq> [] \<and> length d < 1024"
    and "gateway_manager_handle_message env (Some (service_topic x ''property/get'')) (Some q) m = (c, m')"
  shows "c \<and> gm_sub_devices m' = gm_sub_devices m
    \<and> gm_sent m' = gm_sent m @ [Mqtt_pub (snprintf 320 (service_topic x ''property/get_reply'')) (sub_reply_payload (request_id_in q) d) 0]"
proof -
  have i: "i < length (gm_sub_devices m)" "sub_identity (gm_sub_devices m ! i) = x"
    using assms(4) by (simp_all add: holds_properties_def)
  have x: "plain_identity x" using assms(2) i by (auto simp: plain_names_def)
  have reply: "sub_reply_topic (gm_sub_devices m ! i) ''property/get'' = snprintf 320 (service_topic x ''property/get_reply'')"
    using i by (auto simp: sub_reply_topic_def service_topic_def sub_identity_def simp del: snprintf_fits)
  have get: "gateway_get_properties m i [] 1024 = d"
    using assms(4,5) by (simp add: gateway_get_properties_def holds_properties_def)
  have "(c, m') = (True, snd (gateway_reply_sub_service env i (Some ''property/get'') (Some (request_id_in q)) (Some d) m))"
    using assms(6) unfolding handle_service [OF assms(2) x] find_identity [OF assms(3) i]
    by (simp add: sub_service_def Let_def get)
  then show ?thesis using assms(5) by (simp add: sub_reply_ok [OF assms(1) i(1) _ _ request_id_fits] reply)
qed

text \<open>
  C30. A property get for a sub device is answered with the properties that were last set for it,
  unchanged, whatever messages came in between, except another setting for the same device.
\<close>

theorem properties_roundtrip:
  assumes "gateway_ok env" "plain_names env m" "distinct_ids m" "x \<in> sub_identity ` set (gm_sub_devices m)"
    and "json_get_object (Some p) (Some ''params'') 1024 = Copied d"
    and "gateway_manager_handle_message env (Some (service_topic x ''property/set'')) (Some p) m = (c1, m1)"
    and "\<forall>(topic, payload) \<in> set ms. topic \<noteq> Some (service_topic x ''property/set'')"
    and "gateway_messages env ms m1 = m2"
    and "gateway_manager_handle_message env (Some (service_topic x ''property/get'')) (Some q) m2 = (c2, m3)"
  shows "c1 \<and> c2 \<and> gm_sub_devices m3 = gm_sub_devices m2
    \<and> gm_sent m3 = gm_sent m2 @ [Mqtt_pub (snprintf 320 (service_topic x ''property/get_reply'')) (sub_reply_payload (request_id_in q) d) 0]"
proof -
  obtain i where i: "i < length (gm_sub_devices m)" "sub_identity (gm_sub_devices m ! i) = x"
    using assms(4) by (metis imageE in_set_conv_nth)
  have m1: "c1" "holds_properties m1 i x d" "gateway_configs m1 = gateway_configs m"
    using set_holds [OF assms(2,3) i assms(5,6)] by blast+
  have "plain_names env m1" using assms(2) configs_names [OF m1(3)] by blast
  from messages_keep_properties [OF assms(7) this m1(2)]
  have m2: "holds_properties m2 i x d" "gateway_configs m2 = gateway_configs m" unfolding assms(8) m1(3) by blast+
  have "plain_names env m2" "distinct_ids m2"
    using assms(2,3) configs_names [OF m2(2)] configs_distinct [OF m2(2)] by blast+
  from get_answers [OF assms(1) this m2(1) get_object_fits [OF assms(5)] assms(9)] m1(1) show ?thesis by blast
qed

definition sample_set :: string where
  "sample_set = ''{\"id\":\"9\",\"params\":{\"x\":1}}''"

lemma sample_set_fields:
  "json_get_object (Some sample_set) (Some ''params'') 1024 = Copied ''{\"x\":1}''"
  "request_id_in ''{\"id\":\"9\"}'' = ''9''"
  by code_simp+

lemma properties_roundtrip_witness:
  "\<exists>m1 m2 m3. gateway_manager_handle_message sample_gateway_env
       (Some (service_topic (''p2'', ''d2'') ''property/set'')) (Some sample_set) sample_gateway = (True, m1)
    \<and> m2 = gateway_messages sample_gateway_env
        [(Some (service_topic (''p1'', ''d1'') ''property/set''), Some ''{\"params\":{}}'')] m1
    \<and> gateway_manager_handle_message sample_gateway_env
       (Some (service_topic (''p2'', ''d2'') ''property/get'')) (Some ''{\"id\":\"9\"}'') m2 = (True, m3)
    \<and> gm_sent m3 = gm_sent m2 @ [Mqtt_pub (snprintf 320 (service_topic (''p2'', ''d2'') ''property/get_reply''))
        (sub_reply_payload ''9'' ''{\"x\":1}'') 0]"
proof -
  let ?x = "(''p2'', ''d2'')" and ?ms = "[(Some (service_topic (''p1'', ''d1'') ''property/set''), Some ''{\"params\":{}}'')]"
  obtain c1 m1 where m1: "gateway_manager_handle_message sample_gateway_env
      (Some (service_topic ?x ''property/set'')) (Some sample_set) sample_gateway = (c1, m1)" by fastforce
  obtain c2 m3 where m3: "gateway_manager_handle_message sample_gateway_env (Some (service_topic ?x ''property/get''))
      (Some ''{\"id\":\"9\"}'') (gateway_messages sample_gateway_env ?ms m1) = (c2, m3)" by fastforce
  have names: "plain_names sample_gateway_env sample_gateway" "?x \<in> sub_identity ` set (gm_sub_devices sample_gateway)"
    by (simp_all add: plain_names_def plain_identity_def no_slash_def link_identity_def sample_gateway_env_def
        sample_gateway_def gateway_manager_init_def sample_gateway_config_def gateway_sub_of_def sub_identity_def)
  have other: "\<forall>(topic, payload) \<in> set ?ms. topic \<noteq> Some (service_topic ?x ''property/set'')"
    by (simp add: service_topic_def)
  note r = properties_roundtrip [OF sample_gateway_ok names(1) sample_gateway_ids(1) names(2) sample_set_fields(1) m1 other refl m3,
      unfolded sample_set_fields(2)]
  then have "c1" "c2" by (rule conjunct1, elim conjE)
  with m1 m3 r show ?thesis
    by (intro exI [of _ m1] exI [of _ "gateway_messages sample_gateway_env ?ms m1"] exI [of _ m3] conjI refl) (elim conjE, simp)+
qed

end
