(* ===== verification/Ide_Library.thy ===== *)
theory Ide_Library
  imports Ide_Publish Ide_Connection Deploy_Manager Start_Manager
begin

text \<open>
  The shared library with the business logic of the IDE (\<^verbatim>\<open>src/libiot_ide.c\<close>): its
  C interface over the three managers, without a connection to the cloud of its own. What it has to
  say goes to the event callback of its host. The log callback is not modelled.
\<close>

section \<open>The object and its calls\<close>

abbreviation (input) LIBIOT_IDE_OK :: int where "LIBIOT_IDE_OK \<equiv> 0"
abbreviation (input) LIBIOT_IDE_ERR_INVALID_ARGUMENT :: int where "LIBIOT_IDE_ERR_INVALID_ARGUMENT \<equiv> -1"
abbreviation (input) LIBIOT_IDE_ERR_NO_MEMORY :: int where "LIBIOT_IDE_ERR_NO_MEMORY \<equiv> -2"
abbreviation (input) LIBIOT_IDE_ERR_INTERNAL :: int where "LIBIOT_IDE_ERR_INTERNAL \<equiv> -3"
abbreviation (input) LIBIOT_IDE_ERR_NOT_ACTIVE_CLIENT :: int where "LIBIOT_IDE_ERR_NOT_ACTIVE_CLIENT \<equiv> -4"

record ide_library =
  lb_link :: app_link
  lb_work_dir :: string
  lb_ide :: ide_manager
  lb_deploy :: deploy_manager
  lb_start :: start_manager

text \<open>The clock and the memory answers of one call.\<close>

record library_call =
  lc_now_ms :: int
  lc_post :: sb_memory
  lc_ide :: "nat \<Rightarrow> bool"
  lc_deploy :: deploy_call
  lc_start :: start_call

text \<open>A response buffer: what it holds (\<open>None\<close>: the pointer is NULL) and its size.\<close>

type_synonym response_buffer = "string option \<times> nat"

definition buffer_size :: "response_buffer \<Rightarrow> nat option" where
  "buffer_size b = (case fst b of None \<Rightarrow> None | Some _ \<Rightarrow> Some (snd b))"

definition written :: "response_buffer \<Rightarrow> string option \<Rightarrow> string option" where
  "written b text = (case fst b of None \<Rightarrow> None | Some old \<Rightarrow> Some (case text of None \<Rightarrow> old | Some t \<Rightarrow> t))"

record library_result =
  lr_rc :: int
  lr_response :: "string option" \<comment> \<open>what the buffer holds afterwards\<close>
  lr_events :: "app_effect list"
  lr_started :: "(string \<times> string) option" \<comment> \<open>the command that was started, and where\<close>

definition library_refused :: "response_buffer \<Rightarrow> int \<Rightarrow> library_result" where
  "library_refused response rc = \<lparr> lr_rc = rc, lr_response = fst response, lr_events = [], lr_started = None \<rparr>"

definition library_post :: "ide_library \<Rightarrow> library_call \<Rightarrow> string list \<Rightarrow> app_effect list" where
  "library_post l call posted =
     concat (map (\<lambda>p. snd (app_post_properties (lb_link l) (lc_post call) (lc_now_ms call) (Some p))) posted)"

definition library_event :: "ide_library \<Rightarrow> string \<Rightarrow> string option \<Rightarrow> app_effect list" where
  "library_event l name response = app_emit_runtime_event (lb_link l) (Some name) (Some (case response of None \<Rightarrow> ''{}'' | Some t \<Rightarrow> t))"

text \<open>The result and the text in the buffer.\<close>

definition libiot_ide_write_json :: "response_buffer \<Rightarrow> bool \<Rightarrow> string option \<Rightarrow> int \<times> string option" where
  "libiot_ide_write_json response success message =
     (if fst response = None \<or> snd response = 0 then (LIBIOT_IDE_ERR_INVALID_ARGUMENT, fst response)
      else case json_escape_string (Some (case message of None \<Rightarrow> [] | Some m \<Rightarrow> m)) 512 of
        Failed _ \<Rightarrow> (LIBIOT_IDE_ERR_INTERNAL, fst response)
      | Copied escaped \<Rightarrow>
          (LIBIOT_IDE_OK, Some (snprintf (snd response)
             (''{\"success\":'' @ (if success then ''1'' else ''0'') @ '',\"message\":\"'' @ escaped @ ''\"}''))))"

definition libiot_ide_check_active_client ::
  "bool \<Rightarrow> string option \<Rightarrow> response_buffer \<Rightarrow> string \<Rightarrow> ide_library \<Rightarrow> int \<times> string option" where
  "libiot_ide_check_active_client ide_ok params_json response operation l =
     (case params_json of
        None \<Rightarrow> (LIBIOT_IDE_ERR_INVALID_ARGUMENT, fst response)
      | Some params \<Rightarrow>
          if \<not> ide_ok then (LIBIOT_IDE_ERR_INVALID_ARGUMENT, fst response)
          else (let client_id = stored_text [] 128 (json_get_string (Some params) (Some ''clientId'') 128) in
            if ide_connection_manager_is_connected_client True (Some client_id) (lb_ide l) then (LIBIOT_IDE_OK, fst response)
            else (LIBIOT_IDE_ERR_NOT_ACTIVE_CLIENT,
              snd (libiot_ide_write_json response False
                (Some (snprintf 256 (operation @ '' rejected, clientId is not the active IDE connection'')))))))"

text \<open>The three calls that go to the connection manager.\<close>

definition library_ide_call ::
  "bool \<Rightarrow> string option \<Rightarrow> response_buffer \<Rightarrow> string \<Rightarrow> library_call
   \<Rightarrow> (string \<Rightarrow> ide_manager \<Rightarrow> ide_result \<times> ide_manager) \<Rightarrow> ide_library \<Rightarrow> library_result \<times> ide_library" where
  "library_ide_call ide_ok params_json response event call handler l =
     (case params_json of
        None \<Rightarrow> (library_refused response LIBIOT_IDE_ERR_INVALID_ARGUMENT, l)
      | Some params \<Rightarrow>
          if \<not> ide_ok then (library_refused response LIBIOT_IDE_ERR_INVALID_ARGUMENT, l)
          else (case handler params (lb_ide l) of (r, m) \<Rightarrow>
            (let text = written response (ir_response r) in
             (\<lparr> lr_rc = (if ir_rc r = 0 then LIBIOT_IDE_OK else LIBIOT_IDE_ERR_INTERNAL), lr_response = text,
                lr_events = library_post l call (ir_posted r) @ library_event l event text, lr_started = None \<rparr>,
              l \<lparr> lb_ide := m \<rparr>))))"

definition libiot_ide_request_connect ::
  "bool \<Rightarrow> string option \<Rightarrow> response_buffer \<Rightarrow> library_call \<Rightarrow> ide_library \<Rightarrow> library_result \<times> ide_library" where
  "libiot_ide_request_connect ide_ok params_json response call l =
     library_ide_call ide_ok params_json response ''requestConnect.response'' call
       (\<lambda>p. ide_connection_manager_handle_request_connect True (Some p) (buffer_size response) (lc_now_ms call) (lc_ide call)) l"

definition libiot_ide_request_disconnect ::
  "bool \<Rightarrow> string option \<Rightarrow> response_buffer \<Rightarrow> library_call \<Rightarrow> ide_library \<Rightarrow> library_result \<times> ide_library" where
  "libiot_ide_request_disconnect ide_ok params_json response call l =
     library_ide_call ide_ok params_json response ''requestDisconnect.response'' call
       (\<lambda>p. ide_connection_manager_handle_disconnect True (Some p) (buffer_size response) (lc_ide call)) l"

definition libiot_ide_heartbeat ::
  "bool \<Rightarrow> string option \<Rightarrow> response_buffer \<Rightarrow> library_call \<Rightarrow> ide_library \<Rightarrow> library_result \<times> ide_library" where
  "libiot_ide_heartbeat ide_ok params_json response call l =
     library_ide_call ide_ok params_json response ''ideHeartbeat.response'' call
       (\<lambda>p. ide_connection_manager_handle_heartbeat True (Some p) (buffer_size response) (lc_now_ms call) (lc_ide call)) l"

text \<open>
  Deployment and start; the report of a refused deployment may be undefined, and the start manager
  prints into the buffer without a test of the pointer.
\<close>

definition libiot_ide_deploy_project ::
  "bool \<Rightarrow> string option \<Rightarrow> response_buffer \<Rightarrow> library_call \<Rightarrow> ide_library \<Rightarrow> (library_result \<times> ide_library) outcome" where
  "libiot_ide_deploy_project ide_ok params_json response call l =
     (case libiot_ide_check_active_client ide_ok params_json response ''deploy'' l of (rc, text) \<Rightarrow>
        if rc \<noteq> LIBIOT_IDE_OK then Ok (library_refused (text, snd response) rc, l)
        else (case deploy_manager_handle_deploy True params_json ((lc_deploy call) \<lparr> dc_response := buffer_size response \<rparr>)
            (lb_deploy l) of (r, m) \<Rightarrow>
          obind (dr_posted r) (\<lambda>posted.
            (let text = written response (dr_response r) in
             Ok (\<lparr> lr_rc = (if dr_rc r = 0 then LIBIOT_IDE_OK else LIBIOT_IDE_ERR_INTERNAL), lr_response = text,
                   lr_events = library_post l call posted @ library_event l ''deployProject.response'' text,
                   lr_started = None \<rparr>, l \<lparr> lb_deploy := m \<rparr>)))))"

definition libiot_ide_start_project ::
  "bool \<Rightarrow> string option \<Rightarrow> response_buffer \<Rightarrow> library_call \<Rightarrow> ide_library \<Rightarrow> (library_result \<times> ide_library) outcome" where
  "libiot_ide_start_project ide_ok params_json response call l =
     (case libiot_ide_check_active_client ide_ok params_json response ''start'' l of (rc, text) \<Rightarrow>
        if rc \<noteq> LIBIOT_IDE_OK then Ok (library_refused (text, snd response) rc, l)
        else if fst response = None \<and> snd response \<noteq> 0 \<and> sc_mem (lc_start call) then Undef
        else (case start_manager_handle_start True params_json ((lc_start call) \<lparr> sc_response := snd response \<rparr>)
            (lb_start l) of ((rc, t), m, started) \<Rightarrow>
          (let text = written response t in
           Ok (\<lparr> lr_rc = (if rc = 0 then LIBIOT_IDE_OK else LIBIOT_IDE_ERR_INTERNAL), lr_response = text,
                 lr_events = library_event l ''startProject.response'' text, lr_started = started \<rparr>,
               l \<lparr> lb_start := m \<rparr>))))"

definition snapshot_text :: "bool \<Rightarrow> string \<Rightarrow> int \<Rightarrow> string" where
  "snapshot_text connected escaped_client_id heartbeat_ms =
     ''{\"connected\":'' @ (if connected then ''1'' else ''0'') @ '',\"clientId\":\"'' @ escaped_client_id
     @ ''\",\"heartbeatMs\":'' @ int_dec heartbeat_ms @ ''}''"

definition libiot_ide_get_connection_snapshot :: "bool \<Rightarrow> response_buffer \<Rightarrow> ide_library \<Rightarrow> int \<times> string option" where
  "libiot_ide_get_connection_snapshot ide_ok snapshot l =
     (if \<not> ide_ok \<or> fst snapshot = None \<or> snd snapshot = 0 then (LIBIOT_IDE_ERR_INVALID_ARGUMENT, fst snapshot)
      else case ide_connection_manager_get_snapshot 128 (lb_ide l) of (connected, client_id, heartbeat_ms) \<Rightarrow>
        (case json_escape_string (Some client_id) 256 of
           Failed _ \<Rightarrow> (LIBIOT_IDE_ERR_INTERNAL, fst snapshot)
         | Copied escaped_client_id \<Rightarrow>
             (LIBIOT_IDE_OK, Some (snprintf (snd snapshot) (snapshot_text connected escaped_client_id heartbeat_ms)))))"

section \<open>Creation and destruction\<close>

datatype library_resource = Object | Mqtt_lock | Ide_part ide_resource | Deploy_part nat | Start_lock

record library_answers =
  la_memory :: bool
  la_mqtt_lock :: bool
  la_ide :: "ide_resource \<Rightarrow> bool"
  la_deploy_lock :: bool
  la_deploy_cond :: bool
  la_start_lock :: bool

record library_options =
  lo_event_cb :: bool
  lo_work_dir :: "string option"

text \<open>\<^verbatim>\<open>libiot_ide_copy_callbacks\<close> on the zero-filled object.\<close>

definition copied_link :: "library_options option \<Rightarrow> app_link" where
  "copied_link options = \<lparr> al_runtime_library_mode = True,
     al_runtime_event_cb = (case options of None \<Rightarrow> False | Some o' \<Rightarrow> lo_event_cb o'),
     al_mqtt_handle = False, al_product_key = [], al_device_name = [], al_pub = (\<lambda>_. -1), al_sub = (\<lambda>_. -1) \<rparr>"

definition copied_work_dir :: "library_options option \<Rightarrow> string" where
  "copied_work_dir options =
     (case options of None \<Rightarrow> snprintf 512 ''.''
      | Some o' \<Rightarrow> (case lo_work_dir o' of None \<Rightarrow> snprintf 512 ''.''
          | Some w \<Rightarrow> if w = [] then snprintf 512 ''.'' else snprintf 512 w))"

primrec ide_parts :: "library_resource list \<Rightarrow> ide_resource list" where
  "ide_parts [] = []"
| "ide_parts (r # rs) = (case r of Ide_part i \<Rightarrow> [i] | _ \<Rightarrow> []) @ ide_parts rs"

text \<open>What is initialised decides what is cleaned up; \<open>None\<close>: the call waits for a running deployment.\<close>

definition libiot_ide_destroy ::
  "bool \<times> bool \<times> bool \<Rightarrow> ide_library \<Rightarrow> library_resource list \<Rightarrow> (library_resource list \<times> app_effect list) option" where
  "libiot_ide_destroy flags l live =
     (case flags of (ide_initialized, deploy_initialized, start_initialized) \<Rightarrow>
        (let events = app_emit_runtime_event (lb_link l) (Some ''runtime.destroying'') (Some ''{\"success\":true}'');
             live1 = (if start_initialized then removeAll Start_lock live else live);
             live2 = (if deploy_initialized then filter (\<lambda>r. \<forall>n. r \<noteq> Deploy_part n) live1 else live1);
             live3 = (if ide_initialized then
                 filter (\<lambda>r. \<forall>i. r \<noteq> Ide_part i) live2
                 @ map Ide_part (ide_connection_manager_cleanup True (ide_parts live2))
               else live2) in
         if deploy_initialized \<and> cleanup_waits (lb_deploy l) then None
         else Some (removeAll Object (removeAll Mqtt_lock live3), events)))"

text \<open>The result, the object, what is live afterwards, and the events; \<open>out_ok\<close>: the place for the handle is not NULL.\<close>

type_synonym library_created = "int \<times> ide_library option \<times> library_resource list \<times> app_effect list"

definition library_failed :: "bool \<times> bool \<times> bool \<Rightarrow> ide_library \<Rightarrow> library_resource list \<Rightarrow> library_created" where
  "library_failed flags l live =
     (case libiot_ide_destroy flags l live of
        None \<Rightarrow> (LIBIOT_IDE_ERR_INTERNAL, None, live, [])
      | Some (live', events) \<Rightarrow> (LIBIOT_IDE_ERR_INTERNAL, None, live', events))"

definition fresh_library :: "library_options option \<Rightarrow> ide_library" where
  "fresh_library options = \<lparr> lb_link = copied_link options, lb_work_dir = copied_work_dir options, lb_ide = ide_fresh,
     lb_deploy = deploy_fresh, lb_start = \<lparr> sm_busy = False \<rparr> \<rparr>"

definition libiot_ide_create :: "bool \<Rightarrow> library_options option \<Rightarrow> library_answers \<Rightarrow> library_created" where
  "libiot_ide_create out_ok options ans =
     (if \<not> out_ok then (LIBIOT_IDE_ERR_INVALID_ARGUMENT, None, [], [])
      else if \<not> la_memory ans then (LIBIOT_IDE_ERR_NO_MEMORY, None, [], [])
      else if \<not> la_mqtt_lock ans then (LIBIOT_IDE_ERR_INTERNAL, None, removeAll Object [Object], [])
      else (let l = fresh_library options;
              live0 = [Object, Mqtt_lock] in
        (case ide_connection_manager_init True (la_ide ans) of (ide_rc, ide_live, _) \<Rightarrow>
          if ide_rc \<noteq> 0 then
            (LIBIOT_IDE_ERR_INTERNAL, None, removeAll Object (removeAll Mqtt_lock (live0 @ map Ide_part ide_live)), [])
          else (let live1 = live0 @ map Ide_part ide_live in
            (case deploy_manager_init True (la_deploy_lock ans) (la_deploy_cond ans) of (deploy_rc, n, _) \<Rightarrow>
              (let live2 = live1 @ map Deploy_part [0..<n] in
               if deploy_rc \<noteq> 0 then library_failed (True, False, False) l live2
               else if fst (start_manager_init True (la_start_lock ans)) \<noteq> 0 then library_failed (True, True, False) l live2
               else (LIBIOT_IDE_OK, Some l, live2 @ [Start_lock],
                 app_emit_runtime_event (lb_link l) (Some ''runtime.created'') (Some ''{\"success\":true}''))))))))"

lemma ide_parts [simp]:
  "ide_parts (a @ b) = ide_parts a @ ide_parts b" "ide_parts (map Ide_part is) = is" "ide_parts (map Deploy_part ns) = []"
  by (induction a, simp_all, induction "is", simp_all, induction ns, simp_all)

lemma filter_parts [simp]:
  "filter (\<lambda>r. \<forall>i. r \<noteq> Ide_part i) (map Ide_part is) = []"
  "filter (\<lambda>r. \<forall>n. r \<noteq> Deploy_part n) (map Ide_part is) = map Ide_part is"
  "filter (\<lambda>r. \<forall>n. r \<noteq> Deploy_part n) (map Deploy_part ns) = []"
  "removeAll Object (map Ide_part is) = map Ide_part is"
  by (induction "is"; induction ns; simp)+

lemma removeAll_parts [simp]:
  "r \<notin> range Ide_part \<Longrightarrow> removeAll r (map Ide_part is) = map Ide_part is"
  "r \<notin> range Deploy_part \<Longrightarrow> removeAll r (map Deploy_part ns) = map Deploy_part ns"
  by (auto intro!: removeAll_id)

text \<open>An object whose deployments are not running gives back all that it has made so far.\<close>

lemma destroy_all:
  assumes "ide_connection_manager_cleanup True is = []" "\<not> cleanup_waits (lb_deploy l)"
    and "ns \<noteq> [] \<Longrightarrow> deployed" "s = (if started then [Start_lock] else [])"
  shows "\<exists>e. libiot_ide_destroy (True, deployed, started) l ((([Object, Mqtt_lock] @ map Ide_part is) @ map Deploy_part ns) @ s)
    = Some ([], e)"
  using assms by (cases started; cases deployed; cases "ns = []")
    (simp_all add: libiot_ide_destroy_def Let_def image_iff)

lemma create_cases:
  assumes "libiot_ide_create out_ok options ans = (rc, obj, live, events)"
  shows "(rc \<noteq> LIBIOT_IDE_OK \<longrightarrow> obj = None \<and> live = [])
    \<and> (rc = LIBIOT_IDE_OK \<longrightarrow> obj = Some (fresh_library options)
      \<and> (\<forall>l. \<not> cleanup_waits (lb_deploy l) \<longrightarrow> (\<exists>e. libiot_ide_destroy (True, True, True) l live = Some ([], e))))"
proof -
  obtain ide_rc ide_live m where i: "ide_connection_manager_init True (la_ide ans) = (ide_rc, ide_live, m)"
    by (metis prod_cases3)
  note b = ide_init_balanced [OF i]
  show ?thesis
  proof (cases "ide_rc = 0")
    case False
    then have "ide_live = []" using b by blast
    with assms False i show ?thesis by (auto simp: libiot_ide_create_def split: if_splits)
  next
    case True
    then have "ide_connection_manager_cleanup True ide_live = []" using b by blast
    note destroy = destroy_all [OF this]
    obtain rc1 n m1 where d: "deploy_manager_init True (la_deploy_lock ans) (la_deploy_cond ans) = (rc1, n, m1)"
      by (metis prod_cases3)
    have idle: "\<not> cleanup_waits (lb_deploy (fresh_library options))"
      by (simp add: fresh_library_def deploy_fresh_def cleanup_waits_def)
    obtain e0 e1 where e:
      "libiot_ide_destroy (True, False, False) (fresh_library options) ([Object, Mqtt_lock] @ map Ide_part ide_live) = Some ([], e0)"
      "libiot_ide_destroy (True, True, False) (fresh_library options)
         (([Object, Mqtt_lock] @ map Ide_part ide_live) @ map Deploy_part [0..<n]) = Some ([], e1)"
      using destroy [OF idle, of "[]" False "[]" False] destroy [OF idle, of "[0..<n]" True "[]" False] by fastforce
    have all: "\<not> cleanup_waits (lb_deploy l) \<Longrightarrow> \<exists>e. libiot_ide_destroy (True, True, True) l
        ((([Object, Mqtt_lock] @ map Ide_part ide_live) @ map Deploy_part [0..<n]) @ [Start_lock]) = Some ([], e)" for l
      using destroy [of l "[0..<n]" True "[Start_lock]" True] by simp
    have "rc1 \<noteq> 0 \<Longrightarrow> n = 0" using d by (auto simp: deploy_manager_init_def split: if_splits)
    with assms True i d e all show ?thesis
      by (cases "rc1 = 0"; cases "fst (start_manager_init True (la_start_lock ans)) = 0")
        (auto simp: libiot_ide_create_def library_failed_def Let_def split: if_splits)
  qed
qed

lemma fresh_library_idle [simp]:
  "lb_ide (fresh_library options) = ide_fresh" "\<not> dm_busy (lb_deploy (fresh_library options))"
  "\<not> cleanup_waits (lb_deploy (fresh_library options))" "al_runtime_library_mode (lb_link (fresh_library options))"
  by (simp_all add: fresh_library_def deploy_fresh_def cleanup_waits_def copied_link_def)

text \<open>
  Creating the library object is all or nothing: an error leaves nothing behind of the memory, the
  locks, the condition and the thread it had made so far, and no object; a success gives an object with
  idle managers whose destruction gives all of it back.
\<close>

theorem library_create_balanced:
  assumes "libiot_ide_create out_ok options ans = (rc, obj, live, events)"
  shows "(rc \<noteq> LIBIOT_IDE_OK \<longrightarrow> obj = None \<and> live = [])
    \<and> (rc = LIBIOT_IDE_OK \<longrightarrow> (\<exists>l. obj = Some l \<and> lb_ide l = ide_fresh \<and> \<not> dm_busy (lb_deploy l)
         \<and> (\<exists>e. libiot_ide_destroy (True, True, True) l live = Some ([], e))))"
  using create_cases [OF assms] by auto

lemma library_create_balanced_witness:
  "\<exists>l events. libiot_ide_create True None \<lparr> la_memory = True, la_mqtt_lock = True, la_ide = (\<lambda>_. True),
      la_deploy_lock = True, la_deploy_cond = True, la_start_lock = False \<rparr> = (LIBIOT_IDE_ERR_INTERNAL, None, [], events)"
proof -
  let ?ans = "\<lparr> la_memory = True, la_mqtt_lock = True, la_ide = (\<lambda>_. True),
      la_deploy_lock = True, la_deploy_cond = True, la_start_lock = False \<rparr>"
  obtain rc obj live events where r: "libiot_ide_create True None ?ans = (rc, obj, live, events)"
    by (metis prod_cases4)
  have "rc = LIBIOT_IDE_ERR_INTERNAL"
    using r by (auto simp: libiot_ide_create_def library_failed_def ide_connection_manager_init_def deploy_manager_init_def
        start_manager_init_def Let_def split: option.splits)
  with library_create_balanced [OF r] r show ?thesis by auto
qed

section \<open>Who may deploy\<close>

text \<open>
  A call of the library changes the deployments or starts a command only for the client that holds
  the device.
\<close>

definition holds_device :: "ide_library \<Rightarrow> string option \<Rightarrow> bool" where
  "holds_device l params_json \<longleftrightarrow> (\<exists>params. params_json = Some params \<and> ide_connection_manager_is_connected_client True
     (Some (stored_text [] 128 (json_get_string (Some params) (Some ''clientId'') 128))) (lb_ide l))"

lemma check_active_ok:
  "fst (libiot_ide_check_active_client ide_ok params_json response operation l) = LIBIOT_IDE_OK \<Longrightarrow> holds_device l params_json"
  by (auto simp: libiot_ide_check_active_client_def holds_device_def Let_def split: option.splits if_splits)

lemma library_deploy_guarded:
  assumes "libiot_ide_deploy_project ide_ok params_json response call l = Ok (r, l')"
  shows "lb_ide l' = lb_ide l \<and> lb_start l' = lb_start l \<and> lr_started r = None \<and> lb_link l' = lb_link l
    \<and> (lb_deploy l' \<noteq> lb_deploy l \<longrightarrow> holds_device l params_json)"
  using assms check_active_ok [of ide_ok params_json response "''deploy''" l]
  by (auto simp: libiot_ide_deploy_project_def library_refused_def Let_def obind_Ok_iff split: prod.splits if_splits)

lemma library_start_guarded:
  assumes "libiot_ide_start_project ide_ok params_json response call l = Ok (r, l')"
  shows "lb_ide l' = lb_ide l \<and> lb_deploy l' = lb_deploy l \<and> lb_link l' = lb_link l
    \<and> (lb_start l' \<noteq> lb_start l \<or> lr_started r \<noteq> None \<longrightarrow> holds_device l params_json)"
  using assms check_active_ok [of ide_ok params_json response "''start''" l]
  by (auto simp: libiot_ide_start_project_def library_refused_def Let_def split: prod.splits if_splits)

lemma library_ide_idle:
  "library_ide_call ide_ok params_json response event call handler l = (r, l') \<Longrightarrow>
   lb_deploy l' = lb_deploy l \<and> lb_start l' = lb_start l \<and> lr_started r = None \<and> lb_link l' = lb_link l"
  by (auto simp: library_ide_call_def library_refused_def Let_def split: option.splits if_splits prod.splits)

end
