(* ===== verification/Client_Lifecycle.thy ===== *)
theory Client_Lifecycle
  imports Prelude
begin

text \<open>
  How a host of the MQTT client starts and stops it: the calls to the client and to its two
  threads, what they leave alive, and the contract of a host that releases what it made. The two hosts
  are \<^verbatim>\<open>src/libiot_ide_gateway.c\<close> (theory Cloud_Gateway) and
  \<^verbatim>\<open>src/iot_ide_app.c\<close> (theory App_Lifecycle).
\<close>

section \<open>The calls\<close>

datatype client_thread = Process_thread | Recv_thread

datatype client_action =
    Set_portfile | Set_logcb
  | Init_client bool \<comment> \<open>\<^verbatim>\<open>aiot_mqtt_init\<close>: whether there is a handle\<close>
  | Set_option string string \<comment> \<open>\<^verbatim>\<open>aiot_mqtt_setopt\<close>: the option, its value\<close>
  | Connect
  | Subscribe string
  | Create_thread client_thread bool \<comment> \<open>whether it was created\<close>
  | Disconnect
  | Join_thread client_thread
  | Deinit_client bool \<comment> \<open>\<^verbatim>\<open>aiot_mqtt_deinit\<close>: whether it released the handle\<close>

text \<open>What the client and the threads answer to a start.\<close>

record start_answers =
  sa_init :: bool
  sa_connect :: int
  sa_sub :: "string \<Rightarrow> int"
  sa_process :: bool
  sa_recv :: bool
  sa_deinit :: bool

text \<open>
  The thread loops: the flag they read before each round and what the call of the round answers.
  The processing thread: its calls, whether it has returned. The receiving thread pauses only after an
  error: its calls, its pauses, whether it has returned.
\<close>

fun client_process_loop :: "(bool \<times> int) list \<Rightarrow> nat \<times> bool" where
  "client_process_loop [] = (0, False)"
| "client_process_loop ((running, res) # rounds) =
     (if \<not> running then (0, True)
      else if res = STATE_USER_INPUT_EXEC_DISABLED then (1, True)
      else (case client_process_loop rounds of (n, returned) \<Rightarrow> (Suc n, returned)))"

fun client_recv_loop :: "(bool \<times> int) list \<Rightarrow> nat \<times> nat \<times> bool" where
  "client_recv_loop [] = (0, 0, False)"
| "client_recv_loop ((running, res) # rounds) =
     (if \<not> running then (0, 0, True)
      else if res < STATE_SUCCESS then
        (if res = STATE_USER_INPUT_EXEC_DISABLED then (1, 0, True)
         else (case client_recv_loop rounds of (n, pauses, returned) \<Rightarrow> (Suc n, Suc pauses, returned)))
      else (case client_recv_loop rounds of (n, pauses, returned) \<Rightarrow> (Suc n, pauses, returned)))"

text \<open>Both return once the flag is cleared, so that a join after that comes back.\<close>

lemma loops_return:
  "(False, res) \<in> set rounds \<Longrightarrow> snd (client_process_loop rounds)"
  "(False, res) \<in> set rounds \<Longrightarrow> snd (snd (client_recv_loop rounds))"
  by (induction rounds) (auto split: prod.splits)

section \<open>What is alive\<close>

record client_world =
  cw_clients :: nat
  cw_threads :: "client_thread set"
  cw_safe :: bool \<comment> \<open>no client was released under a thread, no thread joined that was not there\<close>

definition nothing :: client_world where
  "nothing = \<lparr> cw_clients = 0, cw_threads = {}, cw_safe = True \<rparr>"

fun happens :: "client_action \<Rightarrow> client_world \<Rightarrow> client_world" where
  "happens (Init_client True) w = w \<lparr> cw_clients := Suc (cw_clients w) \<rparr>"
| "happens (Create_thread t True) w = w \<lparr> cw_threads := insert t (cw_threads w) \<rparr>"
| "happens (Join_thread t) w = w \<lparr> cw_safe := cw_safe w \<and> t \<in> cw_threads w, cw_threads := cw_threads w - {t} \<rparr>"
| "happens (Deinit_client ok) w =
     w \<lparr> cw_safe := cw_safe w \<and> cw_threads w = {}, cw_clients := (if ok then cw_clients w - 1 else cw_clients w) \<rparr>"
| "happens _ w = w"

definition happen :: "client_action list \<Rightarrow> client_world \<Rightarrow> client_world" where
  "happen as w = fold happens as w"

lemma happen_simps [simp]:
  "happen [] w = w" "happen (a # as) w = happen as (happens a w)" "happen (as @ bs) w = happen bs (happen as w)"
  by (simp_all add: happen_def)

text \<open>The host's flags (handle, processing thread, receiving thread) tell what is alive.\<close>

fun accounted :: "bool \<times> bool \<times> bool \<Rightarrow> client_world \<Rightarrow> bool" where
  "accounted (handle, process, recv) w \<longleftrightarrow> cw_safe w \<and> cw_clients w = of_bool handle
     \<and> cw_threads w = (if process then {Process_thread} else {}) \<union> (if recv then {Recv_thread} else {})"

lemma accounted_nothing [simp]: "accounted (False, False, False) w \<longleftrightarrow> w = nothing"
  by (auto simp: nothing_def)

declare accounted.simps [simp del]

section \<open>The contract of a host\<close>

datatype host_call = Start_host start_answers | Stop_host

text \<open>One call of a host, on the object and what is alive.\<close>

definition host_step ::
  "(start_answers \<Rightarrow> 'g \<Rightarrow> client_action list \<times> 'g) \<Rightarrow> ('g \<Rightarrow> client_action list \<times> 'g)
   \<Rightarrow> host_call \<Rightarrow> 'g \<times> client_world \<Rightarrow> 'g \<times> client_world" where
  "host_step start stop c s =
     (case (case c of Start_host ans \<Rightarrow> start ans (fst s) | Stop_host \<Rightarrow> stop (fst s)) of (as, g) \<Rightarrow> (g, happen as (snd s)))"

locale client_host =
  fixes flags :: "'g \<Rightarrow> bool \<times> bool \<times> bool"
    and well :: "'g \<Rightarrow> bool"
    and allowed :: "start_answers \<Rightarrow> 'g \<Rightarrow> bool"
    and start :: "start_answers \<Rightarrow> 'g \<Rightarrow> client_action list \<times> 'g"
    and stop :: "'g \<Rightarrow> client_action list \<times> 'g"
  assumes start_accounts: "well g \<Longrightarrow> allowed ans g \<Longrightarrow> accounted (flags g) w \<Longrightarrow>
      well (snd (start ans g)) \<and> accounted (flags (snd (start ans g))) (happen (fst (start ans g)) w)"
    and stop_releases: "well g \<Longrightarrow> accounted (flags g) w \<Longrightarrow>
      well (snd (stop g)) \<and> flags (snd (stop g)) = (False, False, False) \<and> happen (fst (stop g)) w = nothing"
begin

lemma call_accounts:
  assumes "well (fst s)" "accounted (flags (fst s)) (snd s)" "\<And>ans g. c = Start_host ans \<Longrightarrow> allowed ans g"
  shows "well (fst (host_step start stop c s)) \<and> accounted (flags (fst (host_step start stop c s))) (snd (host_step start stop c s))"
proof (cases c)
  case (Start_host ans)
  then show ?thesis using start_accounts [OF assms(1) assms(3) assms(2)] by (simp add: host_step_def split_beta)
next
  case Stop_host
  then show ?thesis using stop_releases [OF assms(1,2)] by (simp add: host_step_def split_beta)
qed

lemma calls_account:
  assumes "well (fst s)" "accounted (flags (fst s)) (snd s)" "\<And>ans g. Start_host ans \<in> set cs \<Longrightarrow> allowed ans g"
  shows "well (fst (fold (host_step start stop) cs s))
    \<and> accounted (flags (fst (fold (host_step start stop) cs s))) (snd (fold (host_step start stop) cs s))"
  using assms
proof (induction cs arbitrary: s)
  case (Cons c cs)
  then show ?case using call_accounts [of s c] by simp
qed simp

lemma stopped_releases_all:
  assumes "well (fst s)" "accounted (flags (fst s)) (snd s)" "\<And>ans g. Start_host ans \<in> set cs \<Longrightarrow> allowed ans g"
  shows "snd (fold (host_step start stop) (cs @ [Stop_host]) s) = nothing"
  using calls_account [OF assms] stop_releases [of "fst (fold (host_step start stop) cs s)" "snd (fold (host_step start stop) cs s)"]
  by (simp add: host_step_def split_beta)

end

end
