(* ===== verification/Cloud_Gateway.thy ===== *)
theory Cloud_Gateway
  imports Ide_Publish Client_Lifecycle
begin

text \<open>
  The shared library with the connection to the cloud (\<^verbatim>\<open>src/libiot_ide_gateway.c\<close>): it
  loads the identity of the device, runs the MQTT client with its two threads, hands the services of
  the cloud to its host and publishes what the host has to say. The log lines are not modelled; the
  answers of the MQTT client, of the threads and of the allocator are arguments.
\<close>

section \<open>The object\<close>

abbreviation (input) IOT_IDE_GATEWAY_OK :: int where "IOT_IDE_GATEWAY_OK \<equiv> 0"
abbreviation (input) IOT_IDE_GATEWAY_ERR_INVALID_ARGUMENT :: int where "IOT_IDE_GATEWAY_ERR_INVALID_ARGUMENT \<equiv> -1"
abbreviation (input) IOT_IDE_GATEWAY_ERR_NO_MEMORY :: int where "IOT_IDE_GATEWAY_ERR_NO_MEMORY \<equiv> -2"
abbreviation (input) IOT_IDE_GATEWAY_ERR_INTERNAL :: int where "IOT_IDE_GATEWAY_ERR_INTERNAL \<equiv> -3"
abbreviation (input) IOT_IDE_GATEWAY_ERR_NOT_STARTED :: int where "IOT_IDE_GATEWAY_ERR_NOT_STARTED \<equiv> -4"

record cloud_gateway =
  cg_config :: device_config
  cg_config_path :: string
  cg_mqtt_host :: string
  cg_mqtt_handle :: bool \<comment> \<open>the handle is not NULL\<close>
  cg_process_running :: bool
  cg_recv_running :: bool
  cg_started :: bool
  cg_on_service :: bool \<comment> \<open>a service callback is set\<close>

text \<open>The clock, the allocator, and what \<^verbatim>\<open>aiot_mqtt_pub\<close> and \<^verbatim>\<open>aiot_mqtt_sub\<close> answer.\<close>

record cloud_env =
  ce_now_ms :: int
  ce_memory :: bool
  ce_pub :: "string \<Rightarrow> int"
  ce_sub :: "string \<Rightarrow> int"

section \<open>Publishing\<close>

definition gateway_publish_topic ::
  "cloud_env \<Rightarrow> cloud_gateway option \<Rightarrow> string option \<Rightarrow> string option \<Rightarrow> u8 \<Rightarrow> int \<times> app_effect list" where
  "gateway_publish_topic env gateway topic payload qos =
     (case (gateway, topic, payload) of
        (Some g, Some t, Some p) \<Rightarrow>
          if \<not> cg_mqtt_handle g then (IOT_IDE_GATEWAY_ERR_INVALID_ARGUMENT, [])
          else (if ce_pub env t < STATE_SUCCESS then IOT_IDE_GATEWAY_ERR_INTERNAL else IOT_IDE_GATEWAY_OK, [Mqtt_pub t p qos])
      | _ \<Rightarrow> (IOT_IDE_GATEWAY_ERR_INVALID_ARGUMENT, []))"

definition gateway_subscribe_topic :: "(string \<Rightarrow> int) \<Rightarrow> cloud_gateway option \<Rightarrow> string option \<Rightarrow> int \<times> app_effect list" where
  "gateway_subscribe_topic sub gateway topic =
     (case (gateway, topic) of
        (Some g, Some t) \<Rightarrow>
          if \<not> cg_mqtt_handle g then (IOT_IDE_GATEWAY_ERR_INVALID_ARGUMENT, [])
          else (if sub t < STATE_SUCCESS then IOT_IDE_GATEWAY_ERR_INTERNAL else IOT_IDE_GATEWAY_OK, [Mqtt_sub t])
      | _ \<Rightarrow> (IOT_IDE_GATEWAY_ERR_INVALID_ARGUMENT, []))"

definition device_topic :: "cloud_gateway \<Rightarrow> string \<Rightarrow> string" where
  "device_topic g rest = snprintf 320 (''/sys/'' @ cf_product_key (cg_config g) @ ''/'' @ cf_device_name (cg_config g) @ rest)"

definition iot_ide_gateway_post_properties ::
  "cloud_env \<Rightarrow> cloud_gateway option \<Rightarrow> string option \<Rightarrow> int \<times> app_effect list" where
  "iot_ide_gateway_post_properties env gateway params_json =
     (case (gateway, params_json) of
        (Some g, Some params) \<Rightarrow>
          if \<not> cg_mqtt_handle g then (IOT_IDE_GATEWAY_ERR_NOT_STARTED, [])
          else if \<not> ce_memory env then (IOT_IDE_GATEWAY_ERR_NO_MEMORY, [])
          else gateway_publish_topic env (Some g) (Some (device_topic g ''/thing/event/property/post''))
            (Some (snprintf (length params + 256)
               (''{\"id\":\"'' @ int_dec (ce_now_ms env) @ ''\",\"version\":\"1.0\",\"params\":'' @ params
                @ '',\"method\":\"thing.event.property.post\"}''))) 0
      | _ \<Rightarrow> (IOT_IDE_GATEWAY_ERR_INVALID_ARGUMENT, []))"

definition iot_ide_gateway_reply_service ::
  "cloud_env \<Rightarrow> cloud_gateway option \<Rightarrow> string option \<Rightarrow> string option \<Rightarrow> int \<Rightarrow> string option \<Rightarrow> int \<times> app_effect list" where
  "iot_ide_gateway_reply_service env gateway service_name request_id code data_json =
     (case (gateway, service_name) of
        (Some g, Some service) \<Rightarrow>
          if \<not> cg_mqtt_handle g then (IOT_IDE_GATEWAY_ERR_NOT_STARTED, [])
          else (let topic = device_topic g (''/thing/service/'' @ service @ ''_reply'');
                    payload_size = length (case data_json of None \<Rightarrow> ''{}'' | Some d \<Rightarrow> d)
                      + length (case request_id of None \<Rightarrow> ''0'' | Some r \<Rightarrow> r) + 128 in
            if \<not> ce_memory env then (IOT_IDE_GATEWAY_ERR_NO_MEMORY, [])
            else gateway_publish_topic env (Some g) (Some topic)
              (Some (snprintf payload_size
                (''{\"id\":\"'' @ (case request_id of None \<Rightarrow> ''0'' | Some r \<Rightarrow> if r = [] then ''0'' else r)
                 @ ''\",\"code\":'' @ int_dec code
                 @ '',\"data\":'' @ (case data_json of None \<Rightarrow> ''{}'' | Some d \<Rightarrow> if d = [] then ''{}'' else d) @ ''}''))) 0)
      | _ \<Rightarrow> (IOT_IDE_GATEWAY_ERR_INVALID_ARGUMENT, []))"

definition iot_ide_gateway_publish_trace ::
  "cloud_env \<Rightarrow> cloud_gateway option \<Rightarrow> string option \<Rightarrow> int \<times> app_effect list" where
  "iot_ide_gateway_publish_trace env gateway payload_json =
     (case (gateway, payload_json) of
        (Some g, Some payload) \<Rightarrow>
          if \<not> cg_mqtt_handle g then (IOT_IDE_GATEWAY_ERR_NOT_STARTED, [])
          else gateway_publish_topic env (Some g)
            (Some (snprintf 320 (''/'' @ cf_product_key (cg_config g) @ ''/'' @ cf_device_name (cg_config g) @ ''/user/trace/data'')))
            (Some payload) 0
      | _ \<Rightarrow> (IOT_IDE_GATEWAY_ERR_INVALID_ARGUMENT, []))"

text \<open>A reply that comes as an event: its fields, with the defaults of the code.\<close>

definition forward_reply :: "cloud_env \<Rightarrow> cloud_gateway \<Rightarrow> string \<Rightarrow> int \<times> app_effect list" where
  "forward_reply env g event_json =
     (let service_name = stored_text [] 128 (json_get_string (Some event_json) (Some ''service'') 128);
          request_id = stored_text ''0'' 64 (json_get_string (Some event_json) (Some ''id'') 64);
          code_text = stored_text ''200'' 32 (json_get_raw_value (Some event_json) (Some ''code'') 32);
          data_json = stored_text ''{}'' 4096 (json_get_raw_value (Some event_json) (Some ''data'') 4096) in
      if service_name = [] then (IOT_IDE_GATEWAY_ERR_INVALID_ARGUMENT, [])
      else iot_ide_gateway_reply_service env (Some g) (Some service_name) (Some request_id) (atoi code_text) (Some data_json))"

definition iot_ide_gateway_forward_event ::
  "cloud_env \<Rightarrow> cloud_gateway option \<Rightarrow> string option \<Rightarrow> string option \<Rightarrow> int \<times> app_effect list" where
  "iot_ide_gateway_forward_event env gateway event_name event_json =
     (case (gateway, event_name) of
        (Some g, Some name) \<Rightarrow>
          (let json = (case event_json of None \<Rightarrow> ''{}'' | Some j \<Rightarrow> j) in
           if name = ''property.post'' then iot_ide_gateway_post_properties env (Some g) (Some json)
           else if name = ''trace.publish'' then iot_ide_gateway_publish_trace env (Some g) (Some json)
           else if name = ''service.reply'' then
             (case event_json of None \<Rightarrow> (IOT_IDE_GATEWAY_ERR_INVALID_ARGUMENT, []) | Some j \<Rightarrow> forward_reply env g j)
           else (IOT_IDE_GATEWAY_OK, []))
      | _ \<Rightarrow> (IOT_IDE_GATEWAY_ERR_INVALID_ARGUMENT, []))"

text \<open>The three texts for buffers of the given sizes; a buffer of size 0 stands for none.\<close>

definition iot_ide_gateway_get_device_info ::
  "cloud_gateway option \<Rightarrow> nat \<Rightarrow> nat \<Rightarrow> nat \<Rightarrow> int \<times> string option \<times> string option \<times> string option" where
  "iot_ide_gateway_get_device_info gateway key_size name_size host_size =
     (case gateway of
        None \<Rightarrow> (IOT_IDE_GATEWAY_ERR_INVALID_ARGUMENT, None, None, None)
      | Some g \<Rightarrow>
          (let put = (\<lambda>n text. if n > 0 then Some (snprintf n text) else None) in
           (IOT_IDE_GATEWAY_OK, put key_size (cf_product_key (cg_config g)), put name_size (cf_device_name (cg_config g)),
            put host_size (cg_mqtt_host g))))"

section \<open>Services of the cloud\<close>

definition gateway_is_reply_topic :: "string option \<Rightarrow> bool" where
  "gateway_is_reply_topic service_name =
     (case service_name of
        None \<Rightarrow> False
      | Some s \<Rightarrow> length s \<ge> 6 \<and> drop (length s - 6) s = ''_reply'')"

text \<open>
  The host's callback on a state \<open>'s\<close> of its own: service, request id and parameters. The
  second result is what was sent.
\<close>

type_synonym 's service_callback = "string \<Rightarrow> string \<Rightarrow> string \<Rightarrow> 's \<Rightarrow> ('s \<times> app_effect list) outcome"

definition service_request_id :: "string \<Rightarrow> string" where
  "service_request_id payload = stored_text ''0'' 64 (json_get_raw_value (Some payload) (Some ''id'') 64)"

definition service_params :: "string \<Rightarrow> string" where
  "service_params payload =
     (case json_get_object (Some payload) (Some ''params'') 8192 of Copied p \<Rightarrow> p | Failed _ \<Rightarrow> snprintf 8192 ''{}'')"

definition gateway_handle_service ::
  "cloud_env \<Rightarrow> 's service_callback \<Rightarrow> cloud_gateway \<Rightarrow> string \<Rightarrow> string \<Rightarrow> 's \<Rightarrow> ('s \<times> app_effect list) outcome" where
  "gateway_handle_service env on_service g topic payload s =
     (let prefix = device_topic g ''/thing/service/'' in
      if \<not> has_prefix prefix topic then Ok (s, [])
      else (let service_name = drop (length prefix) topic in
        if gateway_is_reply_topic (Some service_name) then Ok (s, [])
        else (let request_id = service_request_id payload; params = service_params payload in
          if cg_on_service g then on_service service_name request_id params s
          else Ok (s, snd (iot_ide_gateway_reply_service env (Some g) (Some service_name) (Some request_id) 200
            (Some ''{\"success\":0,\"message\":\"no service handler\"}''))))))"

text \<open>The receive handler for a publication; \<open>memory\<close>: both copies could be allocated.\<close>

definition gateway_mqtt_recv_handler ::
  "bool \<Rightarrow> cloud_env \<Rightarrow> 's service_callback \<Rightarrow> cloud_gateway \<Rightarrow> string \<Rightarrow> string \<Rightarrow> 's \<Rightarrow> ('s \<times> app_effect list) outcome" where
  "gateway_mqtt_recv_handler memory env on_service g topic_bytes payload_bytes s =
     (if \<not> memory then Ok (s, [])
      else gateway_handle_service env on_service g (cstr topic_bytes) (cstr payload_bytes) s)"

section \<open>Start and stop\<close>

text \<open>The options; of the TLS credentials and the handlers their names.\<close>

definition start_options :: "cloud_gateway \<Rightarrow> client_action list" where
  "start_options g =
     [Set_option ''HOST'' (cg_mqtt_host g), Set_option ''PORT'' ''8883'',
      Set_option ''PRODUCT_KEY'' (cf_product_key (cg_config g)), Set_option ''DEVICE_NAME'' (cf_device_name (cg_config g)),
      Set_option ''DEVICE_SECRET'' (cf_device_secret (cg_config g)), Set_option ''NETWORK_CRED'' ''ali_ca_cert'',
      Set_option ''RECV_HANDLER'' ''gateway_mqtt_recv_handler'', Set_option ''EVENT_HANDLER'' ''gateway_mqtt_event_handler'',
      Set_option ''USERDATA'' ''gateway'']"

definition cloud_service_topic :: "cloud_gateway \<Rightarrow> string" where
  "cloud_service_topic g = device_topic g ''/thing/service/#''"

definition iot_ide_gateway_start ::
  "start_answers \<Rightarrow> cloud_gateway option \<Rightarrow> int \<times> client_action list \<times> cloud_gateway option" where
  "iot_ide_gateway_start ans gateway =
     (case gateway of
        None \<Rightarrow> (IOT_IDE_GATEWAY_ERR_INVALID_ARGUMENT, [], None)
      | Some g \<Rightarrow>
          if cg_started g then (IOT_IDE_GATEWAY_OK, [], Some g)
          else (let g1 = g \<lparr> cg_mqtt_handle := sa_init ans \<rparr>;
                    a1 = [Set_portfile, Set_logcb, Init_client (sa_init ans)] in
            if \<not> sa_init ans then (IOT_IDE_GATEWAY_ERR_INTERNAL, a1, Some g1)
            else (let a2 = a1 @ start_options g @ [Connect];
                      released = g1 \<lparr> cg_mqtt_handle := \<not> sa_deinit ans \<rparr> in
              if sa_connect ans < STATE_SUCCESS then
                (IOT_IDE_GATEWAY_ERR_INTERNAL, a2 @ [Deinit_client (sa_deinit ans)], Some released)
              else (let a3 = a2 @ [Subscribe (cloud_service_topic g)] in
                if fst (gateway_subscribe_topic (sa_sub ans) (Some g1) (Some (cloud_service_topic g))) \<noteq> IOT_IDE_GATEWAY_OK then
                  (IOT_IDE_GATEWAY_ERR_INTERNAL, a3 @ [Disconnect, Deinit_client (sa_deinit ans)], Some released)
                else (let off = released \<lparr> cg_process_running := False, cg_recv_running := False \<rparr>;
                          a4 = a3 @ [Create_thread Process_thread (sa_process ans)] in
                  if \<not> sa_process ans then
                    (IOT_IDE_GATEWAY_ERR_INTERNAL, a4 @ [Disconnect, Deinit_client (sa_deinit ans)], Some off)
                  else (let a5 = a4 @ [Create_thread Recv_thread (sa_recv ans)] in
                    if \<not> sa_recv ans then
                      (IOT_IDE_GATEWAY_ERR_INTERNAL,
                       a5 @ [Disconnect, Join_thread Process_thread, Deinit_client (sa_deinit ans)], Some off)
                    else (IOT_IDE_GATEWAY_OK, a5,
                      Some (g1 \<lparr> cg_process_running := True, cg_recv_running := True, cg_started := True \<rparr>))))))))"

text \<open>\<open>self\<close>: the thread that makes the call, where it is one of the two.\<close>

definition iot_ide_gateway_stop ::
  "client_thread option \<Rightarrow> bool \<Rightarrow> cloud_gateway option \<Rightarrow> client_action list \<times> cloud_gateway option" where
  "iot_ide_gateway_stop self deinit_ok gateway =
     (case gateway of
        None \<Rightarrow> ([], None)
      | Some g \<Rightarrow>
          ((if cg_mqtt_handle g then [Disconnect] else [])
           @ (if cg_process_running g \<and> self \<noteq> Some Process_thread then [Join_thread Process_thread] else [])
           @ (if cg_recv_running g \<and> self \<noteq> Some Recv_thread then [Join_thread Recv_thread] else [])
           @ (if cg_mqtt_handle g then [Deinit_client deinit_ok] else []),
           Some (g \<lparr> cg_process_running := False, cg_recv_running := False,
             cg_mqtt_handle := cg_mqtt_handle g \<and> \<not> deinit_ok, cg_started := False \<rparr>)))"

text \<open>Its two threads run the loops every host of the client runs.\<close>

definition gateway_mqtt_process_thread_main :: "(bool \<times> int) list \<Rightarrow> nat \<times> bool" where
  "gateway_mqtt_process_thread_main rounds = client_process_loop rounds"

definition gateway_mqtt_recv_thread_main :: "(bool \<times> int) list \<Rightarrow> nat \<times> nat \<times> bool" where
  "gateway_mqtt_recv_thread_main rounds = client_recv_loop rounds"

section \<open>Creation and destruction\<close>

datatype cloud_resource = Gateway_object | Gateway_mqtt_lock

record cloud_options =
  go_config_path :: "string option"
  go_on_service :: bool

text \<open>What is live afterwards; the calls of the stop are those of \<open>iot_ide_gateway_stop\<close>.\<close>

definition iot_ide_gateway_destroy ::
  "client_thread option \<Rightarrow> bool \<Rightarrow> bool \<Rightarrow> cloud_gateway option \<Rightarrow> cloud_resource set \<Rightarrow> client_action list \<times> cloud_resource set" where
  "iot_ide_gateway_destroy self deinit_ok lock_initialized gateway live =
     (case gateway of
        None \<Rightarrow> ([], live)
      | Some g \<Rightarrow>
          (fst (iot_ide_gateway_stop self deinit_ok (Some g)),
           (if lock_initialized then live - {Gateway_mqtt_lock} else live) - {Gateway_object}))"

definition created_gateway :: "cloud_options option \<Rightarrow> cloud_gateway" where
  "created_gateway options =
     \<lparr> cg_config = empty_config,
       cg_config_path = snprintf 512 (case options of None \<Rightarrow> ''./device_id.json''
         | Some o' \<Rightarrow> (case go_config_path o' of None \<Rightarrow> ''./device_id.json''
             | Some p \<Rightarrow> if p = [] then ''./device_id.json'' else p)),
       cg_mqtt_host = [], cg_mqtt_handle = False, cg_process_running = False, cg_recv_running = False, cg_started = False,
       cg_on_service = (case options of None \<Rightarrow> False | Some o' \<Rightarrow> go_on_service o') \<rparr>"

text \<open>\<open>files\<close>: the bytes of the file of a name, if it can be read.\<close>

definition iot_ide_gateway_create ::
  "bool \<Rightarrow> bool \<Rightarrow> bool \<Rightarrow> (string \<Rightarrow> string option) \<Rightarrow> cloud_options option
   \<Rightarrow> int \<times> cloud_gateway option \<times> cloud_resource set" where
  "iot_ide_gateway_create out_ok memory lock files options =
     (if \<not> out_ok then (IOT_IDE_GATEWAY_ERR_INVALID_ARGUMENT, None, {})
      else if \<not> memory then (IOT_IDE_GATEWAY_ERR_NO_MEMORY, None, {})
      else (let g = created_gateway options in
        if \<not> lock then (IOT_IDE_GATEWAY_ERR_INTERNAL, None, {Gateway_object} - {Gateway_object})
        else (let live = {Gateway_object, Gateway_mqtt_lock} in
          (case device_config_load True (files (cg_config_path g)) (cg_config g) of (rc, config) \<Rightarrow>
            (case device_config_build_mqtt_host (Some config) (Some 256) of (rc2, host) \<Rightarrow>
              if rc \<noteq> 0 \<or> rc2 \<noteq> 0 then
                (IOT_IDE_GATEWAY_ERR_INTERNAL, None,
                 snd (iot_ide_gateway_destroy None True True (Some (g \<lparr> cg_config := config \<rparr>)) live))
              else (IOT_IDE_GATEWAY_OK,
                Some (g \<lparr> cg_config := config, cg_mqtt_host := (case host of Some h \<Rightarrow> h | None \<Rightarrow> []) \<rparr>), live))))))"

section \<open>What is published\<close>

text \<open>The identity of a loaded configuration: every fixed topic fits its buffer.\<close>

definition cloud_ok :: "cloud_gateway \<Rightarrow> bool" where
  "cloud_ok g \<longleftrightarrow> length (cf_product_key (cg_config g)) < 128 \<and> length (cf_device_name (cg_config g)) < 128"

definition cloud_names :: "cloud_gateway \<Rightarrow> string" where
  "cloud_names g = ''/sys/'' @ cf_product_key (cg_config g) @ ''/'' @ cf_device_name (cg_config g)"

lemma device_topic_text: "cloud_ok g \<Longrightarrow> length rest < 60 \<Longrightarrow> device_topic g rest = cloud_names g @ rest"
  by (simp add: device_topic_def cloud_names_def cloud_ok_def snprintf_fits)

lemma length_code_200 [simp]: "length (int_dec 200) = 3"
  by code_simp

lemma reply_service_publishes:
  assumes "cg_mqtt_handle g" "ce_memory env" "length (int_dec code) \<le> 90"
  shows "snd (iot_ide_gateway_reply_service env (Some g) (Some service) (Some rid) code (Some data)) =
    [Mqtt_pub (device_topic g (''/thing/service/'' @ service @ ''_reply''))
      (reply_payload (if rid = [] then ''0'' else rid) code (if data = [] then ''{}'' else data)) 0]"
  using assms by (simp add: iot_ide_gateway_reply_service_def gateway_publish_topic_def Let_def reply_payload_def snprintf_fits)

lemma post_properties_publishes:
  assumes "cg_mqtt_handle g" "ce_memory env" "length (int_dec (ce_now_ms env)) \<le> 90"
  shows "snd (iot_ide_gateway_post_properties env (Some g) (Some params)) =
    [Mqtt_pub (device_topic g ''/thing/event/property/post'') (post_payload (ce_now_ms env) params) 0]"
  using assms by (simp add: iot_ide_gateway_post_properties_def gateway_publish_topic_def Let_def post_payload_def snprintf_fits)

section \<open>No answer to its own messages\<close>

lemma is_reply_topic_append [simp]: "gateway_is_reply_topic (Some (s @ ''_reply''))"
  by (simp add: gateway_is_reply_topic_def)

text \<open>What was published on the topic of a reply, or as a property, comes back without effect.\<close>

lemma own_reply_ignored:
  assumes "cloud_ok g" "length service < 39"
  shows "gateway_handle_service env cb g (device_topic g (''/thing/service/'' @ service @ ''_reply'')) payload s = Ok (s, [])"
proof -
  have "device_topic g (''/thing/service/'' @ service @ ''_reply'') = device_topic g ''/thing/service/'' @ service @ ''_reply''"
    using assms by (simp add: device_topic_text)
  then show ?thesis by (simp add: gateway_handle_service_def)
qed

lemma own_post_ignored:
  assumes "cloud_ok g"
  shows "gateway_handle_service env cb g (device_topic g ''/thing/event/property/post'') payload s = Ok (s, [])"
  using assms by (simp add: gateway_handle_service_def device_topic_text has_prefix_def)

text \<open>
  A service name that is too long for the buffer of the topic loses the suffix: what is published
  then is a service topic again, and handling it publishes the same again.
\<close>

lemma long_service_echoes:
  assumes "cg_mqtt_handle g" "ce_memory env" "\<not> cg_on_service g" "cloud_ok g"
    and "length (cloud_names g) + 15 + length service = 319" "\<not> gateway_is_reply_topic (Some service)"
    and "topic = device_topic g (''/thing/service/'' @ service)"
  shows "\<exists>payload'. gateway_handle_service env cb g topic payload s = Ok (s, [Mqtt_pub topic payload' 0])"
proof -
  have prefix: "device_topic g ''/thing/service/'' = cloud_names g @ ''/thing/service/''" using assms(4) by (simp add: device_topic_text)
  have cut: "device_topic g rest = take 319 (cloud_names g @ rest)" for rest
    by (simp add: device_topic_def cloud_names_def snprintf_def)
  let ?t = "(cloud_names g @ ''/thing/service/'') @ service"
  have length: "length ?t = 319" using assms(5) by simp
  have join: "cloud_names g @ ''/thing/service/'' @ rest = (cloud_names g @ ''/thing/service/'') @ rest" for rest by simp
  have topic: "topic = ?t" unfolding assms(7) cut join using length by (simp del: append_assoc)
  have "(cloud_names g @ ''/thing/service/'') @ service @ ''_reply'' = ?t @ ''_reply''" by simp
  then have reply: "device_topic g (''/thing/service/'' @ service @ ''_reply'') = topic"
    unfolding cut join topic using length by (simp del: append_assoc)
  have "drop (length (cloud_names g @ ''/thing/service/'')) topic = service"
    unfolding topic by (simp del: append_assoc)
  moreover have "has_prefix (cloud_names g @ ''/thing/service/'') topic"
    unfolding topic by (rule has_prefix_append)
  ultimately show ?thesis
    using assms(1-3,6) reply by (simp add: gateway_handle_service_def prefix Let_def reply_service_publishes)
qed

section \<open>Starting and stopping\<close>

definition cloud_start :: "start_answers \<Rightarrow> cloud_gateway \<Rightarrow> client_action list \<times> cloud_gateway" where
  "cloud_start ans g = (case iot_ide_gateway_start ans (Some g) of (_, as, g') \<Rightarrow> (as, the g'))"

definition cloud_stop :: "cloud_gateway \<Rightarrow> client_action list \<times> cloud_gateway" where
  "cloud_stop g = (case iot_ide_gateway_stop None True (Some g) of (as, g') \<Rightarrow> (as, the g'))"

definition cloud_flags :: "cloud_gateway \<Rightarrow> bool \<times> bool \<times> bool" where
  "cloud_flags g = (cg_mqtt_handle g, cg_process_running g, cg_recv_running g)"

definition cloud_well :: "cloud_gateway \<Rightarrow> bool" where
  "cloud_well g \<longleftrightarrow> cg_mqtt_handle g = cg_started g \<and> cg_process_running g = cg_started g \<and> cg_recv_running g = cg_started g"

lemma options_silent [simp]: "happen (start_options g) w = w"
  by (simp add: start_options_def)

lemma cloud_start_accounts:
  assumes "cloud_well g" "sa_deinit ans" "accounted (cloud_flags g) w"
  shows "cloud_well (snd (cloud_start ans g)) \<and> accounted (cloud_flags (snd (cloud_start ans g))) (happen (fst (cloud_start ans g)) w)"
proof (cases "cg_started g")
  case True
  then show ?thesis using assms by (simp add: cloud_start_def iot_ide_gateway_start_def)
next
  case False
  then have g: "\<not> cg_mqtt_handle g" "\<not> cg_process_running g" "\<not> cg_recv_running g" using assms(1) by (simp_all add: cloud_well_def)
  then have "w = nothing" using assms(3) by (simp add: cloud_flags_def)
  with False g assms(2) show ?thesis
    by (cases "sa_init ans"; cases "sa_connect ans < 0"; cases "sa_sub ans (cloud_service_topic g) < 0"; cases "sa_process ans"; cases "sa_recv ans")
      (simp_all add: cloud_start_def iot_ide_gateway_start_def gateway_subscribe_topic_def Let_def cloud_well_def cloud_flags_def
        nothing_def accounted.simps insert_commute)
qed

lemma cloud_stop_releases:
  assumes "cloud_well g" "accounted (cloud_flags g) w"
  shows "cloud_well (snd (cloud_stop g)) \<and> cloud_flags (snd (cloud_stop g)) = (False, False, False)
    \<and> happen (fst (cloud_stop g)) w = nothing"
  using assms by (cases w; cases "cg_started g")
    (auto simp: cloud_stop_def iot_ide_gateway_stop_def cloud_well_def cloud_flags_def accounted.simps nothing_def)

interpretation cloud: client_host cloud_flags cloud_well "\<lambda>ans g. sa_deinit ans" cloud_start cloud_stop
  by unfold_locales (use cloud_start_accounts cloud_stop_releases in blast)+

lemma create_fresh:
  assumes "iot_ide_gateway_create out_ok memory lock files options = (IOT_IDE_GATEWAY_OK, Some g, live)"
  shows "cloud_well g \<and> cloud_flags g = (False, False, False) \<and> live = {Gateway_object, Gateway_mqtt_lock}"
  using assms by (auto simp: iot_ide_gateway_create_def created_gateway_def cloud_well_def cloud_flags_def Let_def
      split: if_splits prod.splits)


definition sample_file :: string where
  "sample_file = ''{\"productKey\":\"pk\",\"deviceName\":\"dn\",\"deviceSecret\":\"s\",\"region\":\"r\"}''"

lemma sample_created:
  "case iot_ide_gateway_create True True True (\<lambda>_. Some sample_file) None of
     (rc, Some g, live) \<Rightarrow> rc = 0 \<and> cf_product_key (cg_config g) = ''pk'' \<and> cg_mqtt_host g = ''pk.iot-as-mqtt.r.aliyuncs.com''
   | _ \<Rightarrow> False"
  by code_simp


text \<open>
  Where the client cannot be released (\<^verbatim>\<open>aiot_mqtt_deinit\<close> gives up after its
  timeout) the next start overwrites the handle: two clients are alive, one of them out of reach.
\<close>

lemma failed_release_leaks:
  assumes "\<not> cg_started g" "sa_init ans" "sa_connect ans < 0" "\<not> sa_deinit ans"
  shows "cw_clients (snd (fold (host_step cloud_start cloud_stop) [Start_host ans, Start_host ans] (g, nothing))) = 2"
  using assms by (simp add: host_step_def cloud_start_def iot_ide_gateway_start_def Let_def nothing_def)

text \<open>A stop from one of the two threads itself releases the client under that thread.\<close>

lemma stop_in_callback:
  assumes "cloud_well g" "cg_started g" "accounted (cloud_flags g) w"
  shows "\<not> cw_safe (happen (fst (iot_ide_gateway_stop (Some Recv_thread) deinit_ok (Some g))) w)"
  using assms by (auto simp: iot_ide_gateway_stop_def cloud_well_def cloud_flags_def accounted.simps)

end
