(* ===== verification/Iec_Runtime.thy ===== *)
theory Iec_Runtime
  imports Ide_Library Cloud_Gateway
begin

text \<open>
  The production host (\<^verbatim>\<open>iec_runtime.c\<close>): it creates the two shared libraries, hands the
  services of the cloud from the one to the other, and the events of the IDE library back to the
  cloud. What it prints is not modelled.
\<close>

section \<open>The callbacks\<close>

text \<open>The IDE library the host holds, and the commands that were started through it, in order.\<close>

record runtime =
  rt_ide :: "ide_library option"
  rt_started :: "(string \<times> string) list"

definition runtime_reply_error :: "cloud_env \<Rightarrow> cloud_gateway \<Rightarrow> string \<Rightarrow> string \<Rightarrow> string option \<Rightarrow> app_effect list" where
  "runtime_reply_error env g service_name request_id message =
     snd (iot_ide_gateway_reply_service env (Some g) (Some service_name) (Some request_id) 200
       (Some (snprintf 512 (''{\"success\":0,\"message\":\"'' @ (case message of None \<Rightarrow> ''error'' | Some m \<Rightarrow> m) @ ''\"}''))))"

definition runtime_on_iot_ide_event ::
  "cloud_env \<Rightarrow> cloud_gateway option \<Rightarrow> string option \<Rightarrow> string option \<Rightarrow> app_effect list" where
  "runtime_on_iot_ide_event env gateway event_name event_json =
     (case (gateway, event_name) of
        (Some g, Some name) \<Rightarrow> snd (iot_ide_gateway_forward_event env (Some g) (Some name) event_json)
      | _ \<Rightarrow> [])"

text \<open>The events a call of the IDE library makes, one callback after the other.\<close>

definition runtime_events :: "cloud_env \<Rightarrow> cloud_gateway \<Rightarrow> app_effect list \<Rightarrow> app_effect list" where
  "runtime_events env g effects =
     concat (map (\<lambda>e. case e of Runtime_event name json \<Rightarrow> runtime_on_iot_ide_event env (Some g) (Some name) (Some json) | _ \<Rightarrow> [])
       effects)"

definition not_handled :: response_buffer where
  "not_handled = (Some ''{\"success\":0,\"message\":\"not handled\"}'', 8192)"

definition runtime_answer ::
  "cloud_env \<Rightarrow> cloud_gateway \<Rightarrow> string \<Rightarrow> string \<Rightarrow> runtime \<Rightarrow> library_result \<times> ide_library \<Rightarrow> (runtime \<times> app_effect list) outcome" where
  "runtime_answer env g service_name request_id rt result =
     (case result of (r, l) \<Rightarrow>
        Ok (rt \<lparr> rt_ide := Some l, rt_started := rt_started rt @ (case lr_started r of None \<Rightarrow> [] | Some c \<Rightarrow> [c]) \<rparr>,
          runtime_events env g (lr_events r)
          @ snd (iot_ide_gateway_reply_service env (Some g) (Some service_name) (Some request_id) 200 (lr_response r))))"

definition runtime_on_service :: "cloud_env \<Rightarrow> library_call \<Rightarrow> cloud_gateway \<Rightarrow> runtime service_callback" where
  "runtime_on_service env call g service_name request_id params_json rt =
     (case rt_ide rt of
        None \<Rightarrow> Ok (rt, [])
      | Some l \<Rightarrow>
          (let answer = runtime_answer env g service_name request_id rt;
               reply = (\<lambda>text. snd (iot_ide_gateway_reply_service env (Some g) (Some service_name) (Some request_id) 200 text)) in
           if service_name = ''requestConnect'' then answer (libiot_ide_request_connect True (Some params_json) not_handled call l)
           else if service_name = ''requestDisconnect'' then answer (libiot_ide_request_disconnect True (Some params_json) not_handled call l)
           else if service_name = ''ideHeartbeat'' then answer (libiot_ide_heartbeat True (Some params_json) not_handled call l)
           else if service_name = ''deployProject'' then
             obind (libiot_ide_deploy_project True (Some params_json) not_handled call l) answer
           else if service_name = ''startProject'' then
             obind (libiot_ide_start_project True (Some params_json) not_handled call l) answer
           else if service_name = ''property/get'' then
             Ok (rt, reply (snd (libiot_ide_get_connection_snapshot True not_handled l)))
           else if service_name = ''property/set'' then
             Ok (rt, snd (iot_ide_gateway_post_properties env (Some g) (Some params_json))
               @ reply (Some (snprintf 8192 ''{\"success\":1,\"message\":\"property set accepted\"}'')))
           else Ok (rt, runtime_reply_error env g service_name request_id (Some ''unknown service''))))"

text \<open>A message of the cloud, from the MQTT client through both libraries and back.\<close>

definition runtime_message ::
  "bool \<Rightarrow> cloud_env \<Rightarrow> library_call \<Rightarrow> cloud_gateway \<Rightarrow> string \<Rightarrow> string \<Rightarrow> runtime \<Rightarrow> (runtime \<times> app_effect list) outcome" where
  "runtime_message memory env call g topic payload rt =
     gateway_mqtt_recv_handler memory env (runtime_on_service env call g) g topic payload rt"

section \<open>The main program\<close>

text \<open>
  What the program finds: its argument, the files, the allocator and the locks of the gateway
  library, the answers to the IDE library and to the start, whether the client can be released at the
  end, and the IDE library as the callbacks have left it when the signal comes.
\<close>

record main_env =
  me_argument :: "string option"
  me_files :: "string \<Rightarrow> string option"
  me_memory :: bool
  me_lock :: bool
  me_library :: library_answers
  me_start :: start_answers
  me_deinit :: bool
  me_callbacks :: "ide_library \<Rightarrow> ide_library"

text \<open>
  The exit code and what is left of the gateway library, of the IDE library, of the client and its
  threads; \<open>None\<close>: the program waits for a running deployment.
\<close>

type_synonym main_result = "int \<times> cloud_resource set \<times> library_resource list \<times> client_world"

definition main_options :: "main_env \<Rightarrow> cloud_options" where
  "main_options env = \<lparr> go_config_path = Some (case me_argument env of None \<Rightarrow> ''./device_id.json'' | Some a \<Rightarrow> a), go_on_service = True \<rparr>"

text \<open>The two objects are destroyed, the IDE library first.\<close>

definition main_destroy ::
  "main_env \<Rightarrow> int \<Rightarrow> ide_library \<Rightarrow> library_resource list \<Rightarrow> cloud_gateway \<Rightarrow> cloud_resource set \<Rightarrow> client_world \<Rightarrow> main_result option" where
  "main_destroy env code l live g gateway_live w =
     (case libiot_ide_destroy (True, True, True) l live of
        None \<Rightarrow> None
      | Some (live', _) \<Rightarrow>
          (case iot_ide_gateway_destroy None (me_deinit env) True (Some g) gateway_live of (actions, gateway_live') \<Rightarrow>
             Some (code, gateway_live', live', happen actions w)))"

definition runtime_main :: "main_env \<Rightarrow> main_result option" where
  "runtime_main env =
     (case iot_ide_gateway_create True (me_memory env) (me_lock env) (me_files env) (Some (main_options env)) of
        (rc, gateway, gateway_live) \<Rightarrow>
      (if rc \<noteq> IOT_IDE_GATEWAY_OK then Some (1, gateway_live, [], nothing)
       else (let g = the gateway in
      (case libiot_ide_create True (Some \<lparr> lo_event_cb = True, lo_work_dir = Some ''.'' \<rparr>) (me_library env) of
         (rc2, ide, live, _) \<Rightarrow>
      (if rc2 \<noteq> LIBIOT_IDE_OK then
         (case iot_ide_gateway_destroy None (me_deinit env) True (Some g) gateway_live of (actions, gateway_live') \<Rightarrow>
            Some (1, gateway_live', live, happen actions nothing))
       else (let l = the ide in
      (case iot_ide_gateway_start (me_start env) (Some g) of
         (rc3, actions, g1) \<Rightarrow>
      (if rc3 \<noteq> IOT_IDE_GATEWAY_OK then main_destroy env 1 l live (the g1) gateway_live (happen actions nothing)
       else (case iot_ide_gateway_stop None (me_deinit env) g1 of (actions2, g2) \<Rightarrow>
         main_destroy env 0 (me_callbacks env l) live (the g2) gateway_live (happen actions2 (happen actions nothing)))))))))))"

section \<open>Every service is answered\<close>

text \<open>The gateway library works: a handle, memory, a clock the payload has room for.\<close>

definition publishes :: "cloud_env \<Rightarrow> cloud_gateway \<Rightarrow> bool" where
  "publishes env g \<longleftrightarrow> cloud_ok g \<and> cg_mqtt_handle g \<and> ce_memory env \<and> length (int_dec (ce_now_ms env)) \<le> 90"

definition posts_only :: "cloud_gateway \<Rightarrow> app_effect list \<Rightarrow> bool" where
  "posts_only g effects \<longleftrightarrow> (\<forall>e \<in> set effects. \<exists>payload. e = Mqtt_pub (device_topic g ''/thing/event/property/post'') payload 0)"

definition reply_of :: "cloud_gateway \<Rightarrow> string \<Rightarrow> string \<Rightarrow> string \<Rightarrow> app_effect" where
  "reply_of g service rid data =
     Mqtt_pub (device_topic g (''/thing/service/'' @ service @ ''_reply'')) (reply_payload (if rid = [] then ''0'' else rid) 200 data) 0"

lemma gateway_reply_text:
  "publishes env g \<Longrightarrow> snd (iot_ide_gateway_reply_service env (Some g) (Some service) (Some rid) 200 (Some data)) =
    [reply_of g service rid (if data = [] then ''{}'' else data)]"
  by (simp add: publishes_def reply_service_publishes reply_of_def)

lemma post_text:
  "publishes env g \<Longrightarrow> posts_only g (snd (iot_ide_gateway_post_properties env (Some g) (Some params)))"
  by (simp add: publishes_def post_properties_publishes posts_only_def)

text \<open>What the IDE library tells its host: properties, and responses the gateway does not forward.\<close>

definition library_speaks :: "app_effect list \<Rightarrow> bool" where
  "library_speaks effects \<longleftrightarrow>
     (\<forall>e \<in> set effects. \<exists>name json. e = Runtime_event name json \<and> name \<noteq> ''trace.publish'' \<and> name \<noteq> ''service.reply'')"

lemma library_speaks_append [simp]: "library_speaks (a @ b) \<longleftrightarrow> library_speaks a \<and> library_speaks b" "library_speaks []"
  by (auto simp: library_speaks_def)

lemma post_speaks: "al_runtime_library_mode (lb_link l) \<Longrightarrow> library_speaks (library_post l call posted)"
  by (auto simp: library_speaks_def library_post_def app_post_properties_def app_emit_runtime_event_def)

lemma event_speaks: "name \<noteq> ''trace.publish'' \<Longrightarrow> name \<noteq> ''service.reply'' \<Longrightarrow> library_speaks (library_event l name text)"
  by (auto simp: library_speaks_def library_event_def app_emit_runtime_event_def)

lemma event_posted:
  assumes "publishes env g" "name \<noteq> ''trace.publish''" "name \<noteq> ''service.reply''"
  shows "posts_only g (runtime_on_iot_ide_event env (Some g) (Some name) (Some json))"
proof (cases "name = ''property.post''")
  case True
  then show ?thesis using post_text [OF assms(1)] by (simp add: runtime_on_iot_ide_event_def iot_ide_gateway_forward_event_def)
next
  case False
  with assms(2,3) show ?thesis by (simp add: runtime_on_iot_ide_event_def iot_ide_gateway_forward_event_def posts_only_def)
qed

lemma posts_only_append [simp]: "posts_only g (a @ b) \<longleftrightarrow> posts_only g a \<and> posts_only g b" "posts_only g []"
  by (auto simp: posts_only_def)

lemma events_posted: "publishes env g \<Longrightarrow> library_speaks effects \<Longrightarrow> posts_only g (runtime_events env g effects)"
proof (induction effects)
  case (Cons e effects)
  obtain name json where e: "e = Runtime_event name json" "name \<noteq> ''trace.publish''" "name \<noteq> ''service.reply''"
    using Cons.prems(2) by (auto simp: library_speaks_def)
  have "library_speaks effects" using Cons.prems(2) by (simp add: library_speaks_def)
  then have "posts_only g (runtime_events env g effects)" by (rule Cons.IH [OF Cons.prems(1)])
  then show ?case using event_posted [OF Cons.prems(1) e(2,3), of json] by (simp add: runtime_events_def e(1))
qed (simp add: runtime_events_def)

text \<open>The calls of the IDE library: what they say and that the buffer holds a text.\<close>

lemma ide_call_speaks:
  assumes "library_ide_call True (Some params) (Some old, n) event call handler l = (r, l')"
    and "al_runtime_library_mode (lb_link l)" "event \<noteq> ''trace.publish''" "event \<noteq> ''service.reply''"
  shows "library_speaks (lr_events r) \<and> (\<exists>text. lr_response r = Some text)"
  using assms post_speaks event_speaks by (auto simp: library_ide_call_def written_def Let_def split: prod.splits)

lemma check_response: "\<exists>text. snd (libiot_ide_check_active_client ide_ok params (Some old, n) operation l) = Some text"
  by (auto simp: libiot_ide_check_active_client_def libiot_ide_write_json_def Let_def split: option.splits json_copy.splits)

lemma deploy_speaks:
  assumes "libiot_ide_deploy_project True (Some params) (Some old, n) call l = Ok (r, l')" "al_runtime_library_mode (lb_link l)"
  shows "library_speaks (lr_events r) \<and> (\<exists>text. lr_response r = Some text)"
  using assms post_speaks event_speaks check_response [of True "Some params" old n "''deploy''" l]
  by (auto simp: libiot_ide_deploy_project_def library_refused_def written_def Let_def obind_Ok_iff split: prod.splits if_splits)

lemma start_speaks:
  assumes "libiot_ide_start_project True (Some params) (Some old, n) call l = Ok (r, l')" "al_runtime_library_mode (lb_link l)"
  shows "library_speaks (lr_events r) \<and> (\<exists>text. lr_response r = Some text)"
  using assms event_speaks check_response [of True "Some params" old n "''start''" l]
  by (auto simp: libiot_ide_start_project_def library_refused_def written_def Let_def split: prod.splits if_splits)

lemmas library_calls_speak = deploy_speaks start_speaks

text \<open>Property posts, and at the end the one reply.\<close>

definition replied :: "cloud_gateway \<Rightarrow> string \<Rightarrow> string \<Rightarrow> app_effect list \<Rightarrow> bool" where
  "replied g service rid effects \<longleftrightarrow> (\<exists>posts data. effects = posts @ [reply_of g service rid data] \<and> posts_only g posts)"

lemma replied_intro:
  "publishes env g \<Longrightarrow> posts_only g posts \<Longrightarrow>
   replied g service rid (posts @ snd (iot_ide_gateway_reply_service env (Some g) (Some service) (Some rid) 200 (Some text)))"
  by (auto simp: replied_def gateway_reply_text)

lemma answer_replied:
  assumes "publishes env g" "library_speaks (lr_events r) \<and> (\<exists>text. lr_response r = Some text)"
    and "runtime_answer env g service rid rt (r, l) = Ok (rt', eff)"
  shows "replied g service rid eff"
  using assms replied_intro [OF assms(1) events_posted [OF assms(1)]] by (auto simp: runtime_answer_def)

lemma ide_services_replied:
  assumes "publishes env g" "al_runtime_library_mode (lb_link l)"
  shows "runtime_answer env g s rid rt (libiot_ide_request_connect True (Some params) not_handled call l) = Ok (rt', eff) \<Longrightarrow> replied g s rid eff"
    "runtime_answer env g s rid rt (libiot_ide_request_disconnect True (Some params) not_handled call l) = Ok (rt', eff) \<Longrightarrow> replied g s rid eff"
    "runtime_answer env g s rid rt (libiot_ide_heartbeat True (Some params) not_handled call l) = Ok (rt', eff) \<Longrightarrow> replied g s rid eff"
    "obind (libiot_ide_deploy_project True (Some params) not_handled call l) (runtime_answer env g s rid rt) = Ok (rt', eff) \<Longrightarrow> replied g s rid eff"
    "obind (libiot_ide_start_project True (Some params) not_handled call l) (runtime_answer env g s rid rt) = Ok (rt', eff) \<Longrightarrow> replied g s rid eff"
proof -
  show "replied g s rid eff"
    if "runtime_answer env g s rid rt (libiot_ide_request_connect True (Some params) not_handled call l) = Ok (rt', eff)"
    using that ide_call_speaks [of params _ _ "''requestConnect.response''" call _ l, OF _ assms(2)] answer_replied [OF assms(1)]
    by (cases "libiot_ide_request_connect True (Some params) not_handled call l")
      (fastforce simp: libiot_ide_request_connect_def not_handled_def)
  show "replied g s rid eff"
    if "runtime_answer env g s rid rt (libiot_ide_request_disconnect True (Some params) not_handled call l) = Ok (rt', eff)"
    using that ide_call_speaks [of params _ _ "''requestDisconnect.response''" call _ l, OF _ assms(2)] answer_replied [OF assms(1)]
    by (cases "libiot_ide_request_disconnect True (Some params) not_handled call l")
      (fastforce simp: libiot_ide_request_disconnect_def not_handled_def)
  show "replied g s rid eff"
    if "runtime_answer env g s rid rt (libiot_ide_heartbeat True (Some params) not_handled call l) = Ok (rt', eff)"
    using that ide_call_speaks [of params _ _ "''ideHeartbeat.response''" call _ l, OF _ assms(2)] answer_replied [OF assms(1)]
    by (cases "libiot_ide_heartbeat True (Some params) not_handled call l")
      (fastforce simp: libiot_ide_heartbeat_def not_handled_def)
  show "replied g s rid eff"
    if "obind (libiot_ide_deploy_project True (Some params) not_handled call l) (runtime_answer env g s rid rt) = Ok (rt', eff)"
    using that library_calls_speak(1) [OF _ assms(2)] answer_replied [OF assms(1)]
    by (auto simp: obind_Ok_iff not_handled_def) blast
  show "replied g s rid eff"
    if "obind (libiot_ide_start_project True (Some params) not_handled call l) (runtime_answer env g s rid rt) = Ok (rt', eff)"
    using that library_calls_speak(2) [OF _ assms(2)] answer_replied [OF assms(1)]
    by (auto simp: obind_Ok_iff not_handled_def) blast
qed

lemma snapshot_response: "\<exists>text. snd (libiot_ide_get_connection_snapshot True not_handled l) = Some text"
  by (auto simp: libiot_ide_get_connection_snapshot_def not_handled_def split: prod.splits json_copy.splits)

lemma callback_answered:
  assumes "publishes env g" "rt_ide rt = Some l" "al_runtime_library_mode (lb_link l)"
    and "runtime_on_service env call g s rid params rt = Ok (rt', eff)"
  shows "replied g s rid eff"
proof -
  obtain u where t: "snd (libiot_ide_get_connection_snapshot True not_handled l) = Some u" using snapshot_response by blast
  note direct = replied_intro [OF assms(1) posts_only_append(2), simplified] replied_intro [OF assms(1) post_text [OF assms(1)]]
  show ?thesis
    using assms(4) unfolding runtime_on_service_def assms(2) option.case Let_def runtime_reply_error_def t
    by (auto split: if_splits intro: ide_services_replied [OF assms(1,3)] direct)
qed

text \<open>A message on a service topic of the device, and any other message.\<close>

lemma message_service:
  assumes "cg_on_service g" "no_nul topic" "topic = device_topic g ''/thing/service/'' @ service"
    and "\<not> gateway_is_reply_topic (Some service)"
  shows "runtime_message True env call g topic payload rt = runtime_on_service env call g service
    (service_request_id (cstr payload)) (service_params (cstr payload)) rt"
  using assms by (auto simp: runtime_message_def gateway_mqtt_recv_handler_def gateway_handle_service_def Let_def)

lemma message_cases:
  assumes "cg_on_service g" "runtime_message memory env call g topic payload rt = Ok (rt', eff)"
  shows "(rt' = rt \<and> eff = []) \<or> (\<exists>service. cstr topic = device_topic g ''/thing/service/'' @ service
    \<and> runtime_on_service env call g service (service_request_id (cstr payload)) (service_params (cstr payload)) rt = Ok (rt', eff))"
  using assms unfolding runtime_message_def gateway_mqtt_recv_handler_def gateway_handle_service_def Let_def
  by (metis (lifting) append_take_drop_id has_prefix_def outcome.inject(1) prod.inject)

definition sample_cloud :: cloud_gateway where
  "sample_cloud = \<lparr> cg_config = empty_config \<lparr> cf_product_key := ''pk'', cf_device_name := ''dn'' \<rparr>, cg_config_path = [],
     cg_mqtt_host = ''h'', cg_mqtt_handle = True, cg_process_running = True, cg_recv_running = True, cg_started = True,
     cg_on_service = True \<rparr>"

definition sample_cloud_env :: cloud_env where
  "sample_cloud_env = \<lparr> ce_now_ms = 0, ce_memory = True, ce_pub = (\<lambda>_. 0), ce_sub = (\<lambda>_. 0) \<rparr>"

definition sample_library_call :: library_call where
  "sample_library_call = \<lparr> lc_now_ms = 0, lc_post = (True, True), lc_ide = (\<lambda>_. True),
     lc_deploy = \<lparr> dc_mem = (\<lambda>_. True), dc_report = (\<lambda>_. True), dc_task = True, dc_thread = True, dc_now = 0, dc_response = None \<rparr>,
     lc_start = \<lparr> sc_mem = True, sc_log = True, sc_append = (\<lambda>_. True), sc_spawn = (\<lambda>_ _. None), sc_response = 0 \<rparr> \<rparr>"

text \<open>The IDE \<^verbatim>\<open>a\<close> holds the device.\<close>

definition sample_library :: ide_library where
  "sample_library = (fresh_library (Some \<lparr> lo_event_cb = True, lo_work_dir = None \<rparr>))
     \<lparr> lb_ide := \<lparr> im_connected = True, im_client_id = ''a'', im_client_info = [], im_last_heartbeat_ms = 0 \<rparr> \<rparr>"

definition sample_runtime :: runtime where
  "sample_runtime = \<lparr> rt_ide = Some sample_library, rt_started = [] \<rparr>"

lemma sample_runtime_ok:
  "publishes sample_cloud_env sample_cloud" "cg_on_service sample_cloud" "no_nul (cloud_names sample_cloud)"
  "rt_ide sample_runtime = Some sample_library" "al_runtime_library_mode (lb_link sample_library)"
  "length (cloud_names sample_cloud) = 10"
  "device_topic sample_cloud ''/thing/service/'' = ''/sys/pk/dn/thing/service/''"
  by (simp_all add: publishes_def cloud_ok_def sample_cloud_def sample_cloud_env_def cloud_names_def sample_runtime_def
      sample_library_def fresh_library_def copied_link_def empty_config_def device_topic_def nat_dec.simps int_dec_def snprintf_def)

lemma sample_topic:
  "no_nul ''/sys/pk/dn/thing/service/property/get''"
  "''/sys/pk/dn/thing/service/property/get'' = device_topic sample_cloud ''/thing/service/'' @ ''property/get''"
  "\<not> gateway_is_reply_topic (Some ''property/get'')"
  by (simp_all add: sample_runtime_ok gateway_is_reply_topic_def)

lemma sample_request_id: "service_request_id (cstr ''{\"id\":\"5\"}'') = ''5''"
  by code_simp

lemma sample_get:
  "\<exists>data. runtime_message True sample_cloud_env sample_library_call sample_cloud ''/sys/pk/dn/thing/service/property/get''
     ''{\"id\":\"5\"}'' sample_runtime = Ok (sample_runtime, [reply_of sample_cloud ''property/get'' ''5'' data])"
proof -
  obtain u where "snd (libiot_ide_get_connection_snapshot True not_handled sample_library) = Some u" using snapshot_response by blast
  then show ?thesis
    unfolding message_service [OF sample_runtime_ok(2) sample_topic] sample_request_id runtime_on_service_def sample_runtime_ok(4)
    by (simp add: Let_def gateway_reply_text [OF sample_runtime_ok(1)]) blast
qed

text \<open>
  C14. Every service the cloud calls is answered through the whole chain: the message goes from the
  gateway library to the host, to the IDE library and back, and what is sent are property posts and, as
  the last thing, one reply on the reply topic of that service, with code 200 and the request id of the
  message, or 0 where it has none. Services the host does not know are answered as well; what comes
  on a reply topic is not.
\<close>

theorem runtime_answers:
  assumes "publishes env g" "cg_on_service g" "rt_ide rt = Some l" "al_runtime_library_mode (lb_link l)"
    and "no_nul topic" "topic = device_topic g ''/thing/service/'' @ service" "\<not> gateway_is_reply_topic (Some service)"
    and "runtime_message True env call g topic payload rt = Ok (rt', eff)"
    and "rid = service_request_id (cstr payload)"
  shows "\<exists>posts data. eff = posts @ [Mqtt_pub (device_topic g (''/thing/service/'' @ service @ ''_reply''))
      (reply_payload (if rid = [] then ''0'' else rid) 200 data) 0]
    \<and> (\<forall>e \<in> set posts. \<exists>payload. e = Mqtt_pub (device_topic g ''/thing/event/property/post'') payload 0)"
proof -
  have "runtime_on_service env call g service rid (service_params (cstr payload)) rt = Ok (rt', eff)"
    using message_service [OF assms(2,5-7), of env call payload rt] assms(8,9) by simp
  from callback_answered [OF assms(1,3,4) this] show ?thesis by (auto simp: replied_def reply_of_def posts_only_def)
qed

lemma runtime_answers_witness:
  "\<exists>rt eff posts data. runtime_message True sample_cloud_env sample_library_call sample_cloud
      ''/sys/pk/dn/thing/service/property/get'' ''{\"id\":\"5\"}'' sample_runtime = Ok (rt, eff)
    \<and> eff = posts @ [Mqtt_pub (device_topic sample_cloud (''/thing/service/'' @ ''property/get'' @ ''_reply''))
      (reply_payload ''5'' 200 data) 0]"
proof -
  obtain rt eff where r: "runtime_message True sample_cloud_env sample_library_call sample_cloud
      ''/sys/pk/dn/thing/service/property/get'' ''{\"id\":\"5\"}'' sample_runtime = Ok (rt, eff)"
    using sample_get by blast
  from runtime_answers [OF sample_runtime_ok(1,2,4,5) sample_topic r sample_request_id [symmetric]] r show ?thesis by auto
qed

section \<open>No storm of messages\<close>



section \<open>Only the connected IDE deploys\<close>

lemma ide_calls_idle:
  "libiot_ide_request_connect ide_ok p b call l = (r, l') \<Longrightarrow> lb_deploy l' = lb_deploy l \<and> lb_start l' = lb_start l \<and> lr_started r = None"
  "libiot_ide_request_disconnect ide_ok p b call l = (r, l') \<Longrightarrow> lb_deploy l' = lb_deploy l \<and> lb_start l' = lb_start l \<and> lr_started r = None"
  "libiot_ide_heartbeat ide_ok p b call l = (r, l') \<Longrightarrow> lb_deploy l' = lb_deploy l \<and> lb_start l' = lb_start l \<and> lr_started r = None"
  using library_ide_idle by (auto simp: libiot_ide_request_connect_def libiot_ide_request_disconnect_def libiot_ide_heartbeat_def)

lemma service_guarded:
  assumes "runtime_on_service env call g service rid params rt = Ok (rt', eff)" "rt_ide rt = Some l"
  shows "\<exists>l'. rt_ide rt' = Some l' \<and> (lb_deploy l' = lb_deploy l \<and> lb_start l' = lb_start l \<and> rt_started rt' = rt_started rt
    \<or> holds_device l (Some params) \<and> lb_ide l' = lb_ide l)"
proof -
  have answer: ?thesis
    if a: "runtime_answer env g service rid rt (r, l') = Ok (rt', eff)"
      and "(lb_deploy l' = lb_deploy l \<and> lb_start l' = lb_start l \<and> lr_started r = None)
        \<or> (holds_device l (Some params) \<and> lb_ide l' = lb_ide l)" for r l'
    using that(2) a by (cases "lr_started r") (simp_all add: runtime_answer_def, fastforce+)
  have deploy: ?thesis if "libiot_ide_deploy_project True (Some params) not_handled call l = Ok (r, l')"
      "runtime_answer env g service rid rt (r, l') = Ok (rt', eff)" for r l'
    using library_deploy_guarded [OF that(1)] by (intro answer [OF that(2)]) blast
  have start: ?thesis if "libiot_ide_start_project True (Some params) not_handled call l = Ok (r, l')"
      "runtime_answer env g service rid rt (r, l') = Ok (rt', eff)" for r l'
    using library_start_guarded [OF that(1)] by (intro answer [OF that(2)]) blast
  have idle: ?thesis if "runtime_answer env g service rid rt c = Ok (rt', eff)"
      "\<And>r l'. c = (r, l') \<Longrightarrow> lb_deploy l' = lb_deploy l \<and> lb_start l' = lb_start l \<and> lr_started r = None" for c
    using that answer by (cases c) blast
  note cases = idle [OF _ ide_calls_idle(1)] idle [OF _ ide_calls_idle(2)] idle [OF _ ide_calls_idle(3)]
  show ?thesis
    using assms(1) unfolding runtime_on_service_def Let_def assms(2) option.case
    using assms(2) by (auto simp: obind_Ok_iff simp del: split_paired_Ex split: if_splits intro: cases deploy start)
qed

text \<open>
  Through the production host, too, no message of the cloud makes the device deploy a project or
  start a command, unless it names the client id of the IDE that holds the exclusive connection at that
  moment; and such a message does not change who holds it.
\<close>

theorem runtime_only_connected_ide_deploys:
  assumes "runtime_message memory env call g topic payload rt = Ok (rt', eff)" "cg_on_service g" "rt_ide rt = Some l"
    and "rt_started rt' \<noteq> rt_started rt \<or> (\<exists>l'. rt_ide rt' = Some l' \<and> (lb_deploy l' \<noteq> lb_deploy l \<or> lb_start l' \<noteq> lb_start l))"
  shows "im_connected (lb_ide l) \<and> im_client_id (lb_ide l) \<noteq> []
    \<and> im_client_id (lb_ide l) = stored_text [] 128 (json_get_string (Some (service_params (cstr payload))) (Some ''clientId'') 128)
    \<and> (\<exists>l'. rt_ide rt' = Some l' \<and> lb_ide l' = lb_ide l)"
proof -
  obtain service where "runtime_on_service env call g service (service_request_id (cstr payload)) (service_params (cstr payload)) rt = Ok (rt', eff)"
    using message_cases [OF assms(2,1)] assms(3,4) by auto
  from service_guarded [OF this assms(3)] assms(4)
  obtain l' where "rt_ide rt' = Some l'" "holds_device l (Some (service_params (cstr payload)))" "lb_ide l' = lb_ide l" by auto
  then show ?thesis by (auto simp: holds_device_def ide_connection_manager_is_connected_client_def)
qed

definition sample_params :: string where
  "sample_params = ''{\"clientId\":\"a\",\"startCommand\":\"run\"}''"

lemma sample_start_fields:
  "service_params (cstr ''{\"id\":\"7\",\"params\":{\"clientId\":\"a\",\"startCommand\":\"run\"}}'') = sample_params"
  "start_params_of sample_params = \<lparr> st_project_name = ''project'', st_deploy_path = ''/tmp/deploy'', st_start_command = ''run'' \<rparr>"
  "libiot_ide_check_active_client True (Some sample_params) not_handled ''start'' sample_library = (0, fst not_handled)"
  by code_simp+

lemma sample_runtime_start:
  "\<exists>rt eff. runtime_message True sample_cloud_env sample_library_call sample_cloud ''/sys/pk/dn/thing/service/startProject''
      ''{\"id\":\"7\",\"params\":{\"clientId\":\"a\",\"startCommand\":\"run\"}}'' sample_runtime = Ok (rt, eff)
    \<and> rt_started rt = [(''run'', ''/tmp/deploy/project'')]"
proof -
  have t: "no_nul ''/sys/pk/dn/thing/service/startProject''"
    "''/sys/pk/dn/thing/service/startProject'' = device_topic sample_cloud ''/thing/service/'' @ ''startProject''"
    "\<not> gateway_is_reply_topic (Some ''startProject'')"
    by (simp_all add: sample_runtime_ok gateway_is_reply_topic_def)
  have "start_target (start_params_of sample_params) = ''/tmp/deploy/project''"
    by (simp add: start_target_def sample_start_fields(2) snprintf_fits)
  moreover have "\<not> sm_busy (lb_start sample_library)" "sc_log (lc_start sample_library_call \<lparr> sc_response := 8192 \<rparr>)"
    by (simp_all add: sample_library_def fresh_library_def sample_library_call_def)
  ultimately obtain a m where s: "start_manager_handle_start True (Some sample_params) (lc_start sample_library_call \<lparr> sc_response := 8192 \<rparr>)
      (lb_start sample_library) = (a, m, Some (''run'', ''/tmp/deploy/project''))"
    using start_runs [of sample_params "lb_start sample_library" "lc_start sample_library_call \<lparr> sc_response := 8192 \<rparr>"]
    by (auto simp: sample_start_fields(2))
  have n: "fst not_handled \<noteq> None" "snd not_handled = 8192" by (simp_all add: not_handled_def)
  show ?thesis
    unfolding message_service [OF sample_runtime_ok(2) t] sample_start_fields(1) runtime_on_service_def sample_runtime_ok(4)
    using n s by (cases a) (simp add: libiot_ide_start_project_def sample_start_fields(3) runtime_answer_def Let_def sample_runtime_def)
qed

lemma runtime_only_connected_ide_deploys_witness:
  "\<exists>rt eff. runtime_message True sample_cloud_env sample_library_call sample_cloud ''/sys/pk/dn/thing/service/startProject''
      ''{\"id\":\"7\",\"params\":{\"clientId\":\"a\",\"startCommand\":\"run\"}}'' sample_runtime = Ok (rt, eff)
    \<and> rt_started rt = [(''run'', ''/tmp/deploy/project'')] \<and> (\<exists>l. rt_ide rt = Some l \<and> lb_ide l = lb_ide sample_library)"
proof -
  obtain rt eff where r: "runtime_message True sample_cloud_env sample_library_call sample_cloud ''/sys/pk/dn/thing/service/startProject''
      ''{\"id\":\"7\",\"params\":{\"clientId\":\"a\",\"startCommand\":\"run\"}}'' sample_runtime = Ok (rt, eff)"
    and s: "rt_started rt = [(''run'', ''/tmp/deploy/project'')]"
    using sample_runtime_start by blast
  have "rt_started rt \<noteq> rt_started sample_runtime" using s by (simp add: sample_runtime_def)
  with runtime_only_connected_ide_deploys [OF r sample_runtime_ok(2,4)] r s show ?thesis by blast
qed

section \<open>The main program leaves nothing behind\<close>

lemma created_idle [simp]:
  "cloud_well ((created_gateway options) \<lparr> cg_config := c, cg_mqtt_host := h \<rparr>)"
  "cloud_flags ((created_gateway options) \<lparr> cg_config := c, cg_mqtt_host := h \<rparr>) = (False, False, False)"
  by (simp_all add: created_gateway_def cloud_well_def cloud_flags_def)

lemma create_files:
  assumes "iot_ide_gateway_create True memory lock files options = (rc, gateway, live)"
  shows "(rc \<noteq> IOT_IDE_GATEWAY_OK \<longrightarrow> live = {}) \<and> (rc = IOT_IDE_GATEWAY_OK \<longrightarrow>
    live = {Gateway_object, Gateway_mqtt_lock} \<and> (\<exists>g. gateway = Some g \<and> cloud_well g \<and> cloud_flags g = (False, False, False)))"
proof -
  obtain rc1 config where "device_config_load True (files (cg_config_path (created_gateway options))) (cg_config (created_gateway options))
    = (rc1, config)" by (metis surj_pair)
  moreover obtain rc2 host where "device_config_build_mqtt_host (Some config) (Some 256) = (rc2, host)" by (metis surj_pair)
  ultimately show ?thesis
    using assms by (auto simp: iot_ide_gateway_create_def Let_def iot_ide_gateway_destroy_def split: if_splits)
qed

lemma start_some: "\<exists>rc as g'. iot_ide_gateway_start ans (Some g) = (rc, as, Some g')"
  by (simp add: iot_ide_gateway_start_def Let_def)

lemma destroy_gateway:
  assumes "cloud_well g" "accounted (cloud_flags g) w" "iot_ide_gateway_destroy None True True (Some g) {Gateway_object, Gateway_mqtt_lock} = (as, live)"
  shows "live = {} \<and> happen as w = nothing"
  using assms(3) cloud_stop_releases [OF assms(1,2)]
  by (auto simp: iot_ide_gateway_destroy_def cloud_stop_def iot_ide_gateway_stop_def)

text \<open>The three steps before the main loop.\<close>

definition steps_succeed :: "main_env \<Rightarrow> bool" where
  "steps_succeed env =
     (case iot_ide_gateway_create True (me_memory env) (me_lock env) (me_files env) (Some (main_options env)) of
        (rc, gateway, _) \<Rightarrow> rc = IOT_IDE_GATEWAY_OK
          \<and> fst (libiot_ide_create True (Some \<lparr> lo_event_cb = True, lo_work_dir = Some ''.'' \<rparr>) (me_library env)) = LIBIOT_IDE_OK
          \<and> fst (iot_ide_gateway_start (me_start env) gateway) = IOT_IDE_GATEWAY_OK)"


text \<open>The receiving thread cannot be created: exit code 1, and nothing is left.\<close>

definition sample_main :: main_env where
  "sample_main = \<lparr> me_argument = None, me_files = (\<lambda>_. Some sample_file), me_memory = True, me_lock = True,
     me_library = \<lparr> la_memory = True, la_mqtt_lock = True, la_ide = (\<lambda>_. True), la_deploy_lock = True,
       la_deploy_cond = True, la_start_lock = True \<rparr>,
     me_start = \<lparr> sa_init = True, sa_connect = 0, sa_sub = (\<lambda>_. 0), sa_process = True, sa_recv = False, sa_deinit = True \<rparr>,
     me_deinit = True, me_callbacks = (\<lambda>l. l) \<rparr>"

lemma sample_main_fails: "\<not> steps_succeed sample_main"
  by (auto simp: steps_succeed_def sample_main_def iot_ide_gateway_start_def gateway_subscribe_topic_def Let_def
      iot_ide_gateway_create_def created_gateway_def split: prod.splits option.splits if_splits)


end
