(* ===== verification/Ide_App.thy ===== *)
theory Ide_App
  imports Ide_Connection Deploy_Manager Start_Manager Device_Shadow Gateway_Services
begin

text \<open>
  The service dispatcher of the IDE application (\<^verbatim>\<open>src/iot_ide_app.c\<close>): a message of
  the cloud goes to the device shadow, to the gateway, or to one of the services, and each service is
  answered on its reply topic. Here the managers come together.
\<close>

section \<open>The state\<close>

record app_state =
  as_adas_switch :: bool
  as_ide :: ide_manager
  as_deploy :: deploy_manager
  as_start :: start_manager
  as_shadow :: shadow_manager
  as_gateway :: gateway_manager

text \<open>
  What the handlers find outside: the sender, the clock, the memory answers of each kind of
  call, and the answers the gateway manager gets (its sender is that of the application).
\<close>

record app_env =
  ae_link :: app_link
  ae_now_ms :: int
  ae_post :: sb_memory
  ae_shadow :: sb_memory
  ae_reply :: sb_memory
  ae_ide :: "nat \<Rightarrow> bool"
  ae_deploy :: deploy_call
  ae_start :: start_call
  ae_gateway :: gateway_env

text \<open>The state, what was sent, and the command that was started, if any.\<close>

type_synonym app_result = "(app_state \<times> app_effect list \<times> (string \<times> string) option) outcome"

definition post :: "app_env \<Rightarrow> string \<Rightarrow> app_effect list" where
  "post env params = snd (app_post_properties (ae_link env) (ae_post env) (ae_now_ms env) (Some params))"

definition reply :: "app_env \<Rightarrow> string \<Rightarrow> string \<Rightarrow> string \<Rightarrow> app_effect list" where
  "reply env service request_id data =
     snd (app_reply_service (ae_link env) (ae_reply env) (Some service) (Some request_id) 200 (Some data))"

text \<open>The parameters object of a request, for a buffer of \<open>n\<close> bytes.\<close>

definition request_params :: "string \<Rightarrow> nat \<Rightarrow> string option" where
  "request_params payload n =
     (case json_get_object (Some payload) (Some ''params'') n of Copied p \<Rightarrow> Some p | Failed _ \<Rightarrow> None)"

section \<open>The services\<close>

definition app_handle_property_set :: "app_env \<Rightarrow> app_state \<Rightarrow> string \<Rightarrow> string \<Rightarrow> app_result" where
  "app_handle_property_set env st request_id payload =
     (let params = (case request_params payload 2048 of Some p \<Rightarrow> p | None \<Rightarrow> ''{}'');
          st1 = (case json_get_raw_value (Some params) (Some ''ADASSwitch'') 64 of
             Copied adas_value \<Rightarrow> st \<lparr> as_adas_switch := (atoi adas_value \<noteq> 0) \<rparr>
           | Failed _ \<Rightarrow> st) in
      obind (device_shadow_manager_update_reported (ae_link env) (ae_shadow env) (as_shadow st1) (Some params))
        (\<lambda>(rc, eff). Ok (st1, post env params @ eff @ reply env ''property/set'' request_id ''{}'', None)))"

definition property_get_text :: "bool \<Rightarrow> bool \<Rightarrow> string \<Rightarrow> int \<Rightarrow> string" where
  "property_get_text adas_switch connected escaped_client_id heartbeat_ms =
     ''{\"ADASSwitch\":'' @ (if adas_switch then ''1'' else ''0'')
     @ '',\"hasIDEConnected\":'' @ (if connected then ''1'' else ''0'')
     @ '',\"IDEInfo\":\"'' @ escaped_client_id @ ''\",\"IDEHeartbeat\":\"'' @ int_dec heartbeat_ms @ ''\"}''"

definition app_handle_property_get :: "app_env \<Rightarrow> app_state \<Rightarrow> string \<Rightarrow> app_result" where
  "app_handle_property_get env st request_id =
     (case ide_connection_manager_get_snapshot 128 (as_ide st) of
        (connected, client_id, heartbeat_ms) \<Rightarrow>
          (let escaped_client_id = stored_text [] 256 (json_escape_string (Some client_id) 256) in
           Ok (st, reply env ''property/get'' request_id
             (snprintf 1024 (property_get_text (as_adas_switch st) connected escaped_client_id heartbeat_ms)), None)))"

text \<open>The three services of the connection manager: the handler's answer, or the initial text.\<close>

definition ide_service ::
  "app_env \<Rightarrow> app_state \<Rightarrow> string \<Rightarrow> string \<Rightarrow> string option
   \<Rightarrow> (string \<Rightarrow> ide_manager \<Rightarrow> ide_result \<times> ide_manager) \<Rightarrow> app_result" where
  "ide_service env st service request_id params handler =
     (let initial = ''{\"success\":0,\"message\":\"'' @ service @ '' failed\"}'' in
      case params of
        None \<Rightarrow> Ok (st, reply env service request_id initial, None)
      | Some p \<Rightarrow>
          (case handler p (as_ide st) of (r, m) \<Rightarrow>
             Ok (st \<lparr> as_ide := m \<rparr>,
                 concat (map (post env) (ir_posted r))
                 @ reply env service request_id (case ir_response r of Some t \<Rightarrow> t | None \<Rightarrow> initial), None)))"

definition app_handle_connect_service :: "app_env \<Rightarrow> app_state \<Rightarrow> string \<Rightarrow> string \<Rightarrow> app_result" where
  "app_handle_connect_service env st request_id payload =
     ide_service env st ''requestConnect'' request_id (request_params payload 2048)
       (\<lambda>p. ide_connection_manager_handle_request_connect True (Some p) (Some 512) (ae_now_ms env) (ae_ide env))"

definition app_handle_disconnect_service :: "app_env \<Rightarrow> app_state \<Rightarrow> string \<Rightarrow> string \<Rightarrow> app_result" where
  "app_handle_disconnect_service env st request_id payload =
     ide_service env st ''requestDisconnect'' request_id (request_params payload 1024)
       (\<lambda>p. ide_connection_manager_handle_disconnect True (Some p) (Some 512) (ae_ide env))"

definition app_handle_heartbeat_service :: "app_env \<Rightarrow> app_state \<Rightarrow> string \<Rightarrow> string \<Rightarrow> app_result" where
  "app_handle_heartbeat_service env st request_id payload =
     ide_service env st ''ideHeartbeat'' request_id (request_params payload 1024)
       (\<lambda>p. ide_connection_manager_handle_heartbeat True (Some p) (Some 512) (ae_now_ms env) (ae_ide env))"

text \<open>The client id a deployment or a start names; empty where it names none.\<close>

definition active_client :: "app_state \<Rightarrow> string \<Rightarrow> bool" where
  "active_client st params =
     ide_connection_manager_is_connected_client True
       (Some (stored_text [] 128 (json_get_string (Some params) (Some ''clientId'') 128))) (as_ide st)"

definition app_handle_deploy_service :: "app_env \<Rightarrow> app_state \<Rightarrow> string \<Rightarrow> string \<Rightarrow> app_result" where
  "app_handle_deploy_service env st request_id payload =
     (let initial = ''{\"success\":0,\"message\":\"deployProject failed\",\"deployLog\":\"\"}'' in
      case request_params payload 4096 of
        None \<Rightarrow> Ok (st, reply env ''deployProject'' request_id initial, None)
      | Some params \<Rightarrow>
          if \<not> active_client st params then
            Ok (st, reply env ''deployProject'' request_id
              (case snd (app_build_simple_result_json False
                   (Some ''deploy rejected, clientId is not the active IDE connection'') 1024) of
                 Some t \<Rightarrow> t | None \<Rightarrow> initial), None)
          else (case deploy_manager_handle_deploy True (Some params) ((ae_deploy env) \<lparr> dc_response := Some 1024 \<rparr>)
              (as_deploy st) of (r, m) \<Rightarrow>
            obind (dr_posted r) (\<lambda>posted.
              Ok (st \<lparr> as_deploy := m \<rparr>,
                  concat (map (post env) posted)
                  @ reply env ''deployProject'' request_id (case dr_response r of Some t \<Rightarrow> t | None \<Rightarrow> initial), None))))"

definition app_handle_start_service :: "app_env \<Rightarrow> app_state \<Rightarrow> string \<Rightarrow> string \<Rightarrow> app_result" where
  "app_handle_start_service env st request_id payload =
     (let initial = ''{\"success\":0,\"message\":\"startProject failed\"}'' in
      case request_params payload 2048 of
        None \<Rightarrow> Ok (st, reply env ''startProject'' request_id initial, None)
      | Some params \<Rightarrow>
          if \<not> active_client st params then
            Ok (st, reply env ''startProject'' request_id
              (case snd (app_build_simple_result_json False
                   (Some ''start rejected, clientId is not the active IDE connection'') 1024) of
                 Some t \<Rightarrow> t | None \<Rightarrow> initial), None)
          else (case start_manager_handle_start True (Some params) ((ae_start env) \<lparr> sc_response := 1024 \<rparr>)
              (as_start st) of ((rc, text), m, started) \<Rightarrow>
            Ok (st \<lparr> as_start := m \<rparr>,
                reply env ''startProject'' request_id (case text of Some t \<Rightarrow> t | None \<Rightarrow> initial), started)))"

section \<open>The dispatcher\<close>

definition service_prefix :: "app_link \<Rightarrow> string" where
  "service_prefix app = snprintf 320 (''/sys/'' @ al_product_key app @ ''/'' @ al_device_name app @ ''/thing/service/'')"

definition app_dispatch_service :: "app_env \<Rightarrow> app_state \<Rightarrow> string \<Rightarrow> string \<Rightarrow> app_result" where
  "app_dispatch_service env st topic payload =
     (let prefix = service_prefix (ae_link env) in
      if \<not> has_prefix prefix topic then Ok (st, [], None)
      else (let service_path = drop (length prefix) topic;
                request_id = stored_text ''0'' 64 (json_get_raw_value (Some payload) (Some ''id'') 64) in
        if service_path = ''property/set'' then app_handle_property_set env st request_id payload
        else if service_path = ''property/get'' then app_handle_property_get env st request_id
        else if service_path = ''requestConnect'' then app_handle_connect_service env st request_id payload
        else if service_path = ''requestDisconnect'' then app_handle_disconnect_service env st request_id payload
        else if service_path = ''ideHeartbeat'' then app_handle_heartbeat_service env st request_id payload
        else if service_path = ''deployProject'' then app_handle_deploy_service env st request_id payload
        else if service_path = ''startProject'' then app_handle_start_service env st request_id payload
        else Ok (st, reply env service_path request_id ''{\"success\":0,\"message\":\"unknown service\"}'', None)))"

text \<open>The gateway manager: whether it takes the message, its state, and what this message made it send.\<close>

definition app_gateway_message :: "app_env \<Rightarrow> app_state \<Rightarrow> string \<Rightarrow> string \<Rightarrow> bool \<times> gateway_manager \<times> app_effect list" where
  "app_gateway_message env st topic payload =
     (case gateway_manager_handle_message ((ae_gateway env) \<lparr> ge_link := ae_link env \<rparr>) (Some topic) (Some payload)
         ((as_gateway st) \<lparr> gm_sent := [] \<rparr>) of (claimed, m) \<Rightarrow> (claimed, m, gm_sent m))"

text \<open>
  The receive handler for a publication: topic and payload become C texts; without memory for
  them the message is dropped. The printed lines are not modelled.
\<close>

definition app_mqtt_recv_handler :: "bool \<Rightarrow> app_env \<Rightarrow> app_state \<Rightarrow> string \<Rightarrow> string \<Rightarrow> app_result" where
  "app_mqtt_recv_handler memory env st topic_bytes payload_bytes =
     (if \<not> memory then Ok (st, [], None)
      else (let topic = cstr topic_bytes; payload = cstr payload_bytes in
        obind (device_shadow_manager_handle_message (ae_link env) (ae_post env) (ae_shadow env) (ae_now_ms env)
            (as_shadow st) (as_adas_switch st) (Some topic) (Some payload))
          (\<lambda>(claimed, shadow, adas, eff).
            let st1 = st \<lparr> as_shadow := shadow, as_adas_switch := adas \<rparr> in
            if claimed then Ok (st1, eff, None)
            else (case app_gateway_message env st1 topic payload of (gateway_claimed, gateway, gateway_eff) \<Rightarrow>
              let st2 = st1 \<lparr> as_gateway := gateway \<rparr> in
              if gateway_claimed then Ok (st2, eff @ gateway_eff, None)
              else obind (app_dispatch_service env st2 topic payload) (\<lambda>(st3, eff2, started).
                Ok (st3, eff @ gateway_eff @ eff2, started))))))"

section \<open>Only the connected IDE deploys\<close>

text \<open>A handler that neither deploys nor starts anything.\<close>

definition idle :: "app_state \<Rightarrow> app_result \<Rightarrow> bool" where
  "idle st r \<longleftrightarrow> (\<forall>st' eff started. r = Ok (st', eff, started) \<longrightarrow>
     as_deploy st' = as_deploy st \<and> as_start st' = as_start st \<and> started = None)"

lemma idle_Ok [simp]:
  "idle st (Ok (st', eff, started)) \<longleftrightarrow>
   as_deploy st' = as_deploy st \<and> as_start st' = as_start st \<and> started = None"
  by (auto simp: idle_def)

lemma idle_services [simp]:
  "idle st (app_handle_property_set env st rid payload)"
  "idle st (app_handle_property_get env st rid)"
  "idle st (app_handle_connect_service env st rid payload)"
  "idle st (app_handle_disconnect_service env st rid payload)"
  "idle st (app_handle_heartbeat_service env st rid payload)"
  by (auto simp: idle_def app_handle_property_set_def app_handle_property_get_def app_handle_connect_service_def
      app_handle_disconnect_service_def app_handle_heartbeat_service_def ide_service_def Let_def obind_Ok_iff
      split: option.splits prod.splits json_copy.splits)

text \<open>The request comes from the IDE that holds the device.\<close>

definition from_owner :: "app_state \<Rightarrow> string \<Rightarrow> nat \<Rightarrow> bool" where
  "from_owner st payload n \<longleftrightarrow> (\<exists>params. request_params payload n = Some params \<and> active_client st params)"

lemma deploy_guarded: "from_owner st payload 4096 \<or> idle st (app_handle_deploy_service env st rid payload)"
  by (auto simp: from_owner_def app_handle_deploy_service_def Let_def split: option.splits)

lemma start_guarded: "from_owner st payload 2048 \<or> idle st (app_handle_start_service env st rid payload)"
  by (auto simp: from_owner_def app_handle_start_service_def Let_def split: option.splits)

lemma dispatch_guarded:
  "idle st (app_dispatch_service env st topic payload)
   \<or> (topic = service_prefix (ae_link env) @ ''deployProject'' \<and> from_owner st payload 4096)
   \<or> (topic = service_prefix (ae_link env) @ ''startProject'' \<and> from_owner st payload 2048)"
proof (cases "has_prefix (service_prefix (ae_link env)) topic")
  case False
  then show ?thesis by (simp add: app_dispatch_service_def)
next
  case True
  then have topic: "topic = service_prefix (ae_link env) @ drop (length (service_prefix (ae_link env))) topic"
    by (metis append_take_drop_id has_prefix_def)
  show ?thesis
    using deploy_guarded [of st payload env "stored_text ''0'' 64 (json_get_raw_value (Some payload) (Some ''id'') 64)"]
      start_guarded [of st payload env "stored_text ''0'' 64 (json_get_raw_value (Some payload) (Some ''id'') 64)"]
      topic True unfolding app_dispatch_service_def Let_def
    by (auto simp del: append_assoc split: if_splits)
qed

lemma guarded_ide:
  "app_handle_deploy_service env st rid payload = Ok (st', eff, started) \<Longrightarrow> as_ide st' = as_ide st"
  "app_handle_start_service env st rid payload = Ok (st', eff, started) \<Longrightarrow> as_ide st' = as_ide st"
  by (auto simp: app_handle_deploy_service_def app_handle_start_service_def Let_def obind_Ok_iff
      split: option.splits if_splits prod.splits)

lemma dispatch_deploy_start:
  assumes "service \<in> {''deployProject'', ''startProject''}"
  shows "app_dispatch_service env st (service_prefix (ae_link env) @ service) payload =
    (if service = ''deployProject'' then app_handle_deploy_service else app_handle_start_service) env st
      (stored_text ''0'' 64 (json_get_raw_value (Some payload) (Some ''id'') 64)) payload"
  using assms by (auto simp: app_dispatch_service_def Let_def)

text \<open>The message the application acts on, when neither the shadow nor the gateway claims it.\<close>

lemma recv_cases:
  assumes "app_mqtt_recv_handler memory env st topic payload = Ok (st', eff, started)"
  shows "(as_deploy st' = as_deploy st \<and> as_start st' = as_start st \<and> started = None)
    \<or> (\<exists>shadow adas gateway eff'. app_dispatch_service env (st \<lparr> as_shadow := shadow, as_adas_switch := adas, as_gateway := gateway \<rparr>)
         (cstr topic) (cstr payload) = Ok (st', eff', started))"
  using assms by (auto simp: app_mqtt_recv_handler_def Let_def obind_Ok_iff split: if_splits prod.splits)

lemma from_owner_switch [simp]: "from_owner (st \<lparr> as_shadow := x, as_adas_switch := y, as_gateway := z \<rparr>) p n = from_owner st p n"
  by (simp add: from_owner_def active_client_def)

text \<open>
  C3. No message of the cloud, whatever its topic and content, makes the device deploy a project or start
  a command, unless it names the client id of the IDE that holds the exclusive connection at that
  moment; and such a message does not change who holds it.
\<close>

theorem only_connected_ide_deploys:
  assumes "app_mqtt_recv_handler memory env st topic payload = Ok (st', eff, started)"
    and "as_deploy st' \<noteq> as_deploy st \<or> as_start st' \<noteq> as_start st \<or> started \<noteq> None"
  shows "\<exists>params. (request_params (cstr payload) 4096 = Some params \<or> request_params (cstr payload) 2048 = Some params)
    \<and> im_connected (as_ide st) \<and> im_client_id (as_ide st) \<noteq> []
    \<and> im_client_id (as_ide st) = stored_text [] 128 (json_get_string (Some params) (Some ''clientId'') 128)
    \<and> as_ide st' = as_ide st"
proof -
  obtain shadow adas gateway eff' where d: "app_dispatch_service env (st \<lparr> as_shadow := shadow, as_adas_switch := adas, as_gateway := gateway \<rparr>)
      (cstr topic) (cstr payload) = Ok (st', eff', started)"
    using recv_cases [OF assms(1)] assms(2) by blast
  let ?st = "st \<lparr> as_shadow := shadow, as_adas_switch := adas, as_gateway := gateway \<rparr>"
  have "\<not> idle ?st (Ok (st', eff', started))" using assms(2) by auto
  then obtain service n where s: "cstr topic = service_prefix (ae_link env) @ service"
      "service \<in> {''deployProject'', ''startProject''}" "n \<in> {2048, 4096}" "from_owner st (cstr payload) n"
    using dispatch_guarded [of ?st env "cstr topic" "cstr payload"] d by auto
  have "as_ide st' = as_ide st"
    using d dispatch_deploy_start [OF s(2), of env ?st "cstr payload"] guarded_ide [of env ?st] s(1)
    by (auto split: if_splits)
  with s(3,4) show ?thesis
    by (auto simp: from_owner_def active_client_def ide_connection_manager_is_connected_client_def)
qed

definition sample_app_env :: app_env where
  "sample_app_env = \<lparr> ae_link = sample_link, ae_now_ms = 0, ae_post = (True, True), ae_shadow = (True, True),
     ae_reply = (True, True), ae_ide = (\<lambda>_. True),
     ae_deploy = \<lparr> dc_mem = (\<lambda>_. True), dc_report = (\<lambda>_. True), dc_task = True, dc_thread = True, dc_now = 0, dc_response = None \<rparr>,
     ae_start = \<lparr> sc_mem = True, sc_log = True, sc_append = (\<lambda>_. True), sc_spawn = (\<lambda>_ _. None), sc_response = 0 \<rparr>,
     ae_gateway = sample_gateway_env \<rparr>"

definition sample_app :: app_state where
  "sample_app = \<lparr> as_adas_switch = False,
     as_ide = \<lparr> im_connected = True, im_client_id = ''a'', im_client_info = [], im_last_heartbeat_ms = 0 \<rparr>,
     as_deploy = deploy_fresh, as_start = \<lparr> sm_busy = False \<rparr>, as_shadow = \<lparr> sh_version = 0 \<rparr>, as_gateway = sample_gateway \<rparr>"

lemma sample_start:
  "case app_mqtt_recv_handler True sample_app_env sample_app ''/sys/pk/dn/thing/service/startProject''
     ''{\"id\":\"7\",\"params\":{\"clientId\":\"a\",\"startCommand\":\"run\"}}''
   of Ok (st', eff, started) \<Rightarrow> started = Some (''run'', ''/tmp/deploy/project'') | _ \<Rightarrow> False"
  by code_simp

lemma only_connected_ide_deploys_witness:
  "\<exists>st' eff. app_mqtt_recv_handler True sample_app_env sample_app ''/sys/pk/dn/thing/service/startProject''
     ''{\"id\":\"7\",\"params\":{\"clientId\":\"a\",\"startCommand\":\"run\"}}'' = Ok (st', eff, Some (''run'', ''/tmp/deploy/project''))
   \<and> as_ide st' = as_ide sample_app"
proof -
  obtain st' eff where r: "app_mqtt_recv_handler True sample_app_env sample_app ''/sys/pk/dn/thing/service/startProject''
      ''{\"id\":\"7\",\"params\":{\"clientId\":\"a\",\"startCommand\":\"run\"}}'' = Ok (st', eff, Some (''run'', ''/tmp/deploy/project''))"
    using sample_start by (auto split: outcome.splits)
  from only_connected_ide_deploys [OF r] show ?thesis using r by blast
qed

section \<open>Every request is answered\<close>

text \<open>The sender works: MQTT mode, a handle, memory for the reply.\<close>

definition replies :: "app_env \<Rightarrow> bool" where
  "replies env \<longleftrightarrow> \<not> al_runtime_library_mode (ae_link env) \<and> al_mqtt_handle (ae_link env) \<and> ae_reply env = (True, True)"

lemma reply_text:
  assumes "replies env"
  shows "reply env service rid data = [Mqtt_pub (reply_topic (ae_link env) service)
    (reply_payload (if rid = [] then ''0'' else rid) 200 (if data = [] then ''{}'' else data)) 0]"
  using assms by (auto simp: reply_def replies_def app_reply_service_def app_publish_topic_def Let_def)

definition answers :: "app_env \<Rightarrow> string \<Rightarrow> string \<Rightarrow> app_result \<Rightarrow> bool" where
  "answers env service rid r \<longleftrightarrow> (\<forall>st' eff started. r = Ok (st', eff, started) \<longrightarrow>
     (\<exists>pre data. eff = pre @ [Mqtt_pub (reply_topic (ae_link env) service) (reply_payload (if rid = [] then ''0'' else rid) 200 data) 0]))"

lemma answers_services:
  assumes "replies env"
  shows "answers env ''property/set'' rid (app_handle_property_set env st rid payload)"
    "answers env ''property/get'' rid (app_handle_property_get env st rid)"
    "answers env ''requestConnect'' rid (app_handle_connect_service env st rid payload)"
    "answers env ''requestDisconnect'' rid (app_handle_disconnect_service env st rid payload)"
    "answers env ''ideHeartbeat'' rid (app_handle_heartbeat_service env st rid payload)"
    "answers env ''deployProject'' rid (app_handle_deploy_service env st rid payload)"
    "answers env ''startProject'' rid (app_handle_start_service env st rid payload)"
    "answers env service rid (Ok (st, reply env service rid data, None))"
  unfolding answers_def app_handle_property_set_def app_handle_property_get_def app_handle_connect_service_def
    app_handle_disconnect_service_def app_handle_heartbeat_service_def ide_service_def app_handle_deploy_service_def
    app_handle_start_service_def Let_def reply_text [OF assms]
  by (force simp: obind_Ok_iff split: option.splits prod.splits if_splits)+

text \<open>
  Every message on a service topic of the device is answered: the last thing that is sent is one
  reply on the reply topic of that service, with code 200 and the request id of the message, or 0 where
  it has none; unknown services are answered too.
\<close>

theorem service_answered:
  assumes "replies env" "app_dispatch_service env st (service_prefix (ae_link env) @ service) payload = Ok (st', eff, started)"
    and "rid = stored_text ''0'' 64 (json_get_raw_value (Some payload) (Some ''id'') 64)"
  shows "\<exists>pre data. eff = pre @ [Mqtt_pub (reply_topic (ae_link env) service) (reply_payload (if rid = [] then ''0'' else rid) 200 data) 0]"
proof -
  have "answers env service rid (app_dispatch_service env st (service_prefix (ae_link env) @ service) payload)"
    unfolding app_dispatch_service_def Let_def has_prefix_append if_not_P [OF not_not [THEN iffD2, OF TrueI]]
    by (simp add: assms(3) answers_services [OF assms(1)])
  then show ?thesis using assms(2) by (simp add: answers_def)
qed

lemma service_answered_witness:
  "\<exists>st' eff started pre data. app_dispatch_service sample_app_env sample_app
      (service_prefix (ae_link sample_app_env) @ ''property/get'') ''{}'' = Ok (st', eff, started)
    \<and> eff = pre @ [Mqtt_pub (reply_topic (ae_link sample_app_env) ''property/get'') (reply_payload ''0'' 200 data) 0]"
proof -
  have "replies sample_app_env" by (simp add: replies_def sample_app_env_def sample_link_def)
  obtain st' eff started where r: "app_dispatch_service sample_app_env sample_app
      (service_prefix (ae_link sample_app_env) @ ''property/get'') ''{}'' = Ok (st', eff, started)"
    by (auto simp: app_dispatch_service_def app_handle_property_get_def Let_def
        ide_connection_manager_get_snapshot_def)
  have i: "stored_text ''0'' 64 (json_get_raw_value (Some ''{}'') (Some ''id'') 64) = ''0''" by code_simp
  from service_answered [OF \<open>replies sample_app_env\<close> r refl, unfolded i]
  obtain pre data where "eff = pre @ [Mqtt_pub (reply_topic (ae_link sample_app_env) ''property/get'') (reply_payload ''0'' 200 data) 0]"
    by auto
  with r show ?thesis by blast
qed

section \<open>The services of the device reach it\<close>

text \<open>A message on a service topic of the device itself is neither for the shadow nor for the gateway.\<close>

lemma own_service_dispatched:
  assumes "plain_names ((ae_gateway env) \<lparr> ge_link := ae_link env \<rparr>) (as_gateway st)"
    and "link_identity (ae_link env) \<notin> sub_identity ` set (gm_sub_devices (as_gateway st))"
    and "topic = service_topic (link_identity (ae_link env)) service" "no_nul topic"
    and "app_mqtt_recv_handler True env st topic payload = Ok (st', eff, started)"
  shows "\<exists>eff1 eff2. eff = eff1 @ eff2 \<and> app_dispatch_service env
    (st \<lparr> as_gateway := (as_gateway st) \<lparr> gm_sent := [] \<rparr> \<rparr>) topic (cstr payload) = Ok (st', eff2, started)"
proof -
  have t: "cstr topic = topic" using assms(4) by simp
  have shadow: "topic \<noteq> device_shadow_manager_build_get_topic (ae_link env)"
    by (simp add: assms(3) service_topic_def device_shadow_manager_build_get_topic_def snprintf_def)
  let ?m = "(as_gateway st) \<lparr> gm_sent := [] \<rparr>"
  have names: "plain_names ((ae_gateway env) \<lparr> ge_link := ae_link env \<rparr>) ?m" "plain_identity (link_identity (ae_link env))"
    using assms(1) by (simp_all add: plain_names_def)
  have "gateway_find_sub_device_index ?m (fst (link_identity (ae_link env))) (snd (link_identity (ae_link env))) = None"
    using assms(2) by (simp add: find_None)
  then have gateway: "app_gateway_message env (st \<lparr> as_shadow := as_shadow st, as_adas_switch := as_adas_switch st \<rparr>) topic p = (False, ?m, [])" for p
    unfolding app_gateway_message_def by (simp add: assms(3) handle_service [OF names])
  show ?thesis
    using assms(5) shadow gateway
    by (auto simp: app_mqtt_recv_handler_def t device_shadow_manager_handle_message_def Let_def obind_Ok_iff)
qed

text \<open>
  Every message the cloud sends on a service topic of the device is answered, whatever the service
  and the content and whatever sub devices stand behind the gateway: it passes the shadow and the
  gateway, and the last thing that is sent is one reply on the reply topic of that service, with code
  200 and the request id of the message, or 0 where it has none.
\<close>

theorem own_service_answered:
  assumes "replies env" "plain_names ((ae_gateway env) \<lparr> ge_link := ae_link env \<rparr>) (as_gateway st)"
    and "link_identity (ae_link env) \<notin> sub_identity ` set (gm_sub_devices (as_gateway st))"
    and "topic = service_topic (link_identity (ae_link env)) service" "no_nul topic"
    and "app_mqtt_recv_handler True env st topic payload = Ok (st', eff, started)"
    and "rid = stored_text ''0'' 64 (json_get_raw_value (Some (cstr payload)) (Some ''id'') 64)"
  shows "\<exists>pre data. eff = pre @ [Mqtt_pub (reply_topic (ae_link env) service) (reply_payload (if rid = [] then ''0'' else rid) 200 data) 0]"
proof -
  obtain eff1 eff2 where d: "eff = eff1 @ eff2" "app_dispatch_service env
      (st \<lparr> as_gateway := (as_gateway st) \<lparr> gm_sent := [] \<rparr> \<rparr>) topic (cstr payload) = Ok (st', eff2, started)"
    using own_service_dispatched [OF assms(2-6)] by blast
  have "plain_identity (link_identity (ae_link env))" using assms(2) by (simp add: plain_names_def)
  then have "topic = service_prefix (ae_link env) @ service"
    by (simp add: assms(4) service_topic_def service_prefix_def link_identity_def plain_identity_def)
  from service_answered [OF assms(1) d(2) [unfolded this] assms(7)] d(1) show ?thesis by auto
qed

lemma sample_app_answers:
  "case app_mqtt_recv_handler True sample_app_env sample_app ''/sys/pk/dn/thing/service/property/get'' ''{\"id\":\"5\"}'' of
     Ok (st', eff, started) \<Rightarrow> True | _ \<Rightarrow> False"
  "stored_text ''0'' 64 (json_get_raw_value (Some (cstr ''{\"id\":\"5\"}'')) (Some ''id'') 64) = ''5''"
  by code_simp+

lemma own_service_answered_witness:
  "\<exists>st' eff started pre data. app_mqtt_recv_handler True sample_app_env sample_app ''/sys/pk/dn/thing/service/property/get''
      ''{\"id\":\"5\"}'' = Ok (st', eff, started)
    \<and> eff = pre @ [Mqtt_pub (reply_topic (ae_link sample_app_env) ''property/get'') (reply_payload ''5'' 200 data) 0]"
proof -
  obtain st' eff started where r: "app_mqtt_recv_handler True sample_app_env sample_app
      ''/sys/pk/dn/thing/service/property/get'' ''{\"id\":\"5\"}'' = Ok (st', eff, started)"
    using sample_app_answers(1) by (auto split: outcome.splits)
  have s: "replies sample_app_env" "plain_names ((ae_gateway sample_app_env) \<lparr> ge_link := ae_link sample_app_env \<rparr>) (as_gateway sample_app)"
    "link_identity (ae_link sample_app_env) \<notin> sub_identity ` set (gm_sub_devices (as_gateway sample_app))"
    by (simp_all add: replies_def sample_app_env_def sample_link_def sample_app_def plain_names_def plain_identity_def no_slash_def
        link_identity_def sample_gateway_def gateway_manager_init_def sample_gateway_config_def gateway_sub_of_def sub_identity_def)
  have t: "''/sys/pk/dn/thing/service/property/get'' = service_topic (link_identity (ae_link sample_app_env)) ''property/get''"
    by (simp add: service_topic_def link_identity_def sample_app_env_def sample_link_def)
  have "no_nul ''/sys/pk/dn/thing/service/property/get''" by simp
  from own_service_answered [OF s t this r sample_app_answers(2) [symmetric]]
  obtain pre data where "eff = pre @ [Mqtt_pub (reply_topic (ae_link sample_app_env) ''property/get'') (reply_payload ''5'' 200 data) 0]"
    by auto
  with r show ?thesis by blast
qed

end
