(* ===== verification/App_Lifecycle.thy ===== *)
theory App_Lifecycle
  imports Ide_App Client_Lifecycle
begin

text \<open>
  How the IDE application is initialised, started and shut down (\<^verbatim>\<open>app_init\<close>,
  \<^verbatim>\<open>app_start\<close> and \<^verbatim>\<open>app_shutdown\<close> in \<^verbatim>\<open>src/iot_ide_app.c\<close>): the system
  objects of its managers, the MQTT client and its two threads, and the messages of the start.
\<close>

section \<open>Initialisation\<close>

datatype app_resource =
  App_mqtt_lock | App_ide ide_resource | App_deploy nat | App_start_lock | App_shadow_lock | App_gateway_lock

record app_host =
  ah_config :: device_config
  ah_mqtt_host :: string
  ah_mqtt_handle :: bool
  ah_process_running :: bool
  ah_recv_running :: bool
  ah_state :: app_state

record init_answers =
  in_mqtt_lock :: bool
  in_file :: "string option" \<comment> \<open>the configuration file\<close>
  in_ide :: "ide_resource \<Rightarrow> bool"
  in_deploy_lock :: bool
  in_deploy_cond :: bool
  in_start_lock :: bool
  in_shadow_lock :: bool
  in_gateway_lock :: bool

text \<open>The cleanups of the managers; that of the deploy manager must not wait (\<open>cleanup_waits\<close>).\<close>

definition clean_ide :: "app_resource set \<Rightarrow> app_resource set" where
  "clean_ide live = live - App_ide ` {Lock, Heartbeat_lock, Heartbeat_cond, Heartbeat_thread}"

definition clean_deploy :: "app_resource set \<Rightarrow> app_resource set" where
  "clean_deploy live = live - App_deploy ` {0, 1}"

definition trace_simulator_init :: "bool \<Rightarrow> int" where
  "trace_simulator_init simulator_ok = (if simulator_ok then 0 else -1)"

text \<open>The label \<^verbatim>\<open>init_failed\<close>: what is initialised is cleaned up.\<close>

definition init_failed :: "bool \<Rightarrow> bool \<Rightarrow> bool \<Rightarrow> bool \<Rightarrow> bool \<Rightarrow> app_resource set \<Rightarrow> app_resource set" where
  "init_failed ide deploy start shadow gateway live =
     (let live1 = (if gateway then live - {App_gateway_lock} else live);
          live2 = (if shadow then live1 - {App_shadow_lock} else live1);
          live3 = (if start then live2 - {App_start_lock} else live2);
          live4 = (if deploy then clean_deploy live3 else live3);
          live5 = (if ide then clean_ide live4 else live4) in
      live5 - {App_mqtt_lock})"

text \<open>The result, what is live, and the application after a success.\<close>

definition app_init :: "bool \<Rightarrow> init_answers \<Rightarrow> int \<times> app_resource set \<times> app_host option" where
  "app_init args_ok ans =
     (if \<not> args_ok then (-1, {}, None)
      else if \<not> in_mqtt_lock ans then (-1, {}, None)
      else (case device_config_load True (in_file ans) empty_config of (rc, config) \<Rightarrow>
        if rc \<noteq> 0 then (-1, {App_mqtt_lock} - {App_mqtt_lock}, None)
        else (case device_config_build_mqtt_host (Some config) (Some 256) of (rc2, host) \<Rightarrow>
          if rc2 \<noteq> 0 then (-1, {App_mqtt_lock} - {App_mqtt_lock}, None)
          else (case ide_connection_manager_init True (in_ide ans) of (ide_rc, ide_live, _) \<Rightarrow>
            if ide_rc \<noteq> 0 then (-1, insert App_mqtt_lock (App_ide ` set ide_live) - {App_mqtt_lock}, None)
            else (let live1 = insert App_mqtt_lock (App_ide ` set ide_live) in
              (case deploy_manager_init True (in_deploy_lock ans) (in_deploy_cond ans) of (deploy_rc, n, _) \<Rightarrow>
                (let live2 = live1 \<union> App_deploy ` {0..<n} in
                 if deploy_rc \<noteq> 0 then (-1, init_failed True False False False False live2, None)
                 else if fst (start_manager_init True (in_start_lock ans)) \<noteq> 0 then
                   (-1, init_failed True True False False False live2, None)
                 else (let live3 = insert App_start_lock live2 in
                   if fst (device_shadow_manager_init True (in_shadow_lock ans)) \<noteq> 0 then
                     (-1, init_failed True True True False False live3, None)
                   else (let live4 = insert App_shadow_lock live3 in
                     (case gateway_manager_init config (in_gateway_lock ans) of (gateway_rc, gateway) \<Rightarrow>
                       if gateway_rc \<noteq> 0 then (-1, init_failed True True True True False live4, None)
                       else (let live5 = insert App_gateway_lock live4 in
                         if trace_simulator_init True \<noteq> 0 then (-1, init_failed True True True True True live5, None)
                         else (0, live5,
                           Some \<lparr> ah_config = config, ah_mqtt_host = (case host of Some h \<Rightarrow> h | None \<Rightarrow> []),
                             ah_mqtt_handle = False, ah_process_running = False, ah_recv_running = False,
                             ah_state = \<lparr> as_adas_switch = False, as_ide = ide_fresh, as_deploy = deploy_fresh,
                               as_start = \<lparr> sm_busy = False \<rparr>, as_shadow = \<lparr> sh_version = 0 \<rparr>, as_gateway = gateway \<rparr> \<rparr>))))))))))))"

section \<open>Start\<close>

definition app_options :: "app_host \<Rightarrow> client_action list" where
  "app_options h =
     [Set_option ''HOST'' (ah_mqtt_host h), Set_option ''PORT'' ''8883'',
      Set_option ''PRODUCT_KEY'' (cf_product_key (ah_config h)), Set_option ''DEVICE_NAME'' (cf_device_name (ah_config h)),
      Set_option ''DEVICE_SECRET'' (cf_device_secret (ah_config h)), Set_option ''NETWORK_CRED'' ''ali_ca_cert'',
      Set_option ''RECV_HANDLER'' ''app_mqtt_recv_handler'', Set_option ''EVENT_HANDLER'' ''app_mqtt_event_handler'',
      Set_option ''USERDATA'' ''app'']"

text \<open>The sender of the application, once there is a handle: its own identity, not in library mode.\<close>

definition host_link :: "app_env \<Rightarrow> app_host \<Rightarrow> app_link" where
  "host_link env h = (ae_link env)
     \<lparr> al_runtime_library_mode := False, al_mqtt_handle := True, al_product_key := cf_product_key (ah_config h),
       al_device_name := cf_device_name (ah_config h) \<rparr>"

definition app_topic :: "app_host \<Rightarrow> string \<Rightarrow> string" where
  "app_topic h rest = snprintf 320 (''/sys/'' @ cf_product_key (ah_config h) @ ''/'' @ cf_device_name (ah_config h) @ rest)"

text \<open>
  What the application does once its threads run: it clears the state the cloud has of the last
  run, reports its switch, and starts the shadow and the gateway. The result, the messages, the state.
\<close>

definition app_announce :: "app_env \<Rightarrow> app_host \<Rightarrow> (int \<times> app_effect list \<times> app_host) outcome" where
  "app_announce env h =
     (let env1 = env \<lparr> ae_link := host_link env h \<rparr>; st = ah_state h in
      (case ide_connection_manager_clear_cloud_state (ae_ide env1) (as_ide st) of (posted, ide) \<Rightarrow>
        (let st1 = st \<lparr> as_ide := ide \<rparr>;
             eff1 = concat (map (post env1) posted) @ post env1 ''{\"ADASSwitch\":0}'' in
         obind (device_shadow_manager_update_reported (ae_link env1) (ae_shadow env1) (as_shadow st1) (Some ''{\"ADASSwitch\":0}''))
           (\<lambda>(_, eff2).
             (case device_shadow_manager_start (ae_link env1) of (rc, eff3) \<Rightarrow>
               if rc \<noteq> 0 then Ok (-1, eff1 @ eff2 @ eff3, h \<lparr> ah_state := st1 \<rparr>)
               else (case gateway_manager_start ((ae_gateway env1) \<lparr> ge_link := ae_link env1 \<rparr>) ((as_gateway st1) \<lparr> gm_sent := [] \<rparr>) of
                 (rc2, gateway) \<Rightarrow>
                   Ok (if rc2 \<noteq> 0 then -1 else 0, eff1 @ eff2 @ eff3 @ gm_sent gateway,
                     h \<lparr> ah_state := st1 \<lparr> as_gateway := gateway \<rparr> \<rparr>)))))))"

definition app_start :: "app_env \<Rightarrow> start_answers \<Rightarrow> app_host \<Rightarrow> (int \<times> client_action list \<times> app_effect list \<times> app_host) outcome" where
  "app_start env ans h =
     (let h1 = h \<lparr> ah_mqtt_handle := sa_init ans \<rparr>; a1 = [Set_portfile, Set_logcb, Init_client (sa_init ans)] in
      if \<not> sa_init ans then Ok (-1, a1, [], h1)
      else (let a2 = a1 @ app_options h @ [Connect] in
        if sa_connect ans < STATE_SUCCESS then Ok (-1, a2, [], h1)
        else (let reply = app_topic h ''/thing/event/+/post_reply''; service = app_topic h ''/thing/service/#'' in
          if sa_sub ans reply < STATE_SUCCESS then Ok (-1, a2 @ [Subscribe reply], [], h1)
          else if sa_sub ans service < STATE_SUCCESS then Ok (-1, a2 @ [Subscribe reply, Subscribe service], [], h1)
          else (let h2 = h1 \<lparr> ah_process_running := True, ah_recv_running := True \<rparr>;
                    a3 = a2 @ [Subscribe reply, Subscribe service, Create_thread Process_thread (sa_process ans)] in
            if \<not> sa_process ans then Ok (-1, a3, [], h2)
            else (let a4 = a3 @ [Create_thread Recv_thread (sa_recv ans)] in
              if \<not> sa_recv ans then Ok (-1, a4, [], h2)
              else obind (app_announce env h2) (\<lambda>(rc, eff, h3). Ok (rc, a4, eff, h3)))))))"

section \<open>Shutdown\<close>

text \<open>The calls, what is live, the application; \<open>None\<close>: it waits for a running deployment.\<close>

definition app_shutdown :: "bool \<Rightarrow> app_host \<Rightarrow> app_resource set \<Rightarrow> (client_action list \<times> app_resource set \<times> app_host) option" where
  "app_shutdown deinit_ok h live =
     (let actions = (if ah_mqtt_handle h then [Disconnect] else [])
            @ (if ah_process_running h then [Join_thread Process_thread] else [])
            @ (if ah_recv_running h then [Join_thread Recv_thread] else [])
            @ (if ah_mqtt_handle h then [Deinit_client deinit_ok] else []);
          h1 = h \<lparr> ah_process_running := False, ah_recv_running := False, ah_mqtt_handle := ah_mqtt_handle h \<and> \<not> deinit_ok \<rparr> in
      if cleanup_waits (as_deploy (ah_state h)) then None
      else Some (actions, clean_deploy (clean_ide live) - {App_start_lock} - {App_gateway_lock} - {App_shadow_lock} - {App_mqtt_lock}, h1))"

section \<open>All or nothing\<close>

lemma ide_parts_known:
  "ide_connection_manager_init True ok = (rc, live, m) \<Longrightarrow>
   (rc \<noteq> 0 \<longrightarrow> live = []) \<and> set live \<subseteq> {Lock, Heartbeat_lock, Heartbeat_cond, Heartbeat_thread}"
  by (auto simp: ide_connection_manager_init_def split: if_splits)

lemma deploy_parts_known:
  "deploy_manager_init True a b = (rc, n, m) \<Longrightarrow> (rc \<noteq> 0 \<longrightarrow> n = 0) \<and> {0..<n} \<subseteq> {0, 1}"
  by (auto simp: deploy_manager_init_def split: if_splits)

text \<open>The system objects of a whole application.\<close>

definition app_resources :: "app_resource set" where
  "app_resources = {App_mqtt_lock, App_start_lock, App_shadow_lock, App_gateway_lock}
     \<union> App_ide ` {Lock, Heartbeat_lock, Heartbeat_cond, Heartbeat_thread} \<union> App_deploy ` {0, 1}"

lemma init_failed_empty:
  assumes "I \<subseteq> {Lock, Heartbeat_lock, Heartbeat_cond, Heartbeat_thread}" "D \<subseteq> {0, 1}"
    and "D \<noteq> {} \<Longrightarrow> deploy" "S \<subseteq> {App_start_lock, App_shadow_lock, App_gateway_lock}"
    and "App_start_lock \<in> S \<Longrightarrow> start" "App_shadow_lock \<in> S \<Longrightarrow> shadow" "App_gateway_lock \<in> S \<Longrightarrow> gateway"
  shows "init_failed True deploy start shadow gateway (insert App_mqtt_lock (App_ide ` I) \<union> App_deploy ` D \<union> S) = {}"
  using assms by (auto simp: init_failed_def clean_ide_def clean_deploy_def Let_def)

text \<open>A fresh application, as \<^verbatim>\<open>app_init\<close> leaves it.\<close>

definition app_idle :: "app_host \<Rightarrow> bool" where
  "app_idle h \<longleftrightarrow> \<not> ah_mqtt_handle h \<and> \<not> ah_process_running h \<and> \<not> ah_recv_running h
     \<and> as_ide (ah_state h) = ide_fresh \<and> as_deploy (ah_state h) = deploy_fresh"

lemma app_init_cases:
  assumes "app_init args_ok ans = (rc, live, host)"
  shows "(rc \<noteq> 0 \<longrightarrow> live = {} \<and> host = None) \<and> (rc = 0 \<longrightarrow> (\<exists>h. host = Some h \<and> app_idle h \<and> live \<subseteq> app_resources))"
proof (cases "args_ok \<and> in_mqtt_lock ans")
  case False
  then show ?thesis using assms by (auto simp: app_init_def split: if_splits)
next
  case True
  obtain rc0 config where c: "device_config_load True (in_file ans) empty_config = (rc0, config)" by (metis surj_pair)
  obtain rc1 name where n: "device_config_build_mqtt_host (Some config) (Some 256) = (rc1, name)" by (metis surj_pair)
  obtain rc2 ide m where i: "ide_connection_manager_init True (in_ide ans) = (rc2, ide, m)" by (metis prod_cases3)
  obtain rc3 k m3 where d: "deploy_manager_init True (in_deploy_lock ans) (in_deploy_cond ans) = (rc3, k, m3)" by (metis prod_cases3)
  obtain rc4 gateway where g: "gateway_manager_init config (in_gateway_lock ans) = (rc4, gateway)" by (metis surj_pair)
  note i' = ide_parts_known [OF i] and d' = deploy_parts_known [OF d]
  have fail: "init_failed True deploy start shadow gw (insert App_mqtt_lock (App_ide ` set ide) \<union> App_deploy ` {0..<k} \<union> S) = {}"
    if "0 < k \<Longrightarrow> deploy" "S \<subseteq> {App_start_lock, App_shadow_lock, App_gateway_lock}"
      "App_start_lock \<in> S \<Longrightarrow> start" "App_shadow_lock \<in> S \<Longrightarrow> shadow" "App_gateway_lock \<in> S \<Longrightarrow> gw" for deploy start shadow gw S
    using that i' d' by (intro init_failed_empty) auto
  have all: "insert App_mqtt_lock (App_ide ` set ide) \<union> App_deploy ` {0..<k} \<union> {App_start_lock, App_shadow_lock, App_gateway_lock} \<subseteq> app_resources"
    using i' d' by (auto simp: app_resources_def)
  consider "rc0 \<noteq> 0" | "rc0 = 0" "rc1 \<noteq> 0" | "rc0 = 0" "rc1 = 0" "rc2 \<noteq> 0" | "rc0 = 0" "rc1 = 0" "rc2 = 0" "rc3 \<noteq> 0"
    | "rc0 = 0" "rc1 = 0" "rc2 = 0" "rc3 = 0" by blast
  then show ?thesis
  proof cases
    case 4
    then show ?thesis using assms True i' d' fail [of False "{}" False False False]
      by (auto simp: app_init_def c n i d Let_def)
  next
    case 5
    then show ?thesis using assms True all fail [of True "{}" False False False]
        fail [of True "{App_start_lock}" True False False] fail [of True "{App_shadow_lock, App_start_lock}" True True False]
      by (auto simp: app_init_def c n i d g Let_def Un_insert_right trace_simulator_init_def app_idle_def split: if_splits)
  qed (use assms True i' in \<open>auto simp: app_init_def c n i Let_def\<close>)
qed

lemma shutdown_empties:
  "live \<subseteq> app_resources \<Longrightarrow> \<not> cleanup_waits (as_deploy (ah_state h)) \<Longrightarrow>
   \<exists>actions h1. app_shutdown deinit_ok h live = Some (actions, {}, h1)"
  by (auto simp: app_shutdown_def app_resources_def clean_ide_def clean_deploy_def Let_def)

section \<open>Start and shutdown\<close>

lemma app_options_silent [simp]: "happen (app_options h) w = w"
  by (simp add: app_options_def)

lemma announce_keeps:
  assumes "app_announce env h = Ok (rc, eff, h')"
  shows "ah_mqtt_handle h' = ah_mqtt_handle h \<and> ah_process_running h' = ah_process_running h \<and> ah_recv_running h' = ah_recv_running h
    \<and> as_deploy (ah_state h') = as_deploy (ah_state h)"
proof -
  let ?link = "host_link env h"
  obtain posted ide where i: "ide_connection_manager_clear_cloud_state (ae_ide env) (as_ide (ah_state h)) = (posted, ide)" by (metis surj_pair)
  obtain rc1 eff1 where s: "device_shadow_manager_start ?link = (rc1, eff1)" by (metis surj_pair)
  obtain rc2 gateway where g: "gateway_manager_start ((ae_gateway env) \<lparr> ge_link := ?link \<rparr>)
      ((as_gateway (ah_state h)) \<lparr> gm_sent := [] \<rparr>) = (rc2, gateway)" by (metis surj_pair)
  obtain r where r: "device_shadow_manager_update_reported ?link (ae_shadow env) (as_shadow (ah_state h)) (Some ''{\"ADASSwitch\":0}'') = Ok r"
    using assms by (cases "device_shadow_manager_update_reported ?link (ae_shadow env) (as_shadow (ah_state h)) (Some ''{\"ADASSwitch\":0}'')")
      (simp_all add: app_announce_def Let_def i)
  show ?thesis
    using assms by (cases r; cases "rc1 = 0") (auto simp: app_announce_def Let_def i s g r)
qed

definition app_flags :: "app_host \<Rightarrow> bool \<times> bool \<times> bool" where
  "app_flags h = (ah_mqtt_handle h, ah_process_running h, ah_recv_running h)"

text \<open>A start whose threads can be created: the flags tell what is alive, whatever else fails.\<close>

lemma app_start_accounts:
  assumes "app_start env ans h = Ok (rc, actions, eff, h')" "app_idle h" "sa_process ans" "sa_recv ans"
  shows "accounted (app_flags h') (happen actions nothing) \<and> as_deploy (ah_state h') = deploy_fresh"
proof -
  consider "\<not> sa_init ans" | "sa_init ans" "sa_connect ans < 0" | "sa_init ans" "\<not> sa_connect ans < 0" by blast
  then show ?thesis
  proof cases
    case 3
    with assms show ?thesis
      by (auto simp: app_start_def app_idle_def app_flags_def nothing_def accounted.simps Let_def obind_Ok_iff insert_commute
          dest: announce_keeps split: if_splits)
  qed (use assms in \<open>auto simp: app_start_def app_idle_def app_flags_def nothing_def accounted.simps Let_def\<close>)
qed

lemma app_shutdown_releases:
  assumes "accounted (app_flags h) w" "app_shutdown True h live = Some (actions, live', h')"
  shows "happen actions w = nothing"
  using assms by (cases w; cases "ah_mqtt_handle h"; cases "ah_process_running h"; cases "ah_recv_running h")
    (auto simp: app_shutdown_def app_flags_def accounted.simps nothing_def Let_def split: if_splits)

text \<open>
  An application that is initialised, started and shut down leaves nothing behind, wherever the
  start fails: not a system object of a manager, not the client, not a thread; the client is not
  released under a running thread. A failed initialisation leaves nothing behind either. The threads
  must have been created and the client must let itself be released.
\<close>

theorem app_leaves_nothing:
  assumes "app_init True (ans0 :: init_answers) = (rc0, live, host)"
  shows "(rc0 \<noteq> 0 \<longrightarrow> live = {})
    \<and> (\<forall>h rc actions eff h1. host = Some h \<and> app_start env ans h = Ok (rc, actions, eff, h1) \<and> sa_process ans \<and> sa_recv ans \<longrightarrow>
        (\<exists>actions2 h2. app_shutdown True h1 live = Some (actions2, {}, h2) \<and> happen (actions @ actions2) nothing = nothing))"
proof (intro conjI allI impI; (elim conjE)?)
  show "rc0 \<noteq> 0 \<Longrightarrow> live = {}" using app_init_cases [OF assms] by blast
  fix h rc actions eff h1
  assume a: "host = Some h" "app_start env ans h = Ok (rc, actions, eff, h1)" "sa_process ans" "sa_recv ans"
  then have h: "app_idle h" "live \<subseteq> app_resources" using app_init_cases [OF assms] by (cases "rc0 = 0"; auto)+
  note s = app_start_accounts [OF a(2) h(1) a(3,4)]
  have "\<not> cleanup_waits (as_deploy (ah_state h1))" using s by (simp add: cleanup_waits_def deploy_fresh_def)
  then obtain actions2 h2 where d: "app_shutdown True h1 live = Some (actions2, {}, h2)"
    using shutdown_empties [OF h(2)] by blast
  with app_shutdown_releases [of h1 _ live actions2] s
  show "\<exists>actions2 h2. app_shutdown True h1 live = Some (actions2, {}, h2) \<and> happen (actions @ actions2) nothing = nothing"
    by auto
qed

definition sample_init :: init_answers where
  "sample_init = \<lparr> in_mqtt_lock = True,
     in_file = Some ''{\"productKey\":\"pk\",\"deviceName\":\"dn\",\"deviceSecret\":\"s\",\"region\":\"r\"}'',
     in_ide = (\<lambda>_. True), in_deploy_lock = True, in_deploy_cond = True, in_start_lock = True, in_shadow_lock = True,
     in_gateway_lock = True \<rparr>"

lemma sample_init_ok: "case app_init True sample_init of (rc, live, Some h) \<Rightarrow> rc = 0 \<and> cf_product_key (ah_config h) = ''pk'' | _ \<Rightarrow> False"
  by code_simp

definition sample_start_answers :: start_answers where
  "sample_start_answers = \<lparr> sa_init = True, sa_connect = 0, sa_sub = (\<lambda>t. if t = [] then 0 else -1), sa_process = True, sa_recv = True, sa_deinit = True \<rparr>"

text \<open>The broker refuses the subscription.\<close>

lemma app_leaves_nothing_witness:
  "\<exists>live h actions h1 actions2 h2. app_init True sample_init = (0, live, Some h)
    \<and> app_start sample_app_env sample_start_answers h = Ok (-1, actions, [], h1)
    \<and> app_shutdown True h1 live = Some (actions2, {}, h2) \<and> happen (actions @ actions2) nothing = nothing"
proof -
  obtain live h where i: "app_init True sample_init = (0, live, Some h)"
    using sample_init_ok by (auto split: prod.splits option.splits)
  have "app_topic h ''/thing/event/+/post_reply'' \<noteq> []" by (simp add: app_topic_def snprintf_def)
  then obtain actions h1 where s: "app_start sample_app_env sample_start_answers h = Ok (-1, actions, [], h1)"
    by (simp add: app_start_def sample_start_answers_def Let_def)
  have "sa_process sample_start_answers" "sa_recv sample_start_answers" by (simp_all add: sample_start_answers_def)
  with app_leaves_nothing [OF i, of sample_app_env sample_start_answers] i s show ?thesis by blast
qed

text \<open>
  Where a thread cannot be created, the start leaves both flags set, and the shutdown joins a
  thread that was never there, which the standard leaves undefined.
\<close>

theorem failed_thread_joined:
  assumes "app_idle h" "sa_init ans" "\<not> sa_connect ans < 0" "\<And>t. \<not> sa_sub ans t < 0" "\<not> sa_recv ans"
    and "app_start env ans h = Ok (rc, actions, eff, h1)" "app_shutdown deinit_ok h1 live = Some (actions2, live', h2)"
  shows "rc = -1 \<and> \<not> cw_safe (happen (actions @ actions2) nothing)"
  using assms by (cases "sa_process ans") (auto simp: app_start_def app_shutdown_def app_idle_def nothing_def Let_def split: if_splits)

definition sample_no_thread :: start_answers where
  "sample_no_thread = \<lparr> sa_init = True, sa_connect = 0, sa_sub = (\<lambda>_. 0), sa_process = True, sa_recv = False, sa_deinit = True \<rparr>"

lemma failed_thread_joined_witness:
  "\<exists>live h actions h1 actions2 h2. app_init True sample_init = (0, live, Some h)
    \<and> app_start sample_app_env sample_no_thread h = Ok (-1, actions, [], h1)
    \<and> app_shutdown True h1 live = Some (actions2, {}, h2) \<and> \<not> cw_safe (happen (actions @ actions2) nothing)"
proof -
  obtain live h where i: "app_init True sample_init = (0, live, Some h)"
    using sample_init_ok by (auto split: prod.splits option.splits)
  have h: "app_idle h" "live \<subseteq> app_resources" using app_init_cases [OF i] by auto
  obtain actions h1 where s: "app_start sample_app_env sample_no_thread h = Ok (-1, actions, [], h1)" "as_deploy (ah_state h1) = as_deploy (ah_state h)"
    by (simp add: app_start_def sample_no_thread_def Let_def)
  have "\<not> cleanup_waits (as_deploy (ah_state h1))" using s(2) h(1) by (simp add: app_idle_def cleanup_waits_def deploy_fresh_def)
  then obtain actions2 h2 where d: "app_shutdown True h1 live = Some (actions2, {}, h2)"
    using shutdown_empties [OF h(2)] by blast
  have "sa_init sample_no_thread" "\<not> sa_connect sample_no_thread < 0" "\<And>t. \<not> sa_sub sample_no_thread t < 0" "\<not> sa_recv sample_no_thread"
    by (simp_all add: sample_no_thread_def)
  from failed_thread_joined [OF h(1) this s(1) d] i s(1) d show ?thesis by blast
qed

end
