(* ===== verification/Ide_Hosts.thy ===== *)
theory Ide_Hosts
  imports Ide_App Iec_Runtime
begin

text \<open>
  The two hosts of the connection manager compared: the application that holds everything in one
  process (theory Ide_App) and the production host with its two shared libraries (theory Iec_Runtime)
  answer the requests of IDEs with the same messages.
\<close>

section \<open>The size of a buffer does not matter\<close>

lemma get_object_mono:
  assumes "json_get_object j k n = Copied p" "n \<le> n'"
  shows "json_get_object j k n' = Copied p"
  using assms by (auto simp: json_get_object_def copy_compound_at_def json_copy_trimmed_def split: option.splits if_splits)

lemma request_params_mono: "request_params payload n = Some p \<Longrightarrow> n \<le> n' \<Longrightarrow> request_params payload n' = Some p"
  using get_object_mono [of "Some payload" "Some ''params''" n p n'] by (auto simp: request_params_def split: json_copy.splits)

lemma service_params_request: "request_params payload n = Some p \<Longrightarrow> n \<le> 8192 \<Longrightarrow> service_params payload = p"
  using get_object_mono [of "Some payload" "Some ''params''" n p 8192]
  by (auto simp: request_params_def service_params_def split: json_copy.splits)

lemma answer_text:
  assumes "mem 3" "512 \<le> n" "length (escape message) \<le> 320"
  shows "answer mem (Some n) success message posted =
    \<lparr> ir_rc = 0, ir_response = Some (result_text success (escape message)), ir_posted = posted \<rparr>"
  using answer_complete [of mem n message success posted, OF assms] by (simp add: answer_def split: prod.splits)

text \<open>The three handlers of the manager: for a full answer, 512 bytes are as good as more.\<close>

definition ide_handler ::
  "string \<Rightarrow> nat option \<Rightarrow> int \<Rightarrow> (nat \<Rightarrow> bool) \<Rightarrow> string \<Rightarrow> ide_manager \<Rightarrow> ide_result \<times> ide_manager" where
  "ide_handler service response now_ms mem p =
     (if service = ''requestConnect'' then ide_connection_manager_handle_request_connect True (Some p) response now_ms mem
      else if service = ''requestDisconnect'' then ide_connection_manager_handle_disconnect True (Some p) response mem
      else ide_connection_manager_handle_heartbeat True (Some p) response now_ms mem)"

lemma ide_handlers:
  "ide_handler ''requestConnect'' r now mem = (\<lambda>p. ide_connection_manager_handle_request_connect True (Some p) r now mem)"
  "ide_handler ''requestDisconnect'' r now mem = (\<lambda>p. ide_connection_manager_handle_disconnect True (Some p) r mem)"
  "ide_handler ''ideHeartbeat'' r now mem = (\<lambda>p. ide_connection_manager_handle_heartbeat True (Some p) r now mem)"
  by (rule ext, simp add: ide_handler_def)+

lemma rejection_fits:
  assumes "im_ok m"
  shows "length (escape (snprintf 256 (''disconnect rejected, active client is '' @ im_client_id m))) \<le> 320"
    "length (escape (snprintf 256 (''heartbeat rejected, active client is '' @ im_client_id m))) \<le> 320"
    "length (escape (snprintf 256 ''no active IDE connection'')) \<le> 320"
    "length (escape (snprintf 256 ''disconnect accepted'')) \<le> 320" "length (escape (snprintf 256 ''heartbeat updated'')) \<le> 320"
  using assms escape_fits [of "im_client_id m"] by (simp_all add: im_ok_def snprintf_fits escape_def replacement_def)

lemma handler_answers:
  assumes "im_ok m" "mem 3" "512 \<le> n"
  shows "\<exists>t posted m'. ide_handler service (Some n) now_ms mem p m = (\<lparr> ir_rc = 0, ir_response = Some t, ir_posted = posted \<rparr>, m')
    \<and> t \<noteq> [] \<and> im_ok m' \<and> ide_handler service (Some 512) now_ms mem p m = ide_handler service (Some n) now_ms mem p m"
proof -
  have t: "result_text success e \<noteq> []" for success e by (simp add: result_text_def)
  obtain success message m1 where s: "connect_section (client_id_of p) (client_info_of p) now_ms m = (success, message, m1)"
    by (metis prod_cases3)
  note k = connect_section_lock [OF assms(1) client_texts_fit, of p p now_ms, unfolded s prod.case]
  have c: ?thesis if "service = ''requestConnect''"
    using k t that by (auto simp: ide_handler_def ide_connection_manager_handle_request_connect_def s
        answer_text [of mem n, OF assms(2,3)] answer_text [of mem 512, OF assms(2)])
  have d: ?thesis if "service = ''requestDisconnect''"
    using rejection_fits [OF assms(1)] t that assms(1)
    by (auto simp: ide_handler_def ide_connection_manager_handle_disconnect_def ide_unlock_internal_def im_ok_def
        answer_text [of mem n, OF assms(2,3)] answer_text [of mem 512, OF assms(2)])
  have h: ?thesis if "service \<noteq> ''requestConnect''" "service \<noteq> ''requestDisconnect''"
    using rejection_fits [OF assms(1)] t that assms(1)
    by (auto simp: ide_handler_def ide_connection_manager_handle_heartbeat_def im_ok_def
        answer_text [of mem n, OF assms(2,3)] answer_text [of mem 512, OF assms(2)])
  show ?thesis using c d h by blast
qed

section \<open>One request\<close>

abbreviation ide_services :: "string list" where
  "ide_services \<equiv> [''requestConnect'', ''requestDisconnect'', ''ideHeartbeat'']"

text \<open>Both hosts are the same device and can send; memory for the answers is there.\<close>

definition same_device :: "app_env \<Rightarrow> cloud_env \<Rightarrow> library_call \<Rightarrow> cloud_gateway \<Rightarrow> bool" where
  "same_device env cenv call g \<longleftrightarrow>
     replies env \<and> ae_post env = (True, True)
     \<and> al_product_key (ae_link env) = cf_product_key (cg_config g) \<and> al_device_name (ae_link env) = cf_device_name (cg_config g)
     \<and> cloud_ok g \<and> cg_mqtt_handle g \<and> ce_memory cenv \<and> cg_on_service g
     \<and> ae_ide env 3 \<and> lc_ide call = ae_ide env"

definition library_tells :: "ide_library \<Rightarrow> bool" where
  "library_tells l \<longleftrightarrow> al_runtime_library_mode (lb_link l) \<and> al_runtime_event_cb (lb_link l)"

lemma app_ide_service:
  assumes "service \<in> set ide_services" "request_params payload 1024 = Some p"
  shows "app_dispatch_service env st (service_prefix (ae_link env) @ service) payload =
    ide_service env st service (service_request_id payload) (Some p) (ide_handler service (Some 512) (ae_now_ms env) (ae_ide env))"
proof -
  have p: "request_params payload 2048 = Some p" using request_params_mono [OF assms(2), of 2048] by simp
  have "service = ''requestConnect'' \<or> service = ''requestDisconnect'' \<or> service = ''ideHeartbeat''" using assms(1) by simp
  then show ?thesis
    by (elim disjE) (simp_all add: app_dispatch_service_def service_request_id_def Let_def app_handle_connect_service_def
      app_handle_disconnect_service_def app_handle_heartbeat_service_def ide_handlers p assms(2))
qed

lemma runtime_ide_service:
  assumes "service \<in> set ide_services" "rt_ide rt = Some l"
  shows "runtime_on_service cenv call g service rid p rt = runtime_answer cenv g service rid rt
    (library_ide_call True (Some p) not_handled (service @ ''.response'') call (ide_handler service (Some 8192) (lc_now_ms call) (lc_ide call)) l)"
proof -
  have "buffer_size not_handled = Some 8192" by (simp add: not_handled_def buffer_size_def)
  moreover have "service = ''requestConnect'' \<or> service = ''requestDisconnect'' \<or> service = ''ideHeartbeat''" using assms(1) by simp
  ultimately show ?thesis
    by (elim disjE) (simp_all add: runtime_on_service_def assms(2) Let_def ide_handlers libiot_ide_request_connect_def
      libiot_ide_request_disconnect_def libiot_ide_heartbeat_def)
qed

text \<open>The posts of the library, sent by the gateway, are those of the application.\<close>

lemma posts_agree:
  assumes "same_device env cenv call g" "library_tells l" "ce_now_ms cenv = ae_now_ms env" "lc_now_ms call = ae_now_ms env"
    and "length (int_dec (ae_now_ms env)) \<le> 90"
  shows "runtime_events cenv g (library_post l call posted) = concat (map (post env) posted)"
proof (induction posted)
  case (Cons p posted)
  have "post env p = snd (iot_ide_gateway_post_properties cenv (Some g) (Some p))"
    using assms by (simp add: post_def app_post_properties_def app_publish_topic_def same_device_def replies_def
        post_properties_publishes post_topic_def device_topic_def)
  moreover have "runtime_events cenv g (snd (app_post_properties (lb_link l) (lc_post call) (lc_now_ms call) (Some p)))
      = snd (iot_ide_gateway_post_properties cenv (Some g) (Some p))"
    using assms(2) by (simp add: app_post_properties_def app_emit_runtime_event_def library_tells_def runtime_events_def
        runtime_on_iot_ide_event_def iot_ide_gateway_forward_event_def)
  ultimately show ?case using Cons.IH by (simp add: library_post_def runtime_events_def)
qed (simp add: library_post_def runtime_events_def)

lemma runtime_events_append [simp]: "runtime_events cenv g (a @ b) = runtime_events cenv g a @ runtime_events cenv g b"
  by (simp add: runtime_events_def)

lemma responses_silent:
  "service \<in> set ide_services \<Longrightarrow> runtime_events cenv g (library_event l (service @ ''.response'') text) = []"
  by (auto simp: library_event_def app_emit_runtime_event_def runtime_events_def runtime_on_iot_ide_event_def
      iot_ide_gateway_forward_event_def)

lemma replies_agree:
  assumes "same_device env cenv call g" "t \<noteq> []"
  shows "reply env service rid t = snd (iot_ide_gateway_reply_service cenv (Some g) (Some service) (Some rid) 200 (Some t))"
  using assms by (simp add: same_device_def reply_text reply_service_publishes reply_topic_def device_topic_def)

lemma one_request:
  assumes "same_device env cenv call g" "ce_now_ms cenv = ae_now_ms env" "lc_now_ms call = ae_now_ms env"
    and "length (int_dec (ae_now_ms env)) \<le> 90" "service \<in> set ide_services" "request_params payload 1024 = Some p"
    and "rt_ide rt = Some l" "library_tells l" "as_ide st = lb_ide l" "im_ok (lb_ide l)"
  shows "\<exists>st' l' eff. app_dispatch_service env st (service_prefix (ae_link env) @ service) payload = Ok (st', eff, None)
    \<and> runtime_on_service cenv call g service (service_request_id payload) (service_params payload) rt = Ok (rt \<lparr> rt_ide := Some l' \<rparr>, eff)
    \<and> as_ide st' = lb_ide l' \<and> im_ok (lb_ide l') \<and> library_tells l'"
proof -
  have mem: "ae_ide env 3" "lc_ide call = ae_ide env" using assms(1) by (simp_all add: same_device_def)
  obtain t posted m where h: "ide_handler service (Some 8192) (ae_now_ms env) (ae_ide env) p (lb_ide l)
        = (\<lparr> ir_rc = 0, ir_response = Some t, ir_posted = posted \<rparr>, m)" "t \<noteq> []" "im_ok m"
      "ide_handler service (Some 512) (ae_now_ms env) (ae_ide env) p (lb_ide l)
        = ide_handler service (Some 8192) (ae_now_ms env) (ae_ide env) p (lb_ide l)"
    using handler_answers [of "lb_ide l" "ae_ide env" 8192 service "ae_now_ms env" p, OF assms(10) mem(1)] by auto
  have params: "service_params payload = p" using service_params_request [OF assms(6)] by simp
  have app: "app_dispatch_service env st (service_prefix (ae_link env) @ service) payload =
      Ok (st \<lparr> as_ide := m \<rparr>, concat (map (post env) posted) @ reply env service (service_request_id payload) t, None)"
    unfolding app_ide_service [OF assms(5,6)] by (simp add: ide_service_def assms(9) h(1,4) Let_def)
  have "runtime_on_service cenv call g service (service_request_id payload) p rt =
      Ok (rt \<lparr> rt_ide := Some (l \<lparr> lb_ide := m \<rparr>) \<rparr>, concat (map (post env) posted) @ reply env service (service_request_id payload) t)"
    unfolding runtime_ide_service [OF assms(5,7)]
    by (simp add: library_ide_call_def runtime_answer_def mem(2) assms(3) h(1) Let_def not_handled_def written_def
        posts_agree [OF assms(1,8,2,3,4)] responses_silent [OF assms(5)] replies_agree [OF assms(1) h(2)])
  with app params h(3) assms(8) show ?thesis by (auto simp: library_tells_def)
qed

section \<open>Any sequence of requests\<close>

text \<open>Requests as the cloud delivers them: the time, the service, the payload.\<close>

type_synonym ide_requests = "(int \<times> string \<times> string) list"

fun app_requests :: "app_env \<Rightarrow> ide_requests \<Rightarrow> app_state \<Rightarrow> (app_state \<times> app_effect list) outcome" where
  "app_requests env [] st = Ok (st, [])"
| "app_requests env ((now, service, payload) # requests) st =
     obind (app_dispatch_service (env \<lparr> ae_now_ms := now \<rparr>) st (service_prefix (ae_link env) @ service) payload) (\<lambda>(st1, eff, _).
       obind (app_requests env requests st1) (\<lambda>(st2, eff2). Ok (st2, eff @ eff2)))"

fun runtime_requests ::
  "cloud_env \<Rightarrow> library_call \<Rightarrow> cloud_gateway \<Rightarrow> ide_requests \<Rightarrow> runtime \<Rightarrow> (runtime \<times> app_effect list) outcome" where
  "runtime_requests cenv call g [] rt = Ok (rt, [])"
| "runtime_requests cenv call g ((now, service, payload) # requests) rt =
     obind (gateway_handle_service (cenv \<lparr> ce_now_ms := now \<rparr>)
         (runtime_on_service (cenv \<lparr> ce_now_ms := now \<rparr>) (call \<lparr> lc_now_ms := now \<rparr>) g) g
         (device_topic g ''/thing/service/'' @ service) payload rt) (\<lambda>(rt1, eff).
       obind (runtime_requests cenv call g requests rt1) (\<lambda>(rt2, eff2). Ok (rt2, eff @ eff2)))"

definition complete_request :: "int \<times> string \<times> string \<Rightarrow> bool" where
  "complete_request r \<longleftrightarrow> (case r of (now, service, payload) \<Rightarrow>
     service \<in> set ide_services \<and> request_params payload 1024 \<noteq> None \<and> length (int_dec now) \<le> 90)"

lemma gateway_calls_back:
  "cg_on_service g \<Longrightarrow> service \<in> set ide_services \<Longrightarrow> gateway_handle_service env cb g (device_topic g ''/thing/service/'' @ service) payload s =
   cb service (service_request_id payload) (service_params payload) s"
  by (auto simp: gateway_handle_service_def Let_def gateway_is_reply_topic_def)

lemma requests_agree:
  assumes "same_device env cenv call g" "\<And>r. r \<in> set requests \<Longrightarrow> complete_request r"
    and "rt_ide rt = Some l" "library_tells l" "as_ide st = lb_ide l" "im_ok (lb_ide l)"
  shows "\<exists>st' l' eff. app_requests env requests st = Ok (st', eff)
    \<and> runtime_requests cenv call g requests rt = Ok (rt \<lparr> rt_ide := Some l' \<rparr>, eff) \<and> as_ide st' = lb_ide l'"
  using assms(2-)
proof (induction requests arbitrary: rt l st)
  case Nil
  then have "rt \<lparr> rt_ide := Some l \<rparr> = rt" by simp
  with Nil show ?case by (metis app_requests.simps(1) runtime_requests.simps(1))
next
  case (Cons r requests)
  obtain now service payload where r: "r = (now, service, payload)" by (metis prod_cases3)
  have c: "service \<in> set ide_services" "request_params payload 1024 \<noteq> None" "length (int_dec now) \<le> 90"
    using Cons.prems(1) [of r] by (simp_all add: complete_request_def r)
  then obtain p where p: "request_params payload 1024 = Some p" by blast
  have same: "same_device (env \<lparr> ae_now_ms := now \<rparr>) (cenv \<lparr> ce_now_ms := now \<rparr>) (call \<lparr> lc_now_ms := now \<rparr>) g"
    using assms(1) by (simp add: same_device_def replies_def)
  obtain st1 l1 eff where one: "app_dispatch_service (env \<lparr> ae_now_ms := now \<rparr>) st (service_prefix (ae_link env) @ service) payload = Ok (st1, eff, None)"
      "runtime_on_service (cenv \<lparr> ce_now_ms := now \<rparr>) (call \<lparr> lc_now_ms := now \<rparr>) g service (service_request_id payload)
         (service_params payload) rt = Ok (rt \<lparr> rt_ide := Some l1 \<rparr>, eff)"
      "as_ide st1 = lb_ide l1" "im_ok (lb_ide l1)" "library_tells l1"
    using one_request [OF same _ _ _ c(1) p Cons.prems(2-5)] c(3) by auto
  obtain st2 l2 eff2 where rest: "app_requests env requests st1 = Ok (st2, eff2)"
      "runtime_requests cenv call g requests (rt \<lparr> rt_ide := Some l1 \<rparr>) = Ok ((rt \<lparr> rt_ide := Some l1 \<rparr>) \<lparr> rt_ide := Some l2 \<rparr>, eff2)"
      "as_ide st2 = lb_ide l2"
    using Cons.IH [of "rt \<lparr> rt_ide := Some l1 \<rparr>" l1 st1] one Cons.prems(1) by auto
  have "cg_on_service g" using assms(1) by (simp add: same_device_def)
  then show ?case using one rest by (simp add: r gateway_calls_back [OF _ c(1)]) blast
qed


definition sample_requests :: ide_requests where
  "sample_requests =
     [(5, ''requestConnect'', ''{\"id\":\"1\",\"params\":{\"clientId\":\"a\"}}''),
      (9, ''requestDisconnect'', ''{\"id\":\"2\",\"params\":{\"clientId\":\"b\"}}'')]"

lemma sample_complete: "list_all complete_request sample_requests"
  by code_simp


section \<open>Where they differ\<close>

text \<open>
  Without a parameter object the application answers with a failure; the gateway library passes an
  empty object on, and the IDE library gives the device to a client called \<^verbatim>\<open>unknown\<close>.
\<close>

lemma missing_params_lock_device:
  "app_handle_connect_service env st rid ''{\"id\":\"1\"}''
     = Ok (st, reply env ''requestConnect'' rid ''{\"success\":0,\"message\":\"requestConnect failed\"}'', None)"
  "service_params ''{\"id\":\"1\"}'' = ''{}''"
  "im_connected (lb_ide (snd (libiot_ide_request_connect True (Some ''{}'') response call (l \<lparr> lb_ide := ide_fresh \<rparr>))))
   \<and> im_client_id (lb_ide (snd (libiot_ide_request_connect True (Some ''{}'') response call (l \<lparr> lb_ide := ide_fresh \<rparr>)))) = ''unknown''"
proof -
  have "request_params ''{\"id\":\"1\"}'' 2048 = None" by code_simp
  then show "app_handle_connect_service env st rid ''{\"id\":\"1\"}''
     = Ok (st, reply env ''requestConnect'' rid ''{\"success\":0,\"message\":\"requestConnect failed\"}'', None)"
    by (simp add: app_handle_connect_service_def ide_service_def)
  show "service_params ''{\"id\":\"1\"}'' = ''{}''" by code_simp
  have "client_id_of ''{}'' = ''unknown''" by code_simp
  then show "im_connected (lb_ide (snd (libiot_ide_request_connect True (Some ''{}'') response call (l \<lparr> lb_ide := ide_fresh \<rparr>))))
   \<and> im_client_id (lb_ide (snd (libiot_ide_request_connect True (Some ''{}'') response call (l \<lparr> lb_ide := ide_fresh \<rparr>)))) = ''unknown''"
    by (simp add: libiot_ide_request_connect_def library_ide_call_def ide_connection_manager_handle_request_connect_def
        connect_section_def take_lock_def ide_fresh_def Let_def snprintf_fits split: prod.splits)
qed

text \<open>
  The application also answers what comes on a reply topic, its own replies among them, on a reply
  topic of the reply; the gateway library does not act on it (lemma \<open>own_reply_ignored\<close>).
\<close>

lemma app_answers_replies:
  assumes "replies env" "service \<notin> set [''property/set'', ''property/get'', ''requestConnect'', ''requestDisconnect'', ''ideHeartbeat'',
    ''deployProject'', ''startProject'']"
  shows "\<exists>data. app_dispatch_service env st (service_prefix (ae_link env) @ service) payload =
    Ok (st, [Mqtt_pub (reply_topic (ae_link env) service) data 0], None)"
  using assms by (auto simp: app_dispatch_service_def Let_def reply_text)

end
