(* ===== verification/Posix_Port.thy ===== *)
theory Posix_Port
  imports Prelude
begin

text \<open>
  The sockets below the SDK (\<^verbatim>\<open>portfiles/aiot_port/posix_port.c\<close>): the connection, the
  timed loops that receive and send, the random bytes. What the operating system answers (resolver,
  sockets, \<^verbatim>\<open>select\<close>, clock) is the argument; what the port does to the descriptors of the
  process is a list of events. What is printed is not modelled, nor are the functions that only pass a
  call on (memory, clock, sleep, mutexes).
\<close>

section \<open>The handle\<close>

abbreviation STATE_PORT_INPUT_NULL_POINTER :: int where "STATE_PORT_INPUT_NULL_POINTER \<equiv> - 0x0F01"
abbreviation STATE_PORT_INPUT_OUT_RANGE :: int where "STATE_PORT_INPUT_OUT_RANGE \<equiv> - 0x0F02"
abbreviation STATE_PORT_MISSING_HOST :: int where "STATE_PORT_MISSING_HOST \<equiv> - 0x0F04"
abbreviation STATE_PORT_TCP_SERVER_NOT_IMPLEMENT :: int where "STATE_PORT_TCP_SERVER_NOT_IMPLEMENT \<equiv> - 0x0F06"
abbreviation STATE_PORT_NETWORK_DNS_FAILED :: int where "STATE_PORT_NETWORK_DNS_FAILED \<equiv> - 0x0F0B"
abbreviation STATE_PORT_NETWORK_SOCKET_CREATE_FAILED :: int where "STATE_PORT_NETWORK_SOCKET_CREATE_FAILED \<equiv> - 0x0F0C"
abbreviation STATE_PORT_NETWORK_SOCKET_CONFIG_FAILED :: int where "STATE_PORT_NETWORK_SOCKET_CONFIG_FAILED \<equiv> - 0x0F0D"
abbreviation STATE_PORT_NETWORK_SOCKET_BIND_FAILED :: int where "STATE_PORT_NETWORK_SOCKET_BIND_FAILED \<equiv> - 0x0F0E"
abbreviation STATE_PORT_NETWORK_CONNECT_FAILED :: int where "STATE_PORT_NETWORK_CONNECT_FAILED \<equiv> - 0x0F10"
abbreviation STATE_PORT_NETWORK_SELECT_FAILED :: int where "STATE_PORT_NETWORK_SELECT_FAILED \<equiv> - 0x0F11"
abbreviation STATE_PORT_NETWORK_SEND_FAILED :: int where "STATE_PORT_NETWORK_SEND_FAILED \<equiv> - 0x0F12"
abbreviation STATE_PORT_NETWORK_RECV_FAILED :: int where "STATE_PORT_NETWORK_RECV_FAILED \<equiv> - 0x0F13"
abbreviation STATE_PORT_NETWORK_SEND_CONNECTION_CLOSED :: int where "STATE_PORT_NETWORK_SEND_CONNECTION_CLOSED \<equiv> - 0x0F14"
abbreviation STATE_PORT_NETWORK_RECV_CONNECTION_CLOSED :: int where "STATE_PORT_NETWORK_RECV_CONNECTION_CLOSED \<equiv> - 0x0F15"
abbreviation STATE_MQTT_LOG_CONNECT_TIMEOUT :: int where "STATE_MQTT_LOG_CONNECT_TIMEOUT \<equiv> - 0x0315"

datatype socket_type = Tcp_client | Tcp_server | Udp_client | Udp_server

record network_handle =
  nh_fd :: int
  nh_socket_type :: socket_type
  nh_host :: "string option"
  nh_backup_ip :: "char list" \<comment> \<open>the 16 bytes\<close>
  nh_port :: u16
  nh_connect_timeout_ms :: u32

definition core_sysdep_network_init_posix :: "bool \<Rightarrow> network_handle option" where
  "core_sysdep_network_init_posix memory =
     (if \<not> memory then None
      else Some \<lparr> nh_fd = 0, nh_socket_type = Tcp_client, nh_host = None, nh_backup_ip = replicate 16 NUL,
        nh_port = 0, nh_connect_timeout_ms = 10 * 1000 \<rparr>)"

text \<open>
  The types of \<^verbatim>\<open>aiot_sysdep_api.h\<close>: the credentials of a connection (a certificate is
  the pointer and the length the user gave), and the options with their data.
\<close>

datatype cred_option = Cred_none | Cred_svrcert_ca | Cred_svrcert_psk | Cred_max

record tls_credentials =
  cr_option :: cred_option
  cr_max_tls_fragment :: u32
  cr_sni_enabled :: byte
  cr_server_cert :: "string option"
  cr_server_cert_len :: u32
  cr_client_cert :: "string option"
  cr_client_cert_len :: u32
  cr_client_privkey :: "string option"
  cr_client_privkey_len :: u32
  cr_tls_extend_info :: "string option"

datatype network_option =
    Option_socket_type socket_type | Option_host string | Option_backup_ip string | Option_port u16
  | Option_connect_timeout_ms u32 | Option_cred tls_credentials | Option_psk string string | Option_out_of_range

text \<open>
  Credentials and keys are not for this layer, which ignores them. A backup address of more than 16
  characters overruns the handle.
\<close>

definition core_sysdep_network_setopt_posix ::
  "bool \<Rightarrow> network_handle option \<Rightarrow> network_option option \<Rightarrow> (int \<times> network_handle option) outcome" where
  "core_sysdep_network_setopt_posix memory handle data =
     (case handle of
        None \<Rightarrow> Ok (STATE_PORT_INPUT_NULL_POINTER, handle)
      | Some h \<Rightarrow> (case data of
          None \<Rightarrow> Ok (STATE_PORT_INPUT_NULL_POINTER, handle)
        | Some Option_out_of_range \<Rightarrow> Ok (STATE_PORT_INPUT_OUT_RANGE, handle)
        | Some (Option_socket_type t) \<Rightarrow> Ok (STATE_SUCCESS, Some (h \<lparr> nh_socket_type := t \<rparr>))
        | Some (Option_host host) \<Rightarrow>
            if \<not> memory then Ok (STATE_PORT_MALLOC_FAILED, Some (h \<lparr> nh_host := None \<rparr>))
            else Ok (STATE_SUCCESS, Some (h \<lparr> nh_host := Some host \<rparr>))
        | Some (Option_backup_ip ip) \<Rightarrow>
            if 16 < length ip then Undef
            else Ok (STATE_SUCCESS, Some (h \<lparr> nh_backup_ip := memcpy_at (nh_backup_ip h) 0 ip \<rparr>))
        | Some (Option_port port) \<Rightarrow> Ok (STATE_SUCCESS, Some (h \<lparr> nh_port := port \<rparr>))
        | Some (Option_connect_timeout_ms ms) \<Rightarrow> Ok (STATE_SUCCESS, Some (h \<lparr> nh_connect_timeout_ms := ms \<rparr>))
        | Some (Option_cred cred) \<Rightarrow> Ok (STATE_SUCCESS, handle)
        | Some (Option_psk psk_id psk) \<Rightarrow> Ok (STATE_SUCCESS, handle)))"

text \<open>The first loop of \<^verbatim>\<open>_port_uint2str\<close> stores the digits backwards, the second turns them round.\<close>

fun port_digits :: "nat \<Rightarrow> string" where
  "port_digits n = digit_char (n mod 10) # (if n div 10 > 0 then port_digits (n div 10) else [])"

declare port_digits.simps [simp del]

definition port_uint2str :: "u16 \<Rightarrow> string" where
  "port_uint2str input = rev (port_digits (unat input))"

section \<open>Connecting\<close>

datatype fd_event = Open_fd int | Close_fd int | Shutdown_fd int

text \<open>What \<^verbatim>\<open>connect\<close> answers: 0, or -1 with the error that matters.\<close>

datatype connect_answer = Connected | In_progress | Is_connected | Connect_error

text \<open>What the system answers for one address of the resolver's list.\<close>

record connect_attempt =
  at_socket :: int
  at_getfl :: bool
  at_setfl :: bool
  at_connect :: connect_answer
  at_select :: int
  at_isset :: bool
  at_again :: connect_answer

text \<open>The result, and whether the loop breaks with this socket as the connection.\<close>

definition try_attempt :: "connect_attempt \<Rightarrow> int \<times> bool" where
  "try_attempt a =
     (if \<not> (at_getfl a \<and> at_setfl a) then
        (if at_connect a = Connected then (STATE_SUCCESS, True) else (STATE_PORT_NETWORK_CONNECT_FAILED, False))
      else if at_connect a = Connected then (STATE_SUCCESS, True)
      else if at_connect a \<noteq> In_progress then (STATE_PORT_NETWORK_CONNECT_FAILED, False)
      else if at_select a = 0 then (STATE_MQTT_LOG_CONNECT_TIMEOUT, False)
      else if at_select a < 0 then (STATE_PORT_NETWORK_CONNECT_FAILED, False)
      else if \<not> at_isset a then (at_select a, False)
      else if at_again a = Connected \<or> at_again a = Is_connected then (STATE_SUCCESS, True)
      else (STATE_PORT_NETWORK_CONNECT_FAILED, False))"

text \<open>The loop over the addresses: the result, the connection, what happened to the descriptors.\<close>

fun connect_loop :: "connect_attempt list \<Rightarrow> int \<Rightarrow> int \<times> int option \<times> fd_event list" where
  "connect_loop [] res = (res, None, [])"
| "connect_loop (a # as) res =
     (if at_socket a < 0 then connect_loop as STATE_PORT_NETWORK_SOCKET_CREATE_FAILED
      else (case try_attempt a of (res1, connected) \<Rightarrow>
        if connected then (res1, Some (at_socket a), [Open_fd (at_socket a)])
        else (case connect_loop as res1 of (res2, fd, events) \<Rightarrow>
          (res2, fd, [Open_fd (at_socket a), Close_fd (at_socket a)] @ events))))"

text \<open>The answers to one call; \<open>cn_sockname\<close>: the local address can be read, else the program exits (\<open>Err\<close>).\<close>

record connect_answers =
  cn_getaddrinfo :: bool
  cn_attempts :: "connect_attempt list"
  cn_sockname :: bool

type_synonym connect_result = "(int \<times> network_handle \<times> fd_event list) outcome"

definition network_connect :: "connect_answers \<Rightarrow> network_handle \<Rightarrow> connect_result" where
  "network_connect ans h =
     (case (if cn_getaddrinfo ans then connect_loop (cn_attempts ans) 0 else (STATE_PORT_NETWORK_DNS_FAILED, None, [])) of
        (res, fd, events) \<Rightarrow>
          (let h1 = (case fd of None \<Rightarrow> h | Some f \<Rightarrow> h \<lparr> nh_fd := f \<rparr>) in
           if res < 0 then Ok (res, h1, events)
           else if \<not> cn_sockname ans then Err (-1)
           else Ok (STATE_SUCCESS, h1, events)))"

text \<open>The host, and after a resolver error the backup address; one that fills its 16 bytes has no end.\<close>

definition tcp_establish :: "connect_answers \<Rightarrow> connect_answers \<Rightarrow> network_handle \<Rightarrow> connect_result" where
  "tcp_establish ans backup h =
     obind (network_connect ans h) (\<lambda>(res, h1, events).
       if res \<noteq> STATE_PORT_NETWORK_DNS_FAILED then Ok (res, h1, events)
       else if NUL \<notin> set (nh_backup_ip h1) then Undef
       else if cstr (nh_backup_ip h1) = [] then Ok (res, h1, events)
       else obind (network_connect backup h1) (\<lambda>(res2, h2, events2). Ok (res2, h2, events @ events2)))"

record server_answers =
  sv_socket :: int
  sv_setsockopt :: bool
  sv_bind :: bool

definition udp_server_establish :: "server_answers \<Rightarrow> network_handle \<Rightarrow> connect_result" where
  "udp_server_establish ans h =
     (if sv_socket ans < 0 then Ok (STATE_PORT_NETWORK_SOCKET_CREATE_FAILED, h, [])
      else if \<not> sv_setsockopt ans then
        Ok (STATE_PORT_NETWORK_SOCKET_CONFIG_FAILED, h, [Open_fd (sv_socket ans), Close_fd (sv_socket ans)])
      else if \<not> sv_bind ans then
        Ok (STATE_PORT_NETWORK_SOCKET_BIND_FAILED, h, [Open_fd (sv_socket ans), Close_fd (sv_socket ans)])
      else Ok (0, h \<lparr> nh_fd := sv_socket ans \<rparr>, [Open_fd (sv_socket ans)]))"

definition core_sysdep_network_establish_posix ::
  "connect_answers \<Rightarrow> connect_answers \<Rightarrow> server_answers \<Rightarrow> network_handle option
    \<Rightarrow> (int \<times> network_handle option \<times> fd_event list) outcome" where
  "core_sysdep_network_establish_posix ans backup server handle =
     (case handle of
        None \<Rightarrow> Ok (STATE_PORT_INPUT_NULL_POINTER, None, [])
      | Some h \<Rightarrow>
          obind (case nh_socket_type h of
             Tcp_client \<Rightarrow> if nh_host h = None then Ok (STATE_PORT_MISSING_HOST, h, []) else tcp_establish ans backup h
           | Tcp_server \<Rightarrow> Ok (STATE_PORT_TCP_SERVER_NOT_IMPLEMENT, h, [])
           | Udp_client \<Rightarrow> if nh_host h = None then Ok (STATE_PORT_MISSING_HOST, h, []) else network_connect ans h
           | Udp_server \<Rightarrow> udp_server_establish server h)
          (\<lambda>(res, h1, events). Ok (res, Some h1, events)))"

text \<open>The handle is freed; the result is what happens to the descriptors.\<close>

definition core_sysdep_network_deinit_posix :: "network_handle option \<Rightarrow> int \<times> fd_event list" where
  "core_sysdep_network_deinit_posix handle =
     (case handle of
        None \<Rightarrow> (STATE_PORT_INPUT_NULL_POINTER, [])
      | Some h \<Rightarrow>
          (0, if (nh_socket_type h = Tcp_client \<or> nh_socket_type h = Udp_client) \<and> nh_host h \<noteq> None
              then [Shutdown_fd (nh_fd h), Close_fd (nh_fd h)] else []))"

section \<open>The timed loops\<close>

text \<open>
  A round of a loop: the clock it reads, what \<^verbatim>\<open>select\<close> answers (0: the time is over), and
  what \<^verbatim>\<open>recv\<close> or \<^verbatim>\<open>send\<close> answers: that it moved something (bytes that
  came, or a number of bytes that went), 0, or -1 because of a signal or another error.
\<close>

datatype 'm io_answer = Moved 'm | Io_closed | Interrupted | Io_error

record 'm io_round =
  io_now :: u64
  io_select :: int
  io_answer :: "'m io_answer"

definition time_over :: "u32 \<Rightarrow> u64 \<Rightarrow> u64 \<Rightarrow> bool" where
  "time_over timeout_ms start now \<longleftrightarrow>
     now - start \<ge> now \<or> (ucast timeout_ms :: u64) - (now - start) > ucast timeout_ms"

text \<open>
  The two loops differ in the error codes and in \<open>gain\<close>, the bytes that a call with so many bytes
  done has moved. \<open>watching\<close>: the descriptor is still in the set, which \<^verbatim>\<open>select\<close>
  empties when the time is over; \<open>one\<close>: the loop ends with the first bytes. The result with what
  was moved, or \<open>None\<close> where the loop has not ended with the rounds given.
\<close>

fun io_loop :: "(nat \<Rightarrow> 'm \<Rightarrow> byte list) \<Rightarrow> int \<Rightarrow> int \<Rightarrow> bool \<Rightarrow> u32 \<Rightarrow> u64 \<Rightarrow> nat \<Rightarrow> bool \<Rightarrow> byte list
    \<Rightarrow> 'm io_round list \<Rightarrow> (int \<times> byte list) option" where
  "io_loop gain closed failed one timeout_ms start len watching moved [] = None"
| "io_loop gain closed failed one timeout_ms start len watching moved (r # rs) =
     (let next = (\<lambda>w m. if io_now r - start < ucast timeout_ms \<and> length m < len
                        then io_loop gain closed failed one timeout_ms start len w m rs
                        else Some (int (length m), m)) in
      if time_over timeout_ms start (io_now r) then Some (int (length moved), moved)
      else if io_select r = 0 then next False moved
      else if io_select r < 0 then Some (STATE_PORT_NETWORK_SELECT_FAILED, moved)
      else if \<not> watching then next False moved
      else (case io_answer r of
          Io_closed \<Rightarrow> Some (closed, moved)
        | Interrupted \<Rightarrow> next True moved
        | Io_error \<Rightarrow> Some (failed, moved)
        | Moved x \<Rightarrow>
            (let m = moved @ gain (length moved) x in
             if one \<or> length m = len then Some (int (length m), m) else next True m)))"

text \<open>\<^verbatim>\<open>recv\<close> gives at most the bytes it is asked for; \<^verbatim>\<open>send\<close> takes at most those it is given.\<close>

definition network_recv :: "socket_type \<Rightarrow> nat \<Rightarrow> u32 \<Rightarrow> u64 \<Rightarrow> byte list io_round list \<Rightarrow> (int \<times> byte list) option" where
  "network_recv type len timeout_ms start rounds =
     io_loop (\<lambda>n bs. take (len - n) bs) STATE_PORT_NETWORK_RECV_CONNECTION_CLOSED STATE_PORT_NETWORK_RECV_FAILED
       (type = Udp_client) timeout_ms start len True [] rounds"

definition network_send :: "byte list \<Rightarrow> u32 \<Rightarrow> u64 \<Rightarrow> nat io_round list \<Rightarrow> (int \<times> byte list) option" where
  "network_send buffer timeout_ms start rounds =
     io_loop (\<lambda>n k. take k (drop n buffer)) STATE_PORT_NETWORK_SEND_CONNECTION_CLOSED STATE_PORT_NETWORK_SEND_FAILED
       False timeout_ms start (length buffer) True [] rounds"

text \<open>A server of datagrams waits once: the answer of \<^verbatim>\<open>select\<close>, then of the call, -1 for an error.\<close>

definition udp_server_recv :: "nat \<Rightarrow> int \<Rightarrow> byte list option \<Rightarrow> int \<times> byte list" where
  "udp_server_recv len sel received =
     (if sel = 0 then (0, [])
      else if sel < 0 then (STATE_PORT_NETWORK_SELECT_FAILED, [])
      else (case received of
          None \<Rightarrow> (STATE_PORT_NETWORK_RECV_FAILED, [])
        | Some bs \<Rightarrow> (int (length (take len bs)), take len bs)))"

definition udp_send :: "byte list \<Rightarrow> string option \<Rightarrow> int \<Rightarrow> nat option \<Rightarrow> int \<times> byte list" where
  "udp_send buffer addr sel sent =
     (if addr = None then (STATE_PORT_NETWORK_SEND_FAILED, [])
      else if sel = 0 then (0, [])
      else if sel < 0 then (STATE_PORT_NETWORK_SELECT_FAILED, [])
      else (case sent of
          None \<Rightarrow> (STATE_PORT_NETWORK_SEND_FAILED, [])
        | Some k \<Rightarrow> (int (length (take k buffer)), take k buffer)))"

text \<open>What the system answers a call: to the loop of a client, or to the server.\<close>

record 'm io_answers =
  ia_start :: u64
  ia_rounds :: "'m io_round list"
  ia_select :: int
  ia_server :: "'m option"

definition core_sysdep_network_recv_posix ::
  "byte list io_answers \<Rightarrow> network_handle option \<Rightarrow> nat \<Rightarrow> u32 \<Rightarrow> (int \<times> byte list) option" where
  "core_sysdep_network_recv_posix ans handle len timeout_ms =
     (case handle of
        None \<Rightarrow> Some (STATE_PORT_INPUT_NULL_POINTER, [])
      | Some h \<Rightarrow>
          if len = 0 \<or> timeout_ms = 0 then Some (STATE_PORT_INPUT_OUT_RANGE, [])
          else (case nh_socket_type h of
              Tcp_client \<Rightarrow> network_recv Tcp_client len timeout_ms (ia_start ans) (ia_rounds ans)
            | Tcp_server \<Rightarrow> Some (STATE_PORT_TCP_SERVER_NOT_IMPLEMENT, [])
            | Udp_client \<Rightarrow> network_recv Udp_client len timeout_ms (ia_start ans) (ia_rounds ans)
            | Udp_server \<Rightarrow> Some (udp_server_recv len (ia_select ans) (ia_server ans))))"

definition core_sysdep_network_send_posix ::
  "nat io_answers \<Rightarrow> network_handle option \<Rightarrow> byte list \<Rightarrow> u32 \<Rightarrow> string option \<Rightarrow> (int \<times> byte list) option" where
  "core_sysdep_network_send_posix ans handle buffer timeout_ms addr =
     (case handle of
        None \<Rightarrow> Some (STATE_PORT_INPUT_NULL_POINTER, [])
      | Some h \<Rightarrow>
          if buffer = [] \<or> timeout_ms = 0 then Some (STATE_PORT_INPUT_OUT_RANGE, [])
          else (case nh_socket_type h of
              Tcp_server \<Rightarrow> Some (STATE_PORT_TCP_SERVER_NOT_IMPLEMENT, [])
            | Udp_server \<Rightarrow> Some (udp_send buffer addr (ia_select ans) (ia_server ans))
            | _ \<Rightarrow> network_send buffer timeout_ms (ia_start ans) (ia_rounds ans)))"

section \<open>Random bytes\<close>

text \<open>The inner loop writes the low bytes of a number, the highest first; \<open>rand n\<close>: the \<open>n\<close>-th number.\<close>

fun rand_bytes :: "u32 \<Rightarrow> nat \<Rightarrow> byte list" where
  "rand_bytes num 0 = []"
| "rand_bytes num (Suc bytes) = (ucast (drop_bit (bytes * 8) num) :: byte) # rand_bytes num bytes"

fun rand_loop :: "(nat \<Rightarrow> u32) \<Rightarrow> nat \<Rightarrow> nat \<Rightarrow> byte list" where
  "rand_loop rand n left =
     (if left = 0 then []
      else if left < 4 then rand_bytes (rand n) left
      else rand_bytes (rand n) 4 @ rand_loop rand (Suc n) (left - 4))"

declare rand_loop.simps [simp del]

definition core_sysdep_rand_posix :: "(nat \<Rightarrow> u32) \<Rightarrow> nat \<Rightarrow> byte list" where
  "core_sysdep_rand_posix rand output_len = rand_loop rand 0 output_len"

section \<open>Mutexes\<close>

text \<open>
  A mutex that could not be made is NULL: locking and unlocking it does nothing, destroying it is
  undefined, since only the pointer to the pointer is tested. The result of a lock is whether it is taken.
\<close>

definition core_sysdep_mutex_init_posix :: "bool \<Rightarrow> bool \<Rightarrow> 'm \<Rightarrow> 'm option" where
  "core_sysdep_mutex_init_posix memory initialised m = (if \<not> memory \<or> \<not> initialised then None else Some m)"

definition core_sysdep_mutex_lock_posix :: "'m set \<Rightarrow> 'm option \<Rightarrow> 'm set" where
  "core_sysdep_mutex_lock_posix held mutex = (case mutex of None \<Rightarrow> held | Some m \<Rightarrow> insert m held)"

definition core_sysdep_mutex_unlock_posix :: "'m set \<Rightarrow> 'm option \<Rightarrow> 'm set" where
  "core_sysdep_mutex_unlock_posix held mutex = (case mutex of None \<Rightarrow> held | Some m \<Rightarrow> held - {m})"

definition core_sysdep_mutex_deinit_posix :: "'m option option \<Rightarrow> 'm option option outcome" where
  "core_sysdep_mutex_deinit_posix mutex =
     (case mutex of
        None \<Rightarrow> Ok None
      | Some None \<Rightarrow> Undef
      | Some (Some m) \<Rightarrow> Ok (Some None))"

text \<open>The users of the port do not test a new mutex: without memory for it nothing is exclusive, and its end is undefined.\<close>

lemma mutex_without_memory:
  "core_sysdep_mutex_lock_posix held (core_sysdep_mutex_init_posix False initialised m) = held
   \<and> core_sysdep_mutex_deinit_posix (Some (core_sysdep_mutex_init_posix False initialised m)) = Undef"
  by (simp add: core_sysdep_mutex_init_posix_def core_sysdep_mutex_lock_posix_def core_sysdep_mutex_deinit_posix_def)

section \<open>The digits of the port\<close>

lemma port_digits_dec: "rev (port_digits n) = nat_dec n"
  by (induction n rule: port_digits.induct) (subst port_digits.simps, subst nat_dec.simps, auto)

text \<open>The service fits the buffer of 6 bytes with its NUL.\<close>

lemma port_uint2str_dec: "port_uint2str port = nat_dec (unat port) \<and> length (port_uint2str port) \<le> 5"
proof -
  have "unat port < 10 ^ 5" using unsigned_less [of port, where ?'a = nat] by simp
  then show ?thesis by (simp add: port_uint2str_def port_digits_dec length_nat_dec_le)
qed

section \<open>The descriptors of the process\<close>

definition descriptors :: "int set \<Rightarrow> fd_event list \<Rightarrow> int set" where
  "descriptors open_fds events =
     fold (\<lambda>e fds. case e of Open_fd f \<Rightarrow> insert f fds | Close_fd f \<Rightarrow> fds - {f} | Shutdown_fd f \<Rightarrow> fds) events open_fds"

lemma descriptors_simps [simp]:
  "descriptors fds [] = fds"
  "descriptors fds (Open_fd f # es) = descriptors (insert f fds) es"
  "descriptors fds (Close_fd f # es) = descriptors (fds - {f}) es"
  "descriptors fds (Shutdown_fd f # es) = descriptors fds es"
  "descriptors fds (es @ es') = descriptors (descriptors fds es) es'"
  by (simp_all add: descriptors_def)

definition of_connection :: "int option \<Rightarrow> int set" where
  "of_connection fd = (case fd of None \<Rightarrow> {} | Some f \<Rightarrow> {f})"

lemma of_connection_simps [simp]: "of_connection None = {}" "of_connection (Some f) = {f}"
  by (simp_all add: of_connection_def)

text \<open>The system gives sockets that are not open, and selects only the descriptor it was asked about.\<close>

definition sane_attempts :: "int set \<Rightarrow> connect_attempt list \<Rightarrow> bool" where
  "sane_attempts fds as \<longleftrightarrow>
     (\<forall>a \<in> set as. at_socket a \<notin> fds \<and> (at_select a > 0 \<longrightarrow> at_isset a))"

definition sane_answers :: "int set \<Rightarrow> connect_answers \<Rightarrow> bool" where
  "sane_answers fds ans \<longleftrightarrow> cn_sockname ans \<and> cn_attempts ans \<noteq> [] \<and> sane_attempts fds (cn_attempts ans)"

lemma try_attempt_result:
  assumes "at_select a > 0 \<Longrightarrow> at_isset a" and "try_attempt a = (res, connected)"
  shows "if connected then res = STATE_SUCCESS else res < 0 \<and> res \<noteq> STATE_PORT_NETWORK_DNS_FAILED"
  using assms by (auto simp: try_attempt_def split: if_splits)

lemma connect_loop_descriptors:
  assumes "sane_attempts fds as" and "connect_loop as res = (res', fd, events)"
  shows "descriptors fds events = fds \<union> of_connection fd
    \<and> (case fd of Some f \<Rightarrow> res' = STATE_SUCCESS \<and> f \<notin> fds \<and> 0 \<le> f
        | None \<Rightarrow> res' = res \<and> as = [] \<or> res' < 0 \<and> res' \<noteq> STATE_PORT_NETWORK_DNS_FAILED)"
  using assms
proof (induction as arbitrary: res events)
  case Nil
  then show ?case by simp
next
  case (Cons a as)
  have sane: "sane_attempts fds as" "at_socket a \<notin> fds" "at_select a > 0 \<Longrightarrow> at_isset a"
    using Cons.prems(1) by (auto simp: sane_attempts_def)
  obtain res1 connected where a: "try_attempt a = (res1, connected)" by (cases "try_attempt a")
  note result = try_attempt_result [OF sane(3) a]
  show ?case
  proof (cases "at_socket a < 0 \<or> \<not> connected")
    case True
    obtain res0 events0 where rest: "connect_loop as res0 = (res', fd, events0)" "res0 < 0"
        "res0 \<noteq> STATE_PORT_NETWORK_DNS_FAILED" and ev: "descriptors fds events = descriptors fds events0"
      using True Cons.prems(2) sane(2) result by (auto simp: a split: prod.splits if_splits)
    show ?thesis using Cons.IH [OF sane(1) rest(1)] rest(2,3) by (auto simp: ev split: option.splits)
  next
    case False
    then show ?thesis using Cons.prems(2) sane(2) result by (auto simp: a)
  qed
qed

text \<open>A connection: what it leaves open, and what its result says.\<close>

definition connects :: "int set \<Rightarrow> network_handle \<Rightarrow> int \<Rightarrow> network_handle \<Rightarrow> fd_event list \<Rightarrow> bool" where
  "connects fds h res h' events \<longleftrightarrow>
     (if res = STATE_SUCCESS then
        (\<exists>f. f \<notin> fds \<and> 0 \<le> f \<and> h' = h \<lparr> nh_fd := f \<rparr> \<and> descriptors fds events = insert f fds)
      else res < 0 \<and> h' = h \<and> descriptors fds events = fds)"

lemma network_connect_descriptors:
  assumes "sane_answers fds ans" and "network_connect ans h = Ok (res, h', events)"
  shows "connects fds h res h' events"
proof (cases "cn_getaddrinfo ans")
  case True
  obtain res1 fd events1 where loop: "connect_loop (cn_attempts ans) 0 = (res1, fd, events1)"
    by (cases "connect_loop (cn_attempts ans) 0") auto
  have sane: "sane_attempts fds (cn_attempts ans)" "cn_attempts ans \<noteq> []" "cn_sockname ans"
    using assms(1) by (auto simp: sane_answers_def)
  show ?thesis
    using connect_loop_descriptors [OF sane(1) loop] assms(2) sane(2,3) True
    by (cases fd) (auto simp: network_connect_def loop connects_def)
next
  case False
  then show ?thesis using assms by (auto simp: network_connect_def connects_def)
qed

lemma tcp_establish_descriptors:
  assumes "sane_answers fds ans" and "sane_answers fds backup" and "tcp_establish ans backup h = Ok (res, h', events)"
  shows "connects fds h res h' events"
proof -
  obtain res1 h1 events1 where one: "network_connect ans h = Ok (res1, h1, events1)"
    using assms(3) by (cases "network_connect ans h") (auto simp: tcp_establish_def)
  note first = network_connect_descriptors [OF assms(1) one]
  show ?thesis
  proof (cases "res1 = STATE_PORT_NETWORK_DNS_FAILED \<and> NUL \<in> set (nh_backup_ip h1) \<and> cstr (nh_backup_ip h1) \<noteq> []")
    case True
    then obtain events2 where two: "network_connect backup h1 = Ok (res, h', events2)" "events = events1 @ events2"
      using assms(3) by (cases "network_connect backup h1") (auto simp: tcp_establish_def one)
    show ?thesis
      using network_connect_descriptors [OF assms(2) two(1)] first True by (auto simp: connects_def two(2))
  next
    case False
    then show ?thesis using first assms(3) by (auto simp: tcp_establish_def one split: if_splits)
  qed
qed

lemma establish_descriptors:
  assumes "sane_answers fds ans" and "sane_answers fds backup"
    and "nh_socket_type h = Tcp_client \<or> nh_socket_type h = Udp_client"
    and "core_sysdep_network_establish_posix ans backup server (Some h) = Ok (res, nh, events)"
  obtains h' where "nh = Some h'" "connects fds h res h' events" "res = STATE_SUCCESS \<longrightarrow> nh_host h \<noteq> None"
proof (cases "nh_host h")
  case None
  then show thesis using assms(3,4) that [of h]
    by (auto simp: core_sysdep_network_establish_posix_def connects_def)
next
  case (Some host)
  define result where "result = (if nh_socket_type h = Tcp_client then tcp_establish ans backup h else network_connect ans h)"
  have "obind result (\<lambda>(res, h1, events). Ok (res, Some h1, events)) = Ok (res, nh, events)"
    using assms(3,4) Some by (auto simp: core_sysdep_network_establish_posix_def result_def)
  then obtain h' where h': "result = Ok (res, h', events)" "nh = Some h'"
    by (cases result) auto
  show thesis using that [OF h'(2)] h'(1) Some tcp_establish_descriptors [OF assms(1,2)] network_connect_descriptors [OF assms(1)]
    by (auto simp: result_def split: if_splits)
qed

text \<open>
  C22. Sockets of a client. For every answer of the resolver and the sockets, a connection that is made
  leaves exactly one descriptor more open, that of the handle, and closing the handle closes exactly it:
  the other addresses that were tried are closed again. A connection that is not made leaves nothing
  open; but closing a handle that has a host closes the descriptor it holds in any case, and where
  it never connected that is 0, the standard input of the process.
\<close>

theorem port_descriptors:
  assumes "sane_answers fds ans" and "sane_answers fds backup"
    and "nh_socket_type h = Tcp_client \<or> nh_socket_type h = Udp_client" and "nh_fd h = 0"
    and "core_sysdep_network_establish_posix ans backup server (Some h) = Ok (res, Some h', events)"
  shows "(res = STATE_SUCCESS \<or> res < 0)
    \<and> descriptors fds events = (if res = STATE_SUCCESS then insert (nh_fd h') fds else fds)
    \<and> descriptors fds (events @ snd (core_sysdep_network_deinit_posix (Some h'))) =
        (if res = STATE_SUCCESS \<or> nh_host h = None then fds else fds - {0})"
proof -
  have made: "connects fds h res h' events \<and> (res = STATE_SUCCESS \<longrightarrow> nh_host h \<noteq> None)"
    using establish_descriptors [OF assms(1,2,3,5)] by (metis option.inject)
  show ?thesis
  proof (cases "res = STATE_SUCCESS")
    case True
    then obtain f where f: "f \<notin> fds" "h' = h \<lparr> nh_fd := f \<rparr>" "descriptors fds events = insert f fds" "nh_host h \<noteq> None"
      using made by (auto simp: connects_def)
    show ?thesis using assms(3) f by (simp add: True core_sysdep_network_deinit_posix_def insert_Diff_if)
  next
    case False
    then have "res < 0" "h' = h" "descriptors fds events = fds" using made by (auto simp: connects_def)
    then show ?thesis using assms(3,4) False by (simp add: core_sysdep_network_deinit_posix_def)
  qed
qed

definition sample_attempts :: "connect_attempt list" where
  "sample_attempts =
     [\<lparr> at_socket = 5, at_getfl = True, at_setfl = True, at_connect = In_progress, at_select = 0, at_isset = False,
        at_again = Connect_error \<rparr>,
      \<lparr> at_socket = 5, at_getfl = True, at_setfl = True, at_connect = In_progress, at_select = 1, at_isset = True,
        at_again = Is_connected \<rparr>]"

definition sample_answers :: connect_answers where
  "sample_answers = \<lparr> cn_getaddrinfo = True, cn_attempts = sample_attempts, cn_sockname = True \<rparr>"

definition sample_network :: network_handle where
  "sample_network = \<lparr> nh_fd = 0, nh_socket_type = Tcp_client, nh_host = Some ''h'', nh_backup_ip = replicate 16 NUL,
     nh_port = 1883, nh_connect_timeout_ms = 10000 \<rparr>"

lemma sample_sane: "sane_answers {0, 1, 2} sample_answers"
  by (simp add: sane_answers_def sane_attempts_def sample_answers_def sample_attempts_def)

lemma sample_establish:
  "core_sysdep_network_establish_posix sample_answers sample_answers server (Some sample_network) =
     Ok (0, Some (sample_network \<lparr> nh_fd := 5 \<rparr>), [Open_fd 5, Close_fd 5, Open_fd 5])"
  by (simp add: core_sysdep_network_establish_posix_def tcp_establish_def network_connect_def sample_answers_def
      sample_attempts_def try_attempt_def sample_network_def)

theorem port_descriptors_witness:
  "descriptors {0, 1, 2} [Open_fd 5, Close_fd 5, Open_fd 5] = insert 5 {0, 1, 2 :: int}
   \<and> descriptors {0, 1, 2} ([Open_fd 5, Close_fd 5, Open_fd 5]
       @ snd (core_sysdep_network_deinit_posix (Some (sample_network \<lparr> nh_fd := 5 \<rparr>)))) = {0, 1, 2 :: int}"
  using port_descriptors [OF sample_sane sample_sane _ _ sample_establish [of undefined]]
  by (simp add: sample_network_def)

text \<open>The descriptor of a server stays open when its handle is closed.\<close>

lemma udp_server_descriptor_leaks:
  assumes "udp_server_establish server h = Ok (0, h', events)" and "nh_socket_type h = Udp_server"
  shows "nh_fd h' \<in> descriptors fds (events @ snd (core_sysdep_network_deinit_posix (Some h')))"
  using assms by (auto simp: udp_server_establish_def core_sysdep_network_deinit_posix_def split: if_splits)

section \<open>What the loops move\<close>

text \<open>The loop has not ended with the rounds it was given only where the clock stays below the time out.\<close>

lemma io_loop_returns:
  assumes "r \<in> set rounds" and "ucast timeout_ms \<le> io_now r - start"
  shows "io_loop gain closed failed one timeout_ms start len watching moved rounds \<noteq> None"
  using assms
proof (induction rounds arbitrary: watching moved)
  case (Cons x rounds)
  then show ?case by (cases "x = r") (auto simp: Let_def not_less split: io_answer.splits)
qed simp

text \<open>The bytes of a stream: what every answer adds is the next piece, until the loop ends.\<close>

definition moved_by :: "'m io_round \<Rightarrow> 'm list" where
  "moved_by r = (if 0 < io_select r then (case io_answer r of Moved x \<Rightarrow> [x] | _ \<Rightarrow> []) else [])"

definition received :: "byte list io_round list \<Rightarrow> byte list" where
  "received rounds = concat (concat (map moved_by rounds))"

lemma received_simps [simp]:
  "received [] = []"
  "received (r # rs) = concat (moved_by r) @ received rs"
  by (simp_all add: received_def)

text \<open>A round ends the loop, with what was moved, or the loop goes on with the rest.\<close>

definition ends_with :: "int \<Rightarrow> int \<Rightarrow> byte list \<Rightarrow> int \<times> byte list \<Rightarrow> bool" where
  "ends_with closed failed m result \<longleftrightarrow>
     snd result = m \<and> (fst result = int (length m) \<or> fst result \<in> {closed, failed, STATE_PORT_NETWORK_SELECT_FAILED})"

lemma io_loop_step:
  assumes "io_loop gain closed failed one timeout_ms start len watching moved (r # rounds) = Some result"
  obtains (quiet) w where "moved_by r = [] \<or> \<not> watching" "w \<longrightarrow> watching"
      "ends_with closed failed moved result \<or> io_loop gain closed failed one timeout_ms start len w moved rounds = Some result"
  | (moves) x where "moved_by r = [x]" "watching"
      "ends_with closed failed (moved @ gain (length moved) x) result
        \<or> io_loop gain closed failed one timeout_ms start len True (moved @ gain (length moved) x) rounds = Some result"
  | (late) "ends_with closed failed moved result"
proof (cases "time_over timeout_ms start (io_now r) \<or> io_select r < 0")
  case True
  then show thesis using assms late by (cases result) (auto simp: ends_with_def split: if_splits)
next
  case False
  show thesis
  proof (cases "io_select r = 0 \<or> \<not> watching")
    case True
    then show thesis using assms False quiet [of False]
      by (cases result) (auto simp: ends_with_def moved_by_def Let_def split: if_splits)
  next
    case go: False
    show thesis
    proof (cases "io_answer r")
      case (Moved x)
      then show thesis using assms False go moves [of x]
        by (cases result) (auto simp: ends_with_def moved_by_def Let_def split: if_splits)
    qed (use assms False go quiet [of True] in
        \<open>cases result; auto simp: ends_with_def moved_by_def Let_def split: if_splits\<close>)+
  qed
qed

lemma io_loop_invariant:
  assumes "io_loop gain closed failed one timeout_ms start len watching moved rounds = Some result"
    and "I moved" and "\<And>m x. I m \<Longrightarrow> I (m @ gain (length m) x)"
  shows "ends_with closed failed (snd result) result \<and> I (snd result)"
  using assms(1,2)
proof (induction rounds arbitrary: watching moved)
  case (Cons r rounds)
  from Cons.prems(1) show ?case
    by (cases rule: io_loop_step) (use Cons.IH Cons.prems(2) assms(3) in \<open>auto simp: ends_with_def\<close>)
qed simp

lemma network_send_pieces:
  assumes "network_send buffer timeout_ms start rounds = Some result"
  shows "ends_with STATE_PORT_NETWORK_SEND_CONNECTION_CLOSED STATE_PORT_NETWORK_SEND_FAILED (snd result) result
    \<and> (\<exists>n. snd result = take n buffer)"
proof (rule io_loop_invariant [OF assms [unfolded network_send_def]])
  have piece: "take n buffer @ take k (drop (length (take n buffer)) buffer) = take (n + k) buffer" for n k
    by (cases "n \<le> length buffer") (auto simp: take_add min_def)
  show "\<exists>n. m @ take k (drop (length m) buffer) = take n buffer" if "\<exists>n. m = take n buffer" for m k
    using that piece by metis
qed (rule exI [of _ 0], simp)

lemma io_loop_unwatched:
  assumes "io_loop gain closed failed one timeout_ms start len False moved rounds = Some result"
  shows "snd result = moved"
  using assms
proof (induction rounds)
  case (Cons r rounds)
  from Cons.prems show ?case by (cases rule: io_loop_step) (use Cons.IH in \<open>auto simp: ends_with_def\<close>)
qed simp

lemma io_loop_recv:
  assumes "io_loop (\<lambda>n bs. take (len - n) bs) closed failed one timeout_ms start len watching moved rounds = Some result"
    and "moved = take len before"
  shows "\<exists>k. snd result = take len (before @ received (take k rounds))"
  using assms
proof (induction rounds arbitrary: watching moved before)
  case (Cons r rounds)
  have stop: "\<exists>k. moved = take len (before @ received (take k (r # rounds)))"
    by (rule exI [of _ 0]) (simp add: Cons.prems(2))
  have more: "\<exists>k. m = take len (before @ received (take k (r # rounds)))"
    if "\<exists>k. m = take len (before @ concat (moved_by r) @ received (take k rounds))" for m
    using that by (metis received_simps(2) take_Suc_Cons)
  from Cons.prems(1) show ?case
  proof (cases rule: io_loop_step)
    case (quiet w)
    show ?thesis
    proof (cases "ends_with closed failed moved result \<or> \<not> w")
      case True
      then have "snd result = moved" using quiet(3) io_loop_unwatched [where result = result]
        by (auto simp: ends_with_def)
      then show ?thesis using stop by simp
    next
      case False
      then show ?thesis using more Cons.IH [OF _ Cons.prems(2)] quiet by auto
    qed
  next
    case (moves x)
    have next_moved: "moved @ take (len - length moved) x = take len (before @ x)"
      by (cases "length before \<le> len") (simp_all add: Cons.prems(2))
    show ?thesis
    proof (cases "ends_with closed failed (take len (before @ x)) result")
      case True
      then have "\<exists>k. snd result = take len (before @ concat (moved_by r) @ received (take k rounds))"
        by (intro exI [of _ 0]) (simp add: ends_with_def moves(1))
      then show ?thesis by (rule more)
    next
      case False
      then have "\<exists>k. snd result = take len ((before @ x) @ received (take k rounds))"
        using moves(3) unfolding next_moved by (blast intro: Cons.IH [OF _ refl])
      then show ?thesis by (intro more) (simp add: moves(1))
    qed
  next
    case late
    then show ?thesis using stop by (simp add: ends_with_def)
  qed
qed simp

text \<open>
  Receiving ends and keeps the order. Once the clock of a round shows that the time out has passed,
  the call has returned; what it has read is the beginning of what the connection gave, in order and never
  longer than the buffer, and a result that is not negative is its length.
\<close>

theorem port_recv_exact:
  assumes "r \<in> set (ia_rounds ans)" and "ucast timeout_ms \<le> io_now r - ia_start ans"
    and "nh_socket_type h = Tcp_client \<or> nh_socket_type h = Udp_client"
  shows "\<exists>res got k. core_sysdep_network_recv_posix ans (Some h) len timeout_ms = Some (res, got)
    \<and> got = take len (received (take k (ia_rounds ans))) \<and> (0 \<le> res \<longrightarrow> res = int (length got))"
proof (cases "len = 0 \<or> timeout_ms = 0")
  case True
  then show ?thesis by (auto simp: core_sysdep_network_recv_posix_def intro: exI [of _ 0])
next
  case False
  let ?loop = "network_recv (nh_socket_type h) len timeout_ms (ia_start ans) (ia_rounds ans)"
  have call: "core_sysdep_network_recv_posix ans (Some h) len timeout_ms = ?loop"
    using assms(3) False by (auto simp: core_sysdep_network_recv_posix_def)
  obtain res got where loop: "?loop = Some (res, got)"
    using io_loop_returns [OF assms(1,2)] by (fastforce simp: network_recv_def)
  obtain k where "got = take len (received (take k (ia_rounds ans)))"
    using io_loop_recv [OF loop [unfolded network_recv_def], of "[]"] by auto
  moreover have "0 \<le> res \<longrightarrow> res = int (length got)"
    using io_loop_invariant [OF loop [unfolded network_recv_def], of "\<lambda>_. True"] by (auto simp: ends_with_def)
  ultimately show ?thesis using call loop by auto
qed

definition sample_recv :: "byte list io_answers" where
  "sample_recv = \<lparr> ia_start = 1000, ia_rounds =
     [\<lparr> io_now = 1000, io_select = 1, io_answer = Moved [1, 2] \<rparr>, \<lparr> io_now = 1001, io_select = 1, io_answer = Interrupted \<rparr>,
      \<lparr> io_now = 1020, io_select = 0, io_answer = Io_error \<rparr>], ia_select = 0, ia_server = None \<rparr>"

theorem port_recv_exact_witness:
  "\<exists>res got k. core_sysdep_network_recv_posix sample_recv (Some sample_network) 4 20 = Some (res, got)
    \<and> got = take 4 (received (take k (ia_rounds sample_recv))) \<and> (0 \<le> res \<longrightarrow> res = int (length got))"
  by (rule port_recv_exact [of "\<lparr> io_now = 1020, io_select = 0, io_answer = Io_error \<rparr>"])
    (simp_all add: sample_recv_def sample_network_def)

text \<open>
  Sending ends and sends a prefix: as for receiving, and what went out is the beginning of the buffer,
  each byte once, so a result that is the length of the buffer says that all of it went out.
\<close>

theorem port_send_exact:
  assumes "r \<in> set (ia_rounds ans)" and "ucast timeout_ms \<le> io_now r - ia_start ans"
    and "nh_socket_type h = Tcp_client \<or> nh_socket_type h = Udp_client"
  shows "\<exists>res n. core_sysdep_network_send_posix ans (Some h) buffer timeout_ms addr = Some (res, take n buffer)
    \<and> (0 \<le> res \<longrightarrow> res = int (length (take n buffer)))"
proof (cases "buffer = [] \<or> timeout_ms = 0")
  case True
  then show ?thesis by (auto simp: core_sysdep_network_send_posix_def intro: exI [of _ 0])
next
  case False
  let ?loop = "network_send buffer timeout_ms (ia_start ans) (ia_rounds ans)"
  have call: "core_sysdep_network_send_posix ans (Some h) buffer timeout_ms addr = ?loop"
    using assms(3) False by (auto simp: core_sysdep_network_send_posix_def)
  obtain res went where loop: "?loop = Some (res, went)"
    using io_loop_returns [OF assms(1,2)] by (fastforce simp: network_send_def)
  show ?thesis using network_send_pieces [OF loop] call loop by (auto simp: ends_with_def)
qed

definition sample_send :: "nat io_answers" where
  "sample_send = \<lparr> ia_start = 1000, ia_rounds =
     [\<lparr> io_now = 1000, io_select = 1, io_answer = Moved 2 \<rparr>, \<lparr> io_now = 1020, io_select = 0, io_answer = Io_error \<rparr>],
     ia_select = 0, ia_server = None \<rparr>"

theorem port_send_exact_witness:
  "\<exists>res n. core_sysdep_network_send_posix sample_send (Some sample_network) [1, 2, 3] 20 None = Some (res, take n [1, 2, 3])
    \<and> (0 \<le> res \<longrightarrow> res = int (length (take n [1, 2, 3 :: byte])))"
  by (rule port_send_exact [of "\<lparr> io_now = 1020, io_select = 0, io_answer = Io_error \<rparr>"])
    (simp_all add: sample_send_def sample_network_def)

text \<open>Where \<^verbatim>\<open>select\<close> fails after a part has come, the call reports an error and the part is lost.\<close>

lemma failed_select_loses_bytes:
  "core_sysdep_network_recv_posix \<lparr> ia_start = 1000, ia_rounds =
     [\<lparr> io_now = 1000, io_select = 1, io_answer = Moved [1, 2] \<rparr>, \<lparr> io_now = 1001, io_select = -1, io_answer = Io_error \<rparr>],
     ia_select = 0, ia_server = None \<rparr> (Some sample_network) 4 20
   = Some (STATE_PORT_NETWORK_SELECT_FAILED, [1, 2])"
  by (simp add: core_sysdep_network_recv_posix_def network_recv_def sample_network_def time_over_def word_le_nat_alt)

lemma length_rand_bytes: "length (rand_bytes num k) = k"
  by (induction k) simp_all

lemma length_rand_loop: "length (rand_loop rand n left) = left"
  by (induction rand n left rule: rand_loop.induct) (subst rand_loop.simps, simp add: length_rand_bytes)

lemma rand_fills_buffer: "length (core_sysdep_rand_posix rand output_len) = output_len"
  by (simp add: core_sysdep_rand_posix_def length_rand_loop)

end
