(* ===== verification/Net_Adapter.thy ===== *)
theory Net_Adapter
  imports Posix_Port
begin

text \<open>
  The layer between the client and the sockets (\<^verbatim>\<open>core/sysdep/core_adapter.c\<close>): the blocks
  of a connection, the TLS session over it, and the choice between TLS and the plain connection. Mbed TLS is
  a parameter, what its functions answer; the calls the adapter makes are recorded in order.
\<close>

section \<open>The memory of the adapter\<close>

text \<open>The allocator: whether the \<open>n\<close>-th request succeeds, and the blocks that are live.\<close>

record heap =
  hp_memory :: "nat \<Rightarrow> bool"
  hp_count :: nat
  hp_live :: "nat set"

definition alloc :: "heap \<Rightarrow> nat option \<times> heap" where
  "alloc hp =
     (if hp_memory hp (hp_count hp)
      then (Some (hp_count hp), hp \<lparr> hp_count := Suc (hp_count hp), hp_live := insert (hp_count hp) (hp_live hp) \<rparr>)
      else (None, hp \<lparr> hp_count := Suc (hp_count hp) \<rparr>))"

text \<open>Releasing a block that is not live is undefined.\<close>

definition free_block :: "nat \<Rightarrow> heap \<Rightarrow> heap outcome" where
  "free_block a hp = (if a \<in> hp_live hp then Ok (hp \<lparr> hp_live := hp_live hp - {a} \<rparr>) else Undef)"

text \<open>A pointer that is NULL, or a block with its content.\<close>

type_synonym 'a owned_ptr = "(nat \<times> 'a) option"

definition free_owned :: "'a owned_ptr \<Rightarrow> heap \<Rightarrow> heap outcome" where
  "free_owned p hp = (case p of None \<Rightarrow> Ok hp | Some (a, _) \<Rightarrow> free_block a hp)"

section \<open>The handle\<close>

record adapter_handle =
  ah_self :: nat \<comment> \<open>the block of the handle\<close>
  ah_network :: "network_handle option"
  ah_socket_type :: socket_type
  ah_cred :: "tls_credentials owned_ptr"
  ah_host :: "string owned_ptr"
  ah_backup_ip :: "char list"
  ah_port :: u16
  ah_connect_timeout_ms :: u32
  ah_psk_id :: "string owned_ptr"
  ah_psk :: "string owned_ptr"

text \<open>\<open>port_memory\<close>: whether the port gets its own memory.\<close>

definition adapter_network_init :: "bool \<Rightarrow> heap \<Rightarrow> adapter_handle option \<times> heap" where
  "adapter_network_init port_memory hp =
     (case alloc hp of
        (None, hp1) \<Rightarrow> (None, hp1)
      | (Some a, hp1) \<Rightarrow>
          (Some \<lparr> ah_self = a, ah_network = core_sysdep_network_init_posix port_memory, ah_socket_type = Tcp_client,
             ah_cred = None, ah_host = None, ah_backup_ip = replicate 16 NUL, ah_port = 0, ah_connect_timeout_ms = 0,
             ah_psk_id = None, ah_psk = None \<rparr>, hp1))"

type_synonym setopt_result = "(int \<times> adapter_handle \<times> heap) outcome"

definition store_cred :: "int \<Rightarrow> tls_credentials \<Rightarrow> adapter_handle \<Rightarrow> heap \<Rightarrow> setopt_result" where
  "store_cred res cred h hp =
     (case alloc hp of
        (None, hp1) \<Rightarrow> Ok (STATE_PORT_MALLOC_FAILED, h \<lparr> ah_cred := None \<rparr>, hp1)
      | (Some a, hp1) \<Rightarrow> Ok (res, h \<lparr> ah_cred := Some (a, cred) \<rparr>, hp1))"

definition store_host :: "int \<Rightarrow> string \<Rightarrow> adapter_handle \<Rightarrow> heap \<Rightarrow> setopt_result" where
  "store_host res host h hp =
     (case alloc hp of
        (None, hp1) \<Rightarrow> Ok (STATE_PORT_MALLOC_FAILED, h \<lparr> ah_host := None \<rparr>, hp1)
      | (Some a, hp1) \<Rightarrow> Ok (res, h \<lparr> ah_host := Some (a, host) \<rparr>, hp1))"

text \<open>Without memory for the key its identity is released, but the handle keeps the pointer.\<close>

definition store_psk :: "int \<Rightarrow> string \<Rightarrow> string \<Rightarrow> adapter_handle \<Rightarrow> heap \<Rightarrow> setopt_result" where
  "store_psk res psk_id psk h hp =
     (case alloc hp of
        (None, hp1) \<Rightarrow> Ok (STATE_PORT_MALLOC_FAILED, h \<lparr> ah_psk_id := None \<rparr>, hp1)
      | (Some a, hp1) \<Rightarrow>
          (case alloc hp1 of
             (None, hp2) \<Rightarrow>
               obind (free_block a hp2) (\<lambda>hp3.
                 Ok (STATE_PORT_MALLOC_FAILED, h \<lparr> ah_psk_id := Some (a, psk_id), ah_psk := None \<rparr>, hp3))
           | (Some b, hp2) \<Rightarrow> Ok (res, h \<lparr> ah_psk_id := Some (a, psk_id), ah_psk := Some (b, psk) \<rparr>, hp2)))"

definition adapter_network_setopt ::
  "bool \<Rightarrow> adapter_handle option \<Rightarrow> network_option option \<Rightarrow> heap \<Rightarrow> (int \<times> adapter_handle option \<times> heap) outcome" where
  "adapter_network_setopt port_memory handle data hp =
     (case handle of
        None \<Rightarrow> Ok (STATE_PORT_INPUT_NULL_POINTER, handle, hp)
      | Some h \<Rightarrow> (case data of
          None \<Rightarrow> Ok (STATE_PORT_INPUT_NULL_POINTER, handle, hp)
        | Some opt \<Rightarrow>
            if opt = Option_out_of_range then Ok (STATE_PORT_INPUT_OUT_RANGE, handle, hp)
            else obind (core_sysdep_network_setopt_posix port_memory (ah_network h) data) (\<lambda>(res, nh).
              let h1 = h \<lparr> ah_network := nh \<rparr> in
              obind (case opt of
                  Option_socket_type t \<Rightarrow> Ok (res, h1 \<lparr> ah_socket_type := t \<rparr>, hp)
                | Option_host host \<Rightarrow> store_host res host h1 hp
                | Option_backup_ip ip \<Rightarrow>
                    if 16 < length ip then Undef
                    else Ok (res, h1 \<lparr> ah_backup_ip := memcpy_at (ah_backup_ip h1) 0 ip \<rparr>, hp)
                | Option_port port \<Rightarrow> Ok (res, h1 \<lparr> ah_port := port \<rparr>, hp)
                | Option_connect_timeout_ms ms \<Rightarrow> Ok (res, h1 \<lparr> ah_connect_timeout_ms := ms \<rparr>, hp)
                | Option_cred cred \<Rightarrow> store_cred res cred h1 hp
                | Option_psk psk_id psk \<Rightarrow> store_psk res psk_id psk h1 hp
                | Option_out_of_range \<Rightarrow> Ok (res, h1, hp))
                (\<lambda>(res1, h2, hp1). Ok (res1, Some h2, hp1)))))"

text \<open>The blocks go in this order; what Mbed TLS holds is its own. The descriptors are those of the port.\<close>

definition adapter_network_deinit :: "adapter_handle option \<Rightarrow> heap \<Rightarrow> (int \<times> heap \<times> fd_event list) outcome" where
  "adapter_network_deinit handle hp =
     (case handle of
        None \<Rightarrow> Ok (STATE_PORT_INPUT_NULL_POINTER, hp, [])
      | Some h \<Rightarrow>
          obind (free_owned (ah_host h) hp) (\<lambda>hp1.
          obind (free_owned (ah_psk_id h) hp1) (\<lambda>hp2.
          obind (free_owned (ah_psk h) hp2) (\<lambda>hp3.
          obind (free_owned (ah_cred h) hp3) (\<lambda>hp4.
            let events = snd (core_sysdep_network_deinit_posix (ah_network h)) in
            obind (free_block (ah_self h) hp4) (\<lambda>hp5. Ok (STATE_SUCCESS, hp5, events)))))))"

section \<open>The memory Mbed TLS uses\<close>

text \<open>
  The counters, and the blocks in use with their size and the mark in front of them. The size of a request
  is a 64-bit number; the port is asked for 32 bits of it, and then all of it is cleared.
\<close>

record tls_memory =
  tm_total :: u32
  tm_max :: u32
  tm_blocks :: "nat \<rightharpoonup> u32"

definition core_mbedtls_calloc :: "nat option \<Rightarrow> u64 \<Rightarrow> u64 \<Rightarrow> tls_memory \<Rightarrow> (nat option \<times> tls_memory) outcome" where
  "core_mbedtls_calloc answer n sz tm =
     (if n = 0 \<or> sz = 0 then Ok (None, tm)
      else (case answer of
          None \<Rightarrow> Ok (None, tm)
        | Some a \<Rightarrow>
            if unat (n * sz + 8) > unat (ucast (n * sz + 8) :: u32) then Undef
            else (let total = tm_total tm + ucast (n * sz) in
              Ok (Some a, tm \<lparr> tm_total := total, tm_max := max (tm_max tm) total,
                tm_blocks := (tm_blocks tm)(a \<mapsto> ucast (n * sz)) \<rparr>))))"

definition core_mbedtls_free :: "nat option \<Rightarrow> tls_memory \<Rightarrow> tls_memory outcome" where
  "core_mbedtls_free ptr tm =
     (case ptr of
        None \<Rightarrow> Ok tm
      | Some a \<Rightarrow> (case tm_blocks tm a of
          None \<Rightarrow> Undef
        | Some sz \<Rightarrow> Ok (tm \<lparr> tm_total := tm_total tm - sz, tm_blocks := (tm_blocks tm)(a := None) \<rparr>)))"

section \<open>The table of system functions\<close>

text \<open>The entries of \<^verbatim>\<open>aiot_sysdep_portfile_t\<close>; a table is the set of those that are not NULL.\<close>

datatype sysdep_function =
    Fn_malloc | Fn_free | Fn_time | Fn_sleep | Fn_network_init | Fn_network_setopt | Fn_network_establish
  | Fn_network_recv | Fn_network_send | Fn_network_deinit | Fn_rand | Fn_mutex_init | Fn_mutex_lock
  | Fn_mutex_unlock | Fn_mutex_deinit

instantiation sysdep_function :: enum
begin

definition enum_sysdep_function :: "sysdep_function list" where
  "enum_sysdep_function =
     [Fn_malloc, Fn_free, Fn_time, Fn_sleep, Fn_network_init, Fn_network_setopt, Fn_network_establish,
      Fn_network_recv, Fn_network_send, Fn_network_deinit, Fn_rand, Fn_mutex_init, Fn_mutex_lock,
      Fn_mutex_unlock, Fn_mutex_deinit]"

definition enum_all_sysdep_function :: "(sysdep_function \<Rightarrow> bool) \<Rightarrow> bool" where
  "enum_all_sysdep_function P = list_all P Enum.enum"

definition enum_ex_sysdep_function :: "(sysdep_function \<Rightarrow> bool) \<Rightarrow> bool" where
  "enum_ex_sysdep_function P = list_ex P Enum.enum"

instance
proof
  have all: "f \<in> set (Enum.enum :: sysdep_function list)" for f
    by (cases f) (simp_all add: enum_sysdep_function_def)
  show UNIV: "(UNIV :: sysdep_function set) = set Enum.enum" using all by blast
  show "distinct (Enum.enum :: sysdep_function list)" by (simp add: enum_sysdep_function_def)
  show "Enum.enum_all P \<longleftrightarrow> Ball UNIV P" for P :: "sysdep_function \<Rightarrow> bool"
    by (simp only: enum_all_sysdep_function_def UNIV list_all_iff)
  show "Enum.enum_ex P \<longleftrightarrow> Bex UNIV P" for P :: "sysdep_function \<Rightarrow> bool"
    by (simp only: enum_ex_sysdep_function_def UNIV list_ex_iff)
qed

end

text \<open>The adapter puts its own six functions over those of the port.\<close>

definition adapter_functions :: "sysdep_function set" where
  "adapter_functions =
     {Fn_network_init, Fn_network_setopt, Fn_network_establish, Fn_network_recv, Fn_network_send, Fn_network_deinit}"

definition aiot_sysdep_get_adapter_portfile :: "sysdep_function set option \<Rightarrow> sysdep_function set option" where
  "aiot_sysdep_get_adapter_portfile portfile =
     (case portfile of None \<Rightarrow> None | Some fs \<Rightarrow> Some (fs \<union> adapter_functions))"

definition aiot_sysdep_set_portfile :: "sysdep_function set option \<Rightarrow> sysdep_function set option" where
  "aiot_sysdep_set_portfile portfile = aiot_sysdep_get_adapter_portfile portfile"

definition aiot_sysdep_get_portfile :: "sysdep_function set option \<Rightarrow> sysdep_function set option" where
  "aiot_sysdep_get_portfile g_sysdep_portfile =
     (case g_sysdep_portfile of
        None \<Rightarrow> None
      | Some fs \<Rightarrow> if list_all (\<lambda>f. f \<in> fs) Enum.enum then Some fs else None)"

text \<open>The test is on the adapter's table: a port without its network functions passes it.\<close>

lemma portfile_network_untested:
  "aiot_sysdep_get_portfile (aiot_sysdep_set_portfile (Some (UNIV - adapter_functions))) = Some UNIV"
  by (auto simp: aiot_sysdep_get_portfile_def aiot_sysdep_set_portfile_def aiot_sysdep_get_adapter_portfile_def
      list_all_iff)

lemma portfile_complete:
  "aiot_sysdep_get_portfile (aiot_sysdep_set_portfile portfile) \<noteq> None
     \<longleftrightarrow> (\<exists>fs. portfile = Some fs \<and> UNIV - adapter_functions \<subseteq> fs)"
  by (auto simp: aiot_sysdep_get_portfile_def aiot_sysdep_set_portfile_def aiot_sysdep_get_adapter_portfile_def
      list_all_iff enum_UNIV split: option.splits if_splits)

section \<open>The TLS session\<close>

abbreviation STATE_PORT_TLS_INVALID_CRED_OPTION :: int where "STATE_PORT_TLS_INVALID_CRED_OPTION \<equiv> - 0x0F16"
abbreviation STATE_PORT_TLS_INVALID_MAX_FRAGMENT :: int where "STATE_PORT_TLS_INVALID_MAX_FRAGMENT \<equiv> - 0x0F17"
abbreviation STATE_PORT_TLS_INVALID_SERVER_CERT :: int where "STATE_PORT_TLS_INVALID_SERVER_CERT \<equiv> - 0x0F18"
abbreviation STATE_PORT_TLS_INVALID_CLIENT_CERT :: int where "STATE_PORT_TLS_INVALID_CLIENT_CERT \<equiv> - 0x0F19"
abbreviation STATE_PORT_TLS_INVALID_CLIENT_KEY :: int where "STATE_PORT_TLS_INVALID_CLIENT_KEY \<equiv> - 0x0F1A"
abbreviation STATE_PORT_TLS_INVALID_RECORD :: int where "STATE_PORT_TLS_INVALID_RECORD \<equiv> - 0x0F1D"
abbreviation STATE_PORT_TLS_RECV_FAILED :: int where "STATE_PORT_TLS_RECV_FAILED \<equiv> - 0x0F1E"
abbreviation STATE_PORT_TLS_SEND_FAILED :: int where "STATE_PORT_TLS_SEND_FAILED \<equiv> - 0x0F1F"
abbreviation STATE_PORT_TLS_RECV_CONNECTION_CLOSED :: int where "STATE_PORT_TLS_RECV_CONNECTION_CLOSED \<equiv> - 0x0F20"
abbreviation STATE_PORT_TLS_SEND_CONNECTION_CLOSED :: int where "STATE_PORT_TLS_SEND_CONNECTION_CLOSED \<equiv> - 0x0F21"
abbreviation STATE_PORT_TLS_CONFIG_PSK_FAILED :: int where "STATE_PORT_TLS_CONFIG_PSK_FAILED \<equiv> - 0x0F22"
abbreviation STATE_PORT_TLS_INVALID_HANDSHAKE :: int where "STATE_PORT_TLS_INVALID_HANDSHAKE \<equiv> - 0x0F23"

text \<open>The results of Mbed TLS the adapter tells apart.\<close>

abbreviation ERR_NET_RECV_FAILED :: int where "ERR_NET_RECV_FAILED \<equiv> - 0x004C"
abbreviation ERR_SSL_CLIENT_RECONNECT :: int where "ERR_SSL_CLIENT_RECONNECT \<equiv> - 0x6780"
abbreviation ERR_SSL_TIMEOUT :: int where "ERR_SSL_TIMEOUT \<equiv> - 0x6800"
abbreviation ERR_SSL_WANT_WRITE :: int where "ERR_SSL_WANT_WRITE \<equiv> - 0x6880"
abbreviation ERR_SSL_WANT_READ :: int where "ERR_SSL_WANT_READ \<equiv> - 0x6900"
abbreviation ERR_SSL_INVALID_RECORD :: int where "ERR_SSL_INVALID_RECORD \<equiv> - 0x7200"
abbreviation ERR_SSL_PEER_CLOSE_NOTIFY :: int where "ERR_SSL_PEER_CLOSE_NOTIFY \<equiv> - 0x7880"

definition host_is_ip :: "string \<Rightarrow> bool" where
  "host_is_ip host \<longleftrightarrow> length host < 16 \<and> list_all (\<lambda>c. c = CHR ''.'' \<or> is_digit c) host"

text \<open>
  The calls of \<^verbatim>\<open>_tls_network_establish\<close>, with the arguments the adapter chooses. The version is
  TLS 1.2 (3.3), the only cipher suite with a key is \<^verbatim>\<open>TLS_PSK_WITH_AES_128_CBC_SHA\<close>. A
  parsed text is read with its NUL.
\<close>

datatype tls_call =
    Conf_max_frag_len nat
  | Config_defaults_client_stream
  | Conf_max_version_1_2 | Conf_min_version_1_2
  | Conf_rng | Conf_dbg
  | Init_server_cert | Parse_server_cert "string option" u64
  | Init_client_cert | Init_client_key
  | Parse_client_cert string u64 | Parse_client_key string u64 | Conf_own_cert
  | Conf_ca_chain
  | Conf_psk string string | Conf_ciphersuites_psk
  | Ssl_setup | Set_hostname string | Set_bio | Conf_read_timeout u32
  | Handshake | Get_verify_result

text \<open>What Mbed TLS answers to a call, and to the handshakes in turn.\<close>

record tls_library =
  tl_answer :: "tls_call \<Rightarrow> int"
  tl_handshake :: "int list"

text \<open>The calls made so far are the last argument; a result below 0 ends with the error of that step.\<close>

type_synonym tls_result = "(int \<times> tls_call list) option outcome"

definition tls_step :: "tls_library \<Rightarrow> tls_call \<Rightarrow> (int \<Rightarrow> int) \<Rightarrow> (tls_call list \<Rightarrow> tls_result) \<Rightarrow> tls_call list \<Rightarrow> tls_result" where
  "tls_step tls c error k calls =
     (if tl_answer tls c < 0 then Ok (Some (error (tl_answer tls c), calls @ [c])) else k (calls @ [c]))"

definition max_frag_code :: "u32 \<Rightarrow> nat" where
  "max_frag_code n = (if n \<le> 512 then 1 else if n \<le> 1024 then 2 else if n \<le> 2048 then 3 else if n \<le> 4096 then 4 else 0)"

text \<open>The handshakes are repeated while the library wants to read or write.\<close>

fun tls_handshake :: "int list \<Rightarrow> (tls_call list \<Rightarrow> tls_result) \<Rightarrow> tls_call list \<Rightarrow> tls_result" where
  "tls_handshake [] k calls = Ok None"
| "tls_handshake (res # answers) k calls =
     (if res = 0 then k (calls @ [Handshake])
      else if res \<noteq> ERR_SSL_WANT_READ \<and> res \<noteq> ERR_SSL_WANT_WRITE then
        Ok (Some (if res = ERR_SSL_INVALID_RECORD then STATE_PORT_TLS_INVALID_RECORD else STATE_PORT_TLS_INVALID_HANDSHAKE,
          calls @ [Handshake]))
      else tls_handshake answers k (calls @ [Handshake]))"

definition client_cert_steps ::
  "tls_library \<Rightarrow> tls_credentials \<Rightarrow> (tls_call list \<Rightarrow> tls_result) \<Rightarrow> tls_call list \<Rightarrow> tls_result" where
  "client_cert_steps tls cred k calls =
     (case (cr_client_cert cred, cr_client_privkey cred) of
        (Some cert, Some key) \<Rightarrow>
          if cr_client_cert_len cred > 0 \<and> cr_client_privkey_len cred > 0 then
            tls_step tls (Parse_client_cert cert (ucast (cr_client_cert_len cred) + 1)) (\<lambda>_. STATE_PORT_TLS_INVALID_CLIENT_CERT)
             (tls_step tls (Parse_client_key key (ucast (cr_client_privkey_len cred) + 1)) (\<lambda>_. STATE_PORT_TLS_INVALID_CLIENT_KEY)
               (tls_step tls Conf_own_cert (\<lambda>_. STATE_PORT_TLS_INVALID_CLIENT_CERT) k))
             (calls @ [Init_client_cert, Init_client_key])
          else k calls
      | _ \<Rightarrow> k calls)"

definition credential_steps ::
  "tls_library \<Rightarrow> adapter_handle \<Rightarrow> tls_credentials \<Rightarrow> (tls_call list \<Rightarrow> tls_result) \<Rightarrow> tls_call list \<Rightarrow> tls_result" where
  "credential_steps tls h cred k calls =
     (case cr_option cred of
        Cred_svrcert_ca \<Rightarrow>
          if cr_server_cert cred = None \<and> cr_server_cert_len cred = 0 then Ok (Some (STATE_PORT_TLS_INVALID_SERVER_CERT, calls))
          else tls_step tls (Parse_server_cert (cr_server_cert cred) (ucast (cr_server_cert_len cred) + 1))
              (\<lambda>_. STATE_PORT_TLS_INVALID_SERVER_CERT)
            (client_cert_steps tls cred (\<lambda>calls. k (calls @ [Conf_ca_chain])))
            (calls @ [Init_server_cert])
      | Cred_svrcert_psk \<Rightarrow>
          (case (ah_psk_id h, ah_psk h) of
             (Some (_, psk_id), Some (_, psk)) \<Rightarrow>
               tls_step tls (Conf_psk psk psk_id) (\<lambda>_. STATE_PORT_TLS_CONFIG_PSK_FAILED)
                 (\<lambda>calls. k (calls @ [Conf_ciphersuites_psk])) calls
           | _ \<Rightarrow> Undef)
      | _ \<Rightarrow> Ok (Some (STATE_PORT_TLS_INVALID_CRED_OPTION, calls)))"

text \<open>From the setup of the session to the verified handshake.\<close>

definition session_steps :: "tls_library \<Rightarrow> adapter_handle \<Rightarrow> string \<Rightarrow> tls_call list \<Rightarrow> tls_result" where
  "session_steps tls h host =
     tls_step tls Ssl_setup (\<lambda>res. res)
       ((if host_is_ip host then (\<lambda>k. k) else tls_step tls (Set_hostname host) (\<lambda>res. res))
         (\<lambda>calls. tls_handshake (tl_handshake tls)
            (tls_step tls Get_verify_result (\<lambda>res. res) (\<lambda>calls. Ok (Some (0, calls))))
            (calls @ [Set_bio, Conf_read_timeout (ah_connect_timeout_ms h)])))"

text \<open>A server socket skips the defaults, as the code does; a datagram client has no TLS in this build.\<close>

definition tls_network_establish :: "tls_library \<Rightarrow> adapter_handle \<Rightarrow> tls_result" where
  "tls_network_establish tls h =
     (case (ah_cred h, ah_host h) of
        (Some (_, cred), Some (_, host)) \<Rightarrow>
          if cr_max_tls_fragment cred = 0 then Ok (Some (STATE_PORT_TLS_INVALID_MAX_FRAGMENT, []))
          else tls_step tls (Conf_max_frag_len (max_frag_code (cr_max_tls_fragment cred))) (\<lambda>res. res)
            (\<lambda>calls.
              if ah_socket_type h = Udp_client then Ok (Some (-1, calls))
              else (if ah_socket_type h = Tcp_client then tls_step tls Config_defaults_client_stream (\<lambda>res. res) else (\<lambda>k. k))
                (\<lambda>calls. credential_steps tls h cred (session_steps tls h host)
                  (calls @ [Conf_max_version_1_2, Conf_min_version_1_2, Conf_rng, Conf_dbg])) calls) []
      | _ \<Rightarrow> Undef)"

section \<open>Data over the session\<close>

text \<open>
  The callbacks Mbed TLS calls for the socket: what the port answers. A result of 0, a time out of the port,
  is for Mbed TLS the end of the connection, and for the adapter then a read of 0 bytes.
\<close>

definition core_mbedtls_net_recv :: "int \<Rightarrow> int" where
  "core_mbedtls_net_recv res = (if res < 0 then ERR_NET_RECV_FAILED else res)"

text \<open>What a read or a write answers: that it moved something, or its result, at most 0.\<close>

datatype 'm tls_answer = Tls_moved 'm | Tls_result int

fun tls_recv_loop :: "bool \<Rightarrow> nat \<Rightarrow> byte list \<Rightarrow> byte list tls_answer list \<Rightarrow> (int \<times> byte list) option" where
  "tls_recv_loop one len moved [] = None"
| "tls_recv_loop one len moved (a # as) =
     (let next = (\<lambda>m. if length m < len then tls_recv_loop one len m as else Some (int (length m), m)) in
      case a of
        Tls_moved bs \<Rightarrow>
          let m = moved @ take (len - length moved) bs in if one then Some (int (length m), m) else next m
      | Tls_result res \<Rightarrow>
          if res < 0 then
            (if res = ERR_SSL_TIMEOUT then Some (int (length moved), moved)
             else if res \<noteq> ERR_SSL_WANT_READ \<and> res \<noteq> ERR_SSL_WANT_WRITE \<and> res \<noteq> ERR_SSL_CLIENT_RECONNECT then
               (if moved = [] then
                  Some (if res = ERR_SSL_PEER_CLOSE_NOTIFY then STATE_PORT_TLS_RECV_CONNECTION_CLOSED
                        else if res = ERR_SSL_INVALID_RECORD then STATE_PORT_TLS_INVALID_RECORD
                        else STATE_PORT_TLS_RECV_FAILED, moved)
                else Some (int (length moved), moved))
             else next moved)
          else Some (int (length moved), moved))"

definition tls_network_recv :: "socket_type \<Rightarrow> nat \<Rightarrow> byte list tls_answer list \<Rightarrow> (int \<times> byte list) option" where
  "tls_network_recv type len answers = tls_recv_loop (type = Udp_client) len [] answers"

text \<open>A round of the sending loop: the clock, the answer. An error after a part went out ends with that part.\<close>

fun tls_send_loop :: "byte list \<Rightarrow> u32 \<Rightarrow> u64 \<Rightarrow> nat \<Rightarrow> (u64 \<times> nat tls_answer) list \<Rightarrow> (int \<times> nat) option" where
  "tls_send_loop buffer timeout_ms start n [] = None"
| "tls_send_loop buffer timeout_ms start n ((now, a) # rounds) =
     (let next = (\<lambda>m. if now - start < ucast timeout_ms \<and> m < length buffer
                      then tls_send_loop buffer timeout_ms start m rounds else Some (int m, m)) in
      if time_over timeout_ms start now then Some (int n, n)
      else (case a of
          Tls_moved k \<Rightarrow> next (min (n + k) (length buffer))
        | Tls_result res \<Rightarrow>
            if res < 0 then
              (if res \<noteq> ERR_SSL_WANT_READ \<and> res \<noteq> ERR_SSL_WANT_WRITE then
                 (if n = 0 then
                    Some (if res = ERR_SSL_PEER_CLOSE_NOTIFY then STATE_PORT_TLS_SEND_CONNECTION_CLOSED
                          else if res = ERR_SSL_INVALID_RECORD then STATE_PORT_TLS_INVALID_RECORD
                          else STATE_PORT_TLS_SEND_FAILED, n)
                  else Some (int n, n))
               else next n)
            else Some (int n, n)))"

definition tls_network_send ::
  "byte list \<Rightarrow> u32 \<Rightarrow> u64 \<Rightarrow> (u64 \<times> nat tls_answer) list \<Rightarrow> (int \<times> byte list) option" where
  "tls_network_send buffer timeout_ms start rounds =
     (case tls_send_loop buffer timeout_ms start 0 rounds of
        None \<Rightarrow> None
      | Some (res, n) \<Rightarrow> Some (res, take n buffer))"

section \<open>The operations of the adapter\<close>

text \<open>The credentials ask for TLS.\<close>

definition over_tls :: "adapter_handle \<Rightarrow> bool" where
  "over_tls h \<longleftrightarrow> (case ah_cred h of None \<Rightarrow> False | Some (_, cred) \<Rightarrow> cr_option cred \<noteq> Cred_none)"

text \<open>\<open>connect\<close>, \<open>recv\<close> and \<open>send\<close> are the functions of the port; the last part of the result are the calls to Mbed TLS.\<close>

definition adapter_network_establish ::
  "tls_library \<Rightarrow> (network_handle option \<Rightarrow> (int \<times> network_handle option \<times> fd_event list) outcome) \<Rightarrow> adapter_handle option
    \<Rightarrow> (int \<times> adapter_handle option \<times> fd_event list \<times> tls_call list) option outcome" where
  "adapter_network_establish tls connect handle =
     (case handle of
        None \<Rightarrow> Ok (Some (STATE_PORT_INPUT_NULL_POINTER, None, [], []))
      | Some h \<Rightarrow>
          obind (connect (ah_network h)) (\<lambda>(res, nh, events).
            let h1 = h \<lparr> ah_network := nh \<rparr> in
            if res < STATE_SUCCESS \<or> \<not> over_tls h1 then Ok (Some (res, Some h1, events, []))
            else obind (tls_network_establish tls h1) (\<lambda>result.
              Ok (map_option (\<lambda>(res, calls). (res, Some h1, events, calls)) result))))"

definition adapter_network_recv ::
  "('a \<Rightarrow> network_handle option \<Rightarrow> nat \<Rightarrow> u32 \<Rightarrow> (int \<times> byte list) option)
    \<Rightarrow> 'a \<times> byte list tls_answer list \<Rightarrow> adapter_handle option \<Rightarrow> nat \<Rightarrow> u32 \<Rightarrow> (int \<times> byte list) option" where
  "adapter_network_recv recv answers handle len timeout_ms =
     (case handle of
        None \<Rightarrow> Some (STATE_PORT_INPUT_NULL_POINTER, [])
      | Some h \<Rightarrow>
          if over_tls h then tls_network_recv (ah_socket_type h) len (snd answers)
          else recv (fst answers) (ah_network h) len timeout_ms)"

definition adapter_network_send ::
  "('a \<Rightarrow> network_handle option \<Rightarrow> byte list \<Rightarrow> u32 \<Rightarrow> (int \<times> byte list) option)
    \<Rightarrow> 'a \<times> u64 \<times> (u64 \<times> nat tls_answer) list \<Rightarrow> adapter_handle option \<Rightarrow> byte list \<Rightarrow> u32 \<Rightarrow> (int \<times> byte list) option" where
  "adapter_network_send send answers handle buffer timeout_ms =
     (case handle of
        None \<Rightarrow> Some (STATE_PORT_INPUT_NULL_POINTER, [])
      | Some h \<Rightarrow>
          if over_tls h then tls_network_send buffer timeout_ms (fst (snd answers)) (snd (snd answers))
          else send (fst answers) (ah_network h) buffer timeout_ms)"

section \<open>A transport\<close>

text \<open>
  What the layers promise about data: a read returns the beginning of what has arrived, cut at the buffer; a
  write has sent a prefix of the buffer; a result that is not negative is the number of bytes.
\<close>

definition read_exactly :: "(nat \<Rightarrow> byte list) \<Rightarrow> nat \<Rightarrow> (int \<times> byte list) option \<Rightarrow> bool" where
  "read_exactly arrived len result \<longleftrightarrow>
     (\<forall>res got. result = Some (res, got) \<longrightarrow>
        (\<exists>k. got = take len (arrived k)) \<and> (0 \<le> res \<longrightarrow> res = int (length got)))"

definition sent_exactly :: "byte list \<Rightarrow> (int \<times> byte list) option \<Rightarrow> bool" where
  "sent_exactly buffer result \<longleftrightarrow>
     (\<forall>res went. result = Some (res, went) \<longrightarrow>
        (\<exists>n. went = take n buffer) \<and> (0 \<le> res \<longrightarrow> res = int (length went)))"

locale transport =
  fixes recv :: "'a \<Rightarrow> 'h option \<Rightarrow> nat \<Rightarrow> u32 \<Rightarrow> (int \<times> byte list) option"
    and send :: "'b \<Rightarrow> 'h option \<Rightarrow> byte list \<Rightarrow> u32 \<Rightarrow> (int \<times> byte list) option"
    and arrived :: "'a \<Rightarrow> 'h option \<Rightarrow> nat \<Rightarrow> byte list"
  assumes reads: "read_exactly (arrived answers handle) len (recv answers handle len timeout_ms)"
    and writes: "sent_exactly buffer (send answers' handle buffer timeout_ms)"
begin

lemma full_read:
  assumes "recv answers handle len timeout_ms = Some (int len, got)"
  shows "length got = len \<and> (\<exists>k. got = take len (arrived answers handle k))"
  using reads [of answers handle len timeout_ms] assms by (auto simp: read_exactly_def)

lemma full_write:
  assumes "send answers handle buffer timeout_ms = Some (int (length buffer), went)"
  shows "went = buffer"
proof -
  have law: "(\<exists>n. went = take n buffer) \<and> (0 \<le> int (length buffer) \<longrightarrow> int (length buffer) = int (length went))"
    using writes [of buffer answers handle timeout_ms] assms unfolding sent_exactly_def by blast
  then obtain n where n: "went = take n buffer" by blast
  have full: "length went = length buffer" using law by simp
  have "\<not> n < length buffer" using full unfolding n by simp
  then show ?thesis by (simp add: n)
qed

end

text \<open>What has arrived after so many answers, and the port as a transport.\<close>

definition port_arrived :: "byte list io_answers \<Rightarrow> network_handle option \<Rightarrow> nat \<Rightarrow> byte list" where
  "port_arrived answers handle k =
     (case handle of
        None \<Rightarrow> []
      | Some h \<Rightarrow>
          if nh_socket_type h = Udp_server then (case ia_server answers of None \<Rightarrow> [] | Some bs \<Rightarrow> if k = 0 then [] else bs)
          else received (take k (ia_rounds answers)))"

lemma read_exactly_nothing [simp]:
  assumes "arrived 0 = []" and "res < 0"
  shows "read_exactly arrived len (Some (res, []))"
proof -
  have "\<exists>k. [] = take len (arrived k)" using assms(1) by (intro exI [of _ 0]) simp
  then show ?thesis using assms(2) by (simp add: read_exactly_def)
qed

lemma sent_exactly_nothing [simp]: "res < 0 \<Longrightarrow> sent_exactly buffer (Some (res, []))"
  by (simp add: sent_exactly_def)

lemma network_recv_exactly:
  "read_exactly (\<lambda>k. received (take k rounds)) len (network_recv type len timeout_ms start rounds)"
  unfolding read_exactly_def
proof (intro allI impI)
  fix res got
  assume "network_recv type len timeout_ms start rounds = Some (res, got)"
  note loop = this [unfolded network_recv_def]
  have "ends_with STATE_PORT_NETWORK_RECV_CONNECTION_CLOSED STATE_PORT_NETWORK_RECV_FAILED got (res, got)"
    using io_loop_invariant [OF loop, of "\<lambda>_. True"] by simp
  then show "(\<exists>k. got = take len (received (take k rounds))) \<and> (0 \<le> res \<longrightarrow> res = int (length got))"
    using io_loop_recv [OF loop, of "[]"] by (auto simp: ends_with_def)
qed

lemma network_send_exactly: "sent_exactly buffer (network_send buffer timeout_ms start rounds)"
  using network_send_pieces [of buffer timeout_ms start rounds] by (fastforce simp: sent_exactly_def ends_with_def)

lemma port_recv_exactly:
  "read_exactly (port_arrived answers handle) len (core_sysdep_network_recv_posix answers handle len timeout_ms)"
proof (cases handle)
  case None
  then show ?thesis by (simp add: core_sysdep_network_recv_posix_def port_arrived_def)
next
  case (Some h)
  show ?thesis
  proof (cases "nh_socket_type h = Udp_server")
    case True
    then have "read_exactly (port_arrived answers handle) len (Some (udp_server_recv len sel (ia_server answers)))" for sel
      by (auto simp: udp_server_recv_def port_arrived_def read_exactly_def Some split: option.splits
          intro: exI [of _ 0] exI [of _ "1 :: nat"])
    then show ?thesis using True by (auto simp: core_sysdep_network_recv_posix_def port_arrived_def Some split: option.splits)
  next
    case False
    then have arrived: "port_arrived answers handle = (\<lambda>k. received (take k (ia_rounds answers)))"
      by (simp add: port_arrived_def Some fun_eq_iff)
    show ?thesis unfolding arrived using False
      by (cases "nh_socket_type h") (simp_all add: core_sysdep_network_recv_posix_def Some network_recv_exactly)
  qed
qed

lemma port_send_exactly:
  "sent_exactly buffer (core_sysdep_network_send_posix answers handle buffer timeout_ms addr)"
proof -
  have "sent_exactly buffer (Some (udp_send buffer addr sel sent))" for sel sent
    by (auto simp: udp_send_def sent_exactly_def split: option.splits intro: exI [of _ 0])
  then show ?thesis
    by (auto simp: core_sysdep_network_send_posix_def network_send_exactly split: option.splits socket_type.splits)
qed

section \<open>The session as a transport\<close>

fun tls_bytes :: "byte list tls_answer list \<Rightarrow> byte list" where
  "tls_bytes [] = []"
| "tls_bytes (Tls_moved bs # as) = bs @ tls_bytes as"
| "tls_bytes (Tls_result res # as) = tls_bytes as"

lemma tls_recv_loop_exactly:
  assumes "tls_recv_loop one len moved answers = Some (res, got)" and "moved = take len before"
  shows "(\<exists>k. got = take len (before @ tls_bytes (take k answers))) \<and> (0 \<le> res \<longrightarrow> res = int (length got))"
  using assms
proof (induction answers arbitrary: moved before)
  case (Cons a answers)
  have ends: ?case if "got = moved" "res = int (length moved) \<or> res < 0"
    using that Cons.prems(2) by (auto intro: exI [of _ 0])
  have more: ?case if "(\<exists>k. got = take len ((before @ tls_bytes [a]) @ tls_bytes (take k answers)))
      \<and> (0 \<le> res \<longrightarrow> res = int (length got))"
    using that by (cases a) (metis append.assoc append.right_neutral take_Suc_Cons tls_bytes.simps)+
  show ?case
  proof (cases a)
    case (Tls_moved bs)
    have piece: "moved @ take (len - length moved) bs = take len (before @ tls_bytes [a])"
      using Cons.prems(2) by (cases "length before \<le> len") (simp_all add: Tls_moved)
    show ?thesis
    proof (cases "tls_recv_loop one len (take len (before @ tls_bytes [a])) answers = Some (res, got)")
      case True
      show ?thesis by (rule more) (rule Cons.IH [OF True refl])
    next
      case False
      then have "got = take len (before @ tls_bytes [a])" "res = int (length got)"
        using Cons.prems(1) by (auto simp only: Tls_moved tls_recv_loop.simps tls_answer.case Let_def piece split: if_splits)
      then show ?thesis by (intro more) (auto intro: exI [of _ 0])
    qed
  next
    case (Tls_result r)
    show ?thesis
    proof (cases "tls_recv_loop one len moved answers = Some (res, got)")
      case True
      show ?thesis by (rule more) (use Cons.IH [OF True Cons.prems(2)] in \<open>simp add: Tls_result\<close>)
    next
      case False
      then show ?thesis using Cons.prems(1) by (intro ends) (auto simp: Tls_result Let_def split: if_splits)
    qed
  qed
qed simp

lemma tls_recv_exactly:
  "read_exactly (\<lambda>k. tls_bytes (take k answers)) len (tls_network_recv type len answers)"
  using tls_recv_loop_exactly [of _ len "[]" answers _ _ "[]"] by (auto simp: read_exactly_def tls_network_recv_def)

lemma tls_send_loop_exactly:
  assumes "tls_send_loop buffer timeout_ms start n rounds = Some (res, m)" and "n \<le> length buffer"
  shows "m \<le> length buffer \<and> (0 \<le> res \<longrightarrow> res = int m)"
  using assms
proof (induction rounds arbitrary: n)
  case (Cons r rounds)
  obtain now a where r: "r = (now, a)" by (cases r)
  show ?case
  proof (cases a)
    case (Tls_moved k)
    then show ?thesis using Cons.prems Cons.IH [of "min (n + k) (length buffer)"]
      by (auto simp: r Let_def split: if_splits)
  next
    case (Tls_result code)
    then show ?thesis using Cons.prems Cons.IH [of n] by (auto simp: r Let_def split: if_splits)
  qed
qed simp

lemma tls_send_exactly: "sent_exactly buffer (tls_network_send buffer timeout_ms start rounds)"
  unfolding sent_exactly_def
proof (intro allI impI)
  fix res went
  assume "tls_network_send buffer timeout_ms start rounds = Some (res, went)"
  then obtain m where m: "tls_send_loop buffer timeout_ms start 0 rounds = Some (res, m)" "went = take m buffer"
    by (auto simp: tls_network_send_def split: option.splits)
  then show "(\<exists>n. went = take n buffer) \<and> (0 \<le> res \<longrightarrow> res = int (length went))"
    using tls_send_loop_exactly [OF m(1)] by auto
qed

text \<open>The adapter over a transport is a transport, with or without TLS.\<close>

definition adapter_arrived ::
  "('a \<Rightarrow> network_handle option \<Rightarrow> nat \<Rightarrow> byte list) \<Rightarrow> 'a \<times> byte list tls_answer list \<Rightarrow> adapter_handle option \<Rightarrow> nat \<Rightarrow> byte list" where
  "adapter_arrived arrived answers handle k =
     (case handle of
        None \<Rightarrow> []
      | Some h \<Rightarrow> if over_tls h then tls_bytes (take k (snd answers)) else arrived (fst answers) (ah_network h) k)"

lemma adapter_recv_exactly:
  assumes "\<And>answers nh. read_exactly (arrived answers nh) len (recv answers nh len timeout_ms)"
  shows "read_exactly (adapter_arrived arrived answers handle) len (adapter_network_recv recv answers handle len timeout_ms)"
proof (cases handle)
  case None
  then show ?thesis by (simp add: adapter_network_recv_def adapter_arrived_def)
next
  case (Some h)
  then show ?thesis using assms tls_recv_exactly
    by (cases "over_tls h") (simp_all add: adapter_network_recv_def adapter_arrived_def [abs_def])
qed

lemma adapter_send_exactly:
  assumes "\<And>answers nh. sent_exactly buffer (send answers nh buffer timeout_ms)"
  shows "sent_exactly buffer (adapter_network_send send answers handle buffer timeout_ms)"
  using assms by (simp add: adapter_network_send_def tls_send_exactly split: option.split)

lemma adapter_transport:
  assumes "transport recv send arrived"
  shows "transport (adapter_network_recv recv) (adapter_network_send send) (adapter_arrived arrived)"
  by unfold_locales
    (rule adapter_recv_exactly adapter_send_exactly transport.reads [OF assms] transport.writes [OF assms])+

text \<open>A port is a transport on network handles; with every port comes the adapter over it.\<close>

locale network_port = transport recv send arrived
  for recv :: "'a \<Rightarrow> network_handle option \<Rightarrow> nat \<Rightarrow> u32 \<Rightarrow> (int \<times> byte list) option"
    and send :: "'b \<Rightarrow> network_handle option \<Rightarrow> byte list \<Rightarrow> u32 \<Rightarrow> (int \<times> byte list) option"
    and arrived :: "'a \<Rightarrow> network_handle option \<Rightarrow> nat \<Rightarrow> byte list"

sublocale network_port \<subseteq> secured: transport "adapter_network_recv recv" "adapter_network_send send" "adapter_arrived arrived"
  by (rule adapter_transport [OF transport_axioms])

interpretation port: network_port core_sysdep_network_recv_posix
  "\<lambda>answers handle buffer timeout_ms. core_sysdep_network_send_posix answers handle buffer timeout_ms None" port_arrived
  by unfold_locales (rule port_recv_exactly port_send_exactly)+

text \<open>
  C8. No byte is lost, repeated or made up. Through the adapter, over TLS or plain, whatever the socket, the
  session and the clock answer: a read that returns has put into the buffer the beginning of what arrived, a
  write that returns has sent a prefix of the buffer, and a result that is not negative is the number
  of these bytes; so a result equal to the length asked for means all of it.
\<close>

theorem adapter_data_exact:
  "read_exactly (adapter_arrived port_arrived answers handle) len
     (adapter_network_recv core_sysdep_network_recv_posix answers handle len timeout_ms)
   \<and> sent_exactly buffer (adapter_network_send
       (\<lambda>answers handle buffer timeout_ms. core_sysdep_network_send_posix answers handle buffer timeout_ms None)
       answers' handle buffer timeout_ms)"
  by (intro conjI port.secured.reads port.secured.writes)

section \<open>What a session guarantees\<close>

text \<open>The calls of a session that is established, after \<open>Suc n\<close> handshakes.\<close>

definition client_cert_calls :: "tls_credentials \<Rightarrow> tls_call list" where
  "client_cert_calls cred =
     (case (cr_client_cert cred, cr_client_privkey cred) of
        (Some cert, Some key) \<Rightarrow>
          if cr_client_cert_len cred > 0 \<and> cr_client_privkey_len cred > 0 then
            [Init_client_cert, Init_client_key, Parse_client_cert cert (ucast (cr_client_cert_len cred) + 1),
             Parse_client_key key (ucast (cr_client_privkey_len cred) + 1), Conf_own_cert]
          else []
      | _ \<Rightarrow> [])"

definition credential_calls :: "adapter_handle \<Rightarrow> tls_credentials \<Rightarrow> tls_call list" where
  "credential_calls h cred =
     (case cr_option cred of
        Cred_svrcert_ca \<Rightarrow>
          [Init_server_cert, Parse_server_cert (cr_server_cert cred) (ucast (cr_server_cert_len cred) + 1)]
          @ client_cert_calls cred @ [Conf_ca_chain]
      | _ \<Rightarrow> [Conf_psk (snd (the (ah_psk h))) (snd (the (ah_psk_id h))), Conf_ciphersuites_psk])"

definition session_calls :: "adapter_handle \<Rightarrow> string \<Rightarrow> nat \<Rightarrow> tls_call list" where
  "session_calls h host n =
     Ssl_setup # (if host_is_ip host then [] else [Set_hostname host])
     @ [Set_bio, Conf_read_timeout (ah_connect_timeout_ms h)] @ replicate (Suc n) Handshake @ [Get_verify_result]"

definition configure_calls :: "adapter_handle \<Rightarrow> tls_credentials \<Rightarrow> tls_call list" where
  "configure_calls h cred =
     Conf_max_frag_len (max_frag_code (cr_max_tls_fragment cred))
     # (if ah_socket_type h = Tcp_client then [Config_defaults_client_stream] else [])
     @ [Conf_max_version_1_2, Conf_min_version_1_2, Conf_rng, Conf_dbg]"

text \<open>The calls whose result the code looks at.\<close>

fun checked :: "tls_call \<Rightarrow> bool" where
  "checked (Parse_server_cert _ _) = True"
| "checked (Parse_client_cert _ _) = True"
| "checked (Parse_client_key _ _) = True"
| "checked Conf_own_cert = True"
| "checked (Conf_psk _ _) = True"
| "checked Ssl_setup = True"
| "checked (Set_hostname _) = True"
| "checked Get_verify_result = True"
| "checked (Conf_max_frag_len _) = True"
| "checked Config_defaults_client_stream = True"
| "checked _ = False"

definition all_accepted :: "tls_library \<Rightarrow> tls_call list \<Rightarrow> bool" where
  "all_accepted tls calls \<longleftrightarrow> (\<forall>c \<in> set calls. checked c \<longrightarrow> 0 \<le> tl_answer tls c)"

lemma all_accepted_simps [simp]:
  "all_accepted tls []"
  "all_accepted tls (c # calls) \<longleftrightarrow> (checked c \<longrightarrow> 0 \<le> tl_answer tls c) \<and> all_accepted tls calls"
  "all_accepted tls (calls @ calls') \<longleftrightarrow> all_accepted tls calls \<and> all_accepted tls calls'"
  by (auto simp: all_accepted_def)

lemma all_accepted_handshakes [simp]: "all_accepted tls (replicate n Handshake)"
  by (simp add: all_accepted_def)

text \<open>A step whose error is negative ends with 0 only through its continuation.\<close>

lemma tls_step_zero:
  assumes "tls_step tls c error k calls = Ok (Some (0, out))" and "\<And>r. r < 0 \<Longrightarrow> error r < 0"
  shows "0 \<le> tl_answer tls c" "k (calls @ [c]) = Ok (Some (0, out))"
  using assms(1) assms(2) [of "tl_answer tls c"] by (auto simp: tls_step_def split: if_splits)

lemma tls_optional_zero:
  assumes "(if skip then (\<lambda>k. k) else tls_step tls c error) k calls = Ok (Some (0, out))"
    and "\<And>r. r < 0 \<Longrightarrow> error r < 0"
  shows "all_accepted tls (if skip then [] else [c])" "k (calls @ (if skip then [] else [c])) = Ok (Some (0, out))"
  using assms(1) tls_step_zero [of tls c error k calls out] assms(2) by (simp_all split: if_splits)

lemma tls_handshake_zero:
  assumes "tls_handshake answers k calls = Ok (Some (0, out))"
  shows "\<exists>n. n < length answers \<and> answers ! n = 0 \<and> k (calls @ replicate (Suc n) Handshake) = Ok (Some (0, out))"
  using assms
proof (induction answers arbitrary: calls)
  case (Cons res answers)
  show ?case
  proof (cases "res = 0")
    case True
    then show ?thesis using Cons.prems by (intro exI [of _ 0]) simp
  next
    case False
    then have "tls_handshake answers k (calls @ [Handshake]) = Ok (Some (0, out))"
      using Cons.prems by (auto split: if_splits)
    from Cons.IH [OF this] obtain n where "n < length answers \<and> answers ! n = 0
        \<and> k ((calls @ [Handshake]) @ replicate (Suc n) Handshake) = Ok (Some (0, out))" by blast
    then show ?thesis by (intro exI [of _ "Suc n"]) simp
  qed
qed simp

definition finished :: "tls_library \<Rightarrow> nat \<Rightarrow> bool" where
  "finished tls n \<longleftrightarrow> n < length (tl_handshake tls) \<and> tl_handshake tls ! n = 0"

lemma session_zero:
  assumes "session_steps tls h host calls = Ok (Some (0, out))"
  shows "\<exists>n. out = calls @ session_calls h host n \<and> all_accepted tls (session_calls h host n) \<and> finished tls n"
proof -
  let ?rest = "\<lambda>calls. tls_handshake (tl_handshake tls)
      (tls_step tls Get_verify_result (\<lambda>res. res) (\<lambda>calls. Ok (Some (0, calls))))
      (calls @ [Set_bio, Conf_read_timeout (ah_connect_timeout_ms h)])"
  let ?named = "if host_is_ip host then [] else [Set_hostname host]"
  have ready: "0 \<le> tl_answer tls Ssl_setup"
      "(if host_is_ip host then (\<lambda>k. k) else tls_step tls (Set_hostname host) (\<lambda>res. res)) ?rest (calls @ [Ssl_setup])
        = Ok (Some (0, out))"
    using tls_step_zero [OF assms [unfolded session_steps_def]] by simp_all
  have named: "all_accepted tls ?named" "?rest ((calls @ [Ssl_setup]) @ ?named) = Ok (Some (0, out))"
    using tls_optional_zero [OF ready(2)] by simp_all
  obtain n where n: "finished tls n" "tls_step tls Get_verify_result (\<lambda>res. res) (\<lambda>calls. Ok (Some (0, calls)))
      ((((calls @ [Ssl_setup]) @ ?named) @ [Set_bio, Conf_read_timeout (ah_connect_timeout_ms h)]) @ replicate (Suc n) Handshake)
      = Ok (Some (0, out))"
    using tls_handshake_zero [OF named(2)] by (auto simp: finished_def)
  from tls_step_zero [OF n(2)] have "0 \<le> tl_answer tls Get_verify_result" "out = calls @ session_calls h host n"
    by (simp_all add: session_calls_def)
  then show ?thesis using ready(1) named(1) n(1)
    by (intro exI [of _ n]) (simp add: session_calls_def)
qed

lemma client_cert_zero:
  assumes "client_cert_steps tls cred k calls = Ok (Some (0, out))"
  shows "all_accepted tls (client_cert_calls cred) \<and> k (calls @ client_cert_calls cred) = Ok (Some (0, out))"
proof (cases "client_cert_calls cred = []")
  case True
  then show ?thesis using assms
    by (auto simp: client_cert_steps_def client_cert_calls_def split: option.splits if_splits)
next
  case False
  then obtain cert key where given: "cr_client_cert cred = Some cert" "cr_client_privkey cred = Some key"
      "cr_client_cert_len cred > 0 \<and> cr_client_privkey_len cred > 0"
    by (auto simp: client_cert_calls_def split: option.splits if_splits)
  note steps = assms [unfolded client_cert_steps_def, simplified given option.case prod.case, simplified]
  note one = tls_step_zero [OF steps]
  note two = tls_step_zero [OF one(2)]
  note three = tls_step_zero [OF two(2)]
  show ?thesis using one(1) two(1) three by (simp add: client_cert_calls_def given)
qed

lemma credential_zero:
  assumes "credential_steps tls h cred k calls = Ok (Some (0, out))"
  shows "(cr_option cred = Cred_svrcert_ca \<or> cr_option cred = Cred_svrcert_psk \<and> ah_psk_id h \<noteq> None \<and> ah_psk h \<noteq> None)
    \<and> all_accepted tls (credential_calls h cred) \<and> k (calls @ credential_calls h cred) = Ok (Some (0, out))"
proof (cases "cr_option cred")
  case Cred_svrcert_ca
  note steps = assms [unfolded credential_steps_def, simplified Cred_svrcert_ca cred_option.case]
  have one: "tls_step tls (Parse_server_cert (cr_server_cert cred) (ucast (cr_server_cert_len cred) + 1))
      (\<lambda>_. STATE_PORT_TLS_INVALID_SERVER_CERT)
      (client_cert_steps tls cred (\<lambda>calls. k (calls @ [Conf_ca_chain]))) (calls @ [Init_server_cert]) = Ok (Some (0, out))"
    using steps by (simp split: if_splits)
  note two = tls_step_zero [OF one]
  show ?thesis using two(1) client_cert_zero [OF two(2)] by (simp add: credential_calls_def Cred_svrcert_ca)
next
  case Cred_svrcert_psk
  then obtain a psk_id b psk where keys: "ah_psk_id h = Some (a, psk_id)" "ah_psk h = Some (b, psk)"
    using assms by (auto simp: credential_steps_def split: option.splits)
  note one = tls_step_zero [OF assms [unfolded credential_steps_def, simplified Cred_svrcert_psk keys cred_option.case
        option.case prod.case]]
  show ?thesis using one by (simp add: credential_calls_def Cred_svrcert_psk keys)
qed (use assms in \<open>simp_all add: credential_steps_def\<close>)


definition sample_credentials :: tls_credentials where
  "sample_credentials = \<lparr> cr_option = Cred_svrcert_ca, cr_max_tls_fragment = 16384, cr_sni_enabled = 1,
     cr_server_cert = Some ''ca'', cr_server_cert_len = 2, cr_client_cert = None, cr_client_cert_len = 0,
     cr_client_privkey = None, cr_client_privkey_len = 0, cr_tls_extend_info = None \<rparr>"

definition sample_adapter :: adapter_handle where
  "sample_adapter = \<lparr> ah_self = 0, ah_network = Some sample_network, ah_socket_type = Tcp_client,
     ah_cred = Some (2, sample_credentials), ah_host = Some (1, ''host.example''), ah_backup_ip = replicate 16 NUL,
     ah_port = 443, ah_connect_timeout_ms = 5000, ah_psk_id = None, ah_psk = None \<rparr>"

definition sample_tls :: tls_library where
  "sample_tls = \<lparr> tl_answer = (\<lambda>_. 0), tl_handshake = [ERR_SSL_WANT_READ, 0] \<rparr>"

lemma sample_session:
  "tls_network_establish sample_tls sample_adapter =
     Ok (Some (0, configure_calls sample_adapter sample_credentials @ credential_calls sample_adapter sample_credentials
       @ session_calls sample_adapter ''host.example'' 1))"
  by (simp add: tls_network_establish_def sample_adapter_def sample_credentials_def sample_tls_def tls_step_def
      credential_steps_def client_cert_steps_def session_steps_def host_is_ip_def is_digit_def configure_calls_def
      credential_calls_def client_cert_calls_def session_calls_def max_frag_code_def)


section \<open>The blocks of a connection\<close>

definition owned_block :: "'a owned_ptr \<Rightarrow> nat list" where
  "owned_block p = (case p of None \<Rightarrow> [] | Some (a, _) \<Rightarrow> [a])"

lemma owned_block_simps [simp]: "owned_block None = []" "owned_block (Some (a, x)) = [a]"
  by (simp_all add: owned_block_def)

definition handle_blocks :: "adapter_handle \<Rightarrow> nat list" where
  "handle_blocks h =
     owned_block (ah_host h) @ owned_block (ah_psk_id h) @ owned_block (ah_psk h) @ owned_block (ah_cred h) @ [ah_self h]"

text \<open>The live blocks are those of others and those of the handle, each of which has one owner.\<close>

definition accounts :: "nat set \<Rightarrow> adapter_handle \<Rightarrow> heap \<Rightarrow> bool" where
  "accounts others h hp \<longleftrightarrow>
     distinct (handle_blocks h) \<and> set (handle_blocks h) \<inter> others = {} \<and> hp_live hp = others \<union> set (handle_blocks h)
     \<and> (\<forall>a \<in> hp_live hp. a < hp_count hp)"

lemma free_owned_live:
  assumes "set (owned_block p) \<subseteq> hp_live hp"
  shows "free_owned p hp = Ok (hp \<lparr> hp_live := hp_live hp - set (owned_block p) \<rparr>)"
  using assms by (cases p) (auto simp: free_owned_def free_block_def)

lemma deinit_releases:
  assumes "accounts others h hp"
  shows "\<exists>hp' events. adapter_network_deinit (Some h) hp = Ok (STATE_SUCCESS, hp', events) \<and> hp_live hp' = others"
proof -
  have parts: "distinct (owned_block (ah_host h) @ owned_block (ah_psk_id h) @ owned_block (ah_psk h)
      @ owned_block (ah_cred h) @ [ah_self h])"
      "hp_live hp = others \<union> (set (owned_block (ah_host h)) \<union> set (owned_block (ah_psk_id h)) \<union> set (owned_block (ah_psk h))
        \<union> set (owned_block (ah_cred h)) \<union> {ah_self h})"
      "set (handle_blocks h) \<inter> others = {}"
    using assms unfolding accounts_def handle_blocks_def by (auto simp only: set_append set_simps)
  let ?live1 = "hp_live hp - set (owned_block (ah_host h))"
  let ?live2 = "?live1 - set (owned_block (ah_psk_id h))"
  let ?live3 = "?live2 - set (owned_block (ah_psk h))"
  let ?live4 = "?live3 - set (owned_block (ah_cred h))"
  have frees: "set (owned_block (ah_host h)) \<subseteq> hp_live hp" "set (owned_block (ah_psk_id h)) \<subseteq> ?live1"
      "set (owned_block (ah_psk h)) \<subseteq> ?live2" "set (owned_block (ah_cred h)) \<subseteq> ?live3" "ah_self h \<in> ?live4"
    using parts(1) unfolding parts(2) by auto
  have "?live4 - {ah_self h} = others"
    using parts(3) unfolding parts(2) handle_blocks_def by auto
  moreover have "adapter_network_deinit (Some h) hp =
      Ok (STATE_SUCCESS, hp \<lparr> hp_live := ?live4 - {ah_self h} \<rparr>, snd (core_sysdep_network_deinit_posix (ah_network h)))"
    using frees by (simp add: adapter_network_deinit_def free_owned_live free_block_def)
  ultimately show ?thesis by auto
qed

text \<open>The options that are given once: which field they fill.\<close>

fun option_kind :: "network_option \<Rightarrow> nat" where
  "option_kind (Option_socket_type _) = 0"
| "option_kind (Option_host _) = 1"
| "option_kind (Option_backup_ip _) = 2"
| "option_kind (Option_port _) = 3"
| "option_kind (Option_connect_timeout_ms _) = 4"
| "option_kind (Option_cred _) = 5"
| "option_kind (Option_psk _ _) = 6"
| "option_kind Option_out_of_range = 7"

definition vacant :: "nat \<Rightarrow> adapter_handle \<Rightarrow> bool" where
  "vacant kind h \<longleftrightarrow> (kind = 1 \<longrightarrow> ah_host h = None) \<and> (kind = 5 \<longrightarrow> ah_cred h = None)
     \<and> (kind = 6 \<longrightarrow> ah_psk_id h = None \<and> ah_psk h = None)"

lemma accounts_new:
  assumes "accounts others h hp" and "hp_count hp \<le> a"
  shows "a \<notin> set (handle_blocks h) \<and> a \<notin> others"
  using assms unfolding accounts_def by (metis UnCI leD)

lemma store_accounts:
  assumes "accounts others h hp"
  shows "ah_host h = None \<Longrightarrow> store_host res host h hp = Ok (res', h', hp') \<Longrightarrow> accounts others h' hp'"
    and "ah_cred h = None \<Longrightarrow> store_cred res cred h hp = Ok (res', h', hp') \<Longrightarrow> accounts others h' hp'"
    and "ah_psk_id h = None \<Longrightarrow> ah_psk h = None \<Longrightarrow> \<forall>n. hp_memory hp n
      \<Longrightarrow> store_psk res psk_id psk h hp = Ok (res', h', hp') \<Longrightarrow> accounts others h' hp'"
proof -
  note new = accounts_new [OF assms, of "hp_count hp"] accounts_new [OF assms, of "Suc (hp_count hp)"]
  note parts = store_host_def store_cred_def store_psk_def alloc_def accounts_def handle_blocks_def less_Suc_eq
  show "ah_host h = None \<Longrightarrow> store_host res host h hp = Ok (res', h', hp') \<Longrightarrow> accounts others h' hp'"
    using assms new by (auto simp: parts split: if_splits)
  show "ah_cred h = None \<Longrightarrow> store_cred res cred h hp = Ok (res', h', hp') \<Longrightarrow> accounts others h' hp'"
    using assms new by (auto simp: parts split: if_splits)
  show "ah_psk_id h = None \<Longrightarrow> ah_psk h = None \<Longrightarrow> \<forall>n. hp_memory hp n
      \<Longrightarrow> store_psk res psk_id psk h hp = Ok (res', h', hp') \<Longrightarrow> accounts others h' hp'"
    using assms new by (auto simp: parts split: if_splits)
qed

text \<open>The network handle and the plain fields own nothing here.\<close>

lemma accounts_fields [simp]:
  "accounts others (h \<lparr> ah_network := nh \<rparr>) hp \<longleftrightarrow> accounts others h hp"
  "accounts others (h \<lparr> ah_socket_type := t \<rparr>) hp \<longleftrightarrow> accounts others h hp"
  "accounts others (h \<lparr> ah_backup_ip := ip \<rparr>) hp \<longleftrightarrow> accounts others h hp"
  "accounts others (h \<lparr> ah_port := port \<rparr>) hp \<longleftrightarrow> accounts others h hp"
  "accounts others (h \<lparr> ah_connect_timeout_ms := ms \<rparr>) hp \<longleftrightarrow> accounts others h hp"
  by (simp_all add: accounts_def handle_blocks_def)

lemma store_memory:
  "store_host res host h hp = Ok (res', h', hp') \<Longrightarrow> hp_memory hp' = hp_memory hp"
  "store_cred res cred h hp = Ok (res', h', hp') \<Longrightarrow> hp_memory hp' = hp_memory hp"
  "store_psk res psk_id psk h hp = Ok (res', h', hp') \<Longrightarrow> hp_memory hp' = hp_memory hp"
  by (auto simp: store_host_def store_cred_def store_psk_def alloc_def free_block_def split: if_splits)

lemma store_vacant:
  "store_host res host h hp = Ok (res', h', hp') \<Longrightarrow> kind \<noteq> 1 \<Longrightarrow> vacant kind h \<Longrightarrow> vacant kind h'"
  "store_cred res cred h hp = Ok (res', h', hp') \<Longrightarrow> kind \<noteq> 5 \<Longrightarrow> vacant kind h \<Longrightarrow> vacant kind h'"
  "store_psk res psk_id psk h hp = Ok (res', h', hp') \<Longrightarrow> kind \<noteq> 6 \<Longrightarrow> vacant kind h \<Longrightarrow> vacant kind h'"
  by (auto simp: store_host_def store_cred_def store_psk_def alloc_def free_block_def vacant_def split: if_splits)

lemma setopt_accounts:
  assumes "adapter_network_setopt port_memory (Some h) (Some opt) hp = Ok (res, nh, hp')"
    and "accounts others h hp" and "vacant (option_kind opt) h"
    and "option_kind opt = 6 \<Longrightarrow> \<forall>n. hp_memory hp n"
  obtains h' where "nh = Some h'" "accounts others h' hp'" "hp_memory hp' = hp_memory hp"
    "\<And>kind. kind \<noteq> option_kind opt \<Longrightarrow> vacant kind h \<Longrightarrow> vacant kind h'"
proof (cases "opt = Option_out_of_range")
  case True
  then show thesis using assms(1,2) that [of h] by (simp add: adapter_network_setopt_def)
next
  case False
  then obtain r0 nh0 where port: "core_sysdep_network_setopt_posix port_memory (ah_network h) (Some opt) = Ok (r0, nh0)"
    using assms(1) by (cases "core_sysdep_network_setopt_posix port_memory (ah_network h) (Some opt)")
      (auto simp: adapter_network_setopt_def)
  note eqs = assms(1) [unfolded adapter_network_setopt_def, simplified option.case False if_False port obind.simps
      prod.case Let_def]
  have vacant1: "vacant kind (h \<lparr> ah_network := nh0 \<rparr>) \<longleftrightarrow> vacant kind h" for kind by (simp add: vacant_def)
  have acc: "accounts others (h \<lparr> ah_network := nh0 \<rparr>) hp" using assms(2) by simp
  show thesis
  proof (cases opt)
    case (Option_host host)
    obtain h' where h': "store_host r0 host (h \<lparr> ah_network := nh0 \<rparr>) hp = Ok (res, h', hp')" "nh = Some h'"
      using eqs by (cases "store_host r0 host (h \<lparr> ah_network := nh0 \<rparr>) hp") (auto simp: Option_host)
    show thesis
      by (rule that [OF h'(2) store_accounts(1) [OF acc _ h'(1)] store_memory(1) [OF h'(1)]])
        (use assms(3) store_vacant(1) [OF h'(1)] in \<open>simp_all add: vacant1 vacant_def Option_host\<close>)
  next
    case (Option_cred cred)
    obtain h' where h': "store_cred r0 cred (h \<lparr> ah_network := nh0 \<rparr>) hp = Ok (res, h', hp')" "nh = Some h'"
      using eqs by (cases "store_cred r0 cred (h \<lparr> ah_network := nh0 \<rparr>) hp") (auto simp: Option_cred)
    show thesis
      by (rule that [OF h'(2) store_accounts(2) [OF acc _ h'(1)] store_memory(2) [OF h'(1)]])
        (use assms(3) store_vacant(2) [OF h'(1)] in \<open>simp_all add: vacant1 vacant_def Option_cred\<close>)
  next
    case (Option_psk psk_id psk)
    obtain h' where h': "store_psk r0 psk_id psk (h \<lparr> ah_network := nh0 \<rparr>) hp = Ok (res, h', hp')" "nh = Some h'"
      using eqs by (cases "store_psk r0 psk_id psk (h \<lparr> ah_network := nh0 \<rparr>) hp") (auto simp: Option_psk)
    show thesis
      by (rule that [OF h'(2) store_accounts(3) [OF acc _ _ _ h'(1)] store_memory(3) [OF h'(1)]])
        (use assms(3,4) store_vacant(3) [OF h'(1)] in \<open>simp_all add: vacant1 vacant_def Option_psk\<close>)
  next
    case (Option_backup_ip ip)
    then show thesis using eqs assms(2)
      by (intro that [of "h \<lparr> ah_network := nh0, ah_backup_ip := memcpy_at (ah_backup_ip h) 0 ip \<rparr>"])
        (auto simp: vacant_def split: if_splits)
  qed (use eqs assms(2) False that in \<open>auto simp: vacant_def\<close>)
qed

text \<open>The options of a connection, up to the first that fails.\<close>

fun adapter_setopts :: "(bool \<times> network_option) list \<Rightarrow> adapter_handle \<Rightarrow> heap \<Rightarrow> (int \<times> adapter_handle \<times> heap) outcome" where
  "adapter_setopts [] h hp = Ok (STATE_SUCCESS, h, hp)"
| "adapter_setopts ((port_memory, opt) # opts) h hp =
     obind (adapter_network_setopt port_memory (Some h) (Some opt) hp) (\<lambda>(res, nh, hp1).
       case nh of
         None \<Rightarrow> Undef
       | Some h1 \<Rightarrow> if res < STATE_SUCCESS then Ok (res, h1, hp1) else adapter_setopts opts h1 hp1)"

lemma setopts_accounts:
  assumes "adapter_setopts opts h hp = Ok (res, h', hp')"
    and "accounts others h hp" and "\<forall>(m, opt) \<in> set opts. vacant (option_kind opt) h"
    and "distinct (map (option_kind \<circ> snd) opts)"
    and "6 \<in> option_kind ` snd ` set opts \<Longrightarrow> \<forall>n. hp_memory hp n"
  shows "accounts others h' hp'"
  using assms
proof (induction opts arbitrary: h hp)
  case (Cons o1 opts)
  obtain m opt where o1: "o1 = (m, opt)" by (cases o1)
  obtain r nh hp1 where step: "adapter_network_setopt m (Some h) (Some opt) hp = Ok (r, nh, hp1)"
    using Cons.prems(1) by (cases "adapter_network_setopt m (Some h) (Some opt) hp") (auto simp: o1)
  obtain h1 where h1: "nh = Some h1" "accounts others h1 hp1" "hp_memory hp1 = hp_memory hp"
      "\<And>kind. kind \<noteq> option_kind opt \<Longrightarrow> vacant kind h \<Longrightarrow> vacant kind h1"
    by (rule setopt_accounts [OF step Cons.prems(2)]) (use Cons.prems(3,5) in \<open>auto simp: o1\<close>)
  show ?case
  proof (cases "r < STATE_SUCCESS")
    case True
    then show ?thesis using Cons.prems(1) h1 step by (simp add: o1)
  next
    case False
    show ?thesis
    proof (rule Cons.IH [OF _ h1(2)])
      show "adapter_setopts opts h1 hp1 = Ok (res, h', hp')" using Cons.prems(1) step h1(1) False by (simp add: o1)
      show "\<forall>(m, opt) \<in> set opts. vacant (option_kind opt) h1"
        using Cons.prems(3,4) h1(4) by (force simp: o1)
      show "distinct (map (option_kind \<circ> snd) opts)" using Cons.prems(4) by (simp add: comp_def)
      show "\<forall>n. hp_memory hp1 n" if "6 \<in> option_kind ` snd ` set opts"
        using Cons.prems(5) that h1(3) by (simp add: o1)
    qed
  qed
qed simp


definition sample_heap :: heap where
  "sample_heap = \<lparr> hp_memory = (\<lambda>n. n \<noteq> 4), hp_count = 2, hp_live = {0, 1} \<rparr>"

definition sample_new_adapter :: adapter_handle where
  "sample_new_adapter = \<lparr> ah_self = 2, ah_network = core_sysdep_network_init_posix True, ah_socket_type = Tcp_client,
     ah_cred = None, ah_host = None, ah_backup_ip = replicate 16 NUL, ah_port = 0, ah_connect_timeout_ms = 0,
     ah_psk_id = None, ah_psk = None \<rparr>"

lemma sample_adapter_init:
  "adapter_network_init True sample_heap = (Some sample_new_adapter, sample_heap \<lparr> hp_count := 3, hp_live := {2, 0, 1} \<rparr>)"
  by (simp add: adapter_network_init_def alloc_def sample_heap_def sample_new_adapter_def)

lemma sample_adapter_options:
  "\<exists>h' hp2. adapter_setopts [(True, Option_host ''h''), (True, Option_cred sample_credentials)] sample_new_adapter
      (sample_heap \<lparr> hp_count := 3, hp_live := {2, 0, 1} \<rparr>) = Ok (STATE_PORT_MALLOC_FAILED, h', hp2)"
  by (simp add: adapter_network_setopt_def core_sysdep_network_setopt_posix_def core_sysdep_network_init_posix_def
      store_host_def store_cred_def alloc_def sample_heap_def sample_new_adapter_def)


text \<open>
  A shared key without memory is released twice. When the identity of the key has been stored but there
  is no memory for the key, the option fails with the identity released and still in the handle; closing
  the adapter, which the client does at its next connection or when it is destroyed, releases that block again.
\<close>

theorem psk_without_memory_frees_twice:
  assumes "accounts others h hp" and "ah_psk_id h = None" and "ah_psk h = None"
    and "hp_memory hp (hp_count hp)" and "\<not> hp_memory hp (Suc (hp_count hp))"
  shows "\<exists>h' hp'. adapter_network_setopt port_memory (Some h) (Some (Option_psk psk_id psk)) hp
      = Ok (STATE_PORT_MALLOC_FAILED, Some h', hp') \<and> adapter_network_deinit (Some h') hp' = Undef"
proof -
  obtain r nh where port: "core_sysdep_network_setopt_posix port_memory (ah_network h) (Some (Option_psk psk_id psk)) = Ok (r, nh)"
    by (cases "ah_network h") (auto simp: core_sysdep_network_setopt_posix_def)
  let ?a = "hp_count hp"
  let ?h' = "h \<lparr> ah_network := nh, ah_psk_id := Some (?a, psk_id), ah_psk := None \<rparr>"
  let ?hp' = "hp \<lparr> hp_count := Suc (Suc ?a), hp_live := hp_live hp - {?a} \<rparr>"
  have set: "adapter_network_setopt port_memory (Some h) (Some (Option_psk psk_id psk)) hp
      = Ok (STATE_PORT_MALLOC_FAILED, Some ?h', ?hp')"
    using assms(4,5) by (simp add: adapter_network_setopt_def port store_psk_def alloc_def free_block_def)
  have "set (owned_block (ah_host ?h')) \<subseteq> hp_live ?hp'"
    using assms(1) accounts_new [OF assms(1), of ?a] by (auto simp: accounts_def handle_blocks_def)
  then have "adapter_network_deinit (Some ?h') ?hp' = Undef"
    by (simp add: adapter_network_deinit_def free_owned_live) (simp add: free_owned_def free_block_def)
  with set show ?thesis by blast
qed

theorem psk_without_memory_frees_twice_witness:
  "\<exists>h' hp'. adapter_network_setopt True (Some sample_new_adapter) (Some (Option_psk ''id'' ''key''))
      (sample_heap \<lparr> hp_count := 3, hp_live := {2, 0, 1} \<rparr>)
      = Ok (STATE_PORT_MALLOC_FAILED, Some h', hp') \<and> adapter_network_deinit (Some h') hp' = Undef"
proof (rule psk_without_memory_frees_twice [of "{0, 1}"])
  show "accounts {0, 1} sample_new_adapter (sample_heap \<lparr> hp_count := 3, hp_live := {2, 0, 1} \<rparr>)"
    by (auto simp: accounts_def handle_blocks_def sample_new_adapter_def)
qed (simp_all add: sample_new_adapter_def sample_heap_def)

section \<open>The counters of Mbed TLS\<close>

text \<open>The total is the sum of the blocks in use, as long as it is; releasing them in any order leads back.\<close>

lemma tls_memory_returns:
  assumes "core_mbedtls_calloc (Some a) n sz tm = Ok (Some a, tm')" and "tm_blocks tm a = None"
  shows "\<exists>tm''. core_mbedtls_free (Some a) tm' = Ok tm'' \<and> tm_total tm'' = tm_total tm \<and> tm_blocks tm'' = tm_blocks tm"
  using assms by (auto simp: core_mbedtls_calloc_def core_mbedtls_free_def Let_def fun_upd_idem split: if_splits)

text \<open>The size of a request is not checked: a count and a size whose product wraps give a block of 8 bytes.\<close>

lemma tls_request_wraps:
  "\<exists>tm'. core_mbedtls_calloc (Some a) (2 ^ 32) (2 ^ 32) tm = Ok (Some a, tm') \<and> tm_blocks tm' a = Some 0"
  by (simp add: core_mbedtls_calloc_def Let_def)

end
