(* ===== verification/Client_Network.thy ===== *)
theory Client_Network
  imports Mqtt_Locks Net_Adapter
begin

text \<open>
  The client over the adapter and the port: where the network answers of the client's platform are those of
  Net_Adapter, what the client reads is what arrived, and what it reports as written went out.
\<close>

text \<open>
  The answers of the platform to the next call, to a read of so many bytes or to a buffer to write, are those
  of the adapter over the port, whose call returns. \<open>went\<close> are the bytes that left the device.
\<close>

definition reads_through :: "platform \<Rightarrow> nat \<Rightarrow> byte list io_answers \<times> byte list tls_answer list \<Rightarrow> adapter_handle \<Rightarrow> u32 \<Rightarrow> nat \<Rightarrow> bool" where
  "reads_through p n answers handle timeout_ms len \<longleftrightarrow>
     adapter_network_recv core_sysdep_network_recv_posix answers (Some handle) len timeout_ms = Some (p_network_recv p n len)"

definition writes_through ::
  "platform \<Rightarrow> nat \<Rightarrow> nat io_answers \<times> u64 \<times> (u64 \<times> nat tls_answer) list \<Rightarrow> adapter_handle \<Rightarrow> u32 \<Rightarrow> byte list \<Rightarrow> byte list \<Rightarrow> bool" where
  "writes_through p n answers handle timeout_ms buffer went \<longleftrightarrow>
     adapter_network_send (\<lambda>answers handle buffer timeout_ms. core_sysdep_network_send_posix answers handle buffer timeout_ms None)
       answers (Some handle) buffer timeout_ms = Some (p_network_send p n buffer, went)"

lemma sysdep_return_negative: "res < 0 \<Longrightarrow> err < 0 \<Longrightarrow> core_mqtt_sysdep_return res err < 0"
  by (simp add: core_mqtt_sysdep_return_def)

lemma read_whole:
  assumes "run_state (core_mqtt_read len) (h, w) = ((res, buf), s)" and "0 \<le> res"
  shows "res = int len \<and> (\<exists>bytes. p_network_recv (plat w) (calls w) len = (int len, bytes) \<and> buf = take len (bytes @ replicate len 0))"
proof -
  obtain r bytes where net: "p_network_recv (plat w) (calls w) len = (r, bytes)"
    by (cases "p_network_recv (plat w) (calls w) len")
  have open_handle: "network_handle h" using assms by (auto simp: core_mqtt_read_def split: if_splits)
  show ?thesis
    using assms sysdep_return_negative [of r STATE_SYS_DEPEND_NWK_RECV_ERR]
    by (auto simp: core_mqtt_read_def net open_handle split: if_splits)
qed

lemma write_whole:
  assumes "run_state (core_mqtt_write buffer) (h, w) = (res, s)" and "0 \<le> res"
  shows "res = int (length buffer) \<and> p_network_send (plat w) (calls w) buffer = int (length buffer)"
proof -
  have "network_handle h" using assms by (auto simp: core_mqtt_write_def split: if_splits)
  then show ?thesis
    using assms sysdep_return_negative [of "p_network_send (plat w) (calls w) buffer" STATE_SYS_DEPEND_NWK_SEND_ERR]
    by (auto simp: core_mqtt_write_def Let_def split: if_splits)
qed

text \<open>
  C9. What the client reads arrived, what it writes leaves. Over the adapter and the port, TLS or plain and
  whatever the system answers: a read of the client that succeeds gives exactly as many bytes as it asked
  for, and they are the beginning of what arrived at the socket or the session; a write that succeeds has sent
  the whole packet. A part is never taken for a whole: it is an error of the client.
\<close>

theorem client_over_adapter:
  assumes "reads_through (plat w) (calls w) answers handle timeout_ms len"
    and "run_state (core_mqtt_read len) (h, w) = ((res, buf), s)" and "0 \<le> res"
    and "writes_through (plat w') (calls w') answers' handle timeout_ms' buffer went"
    and "run_state (core_mqtt_write buffer) (h', w') = (res', s')" and "0 \<le> res'"
  shows "length buf = len \<and> (\<exists>k. buf = take len (adapter_arrived port_arrived answers (Some handle) k)) \<and> went = buffer"
proof -
  obtain bytes where bytes: "p_network_recv (plat w) (calls w) len = (int len, bytes)" "buf = take len (bytes @ replicate len 0)"
    using read_whole [OF assms(2,3)] by blast
  have "length bytes = len \<and> (\<exists>k. bytes = take len (adapter_arrived port_arrived answers (Some handle) k))"
    using port.secured.full_read [of answers "Some handle" len timeout_ms bytes] assms(1) bytes(1)
    by (simp add: reads_through_def)
  moreover from this have "buf = bytes" by (simp add: bytes(2))
  moreover have "went = buffer"
    using port.secured.full_write [of answers' "Some handle" buffer timeout_ms' went] assms(4) write_whole [OF assms(5,6)]
    by (simp add: writes_through_def)
  ultimately show ?thesis by simp
qed

definition network_platform :: "platform \<Rightarrow> platform" where
  "network_platform p = p \<lparr> p_network_recv := \<lambda>_ n. (int n, replicate n 0x20), p_network_send := \<lambda>_ b. int (length b) \<rparr>"

definition sample_arrivals :: "byte list io_answers" where
  "sample_arrivals = \<lparr> ia_start = 1000, ia_rounds = [\<lparr> io_now = 1001, io_select = 1, io_answer = Moved [0x20, 0x02] \<rparr>],
     ia_select = 0, ia_server = None \<rparr>"

definition sample_departures :: "nat io_answers" where
  "sample_departures = \<lparr> ia_start = 1000, ia_rounds = [\<lparr> io_now = 1001, io_select = 1, io_answer = Moved 2 \<rparr>],
     ia_select = 0, ia_server = None \<rparr>"

definition sample_plain :: adapter_handle where
  "sample_plain = sample_adapter \<lparr> ah_cred := None \<rparr>"

theorem client_over_adapter_witness:
  "\<exists>buf s s' went. run_state (core_mqtt_read 1)
       ((initial_handle 0) \<lparr> network_handle := True \<rparr>, fresh_world (network_platform quiet_platform)) = ((1, buf), s)
    \<and> run_state (core_mqtt_write [0xC0, 0x00])
       ((initial_handle 0) \<lparr> network_handle := True \<rparr>, fresh_world (network_platform quiet_platform)) = (2, s')
    \<and> length buf = 1 \<and> (\<exists>k. buf = take 1 (adapter_arrived port_arrived (sample_arrivals, []) (Some sample_plain) k))
    \<and> went = [0xC0, 0x00 :: byte]"
proof -
  let ?h = "(initial_handle 0) \<lparr> network_handle := True \<rparr>" and ?w = "fresh_world (network_platform quiet_platform)"
  obtain buf s where rd: "run_state (core_mqtt_read 1) (?h, ?w) = ((1, buf), s)"
    by (simp add: core_mqtt_read_def network_platform_def fresh_world_def)
  obtain s' where wr: "run_state (core_mqtt_write [0xC0, 0x00]) (?h, ?w) = (2, s')"
    by (simp add: core_mqtt_write_def network_platform_def fresh_world_def Let_def)
  have plain: "\<not> over_tls sample_plain" "ah_network sample_plain = Some sample_network"
    by (simp_all add: over_tls_def sample_plain_def sample_adapter_def)
  have reads: "reads_through (plat ?w) (calls ?w) (sample_arrivals, []) sample_plain 10 1"
    by (simp add: reads_through_def adapter_network_recv_def plain core_sysdep_network_recv_posix_def network_recv_def
        sample_network_def sample_arrivals_def time_over_def word_le_nat_alt word_less_nat_alt network_platform_def fresh_world_def)
  have writes: "writes_through (plat ?w) (calls ?w) (sample_departures, 0, []) sample_plain 10 [0xC0, 0x00] [0xC0, 0x00]"
    by (simp add: writes_through_def adapter_network_send_def plain core_sysdep_network_send_posix_def network_send_def
        sample_network_def sample_departures_def time_over_def word_le_nat_alt word_less_nat_alt network_platform_def fresh_world_def)
  show ?thesis using client_over_adapter [OF reads rd _ writes wr] rd wr by auto
qed

end
