(* ===== verification/Core_Log.thy ===== *)
theory Core_Log
  imports Core_String
begin

text \<open>
  The log lines of the SDK (\<^verbatim>\<open>core/utils/core_log.c\<close>, the callback of
  \<^verbatim>\<open>core/aiot_state_api.c\<close>): the clock, the lines with their arguments, the dump of a
  packet. A line is built in a fixed buffer; it is proved to be the expanded text, cut.
\<close>

section \<open>The clock of the log\<close>

record log_state =
  lg_time_start :: u64
  lg_time_interval :: u64
  lg_timestamp :: u64
  lg_log_stamp :: u8
  lg_log_date :: u8

definition g_core_log :: log_state where
  "g_core_log = \<lparr> lg_time_start = 0, lg_time_interval = 0, lg_timestamp = 0, lg_log_stamp = 1, lg_log_date = 0 \<rparr>"

text \<open>\<open>now\<close>: what the clock of the system shows.\<close>

definition core_log_get_timestamp :: "u64 \<Rightarrow> log_state \<Rightarrow> u64 \<times> log_state" where
  "core_log_get_timestamp now g =
     (if lg_timestamp g \<noteq> 0 \<and> lg_timestamp g > now then
        (let g1 = (if now \<ge> lg_time_start g
                   then g \<lparr> lg_time_interval := lg_time_interval g + (now - lg_time_start g) \<rparr>
                   else g \<lparr> lg_time_interval := lg_time_interval g + now \<rparr>);
             g2 = g1 \<lparr> lg_time_start := now \<rparr> in
         (lg_timestamp g2 + lg_time_interval g2, g2))
      else (now, g))"

definition core_log_set_timestamp :: "u64 \<Rightarrow> u64 \<Rightarrow> log_state \<Rightarrow> log_state" where
  "core_log_set_timestamp now timestamp g =
     g \<lparr> lg_timestamp := timestamp, lg_time_start := now, lg_time_interval := 0 \<rparr>"

section \<open>The buffer of a line\<close>

abbreviation CORE_LOG_MAXLEN :: nat where "CORE_LOG_MAXLEN \<equiv> 160"

definition line_end :: string where "line_end = [CHR 0x0D, CHR 0x0A]"

definition empty_line :: "char list" where
  "empty_line = replicate CORE_LOG_MAXLEN NUL @ line_end @ [NUL]"

text \<open>\<^verbatim>\<open>memcpy\<close> behind the text of the buffer.\<close>

definition append_text :: "string \<Rightarrow> char list \<Rightarrow> char list outcome" where
  "append_text s buffer =
     (let n = length (cstr buffer) in if length buffer < n + length s then Undef else Ok (memcpy_at buffer n s))"

text \<open>As much of a text as has room; the subtraction wraps behind the end of the text.\<close>

definition append_cut :: "string \<Rightarrow> nat \<Rightarrow> char list \<Rightarrow> (nat \<times> char list) outcome" where
  "append_cut s len buffer =
     (let n = length (cstr buffer) in
      if n + len > CORE_LOG_MAXLEN then
        (if n > CORE_LOG_MAXLEN \<or> length s < CORE_LOG_MAXLEN - n then Undef
         else obind (append_text (take (CORE_LOG_MAXLEN - n) s) buffer) (\<lambda>b. Ok (CORE_LOG_MAXLEN - n, b)))
      else if length s < len then Undef
      else obind (append_text (take len s) buffer) (\<lambda>b. Ok (len, b)))"

section \<open>The front of a line\<close>

definition code_text :: "32 word \<Rightarrow> string" where
  "code_text code =
     (let v = ucast (- code) :: u16; code_hex = [ucast (drop_bit 8 v) :: byte, ucast v] in
      ''[LK-'' @ core_hex2str code_hex False @ ''] '')"

definition date_text :: "bool \<Rightarrow> u64 \<Rightarrow> string outcome" where
  "date_text memory timestamp =
     (let d = core_utc2date timestamp 8 in
      core_sprintf memory ''%s/%s/%s %s:%s:%s''
        (map (\<lambda>n. Some (core_uint2str (of_nat n))) [year d, mon d, day d, hour d, minute d, sec d]) 6)"

text \<open>A point before the last three digits: the code moves them with \<^verbatim>\<open>memcpy\<close> over itself.\<close>

definition stamp_text :: "u64 \<Rightarrow> string" where
  "stamp_text timestamp =
     (let digits = core_uint642str timestamp; n = length digits in
      if n > 3 then take (n - 3) digits @ ''.'' @ drop (n - 3) digits else digits)"

text \<open>\<open>now\<close> is \<open>None\<close> where the table of system functions is missing.\<close>

definition core_log_append_prefix ::
  "u64 option \<Rightarrow> bool \<Rightarrow> 32 word \<Rightarrow> log_state \<Rightarrow> char list \<Rightarrow> (log_state \<times> char list) outcome" where
  "core_log_append_prefix now memory code g buffer =
     (case now of
        None \<Rightarrow> Ok (g, buffer)
      | Some t \<Rightarrow>
          (case core_log_get_timestamp t g of (timenow, g1) \<Rightarrow>
            obind (if lg_log_date g1 = 1 then
                     obind (append_text ''['' buffer) (\<lambda>b1.
                     obind (case date_text memory timenow of Ok s \<Rightarrow> append_text s b1 | Err e \<Rightarrow> Ok b1 | Undef \<Rightarrow> Undef) (append_text '']''))
                   else Ok buffer) (\<lambda>b2.
            obind (if lg_log_stamp g1 = 1 then
                     obind (append_text ''['' b2) (\<lambda>b3. obind (append_text (stamp_text timenow) b3) (append_text '']''))
                   else Ok b2) (\<lambda>b4.
            obind (append_text (code_text code) b4) (\<lambda>b5. Ok (g1, b5))))))"

section \<open>The arguments of a line\<close>

text \<open>What a pointer among the arguments points to: a text (for \<^verbatim>\<open>%.*s\<close> bytes of some length), a number.\<close>

datatype log_arg = Log_text string | Log_num u32

definition next_arg :: "log_arg option list \<Rightarrow> nat \<Rightarrow> log_arg option \<Rightarrow> bool \<Rightarrow> nat \<times> log_arg option" where
  "next_arg datas arg_idx arg arg_flag =
     (if \<not> arg_flag then (arg_idx, arg)
      else if arg_idx < length datas - 1 then (Suc arg_idx, datas ! Suc arg_idx)
      else (arg_idx, None))"

text \<open>
  What the format has at a place: a character to copy (\<open>None\<close>), or a conversion with its argument,
  given by the bytes, how many of them, the index of the argument afterwards, and how many more
  characters of the format are done. An argument of the other kind is read as what it is not.
\<close>

type_synonym format_item = "(string \<times> nat \<times> nat \<times> nat) option"

definition log_item :: "log_arg option list \<Rightarrow> nat \<Rightarrow> log_arg option \<Rightarrow> char \<Rightarrow> string \<Rightarrow> format_item outcome" where
  "log_item datas arg_idx arg c fmt =
     (if c = CHR ''%'' \<and> fmt \<noteq> [] \<and> hd fmt = CHR ''s'' \<and> arg \<noteq> None then
        (case the arg of Log_num n \<Rightarrow> Undef | Log_text s \<Rightarrow> Ok (Some (cstr s, length (cstr s), arg_idx, 1)))
      else if c = CHR ''%'' \<and> take 3 fmt = ''.*s'' \<and> arg \<noteq> None \<and> Suc arg_idx < length datas then
        (case (datas ! Suc arg_idx, the arg) of
           (None, _) \<Rightarrow> Ok (Some ([], 0, Suc arg_idx, 3))
         | (Some (Log_text s), Log_num len) \<Rightarrow> Ok (Some (s, unat len, Suc arg_idx, 3))
         | _ \<Rightarrow> Undef)
      else if c = CHR ''%'' \<and> fmt \<noteq> [] \<and> hd fmt = CHR ''d'' \<and> arg \<noteq> None then
        (case the arg of
           Log_text s \<Rightarrow> Undef
         | Log_num n \<Rightarrow> Ok (Some (core_uint2str n, length (core_uint2str n), arg_idx, 1)))
      else if c = CHR ''%'' \<and> fmt \<noteq> [] \<and> hd fmt = CHR ''x'' \<and> arg \<noteq> None then
        (case the arg of
           Log_text s \<Rightarrow> Undef
         | Log_num n \<Rightarrow> obind (core_int2hexstr n) (\<lambda>s. Ok (Some (s, length s, arg_idx, 1))))
      else Ok None)"

fun log_loop :: "log_arg option list \<Rightarrow> nat \<Rightarrow> log_arg option \<Rightarrow> bool \<Rightarrow> nat \<Rightarrow> char list \<Rightarrow> string \<Rightarrow> char list outcome" where
  "log_loop datas arg_idx arg arg_flag buffer_idx buffer [] = Ok buffer"
| "log_loop datas arg_idx arg arg_flag buffer_idx buffer (c # fmt) =
     (if buffer_idx \<ge> CORE_LOG_MAXLEN then Ok buffer
      else (case next_arg datas arg_idx arg arg_flag of (idx1, arg1) \<Rightarrow>
        obind (log_item datas idx1 arg1 c fmt) (\<lambda>item.
          case item of
            None \<Rightarrow>
              if length buffer \<le> buffer_idx then Undef
              else log_loop datas idx1 arg1 False (Suc buffer_idx) (buffer [buffer_idx := c]) fmt
          | Some (s, len, idx2, used) \<Rightarrow>
              obind (append_cut s len buffer) (\<lambda>(n, b).
                log_loop datas idx2 arg1 True (buffer_idx + n) b (drop used fmt)))))"

text \<open>
  The line for the callback, if there is one. \<open>core_log\<close> has a plain text; the others have a format
  and one to three arguments.
\<close>

type_synonym log_result = "(string option \<times> log_state) outcome"

definition core_log :: "bool \<Rightarrow> u64 option \<Rightarrow> bool \<Rightarrow> 32 word \<Rightarrow> string \<Rightarrow> log_state \<Rightarrow> log_result" where
  "core_log handler now memory code data g =
     (if \<not> handler then Ok (None, g)
      else obind (core_log_append_prefix now memory code g empty_line) (\<lambda>(g1, b).
        obind (append_cut data (length data) b) (\<lambda>(n, b1). Ok (Some (cstr b1), g1))))"

definition core_log_args ::
  "bool \<Rightarrow> u64 option \<Rightarrow> bool \<Rightarrow> 32 word \<Rightarrow> string \<Rightarrow> log_arg option list \<Rightarrow> log_state \<Rightarrow> log_result" where
  "core_log_args handler now memory code fmt datas g =
     (if \<not> handler then Ok (None, g)
      else obind (core_log_append_prefix now memory code g empty_line) (\<lambda>(g1, b).
        obind (log_loop datas 0 (datas ! 0) False (length (cstr b)) b fmt) (\<lambda>b1. Ok (Some (cstr b1), g1))))"

definition core_log1 where
  "core_log1 handler now memory code fmt data = core_log_args handler now memory code fmt [data]"

definition core_log2 where
  "core_log2 handler now memory code fmt data1 data2 = core_log_args handler now memory code fmt [data1, data2]"

definition core_log3 where
  "core_log3 handler now memory code fmt data1 data2 data3 = core_log_args handler now memory code fmt [data1, data2, data3]"

section \<open>The callbacks\<close>

text \<open>The handler of the lines, and the handler of the diagnosis with its handle; NULL is the default, which does nothing.\<close>

definition aiot_state_set_logcb :: "'h option \<Rightarrow> 'h option \<Rightarrow> int \<times> 'h option" where
  "aiot_state_set_logcb handler g_logcb_handler = (0, handler)"

definition core_diag_set_cb :: "'d option \<Rightarrow> 'c option \<Rightarrow> 'd option \<times> 'c option" where
  "core_diag_set_cb diag_handle cb = (if cb = None then (None, None) else (diag_handle, cb))"

text \<open>The call of the handler, and the state of the clock, which is read in any case.\<close>

definition core_diag ::
  "'d option \<times> 'c option \<Rightarrow> u64 \<Rightarrow> 32 word \<Rightarrow> byte list \<Rightarrow> log_state \<Rightarrow> ('c \<times> 'd option \<times> u64 \<times> 32 word \<times> byte list) option \<times> log_state" where
  "core_diag g_diag now code data g =
     (case core_log_get_timestamp now g of (timestamp, g1) \<Rightarrow>
       (map_option (\<lambda>cb. (cb, fst g_diag, timestamp, code, data)) (snd g_diag), g1))"

section \<open>The dump of a packet\<close>

text \<open>One line of 71 characters behind the code: the prefix, 16 bytes in two groups, their characters.\<close>

definition shown_char :: "byte \<Rightarrow> char" where
  "shown_char b = (if 0x20 \<le> b \<and> b \<le> 0x7E then char_of (unat b) else CHR ''.'')"

fun hexdump_cells :: "nat \<Rightarrow> nat \<Rightarrow> byte list \<Rightarrow> char list \<Rightarrow> char list" where
  "hexdump_cells i ch_idx [] row = row"
| "hexdump_cells i ch_idx (b # bs) row =
     (let ch = (if i = 8 then Suc ch_idx else ch_idx);
          row1 = memcpy_at row ch (core_hex2str [b] False @ '' '');
          row2 = row1 [53 + i := shown_char b] in
      hexdump_cells (Suc i) (ch + 3) bs row2)"

definition hexdump_row :: "char \<Rightarrow> byte list \<Rightarrow> char list" where
  "hexdump_row prefix bs =
     (let row = (replicate 71 CHR '' '') [0 := prefix, 51 := CHR ''|'', 52 := CHR '' ''] in
      (hexdump_cells 0 2 bs row) [69 := CHR 0x0D, 70 := CHR 0x0A])"

fun hexdump_rows :: "char \<Rightarrow> byte list \<Rightarrow> char list list" where
  "hexdump_rows prefix bs =
     (if bs = [] then [] else hexdump_row prefix (take 16 bs) # hexdump_rows prefix (drop 16 bs))"

declare hexdump_rows.simps [simp del]

definition core_log_hexdump :: "bool \<Rightarrow> 32 word \<Rightarrow> char \<Rightarrow> byte list \<Rightarrow> string list" where
  "core_log_hexdump handler code prefix buffer =
     (if \<not> handler \<or> buffer = [] then []
      else [line_end] @ map (\<lambda>row. code_text code @ row) (hexdump_rows prefix buffer) @ [line_end])"

section \<open>A line is the cut text\<close>

text \<open>The text a format and its arguments stand for, without any bound.\<close>

fun log_expand :: "log_arg option list \<Rightarrow> nat \<Rightarrow> log_arg option \<Rightarrow> bool \<Rightarrow> string \<Rightarrow> string outcome" where
  "log_expand datas arg_idx arg arg_flag [] = Ok []"
| "log_expand datas arg_idx arg arg_flag (c # fmt) =
     (case next_arg datas arg_idx arg arg_flag of (idx1, arg1) \<Rightarrow>
        obind (log_item datas idx1 arg1 c fmt) (\<lambda>item.
          case item of
            None \<Rightarrow> if c = NUL then Undef else obind (log_expand datas idx1 arg1 False fmt) (\<lambda>r. Ok (c # r))
          | Some (s, len, idx2, used) \<Rightarrow>
              if length s < len \<or> \<not> no_nul (take len s) then Undef
              else obind (log_expand datas idx2 arg1 True (drop used fmt)) (\<lambda>r. Ok (take len s @ r))))"

definition log_line :: "string \<Rightarrow> string" where
  "log_line t = (if length t < CORE_LOG_MAXLEN then t else take CORE_LOG_MAXLEN t @ line_end)"

definition line_buffer :: "string \<Rightarrow> char list" where
  "line_buffer t = t @ replicate (CORE_LOG_MAXLEN - length t) NUL @ line_end @ [NUL]"

lemma line_end_no_nul [simp]: "no_nul line_end"
  by (simp add: line_end_def no_nul_def)

lemma length_line_end [simp]: "length line_end = 2"
  by (simp add: line_end_def)

lemma empty_line_buffer: "empty_line = line_buffer []"
  by (simp add: empty_line_def line_buffer_def)

lemma cstr_line_buffer:
  assumes "no_nul t" and "length t \<le> CORE_LOG_MAXLEN"
  shows "cstr (line_buffer t) = log_line t"
proof (cases "length t = CORE_LOG_MAXLEN")
  case True
  then have "line_buffer t = (t @ line_end) @ NUL # []" by (simp add: line_buffer_def)
  moreover have "cstr ((t @ line_end) @ NUL # []) = t @ line_end" using assms(1) by (intro cstr_append_nul) simp
  ultimately show ?thesis using True by (simp add: log_line_def)
next
  case False
  then obtain k where "CORE_LOG_MAXLEN - length t = Suc k" using assms(2) by (cases "CORE_LOG_MAXLEN - length t") auto
  then have "line_buffer t = t @ NUL # (replicate k NUL @ line_end @ [NUL])" by (simp add: line_buffer_def)
  then show ?thesis using assms False by (simp add: log_line_def cstr_append_nul)
qed

lemma length_line_buffer: "length t \<le> CORE_LOG_MAXLEN \<Longrightarrow> length (line_buffer t) = CORE_LOG_MAXLEN + 3"
  by (simp add: line_buffer_def)

lemma append_text_line:
  assumes "no_nul t" and "length t < CORE_LOG_MAXLEN" and "length t + length s \<le> CORE_LOG_MAXLEN"
  shows "append_text s (line_buffer t) = Ok (line_buffer (t @ s))"
proof -
  have "drop (length s) (replicate (CORE_LOG_MAXLEN - length t) NUL @ line_end @ [NUL])
      = replicate (CORE_LOG_MAXLEN - (length t + length s)) NUL @ line_end @ [NUL]"
    using assms(3) by simp
  then have "memcpy_at (line_buffer t) (length t) s = line_buffer (t @ s)"
    using assms(3) by (simp add: memcpy_at_def line_buffer_def)
  moreover have "cstr (line_buffer t) = t" using assms(1,2) by (simp add: cstr_line_buffer log_line_def)
  moreover have "length (line_buffer t) = 163" using assms(2) by (simp add: line_buffer_def)
  ultimately show ?thesis using assms(3) by (simp add: append_text_def)
qed

lemma append_cut_line:
  assumes "no_nul t" and "length t < CORE_LOG_MAXLEN" and "len \<le> length s"
  shows "append_cut s len (line_buffer t) =
    Ok (min len (CORE_LOG_MAXLEN - length t), line_buffer (take CORE_LOG_MAXLEN (t @ take len s)))"
proof -
  have held: "cstr (line_buffer t) = t" using assms(1,2) by (simp add: cstr_line_buffer log_line_def)
  show ?thesis
  proof (cases "length t + len > CORE_LOG_MAXLEN")
    case True
    then have "append_text (take (CORE_LOG_MAXLEN - length t) s) (line_buffer t)
        = Ok (line_buffer (t @ take (CORE_LOG_MAXLEN - length t) s))"
      using assms by (intro append_text_line) auto
    moreover have "min len (CORE_LOG_MAXLEN - length t) = CORE_LOG_MAXLEN - length t"
        "min (CORE_LOG_MAXLEN - length t) len = CORE_LOG_MAXLEN - length t"
      using True by linarith+
    moreover from this(2) have "take CORE_LOG_MAXLEN (t @ take len s) = t @ take (CORE_LOG_MAXLEN - length t) s"
      using assms(2) by simp
    moreover have "\<not> length s < CORE_LOG_MAXLEN - length t" using True assms(3) by linarith
    ultimately show ?thesis using True assms(2) unfolding append_cut_def held Let_def by simp
  next
    case False
    then have "append_text (take len s) (line_buffer t) = Ok (line_buffer (t @ take len s))"
      using assms by (intro append_text_line) auto
    then show ?thesis using False assms by (simp add: append_cut_def held)
  qed
qed

lemma line_buffer_char:
  assumes "length t < CORE_LOG_MAXLEN"
  shows "(line_buffer t) [length t := c] = line_buffer (t @ [c])"
proof -
  obtain k where "CORE_LOG_MAXLEN - length t = Suc k" using assms by (cases "CORE_LOG_MAXLEN - length t") auto
  then have "CORE_LOG_MAXLEN - length (t @ [c]) = k" "line_buffer t = t @ NUL # (replicate k NUL @ line_end @ [NUL])"
    by (simp_all add: line_buffer_def)
  then show ?thesis by (simp add: line_buffer_def)
qed

lemma log_line_take: "log_line (take CORE_LOG_MAXLEN t) = log_line t"
  by (simp add: log_line_def min_def)

lemma log_expand_no_nul: "log_expand datas arg_idx arg flag fmt = Ok r \<Longrightarrow> no_nul r"
proof (induction datas arg_idx arg flag fmt arbitrary: r rule: log_expand.induct)
  case (2 datas arg_idx arg flag c fmt)
  obtain idx1 arg1 where arg: "next_arg datas arg_idx arg flag = (idx1, arg1)" by (cases "next_arg datas arg_idx arg flag")
  obtain item where item: "log_item datas idx1 arg1 c fmt = Ok item"
    using "2.prems" by (cases "log_item datas idx1 arg1 c fmt") (auto simp: arg)
  show ?case
  proof (cases item)
    case None
    then obtain r1 where "c \<noteq> NUL" "log_expand datas idx1 arg1 False fmt = Ok r1" "r = c # r1"
      using "2.prems" by (cases "log_expand datas idx1 arg1 False fmt") (auto simp: arg item split: if_splits)
    then show ?thesis using "2.IH"(1) [OF arg [symmetric]] by simp
  next
    case (Some piece)
    then obtain s len idx2 used where piece: "item = Some (s, len, idx2, used)" by (cases piece) auto
    obtain r1 where r1: "\<not> (length s < len \<or> \<not> no_nul (take len s))" "log_expand datas idx2 arg1 True (drop used fmt) = Ok r1"
        "r = take len s @ r1"
      using "2.prems" by (cases "log_expand datas idx2 arg1 True (drop used fmt)") (auto simp: arg item piece split: if_splits)
    then show ?thesis using "2.IH"(2) [OF arg [symmetric] r1(1,2)] by simp
  qed
qed simp

text \<open>The loop from a line that holds \<open>t\<close>: it holds the expansion in the end, cut.\<close>

lemma take_cut: "take n (take n xs @ ys) = take n (xs @ ys)"
  by (cases "n \<le> length xs") simp_all

lemma log_loop_full:
  "CORE_LOG_MAXLEN \<le> n \<Longrightarrow> log_loop datas arg_idx arg flag n buffer fmt = Ok buffer"
  by (cases fmt) simp_all

lemma log_loop_line:
  assumes "log_expand datas arg_idx arg flag fmt = Ok r" and "no_nul t" and "length t \<le> CORE_LOG_MAXLEN"
  shows "log_loop datas arg_idx arg flag (length t) (line_buffer t) fmt = Ok (line_buffer (take CORE_LOG_MAXLEN (t @ r)))"
  using assms
proof (induction datas arg_idx arg flag fmt arbitrary: t r rule: log_expand.induct)
  case (1 datas arg_idx arg flag)
  then show ?case by simp
next
  case (2 datas arg_idx arg flag c fmt)
  obtain idx1 arg1 where arg: "next_arg datas arg_idx arg flag = (idx1, arg1)" by (cases "next_arg datas arg_idx arg flag")
  obtain item where item: "log_item datas idx1 arg1 c fmt = Ok item"
    using "2.prems"(1) by (cases "log_item datas idx1 arg1 c fmt") (auto simp: arg)
  show ?case
  proof (cases "length t = CORE_LOG_MAXLEN")
    case True
    then show ?thesis using log_loop_full [of "length t"] by simp
  next
    case room: False
    then have less: "length t < CORE_LOG_MAXLEN" using "2.prems"(3) by simp
    show ?thesis
    proof (cases item)
      case None
      obtain r1 where r1: "c \<noteq> NUL" "log_expand datas idx1 arg1 False fmt = Ok r1" "r = c # r1"
        using "2.prems"(1) by (cases "log_expand datas idx1 arg1 False fmt") (auto simp: arg item None split: if_splits)
      have "log_loop datas idx1 arg1 False (length (t @ [c])) (line_buffer (t @ [c])) fmt
          = Ok (line_buffer (take CORE_LOG_MAXLEN ((t @ [c]) @ r1)))"
        by (rule "2.IH"(1) [OF arg [symmetric] r1(1,2)]) (use r1(1) "2.prems"(2) less in simp_all)
      then show ?thesis using less by (simp add: arg item None line_buffer_char r1(3) length_line_buffer)
    next
      case (Some piece)
      then obtain s len idx2 used where piece: "item = Some (s, len, idx2, used)" by (cases piece) auto
      obtain r1 where r1: "len \<le> length s" "no_nul (take len s)" "log_expand datas idx2 arg1 True (drop used fmt) = Ok r1"
          "r = take len s @ r1"
        using "2.prems"(1) by (cases "log_expand datas idx2 arg1 True (drop used fmt)") (auto simp: arg item piece split: if_splits)
      let ?t = "take CORE_LOG_MAXLEN (t @ take len s)"
      have fits: "\<not> (length s < len \<or> \<not> no_nul (take len s))" using r1(1,2) by simp
      have "log_loop datas idx2 arg1 True (length ?t) (line_buffer ?t) (drop used fmt)
          = Ok (line_buffer (take CORE_LOG_MAXLEN (?t @ r1)))"
      proof (rule "2.IH"(2) [OF arg [symmetric] fits r1(3)])
        show "no_nul ?t" using "2.prems"(2) r1(2) by (intro no_nul_take) simp
      qed simp
      moreover have "take CORE_LOG_MAXLEN (?t @ r1) = take CORE_LOG_MAXLEN (t @ r)"
        using take_cut [of CORE_LOG_MAXLEN "t @ take len s" r1] by (simp only: r1(4) append_assoc)
      moreover have "length ?t = length t + min len (CORE_LOG_MAXLEN - length t)"
        using r1(1) less by (simp add: min_def)
      ultimately show ?thesis
        using append_cut_line [OF "2.prems"(2) less r1(1)] less by (simp add: arg item piece)
    qed
  qed
qed

text \<open>The front of a line without the date, which nothing switches on.\<close>

definition log_prefix :: "u64 option \<Rightarrow> 32 word \<Rightarrow> log_state \<Rightarrow> string" where
  "log_prefix now code g =
     (case now of
        None \<Rightarrow> []
      | Some t \<Rightarrow>
          (if lg_log_stamp g = 1 then ''['' @ stamp_text (fst (core_log_get_timestamp t g)) @ '']'' else []) @ code_text code)"

definition log_after :: "u64 option \<Rightarrow> log_state \<Rightarrow> log_state" where
  "log_after now g = (case now of None \<Rightarrow> g | Some t \<Rightarrow> snd (core_log_get_timestamp t g))"

lemma hex_upper_no_nul: "n < 16 \<Longrightarrow> hex_upper n \<noteq> NUL"
proof -
  have "\<forall>n \<in> set [0..<16]. hex_upper n \<noteq> NUL" by (simp add: upt_rec hex_upper_def)
  then show "n < 16 \<Longrightarrow> hex_upper n \<noteq> NUL" by simp
qed

lemma no_nul_hex2str: "no_nul (core_hex2str bs False)"
proof -
  have "unat (x AND 0xF) < 16" for x :: byte
    using word_and_le1 [of x "0xF"] by (simp add: word_le_nat_alt)
  then have "no_nul (hex2str_loop hex_upper bs)" by (induction bs) (simp_all add: hex_upper_no_nul)
  then show ?thesis by (simp add: core_hex2str_def)
qed

lemma code_text_props: "no_nul (code_text code)" "length (code_text code) = 10"
  by (simp_all add: code_text_def Let_def no_nul_hex2str length_core_hex2str)

lemma stamp_text_props: "no_nul (stamp_text t)" "length (stamp_text t) \<le> 21"
  using length_core_uint642str [of t]
  by (auto simp: stamp_text_def Let_def core_uint642str_dec no_nul_take no_nul_drop)

lemma clock_flags [simp]:
  "lg_log_date (snd (core_log_get_timestamp t g)) = lg_log_date g"
  "lg_log_stamp (snd (core_log_get_timestamp t g)) = lg_log_stamp g"
  by (simp_all add: core_log_get_timestamp_def Let_def)

lemma log_prefix_props: "no_nul (log_prefix now code g)" "length (log_prefix now code g) \<le> 33"
  using stamp_text_props code_text_props
  by (auto simp: log_prefix_def le_diff_conv split: option.splits intro: le_trans [OF add_le_mono1])

lemma append_prefix_line:
  assumes "lg_log_date g \<noteq> 1"
  shows "core_log_append_prefix now memory code g empty_line = Ok (log_after now g, line_buffer (log_prefix now code g))"
proof (cases now)
  case None
  then show ?thesis by (simp add: core_log_append_prefix_def log_after_def log_prefix_def empty_line_buffer)
next
  case (Some t)
  obtain timenow g1 where clock: "core_log_get_timestamp t g = (timenow, g1)" by (cases "core_log_get_timestamp t g")
  have flags: "lg_log_date g1 \<noteq> 1" "lg_log_stamp g1 = lg_log_stamp g"
    using assms clock_flags [of t g] by (simp_all add: clock)
  note stamp = stamp_text_props [of timenow]
  have pieces: "append_text ''['' (line_buffer []) = Ok (line_buffer ''['')"
      "append_text (stamp_text timenow) (line_buffer ''['') = Ok (line_buffer (''['' @ stamp_text timenow))"
      "append_text '']'' (line_buffer (''['' @ stamp_text timenow)) = Ok (line_buffer (''['' @ stamp_text timenow @ '']''))"
      "append_text (code_text code) (line_buffer (''['' @ stamp_text timenow @ '']''))
        = Ok (line_buffer (''['' @ stamp_text timenow @ '']'' @ code_text code))"
      "append_text (code_text code) (line_buffer []) = Ok (line_buffer (code_text code))"
    using append_text_line [of "[]" "''[''"] append_text_line [of "''[''" "stamp_text timenow"]
      append_text_line [of "''['' @ stamp_text timenow" "'']''"]
      append_text_line [of "''['' @ stamp_text timenow @ '']''" "code_text code"]
      append_text_line [of "[]" "code_text code"] stamp code_text_props [of code] by simp_all
  show ?thesis
    by (cases "lg_log_stamp g = 1")
      (use pieces flags in \<open>simp_all add: core_log_append_prefix_def Some clock log_after_def log_prefix_def
        empty_line_buffer\<close>)
qed

text \<open>
  C35. A log line is the text, cut. Whatever the format and its arguments, the clock and the code: if
  the arguments are of the kind the format asks for, then no byte is written outside the buffer of 163
  bytes, and the callback gets the front followed by the expanded format, whole if it is shorter than 160
  characters, else its first 160 characters and the line end.
\<close>

theorem log_line_cut:
  assumes "lg_log_date g \<noteq> 1" and "log_expand datas 0 (datas ! 0) False fmt = Ok r"
  shows "core_log_args True now memory code fmt datas g =
    Ok (Some (log_line (log_prefix now code g @ r)), log_after now g)"
proof -
  let ?t = "log_prefix now code g"
  have held: "cstr (line_buffer ?t) = ?t"
    using log_prefix_props [of now code g] by (simp add: cstr_line_buffer log_line_def)
  have loop: "log_loop datas 0 (datas ! 0) False (length ?t) (line_buffer ?t) fmt
      = Ok (line_buffer (take CORE_LOG_MAXLEN (?t @ r)))"
    using log_loop_line [OF assms(2)] log_prefix_props [of now code g] by simp
  have "no_nul (take CORE_LOG_MAXLEN (?t @ r))"
    using log_prefix_props(1) log_expand_no_nul [OF assms(2)] by (intro no_nul_take) simp
  then show ?thesis
    using loop append_prefix_line [OF assms(1), of now memory code] cstr_line_buffer [of "take CORE_LOG_MAXLEN (?t @ r)"]
    by (simp add: core_log_args_def held log_line_take del: take_append)
qed

theorem log_line_cut_witness:
  "core_log_args True (Some 1700000000123) True (- 0x0308) ''sub: %.*s, %d'' [Some (Log_num 2), Some (Log_text ''abc''), Some (Log_num 7)] g_core_log
    = Ok (Some (log_line (log_prefix (Some 1700000000123) (- 0x0308) g_core_log @ ''sub: ab, 7'')),
        log_after (Some 1700000000123) g_core_log)"
proof (rule log_line_cut)
  have "core_uint2str 7 = ''7''"
    by code_simp
  then show "log_expand [Some (Log_num 2), Some (Log_text ''abc''), Some (Log_num 7)] 0
      ([Some (Log_num 2), Some (Log_text ''abc''), Some (Log_num 7)] ! 0) False ''sub: %.*s, %d'' = Ok ''sub: ab, 7''"
    by (simp add: log_item_def next_arg_def)
qed (simp add: g_core_log_def)

lemma core_log_line:
  assumes "lg_log_date g \<noteq> 1" and "no_nul data"
  shows "core_log True now memory code data g = Ok (Some (log_line (log_prefix now code g @ data)), log_after now g)"
proof -
  let ?t = "log_prefix now code g"
  have cut: "append_cut data (length data) (line_buffer ?t) =
      Ok (min (length data) (CORE_LOG_MAXLEN - length ?t), line_buffer (take CORE_LOG_MAXLEN (?t @ data)))"
    using append_cut_line [of ?t "length data" data] log_prefix_props [of now code g] by simp
  have "cstr (line_buffer (take CORE_LOG_MAXLEN (?t @ data))) = log_line (?t @ data)"
    using cstr_line_buffer [of "take CORE_LOG_MAXLEN (?t @ data)"] log_prefix_props(1) assms(2)
    by (simp add: log_line_take no_nul_take del: take_append)
  then show ?thesis
    using append_prefix_line [OF assms(1), of now memory code] cut by (simp add: core_log_def del: take_append)
qed

section \<open>The clock shows the network time\<close>

text \<open>The readings of the log, for readings of the system clock.\<close>

fun log_readings :: "u64 list \<Rightarrow> log_state \<Rightarrow> u64 list" where
  "log_readings [] g = []"
| "log_readings (now # ns) g = (case core_log_get_timestamp now g of (t, g1) \<Rightarrow> t # log_readings ns g1)"

definition network_time :: "u64 \<Rightarrow> u64 \<Rightarrow> u64 \<Rightarrow> u64" where
  "network_time set_at timestamp now = (if timestamp \<noteq> 0 \<and> now < timestamp then timestamp + (now - set_at) else now)"

lemma log_readings_from:
  assumes "sorted (lg_time_start g # ns)" and "lg_time_interval g = lg_time_start g - set_at"
  shows "log_readings ns g = map (network_time set_at (lg_timestamp g)) ns"
  using assms
proof (induction ns arbitrary: g)
  case (Cons now ns)
  show ?case
  proof (cases "lg_timestamp g \<noteq> 0 \<and> now < lg_timestamp g")
    case True
    then show ?thesis
      using Cons.prems Cons.IH [of "g \<lparr> lg_time_interval := now - set_at, lg_time_start := now \<rparr>"]
      by (simp add: core_log_get_timestamp_def network_time_def)
  next
    case False
    then show ?thesis using Cons.prems Cons.IH [of g]
      by (auto simp: core_log_get_timestamp_def network_time_def)
  qed
qed simp

lemma log_clock:
  assumes "sorted (set_at # ns)"
  shows "log_readings ns (core_log_set_timestamp set_at timestamp g) = map (network_time set_at timestamp) ns"
  using log_readings_from [of "core_log_set_timestamp set_at timestamp g" ns set_at] assms
  by (simp add: core_log_set_timestamp_def)

text \<open>When the clock of the system reaches the time that was set, the log goes back in time.\<close>

lemma log_clock_goes_back: "log_readings [99, 100] (core_log_set_timestamp 90 100 g) = [109, 100]"
  using log_clock [of 90 "[99, 100]" 100 g] by (simp add: network_time_def)

section \<open>The dump can be read back\<close>

definition dump_column :: "nat \<Rightarrow> nat" where
  "dump_column i = 2 + 3 * i + (if 8 \<le> i then 1 else 0)"

lemma take_drop_nth: "Suc p < length xs \<Longrightarrow> take 2 (drop p xs) = [xs ! p, xs ! Suc p]"
  by (simp add: take_Suc_conv_app_nth numeral_2_eq_2 Cons_nth_drop_Suc [symmetric])

lemma hex_pair: "core_hex2str [b] False = [hex_upper (unat (drop_bit 4 b AND 0xF)), hex_upper (unat (b AND 0xF))]"
  by (simp add: core_hex2str_def)

lemma nth_memcpy_at:
  assumes "off + length data \<le> length buf" and "p < length buf"
  shows "memcpy_at buf off data ! p = (if off \<le> p \<and> p < off + length data then data ! (p - off) else buf ! p)"
  using assms by (auto simp: memcpy_at_def nth_append)

lemma hexdump_cells_kept:
  assumes "length row = 71" and "i + length bs \<le> 16" and "ch_idx = 2 + 3 * i + (if 8 < i then 1 else 0)"
    and "p < dump_column i \<or> 50 < p \<and> p < 53 + i \<or> 68 < p" and "p < 71"
  shows "length (hexdump_cells i ch_idx bs row) = 71 \<and> hexdump_cells i ch_idx bs row ! p = row ! p"
  using assms
proof (induction bs arbitrary: i ch_idx row)
  case (Cons b bs)
  define ch where "ch = (if i = 8 then Suc ch_idx else ch_idx)"
  define row2 where "row2 = (memcpy_at row ch (core_hex2str [b] False @ '' '')) [53 + i := shown_char b]"
  have ch: "ch = dump_column i" using Cons.prems(3) by (auto simp: ch_def dump_column_def)
  have fits: "dump_column i + 3 \<le> 51" using Cons.prems(2) by (auto simp: dump_column_def)
  have len: "length row2 = 71" using Cons.prems(1) fits by (simp add: row2_def ch hex_pair)
  have same: "row2 ! p = row ! p"
    using Cons.prems(1,2,4,5) fits by (auto simp: row2_def ch nth_memcpy_at hex_pair nth_list_update)
  have far: "p < dump_column (Suc i) \<or> 50 < p \<and> p < 53 + Suc i \<or> 68 < p"
    using Cons.prems(4) by (auto simp: dump_column_def split: if_splits)
  have "length (hexdump_cells (Suc i) (ch + 3) bs row2) = 71 \<and> hexdump_cells (Suc i) (ch + 3) bs row2 ! p = row2 ! p"
    by (rule Cons.IH [OF len _ _ far Cons.prems(5)]) (use Cons.prems(2) in \<open>auto simp: ch dump_column_def\<close>)
  then show ?case by (simp add: ch_def [symmetric] row2_def [symmetric] same Let_def)
qed simp

lemma hexdump_cells_show:
  assumes "length row = 71" and "i + length bs \<le> 16" and "ch_idx = 2 + 3 * i + (if 8 < i then 1 else 0)" and "j < length bs"
  shows "take 2 (drop (dump_column (i + j)) (hexdump_cells i ch_idx bs row)) = core_hex2str [bs ! j] False
    \<and> hexdump_cells i ch_idx bs row ! (53 + i + j) = shown_char (bs ! j)"
  using assms
proof (induction bs arbitrary: i ch_idx row j)
  case (Cons b bs)
  define ch where "ch = (if i = 8 then Suc ch_idx else ch_idx)"
  define row2 where "row2 = (memcpy_at row ch (core_hex2str [b] False @ '' '')) [53 + i := shown_char b]"
  have ch: "ch = dump_column i" using Cons.prems(3) by (auto simp: ch_def dump_column_def)
  have fits: "dump_column i + 3 \<le> 51" using Cons.prems(2) by (auto simp: dump_column_def)
  have len: "length row2 = 71" using Cons.prems(1) fits by (simp add: row2_def ch hex_pair)
  have next_ch: "ch + 3 = 2 + 3 * Suc i + (if 8 < Suc i then 1 else 0)" by (auto simp: ch dump_column_def)
  have rest: "hexdump_cells i ch_idx (b # bs) row = hexdump_cells (Suc i) (ch + 3) bs row2"
    by (simp add: ch_def [symmetric] row2_def [symmetric] Let_def)
  show ?case
  proof (cases j)
    case 0
    have kept: "length (hexdump_cells (Suc i) (ch + 3) bs row2) = 71"
        "hexdump_cells (Suc i) (ch + 3) bs row2 ! p = row2 ! p" if "p \<in> {dump_column i, Suc (dump_column i), 53 + i}" for p
      using hexdump_cells_kept [OF len _ next_ch, of bs p] Cons.prems(2) that by (auto simp: dump_column_def)
    have "row2 ! dump_column i = core_hex2str [b] False ! 0" "row2 ! Suc (dump_column i) = core_hex2str [b] False ! 1"
        "row2 ! (53 + i) = shown_char b"
      using Cons.prems(1,2) fits by (auto simp: row2_def ch nth_memcpy_at hex_pair nth_list_update)
    moreover have "length (hexdump_cells (Suc i) (ch + 3) bs row2) = 71" using kept(1) [of "53 + i"] by simp
    ultimately show ?thesis using kept(2) fits
      by (simp add: rest 0 take_drop_nth hex_pair del: hexdump_cells.simps)
  next
    case (Suc k)
    have "take 2 (drop (dump_column (Suc i + k)) (hexdump_cells (Suc i) (ch + 3) bs row2)) = core_hex2str [bs ! k] False
      \<and> hexdump_cells (Suc i) (ch + 3) bs row2 ! (53 + Suc i + k) = shown_char (bs ! k)"
      by (rule Cons.IH [OF len _ next_ch]) (use Cons.prems(2,4) Suc in simp_all)
    then show ?thesis by (simp add: rest Suc add.assoc del: hexdump_cells.simps)
  qed
qed simp

lemma hexdump_row_show:
  assumes "length bs \<le> 16" and "j < length bs"
  shows "length (hexdump_row prefix bs) = 71"
    and "take 2 (drop (dump_column j) (hexdump_row prefix bs)) = core_hex2str [bs ! j] False"
    and "hexdump_row prefix bs ! (53 + j) = shown_char (bs ! j)"
proof -
  let ?row = "(replicate 71 CHR '' '') [0 := prefix, 51 := CHR ''|'', 52 := CHR '' '']"
  let ?cells = "hexdump_cells 0 2 bs ?row"
  have len: "length ?cells = 71" using hexdump_cells_kept [of ?row 0 bs 2 70] assms(1) by simp
  have shown: "take 2 (drop (dump_column j) ?cells) = core_hex2str [bs ! j] False" "?cells ! (53 + j) = shown_char (bs ! j)"
    using hexdump_cells_show [of ?row 0 bs 2 j] assms by simp_all
  show "length (hexdump_row prefix bs) = 71" by (simp add: hexdump_row_def len)
  have "Suc (dump_column j) < 69" using assms by (auto simp: dump_column_def)
  then show "take 2 (drop (dump_column j) (hexdump_row prefix bs)) = core_hex2str [bs ! j] False"
    using shown(1) len by (simp add: hexdump_row_def take_drop_nth)
  show "hexdump_row prefix bs ! (53 + j) = shown_char (bs ! j)"
    using shown(2) assms by (simp add: hexdump_row_def)
qed

lemma hexdump_rows_nth:
  assumes "i < length bs"
  shows "i div 16 < length (hexdump_rows prefix bs)
    \<and> hexdump_rows prefix bs ! (i div 16) = hexdump_row prefix (take 16 (drop (16 * (i div 16)) bs))"
  using assms
proof (induction prefix bs arbitrary: i rule: hexdump_rows.induct)
  case (1 prefix bs)
  show ?case
  proof (cases "i < 16")
    case True
    then show ?thesis using "1.prems" by (subst (1 2) hexdump_rows.simps) auto
  next
    case False
    then have i: "i div 16 = Suc ((i - 16) div 16)" "i - 16 < length (drop 16 bs)"
      using "1.prems" by (simp_all add: div_if)
    have "bs \<noteq> []" using "1.prems" by auto
    then show ?thesis using "1.IH" [OF _ i(2)] by (subst (1 2) hexdump_rows.simps) (simp add: i(1) add.commute)
  qed
qed

lemma length_hexdump_rows: "length (hexdump_rows prefix bs) = (length bs + 15) div 16"
proof (induction prefix bs rule: hexdump_rows.induct)
  case (1 prefix bs)
  show ?case
  proof (cases "bs = []")
    case False
    then have "(length bs + 15) div 16 = Suc ((length bs - 1) div 16)" by (cases bs) (simp_all add: div_if)
    moreover have "(length (drop 16 bs) + 15) div 16 = (length bs - 1) div 16"
      by (cases "length bs \<le> 16") (auto simp: div_if)
    ultimately show ?thesis using "1.IH" False by (subst hexdump_rows.simps) simp
  qed (simp add: hexdump_rows.simps)
qed

text \<open>
  The dump of a packet shows the packet. There is one line for every 16 bytes, of 81 characters, within
  the buffer of 97; line \<open>i div 16\<close> has the two digits of byte \<open>i\<close> in its column,
  and they decode to it; behind the bar stands the character of the byte, or a point.
\<close>

theorem hexdump_reads_back:
  assumes "i < length buffer"
  shows "\<exists>lines. core_log_hexdump True code prefix buffer = line_end # lines @ [line_end]
    \<and> length lines = (length buffer + 15) div 16 \<and> i div 16 < length lines \<and> length (lines ! (i div 16)) = 81
    \<and> core_str2hex (take 2 (drop (10 + dump_column (i mod 16)) (lines ! (i div 16)))) [0] = Ok [buffer ! i]
    \<and> lines ! (i div 16) ! (63 + i mod 16) = shown_char (buffer ! i)"
proof -
  let ?rows = "hexdump_rows prefix buffer"
  let ?bs = "take 16 (drop (16 * (i div 16)) buffer)"
  have j: "i mod 16 < length ?bs" "?bs ! (i mod 16) = buffer ! i" "length ?bs \<le> 16"
    using assms by (auto simp: less_diff_conv)
  note row = hexdump_rows_nth [OF assms, of prefix]
  note shown = hexdump_row_show [OF j(3,1), of prefix, unfolded j(2)]
  have line: "map (\<lambda>row. code_text code @ row) ?rows ! (i div 16) = code_text code @ hexdump_row prefix ?bs"
    using row by simp
  have two: "core_str2hex (core_hex2str [buffer ! i] False) [0] = Ok [buffer ! i]"
    using str2hex_loop_hex2str [of hex_upper "[buffer ! i]" "[0]"] by (simp add: core_str2hex_def core_hex2str_def)
  show ?thesis
    by (rule exI [of _ "map (\<lambda>row. code_text code @ row) ?rows"])
      (use assms row shown two in \<open>auto simp: core_log_hexdump_def line length_hexdump_rows code_text_props nth_append\<close>)
qed

theorem hexdump_reads_back_witness:
  "\<exists>lines. core_log_hexdump True 0 CHR ''>'' (replicate 20 0x41) = line_end # lines @ [line_end]
    \<and> length lines = (length (replicate 20 (0x41 :: byte)) + 15) div 16 \<and> 17 div 16 < length lines
    \<and> length (lines ! (17 div 16)) = 81
    \<and> core_str2hex (take 2 (drop (10 + dump_column (17 mod 16)) (lines ! (17 div 16)))) [0] = Ok [replicate 20 0x41 ! 17]
    \<and> lines ! (17 div 16) ! (63 + 17 mod 16) = shown_char (replicate 20 0x41 ! 17)"
  by (rule hexdump_reads_back) simp

end
