(* ===== verification/Spec2Isabelle.thy ===== *)
theory Spec2Isabelle
  imports Prelude Core_String Core_Sha256 Core_Auth Core_Global Core_List Mqtt_Codec Mqtt_State
    Mqtt_Client Mqtt_Locks Mqtt_Lifecycle Mqtt_Moves Mqtt_Protocol Mqtt_Reconnect Mqtt_Delivery
    Json_Utils Json_Text String_Builder Shell_Utils Shell_System Ide_Connection Deploy_Manager Start_Manager
    Device_Config Ide_Publish Device_Shadow Gateway_Manager Gateway_Topology Gateway_Services Ide_Library
    Client_Lifecycle Cloud_Gateway Iec_Runtime Ide_App
    App_Lifecycle Ide_Hosts Posix_Port Net_Adapter Client_Network Core_Log
begin

text \<open>
  A verification library for the Aliyun IoT client and its IDE application.

  \<^bold>\<open>The program.\<close> The repository has two layers. The SDK (\<^verbatim>\<open>core/\<close>) is
  an MQTT 3.1.1 client in one file, \<^verbatim>\<open>core/aiot_mqtt_api.c\<close>, on utility modules
  (\<^verbatim>\<open>core/utils/\<close>: text conversions, SHA-256 and HMAC, the authentication texts, the
  shared global state, intrusive lists). The IDE application (\<^verbatim>\<open>src/\<close>) runs on a
  device, is driven by messages of the cloud, and lets one IDE at a time deploy and start projects.
  The SDK calls a table of system functions, which the adapter (\<^verbatim>\<open>core/sysdep/\<close>) puts over
  those of the port (\<^verbatim>\<open>portfiles/\<close>); the application calls the SDK, the system and the
  shell. It exists as one process (\<^verbatim>\<open>iot_ide_app.c\<close>) and as two libraries
  (\<^verbatim>\<open>libiot_ide.c\<close>, \<^verbatim>\<open>libiot_ide_gateway.c\<close>) with a host
  (\<^verbatim>\<open>iec_runtime.c\<close>).

  \<^bold>\<open>The theories, SDK.\<close>
  \<^item> Prelude: machine types, C strings and buffers, the C library functions the sources use,
    the status codes. A C function that fails gives \<open>Err\<close> of its code, one that leaves
    defined behaviour gives \<open>Undef\<close>.
  \<^item> Core_String, Core_Sha256, Core_Auth, Core_Global, Core_List: the utility modules, one theory
    each. SHA-256 is proved equal to FIPS 180-4 for every way to cut a message; the list operations,
    on a map of pointers, refine sequences.
  \<^item> Mqtt_Codec: the packets the client builds and takes apart, the remaining length, the topic
    filters, all pure; round trips, bounds and equivalence with MQTT 3.1.1.
  \<^item> Mqtt_State: the handle \<^verbatim>\<open>core_mqtt_handle_t\<close> and the world around it: an
    oracle \<open>platform\<close> whose functions answer the \<open>n\<close>-th call of the allocator, the
    clock, the network and so on, the trace of effects (events, received messages, bytes sent), the
    mutexes held and the number of live allocations. Operations are in the state monad of the library.
  \<^item> Mqtt_Client: every operation of \<^verbatim>\<open>aiot_mqtt_api.c\<close>, in the order of the file.
  \<^item> Mqtt_Locks: a calculus for what an operation does with the mutexes and the count of running
    calls; no call returns with a mutex held, the nesting order has no cycle, the count is balanced.
  \<^item> Mqtt_Moves and Mqtt_Protocol: the abstract client, a step relation on what a user can
    observe, the proof that every call is a sequence of its steps (the locales \<open>step_order\<close> and
    \<open>client_moves\<close> state once what an operation may do; they are interpreted on the
    refinement relation and on the packet ids), and the invariants of the abstract client.
  \<^item> Mqtt_Lifecycle, Mqtt_Reconnect, Mqtt_Delivery: destroying a handle, packet ids and retry
    interval, delivery of publications, the cache of QoS 1 publications, error paths.
  \<^item> Posix_Port: sockets, the timed loops, random bytes, mutexes of \<^verbatim>\<open>posix_port.c\<close>; which
    descriptors stay open, what a loop has moved when it ends, that it ends.
  \<^item> Net_Adapter: \<^verbatim>\<open>core_adapter.c\<close>, the blocks of a connection, the calls of a TLS session,
    data over it. The locale \<open>transport\<close> says what a layer promises about data,
    \<open>network_port\<close> that the adapter over a port is such a layer again; it is interpreted on
    the port. Client_Network: the client over both; what it reads arrived, what it reports as written
    left the device. Core_Log: the log lines, cut as their text, the clock, the dump, the callbacks.

  \<^bold>\<open>The theories, IDE application.\<close>
  \<^item> Json_Utils: the scanners of \<^verbatim>\<open>json_utils.c\<close>; Json_Text: how the managers use
    them, in particular what a buffer holds after a read whose result is ignored.
  \<^item> String_Builder: the growing buffer, with cells that nobody wrote, 64-bit sizes, and the
    locale \<open>text_sink\<close> for a sequence of appends.
  \<^item> Shell_Utils: quoting, against the way a POSIX shell reads a word; the start of a command in the
    background. Shell_System: making directories, removing trees, running a command to its end or limit.
  \<^item> Ide_Connection: the exclusive connection of one IDE, a refinement of an abstract lock; the
    locale \<open>renewed_lock\<close> for an owner that renews its lock.
  \<^item> Deploy_Manager, Start_Manager, Device_Config, Device_Shadow: the managers. The worker of a
    deployment is the list of its actions on the system; requests and workers are a step relation.
  \<^item> Gateway_Manager: the sub devices behind the gateway, their topology and login, their property
    service. Gateway_Topology: how the state evolves (the locale \<open>gateway_operation\<close> states once what
    the start and every message keep), signed requests, the reported topology, who comes online.
    Gateway_Services: which messages are for a sub device, and what it is told of its properties.
  \<^item> Ide_Publish, Ide_App: sending, the services, and the dispatcher where the managers meet.
  \<^item> Client_Lifecycle: the calls with which a host starts and stops the client and its threads; the locale
    \<open>client_host\<close> says that they account for what is alive. App_Lifecycle: start and shutdown of the
    one process.
  \<^item> Ide_Library, Cloud_Gateway, Iec_Runtime: the two libraries and their host; what is created
    is released on every path, and every service call is answered once.
  \<^item> Ide_Hosts: the one process and the host with its libraries send the same messages.

  \<^bold>\<open>How state and operations correspond.\<close> A C struct is a record with its fields (mutexes
  and threads are the order of the operations, or explicit in Mqtt_State); a function keeps its name. A
  pointer that may be NULL is an \<open>option\<close> or a flag where the code tests it. Texts are lists
  of characters without the NUL; a buffer of fixed size is the result of \<open>snprintf\<close> or
  \<open>stored_text\<close>, which cut as the code does. Answers of the system are arguments: the proofs
  hold for all of them.

  \<^bold>\<open>Bounds and fuel.\<close> Only three definitions have fuel: \<open>deinit_wait\<close> (the
  clock may stand still; \<open>aiot_mqtt_deinit_returns\<close> gives the rounds that are enough once the
  clock shows the timeout), and the list iterations (one more than the length is enough, proved). The
  doubling loop of the text builder is a partial function; \<open>grow_returns\<close> shows that it
  returns up to \<open>2 ^ 63\<close> and \<open>sb_reserve_endless\<close> that it does not above. Integers
  have their C width where the code computes with them (packet ids, lengths, times, hash words); counters
  that would need \<open>2 ^ 31\<close> brackets of a JSON text are unbounded.

  \<^bold>\<open>Not modelled.\<close> Mbed TLS (third party; the adapter is proved for all its answers) and the
  certificate of the cloud; the demos; what is printed, and the calls of the log in the other components.
  The layers meet at their interfaces: Mqtt_State and the deployment take the answers of the network
  and of the shell as arguments, and the theorems about them hold for all answers, so for those of
  Net_Adapter and Shell_System; Client_Network composes the client with the adapter and the port.
  Threads run between the operations, not inside their critical sections.
\<close>

end
